(* ===== verification/Prelude.thy ===== *)
theory Prelude
  imports Main
begin

text \<open>
  Shared vocabulary of the development.

  Rust's \<^verbatim>\<open>String\<close> and \<^verbatim>\<open>&str\<close> hold Unicode text; the program compares, concatenates, trims, cuts
  and searches it, and never looks at single bytes except through \<^verbatim>\<open>str::len\<close>.  A text is therefore a
  list of code points (\<open>ustring\<close>), with the UTF-8 length as a derived function.  ASCII literals
  of the source are written \<open>lit ''...''\<close>; the few Chinese literals that the program inspects
  or emits are written as lists of code points.

  The rest of the theory holds the Rust standard-library string operations that several components
  use (\<^verbatim>\<open>trim\<close>, \<^verbatim>\<open>find\<close>, \<^verbatim>\<open>strip_prefix\<close>, \<^verbatim>\<open>split\<close>, \<^verbatim>\<open>lines\<close>), the result type, and the generic locale for
  event-driven components with an invariant.
\<close>

named_theorems text_simps \<open>evaluation of the text operations\<close>

section \<open>Texts\<close>

type_synonym uchar = nat
type_synonym ustring = "uchar list"

definition lit :: "string \<Rightarrow> ustring" where
  "lit s = map of_char s"

lemma lit_Nil [simp]: "lit [] = []"
  by (simp add: lit_def)

lemma lit_Cons: "lit (c # s) = of_char c # lit s"
  by (simp add: lit_def)

lemma lit_eq_Nil [simp]: "lit s = [] \<longleftrightarrow> s = []" "[] = lit s \<longleftrightarrow> s = []"
  by (auto simp: lit_def)

lemma of_char_nat_inj [simp]: "(of_char c :: nat) = of_char d \<longleftrightarrow> c = d"
  by (rule of_char_eq_iff)

lemma inj_of_char_nat: "inj (of_char :: char \<Rightarrow> nat)"
  by (rule injI) simp

lemma lit_inject [simp]: "lit s = lit t \<longleftrightarrow> s = t"
  by (simp add: lit_def inj_map_eq_map [OF inj_of_char_nat])

lemma lit_append [simp]: "lit s @ lit t = lit (s @ t)"
  by (simp add: lit_def)

lemma length_lit [simp]: "length (lit s) = length s"
  by (simp add: lit_def)

text \<open>A Rust \<^verbatim>\<open>Result<T, E>\<close>: \<open>Inl\<close> is the error, \<open>Inr\<close> the value.\<close>

type_synonym ('e, 'a) result = "'e + 'a"

definition bind_result :: "('e, 'a) result \<Rightarrow> ('a \<Rightarrow> ('e, 'b) result) \<Rightarrow> ('e, 'b) result" where
  "bind_result r f = (case r of Inl e \<Rightarrow> Inl e | Inr a \<Rightarrow> f a)"

lemma bind_result_simps [simp]:
  "bind_result (Inl e) f = Inl e"
  "bind_result (Inr a) f = f a"
  by (simp_all add: bind_result_def)

lemma bind_result_Inr: "bind_result r f = Inr b \<longleftrightarrow> (\<exists>a. r = Inr a \<and> f a = Inr b)"
  by (cases r) simp_all

definition ok_or :: "'e \<Rightarrow> 'a option \<Rightarrow> ('e, 'a) result" where
  "ok_or e o' = (case o' of None \<Rightarrow> Inl e | Some a \<Rightarrow> Inr a)"

lemma ok_or_simps [simp]: "ok_or e None = Inl e" "ok_or e (Some a) = Inr a"
  by (simp_all add: ok_or_def)

lemma ok_or_Inr [simp]: "ok_or e o' = Inr a \<longleftrightarrow> o' = Some a"
  by (cases o') simp_all

text \<open>\<^verbatim>\<open>Option::or\<close>.\<close>

definition or_option :: "'a option \<Rightarrow> 'a option \<Rightarrow> 'a option" where
  "or_option a b = (case a of Some x \<Rightarrow> Some x | None \<Rightarrow> b)"

lemma or_option_simps [simp]: "or_option (Some a) b = Some a" "or_option None b = b"
  by (simp_all add: or_option_def)

abbreviation unwrap_or :: "'a option \<Rightarrow> 'a \<Rightarrow> 'a" where
  "unwrap_or o' d \<equiv> (case o' of Some a \<Rightarrow> a | None \<Rightarrow> d)"

text \<open>\<^verbatim>\<open>iter().map(f).collect::<Result<Vec<_>, _>>()\<close>: the first error wins.\<close>

fun map_result :: "('a \<Rightarrow> ('e, 'b) result) \<Rightarrow> 'a list \<Rightarrow> ('e, 'b list) result" where
  "map_result f [] = Inr []"
| "map_result f (x # xs) =
     bind_result (f x) (\<lambda>y. bind_result (map_result f xs) (\<lambda>ys. Inr (y # ys)))"

lemma map_result_Inr_length: "map_result f xs = Inr ys \<Longrightarrow> length ys = length xs"
  by (induction xs arbitrary: ys) (auto simp: bind_result_Inr)

lemma map_result_Inr_nth:
  "map_result f xs = Inr ys \<Longrightarrow> i < length xs \<Longrightarrow> f (xs ! i) = Inr (ys ! i)"
proof (induction xs arbitrary: ys i)
  case (Cons x xs)
  then show ?case by (cases i) (auto simp: bind_result_Inr)
qed simp

lemma map_result_Inr_set:
  "map_result f xs = Inr ys \<Longrightarrow> y \<in> set ys \<Longrightarrow> \<exists>x \<in> set xs. f x = Inr y"
  by (induction xs arbitrary: ys) (auto simp: bind_result_Inr)

lemma map_result_InrI:
  "length xs = length ys \<Longrightarrow> (\<And>k. k < length xs \<Longrightarrow> f (xs ! k) = Inr (ys ! k)) \<Longrightarrow> map_result f xs = Inr ys"
proof (induction xs arbitrary: ys)
  case (Cons x xs)
  then obtain y ys' where ys: "ys = y # ys'" by (cases ys) auto
  have "f x = Inr y" using Cons.prems(2) [of 0] ys by simp
  moreover have "map_result f xs = Inr ys'"
  proof (rule Cons.IH)
    fix k assume "k < length xs"
    then show "f (xs ! k) = Inr (ys' ! k)" using Cons.prems(2) [of "Suc k"] ys by simp
  qed (use Cons.prems ys in simp)
  ultimately show ?case using ys by simp
qed simp

lemma map_result_cong [fundef_cong]:
  "xs = ys \<Longrightarrow> (\<And>x. x \<in> set ys \<Longrightarrow> f x = g x) \<Longrightarrow> map_result f xs = map_result g ys"
  by (induction xs arbitrary: ys) (auto simp: bind_result_def split: sum.splits)

lemma bind_result_cong [fundef_cong]:
  "r = r' \<Longrightarrow> (\<And>a. r' = Inr a \<Longrightarrow> f a = g a) \<Longrightarrow> bind_result r f = bind_result r' g"
  by (cases r') simp_all

lemma enumerate_snd: "x \<in> set (List.enumerate n xs) \<Longrightarrow> snd x \<in> set xs"
  by (cases x) (auto simp: enumerate_eq_zip dest: set_zip_rightD)

lemma foldl_keeps: "(\<And>s x. f (g s x) = f s) \<Longrightarrow> f (foldl g s xs) = f s"
  by (induction xs arbitrary: s) simp_all

section \<open>String operations of the Rust standard library\<close>

text \<open>\<^verbatim>\<open>char::is_whitespace\<close>: the Unicode property \<^verbatim>\<open>White_Space\<close>.\<close>

definition is_whitespace :: "uchar \<Rightarrow> bool" where
  "is_whitespace c \<longleftrightarrow> (9 \<le> c \<and> c \<le> 13) \<or> c = 32 \<or> c = 133 \<or> c = 160 \<or> c = 5760 \<or>
     (8192 \<le> c \<and> c \<le> 8202) \<or> c = 8232 \<or> c = 8233 \<or> c = 8239 \<or> c = 8287 \<or> c = 12288"

definition trim_start :: "ustring \<Rightarrow> ustring" where
  "trim_start s = dropWhile is_whitespace s"

definition trim_end :: "ustring \<Rightarrow> ustring" where
  "trim_end s = rev (dropWhile is_whitespace (rev s))"

definition trim :: "ustring \<Rightarrow> ustring" where
  "trim s = trim_end (trim_start s)"

abbreviation blank :: "ustring \<Rightarrow> bool" where
  "blank s \<equiv> trim s = []"

lemma all_set_dropWhile: "(\<forall>c \<in> set (dropWhile P s). P c) \<longleftrightarrow> (\<forall>c \<in> set s. P c)"
  by (induction s) auto

lemma blank_iff: "blank s \<longleftrightarrow> (\<forall>c \<in> set s. is_whitespace c)"
  by (simp add: trim_def trim_end_def trim_start_def all_set_dropWhile)

lemma blank_Nil [simp]: "blank []"
  by (simp add: blank_iff)

lemma blank_append [simp]: "blank (s @ t) \<longleftrightarrow> blank s \<and> blank t"
  by (auto simp: blank_iff)

lemma trim_Nil [simp]: "trim [] = []"
  by (simp add: trim_def trim_end_def trim_start_def)

lemma set_trim: "set (trim s) \<subseteq> set s"
  by (auto simp: trim_def trim_end_def trim_start_def dest!: set_dropWhileD)

lemma hd_dropWhile_neg: "dropWhile P s \<noteq> [] \<Longrightarrow> \<not> P (hd (dropWhile P s))"
  by (induction s) auto

lemma dropWhile_id: "s = [] \<or> \<not> P (hd s) \<Longrightarrow> dropWhile P s = s"
  by (cases s) auto

lemma trim_id:
  assumes "s = [] \<or> (\<not> is_whitespace (hd s) \<and> \<not> is_whitespace (last s))"
  shows "trim s = s"
proof -
  have "trim_start s = s"
    using assms by (auto simp: trim_start_def intro: dropWhile_id)
  moreover have "trim_end s = s"
    using assms by (auto simp: trim_end_def dropWhile_id hd_rev)
  ultimately show ?thesis by (simp add: trim_def)
qed

lemma trim_ends:
  assumes "trim s \<noteq> []"
  shows "\<not> is_whitespace (hd (trim s))" "\<not> is_whitespace (last (trim s))"
proof -
  define d where "d = dropWhile is_whitespace s"
  have t: "trim s = rev (dropWhile is_whitespace (rev d))" by (simp add: trim_def trim_end_def trim_start_def d_def)
  with assms have "dropWhile is_whitespace (rev d) \<noteq> []" by simp
  then show "\<not> is_whitespace (last (trim s))" using t by (simp add: last_rev hd_dropWhile_neg)
  have "d \<noteq> []" using assms t by auto
  then have d: "\<not> is_whitespace (hd d)" unfolding d_def by (rule hd_dropWhile_neg)
  obtain pre where "rev d = pre @ dropWhile is_whitespace (rev d)" by (metis takeWhile_dropWhile_id)
  then have "d = trim s @ rev pre" using t by (metis rev_append rev_rev_ident)
  then show "\<not> is_whitespace (hd (trim s))" using d assms by (metis hd_append2)
qed

lemma trim_trim [simp]: "trim (trim s) = trim s"
  by (cases "trim s = []") (simp_all add: trim_id trim_ends)

definition starts_with :: "ustring \<Rightarrow> ustring \<Rightarrow> bool" where
  "starts_with s p \<longleftrightarrow> take (length p) s = p"

definition strip_prefix :: "ustring \<Rightarrow> ustring \<Rightarrow> ustring option" where
  "strip_prefix s p = (if starts_with s p then Some (drop (length p) s) else None)"

lemma starts_with_append [simp]: "starts_with (p @ s) p"
  by (simp add: starts_with_def)

lemma starts_with_iff: "starts_with s p \<longleftrightarrow> (\<exists>t. s = p @ t)"
  by (auto simp: starts_with_def) (metis append_take_drop_id)

lemma strip_prefix_append [simp]: "strip_prefix (p @ s) p = Some s"
  by (simp add: strip_prefix_def)

lemma strip_prefix_Some: "strip_prefix s p = Some t \<longleftrightarrow> s = p @ t"
  by (auto simp: strip_prefix_def starts_with_iff)

text \<open>\<^verbatim>\<open>str::find(pat)\<close>, as an index in code points (the source only uses the index to slice).\<close>

fun find_sub :: "ustring \<Rightarrow> ustring \<Rightarrow> nat option" where
  "find_sub [] p = (if p = [] then Some 0 else None)"
| "find_sub (c # s) p =
     (if starts_with (c # s) p then Some 0 else map_option Suc (find_sub s p))"

lemma find_sub_Some:
  "find_sub s p = Some i \<Longrightarrow> i + length p \<le> length s \<and> take (length p) (drop i s) = p"
proof (induction s arbitrary: i)
  case (Cons c s)
  show ?case
  proof (cases "starts_with (c # s) p")
    case True
    then have "length p \<le> length (c # s)"
      by (metis append_eq_conv_conj length_append le_add1 starts_with_iff)
    then show ?thesis using True Cons.prems by (auto simp: starts_with_def)
  next
    case False
    then show ?thesis using Cons by auto
  qed
qed (auto split: if_splits)

lemma find_sub_None: "find_sub s p = None \<Longrightarrow> \<not> starts_with (drop i s) p"
proof (induction s arbitrary: i)
  case Nil
  then show ?case by (auto simp: starts_with_def split: if_splits)
next
  case (Cons c s)
  then show ?case by (cases i) (auto split: if_splits)
qed

text \<open>\<^verbatim>\<open>str::split(char)\<close>: at least one piece, separators dropped.\<close>

fun split_char :: "uchar \<Rightarrow> ustring \<Rightarrow> ustring list" where
  "split_char d [] = [[]]"
| "split_char d (c # s) =
     (if c = d then [] # split_char d s
      else (case split_char d s of [] \<Rightarrow> [[c]] | x # xs \<Rightarrow> (c # x) # xs))"

lemma split_char_ne [simp]: "split_char d s \<noteq> []"
  by (induction s) (auto split: list.splits)

text \<open>\<^verbatim>\<open>lines().next()\<close>: the first line, without its line ending \<^verbatim>\<open>\n\<close> or \<^verbatim>\<open>\r\n\<close>.\<close>

definition first_line :: "ustring \<Rightarrow> ustring option" where
  "first_line s =
     (if s = [] then None
      else let l = takeWhile (\<lambda>c. c \<noteq> 10) s in
        Some (if length l < length s \<and> l \<noteq> [] \<and> last l = 13 then butlast l else l))"

text \<open>\<^verbatim>\<open>str::lines\<close>: lines end at \<^verbatim>\<open>\n\<close> or \<^verbatim>\<open>\r\n\<close>; a text that ends with one has no empty last line.\<close>

definition strip_cr :: "ustring \<Rightarrow> ustring" where
  "strip_cr l = (if l \<noteq> [] \<and> last l = 13 then butlast l else l)"

definition lines :: "ustring \<Rightarrow> ustring list" where
  "lines s =
     (let ps = split_char 10 s in
      map strip_cr (butlast ps) @ (if last ps = [] then [] else [last ps]))"

text \<open>\<^verbatim>\<open>split_whitespace().next()\<close>.\<close>

definition first_token :: "ustring \<Rightarrow> ustring option" where
  "first_token s =
     (let t = takeWhile (\<lambda>c. \<not> is_whitespace c) (trim_start s) in if t = [] then None else Some t)"

definition to_ascii_lowercase :: "ustring \<Rightarrow> ustring" where
  "to_ascii_lowercase s = map (\<lambda>c. if 65 \<le> c \<and> c \<le> 90 then c + 32 else c) s"

definition eq_ignore_ascii_case :: "ustring \<Rightarrow> ustring \<Rightarrow> bool" where
  "eq_ignore_ascii_case s t \<longleftrightarrow> to_ascii_lowercase s = to_ascii_lowercase t"

text \<open>\<^verbatim>\<open>str::len\<close>: the number of UTF-8 bytes.\<close>

definition utf8_len_char :: "uchar \<Rightarrow> nat" where
  "utf8_len_char c = (if c < 128 then 1 else if c < 2048 then 2 else if c < 65536 then 3 else 4)"

definition utf8_len :: "ustring \<Rightarrow> nat" where
  "utf8_len s = sum_list (map utf8_len_char s)"

lemma utf8_len_simps [simp]:
  "utf8_len [] = 0" "utf8_len (c # s) = utf8_len_char c + utf8_len s"
  "utf8_len (s @ t) = utf8_len s + utf8_len t"
  by (simp_all add: utf8_len_def)

text \<open>\<^verbatim>\<open>format!("{}", n)\<close> for an unsigned integer.\<close>

fun show_nat :: "nat \<Rightarrow> ustring" where
  "show_nat n = (if n < 10 then [48 + n] else show_nat (n div 10) @ [48 + n mod 10])"

declare show_nat.simps [simp del]

lemma show_nat_small [simp]: "n < 10 \<Longrightarrow> show_nat n = [48 + n]"
  by (simp add: show_nat.simps)

lemma show_nat_ne [simp]: "show_nat n \<noteq> []"
  by (subst show_nat.simps) simp

definition read_nat :: "ustring \<Rightarrow> nat" where
  "read_nat s = foldl (\<lambda>a c. 10 * a + (c - 48)) 0 s"

lemma read_show_nat [simp]: "read_nat (show_nat n) = n"
proof (induction n rule: show_nat.induct)
  case (1 n)
  then show ?case
    by (cases "n < 10") (auto simp: show_nat.simps [of n] read_nat_def)
qed

lemma show_nat_inject [simp]: "show_nat m = show_nat n \<longleftrightarrow> m = n"
  by (metis read_show_nat)

lemma show_nat_digits: "c \<in> set (show_nat n) \<Longrightarrow> 48 \<le> c \<and> c \<le> 57"
proof (induction n rule: show_nat.induct)
  case (1 n)
  then show ?case
    by (cases "n < 10") (auto simp: show_nat.simps [of n])
qed

text \<open>\<^verbatim>\<open>str::parse\<close> for integers: an optional sign (minus only for signed types), at least one digit, and the range.\<close>

definition parse_digits :: "ustring \<Rightarrow> nat option" where
  "parse_digits s = (if s \<noteq> [] \<and> list_all (\<lambda>c. 48 \<le> c \<and> c \<le> 57) s then Some (read_nat s) else None)"

definition parse_unsigned :: "nat \<Rightarrow> ustring \<Rightarrow> nat option" where
  "parse_unsigned bound s =
     (case parse_digits (if s \<noteq> [] \<and> hd s = 43 then tl s else s) of
        Some n \<Rightarrow> if n \<le> bound then Some n else None
      | None \<Rightarrow> None)"

definition parse_i32 :: "ustring \<Rightarrow> int option" where
  "parse_i32 s =
     (let r = (case s of
                 [] \<Rightarrow> None
               | c # t \<Rightarrow> if c = 45 then map_option (\<lambda>n. - int n) (parse_digits t)
                         else if c = 43 then map_option int (parse_digits t)
                         else map_option int (parse_digits s)) in
      case r of Some i \<Rightarrow> if - (2 ^ 31) \<le> i \<and> i < 2 ^ 31 then Some i else None | None \<Rightarrow> None)"

text \<open>\<^verbatim>\<open>[...].join(sep)\<close>.\<close>

fun join :: "ustring \<Rightarrow> ustring list \<Rightarrow> ustring" where
  "join sep [] = []"
| "join sep [x] = x"
| "join sep (x # y # ys) = x @ sep @ join sep (y # ys)"

section \<open>Event-driven components\<close>

text \<open>
  A component that consumes a sequence of events one at a time.  \<open>protocol_machine\<close>: a step on an
  event of the protocol (\<open>ok\<close>) keeps \<open>inv\<close>, so every run over such events does.  \<open>event_machine\<close>: any
  event will do.  \<open>descending_machine\<close>: an observation never grows, which makes every
  upper bound of it an invariant.
\<close>

locale protocol_machine =
  fixes step :: "'s \<Rightarrow> 'e \<Rightarrow> 's" and inv :: "'s \<Rightarrow> bool" and ok :: "'e \<Rightarrow> bool"
  assumes ok_step_inv: "inv s \<Longrightarrow> ok e \<Longrightarrow> inv (step s e)"
begin

lemma ok_run_inv: "inv s \<Longrightarrow> list_all ok es \<Longrightarrow> inv (foldl step s es)"
  by (induction es arbitrary: s) (simp_all add: ok_step_inv)

end

locale event_machine =
  fixes step :: "'s \<Rightarrow> 'e \<Rightarrow> 's" and inv :: "'s \<Rightarrow> bool"
  assumes step_inv: "inv s \<Longrightarrow> inv (step s e)"
begin

sublocale free: protocol_machine step inv "\<lambda>e. True"
  by unfold_locales (rule step_inv)

lemma run_inv: "inv s \<Longrightarrow> inv (foldl step s es)"
  by (rule free.ok_run_inv) (simp_all add: list_all_iff)

lemma prefix_inv: "inv s \<Longrightarrow> inv (foldl step s (take n es))"
  by (rule run_inv)

end

locale descending_machine =
  fixes step :: "'s \<Rightarrow> 'e \<Rightarrow> 's" and obs :: "'s \<Rightarrow> 'o::order"
  assumes step_le: "obs (step s e) \<le> obs s"
begin

sublocale below: event_machine step "\<lambda>s. obs s \<le> b" for b
  by unfold_locales (rule order_trans [OF step_le])

lemma run_le: "obs (foldl step s es) \<le> obs s"
  by (rule below.run_inv) simp

lemma run_append_le: "obs (foldl step s (es @ fs)) \<le> obs (foldl step s es)"
  by (simp add: run_le)

end

end
