(* ===== verification/Json.thy ===== *)
theory Json
  imports Prelude "HOL-Library.List_Lexorder"
begin

text \<open>
  The JSON values the program passes around (\<^verbatim>\<open>serde_json::Value\<close>), with the accessors of that type
  which the source calls.  An object is the association list of a \<^verbatim>\<open>BTreeMap<String, Value>\<close>: the
  crate is built without the \<^verbatim>\<open>preserve_order\<close> feature, so an object iterates in the order of its keys.
  UTF-8 byte order and code-point order agree, so the order of keys is the lexicographic order of
  code points (\<^verbatim>\<open>HOL-Library.List_Lexorder\<close>).  A float is its mantissa and binary exponent; the program only compares floats.

  Reading text as JSON and printing JSON as text is \<^verbatim>\<open>serde_json\<close>'s own work: wherever the source
  calls it, the model takes a reader or a printer as a parameter.

  Shown here: inserting keeps an object sorted and without duplicate keys, and reading back after
  an insertion gives the inserted value and nothing else changes.
\<close>

datatype number = PosInt nat | NegInt int | Float int int

datatype Value =
    Null
  | Bool bool
  | Number number
  | String ustring
  | Array "Value list"
  | Object "(ustring \<times> Value) list"

type_synonym json_object = "(ustring \<times> Value) list"

fun get_key :: "Value \<Rightarrow> ustring \<Rightarrow> Value option" where
  "get_key (Object m) k = map_of m k"
| "get_key _ k = None"

fun get_index :: "Value \<Rightarrow> nat \<Rightarrow> Value option" where
  "get_index (Array xs) i = (if i < length xs then Some (xs ! i) else None)"
| "get_index _ i = None"

fun as_str :: "Value \<Rightarrow> ustring option" where
  "as_str (String s) = Some s"
| "as_str _ = None"

fun as_u64 :: "Value \<Rightarrow> nat option" where
  "as_u64 (Number (PosInt n)) = Some n"
| "as_u64 _ = None"

fun as_i64 :: "Value \<Rightarrow> int option" where
  "as_i64 (Number (PosInt n)) = (if int n < 2 ^ 63 then Some (int n) else None)"
| "as_i64 (Number (NegInt i)) = Some i"
| "as_i64 _ = None"

fun as_bool :: "Value \<Rightarrow> bool option" where
  "as_bool (Bool b) = Some b"
| "as_bool _ = None"

fun as_array :: "Value \<Rightarrow> Value list option" where
  "as_array (Array xs) = Some xs"
| "as_array _ = None"

fun as_object :: "Value \<Rightarrow> json_object option" where
  "as_object (Object m) = Some m"
| "as_object _ = None"

fun is_null :: "Value \<Rightarrow> bool" where
  "is_null Null = True"
| "is_null _ = False"

abbreviation and_then :: "'a option \<Rightarrow> ('a \<Rightarrow> 'b option) \<Rightarrow> 'b option" where
  "and_then o' f \<equiv> Option.bind o' f"

definition filter_option :: "('a \<Rightarrow> bool) \<Rightarrow> 'a option \<Rightarrow> 'a option" where
  "filter_option P o' = (case o' of Some a \<Rightarrow> if P a then Some a else None | None \<Rightarrow> None)"

lemma filter_option_simps [simp]:
  "filter_option P None = None"
  "filter_option P (Some a) = (if P a then Some a else None)"
  by (simp_all add: filter_option_def)

lemma filter_option_Some: "filter_option P o' = Some a \<longleftrightarrow> o' = Some a \<and> P a"
  by (auto simp: filter_option_def split: option.splits)

text \<open>Rust's \<^verbatim>\<open>o.map(str::trim).filter(|s| !s.is_empty())\<close>.\<close>

definition trim_nonempty :: "ustring option \<Rightarrow> ustring option" where
  "trim_nonempty o' = filter_option (\<lambda>s. s \<noteq> []) (map_option trim o')"

lemma trim_nonempty_simps [simp]:
  "trim_nonempty None = None"
  "trim_nonempty (Some s) = (if blank s then None else Some (trim s))"
  by (simp_all add: trim_nonempty_def)

lemma trim_nonempty_Some_ne: "trim_nonempty o' = Some s \<Longrightarrow> s \<noteq> []"
  by (auto simp: trim_nonempty_def filter_option_Some)

section \<open>Objects\<close>

definition sorted_keys :: "json_object \<Rightarrow> bool" where
  "sorted_keys m \<longleftrightarrow> sorted_wrt (<) (map fst m)"

fun obj_insert :: "ustring \<Rightarrow> Value \<Rightarrow> json_object \<Rightarrow> json_object" where
  "obj_insert k v [] = [(k, v)]"
| "obj_insert k v ((k', v') # m) =
     (if k = k' then (k, v) # m
      else if k < k' then (k, v) # (k', v') # m
      else (k', v') # obj_insert k v m)"

definition obj_remove :: "ustring \<Rightarrow> json_object \<Rightarrow> json_object" where
  "obj_remove k m = filter (\<lambda>(k', v'). k' \<noteq> k) m"

definition obj_of :: "(ustring \<times> Value) list \<Rightarrow> json_object" where
  "obj_of kvs = foldl (\<lambda>m (k, v). obj_insert k v m) [] kvs"

lemma set_keys_obj_insert [simp]:
  "fst ` set (obj_insert k v m) = insert k (fst ` set m)"
proof (induction m)
  case (Cons kv m)
  obtain k' v' where kv: "kv = (k', v')" by (cases kv)
  show ?case
    by (simp add: kv Cons.IH insert_commute)
qed simp

lemma key_of_obj_insert: "(k', v') \<in> set (obj_insert k v m) \<Longrightarrow> k' = k \<or> k' \<in> fst ` set m"
  by (metis fst_conv image_eqI insertE set_keys_obj_insert)

lemma sorted_keys_obj_insert: "sorted_keys m \<Longrightarrow> sorted_keys (obj_insert k v m)"
proof (induction m)
  case (Cons kv m)
  obtain k' v' where kv: "kv = (k', v')" by (cases kv)
  consider "k = k'" | "k \<noteq> k'" "k < k'" | "k \<noteq> k'" "\<not> k < k'" by blast
  then show ?case
  proof cases
    case 3
    then have "k' < k" by simp
    then show ?thesis using 3 Cons kv by (auto simp: sorted_keys_def dest: key_of_obj_insert)
  qed (use Cons kv in \<open>auto simp: sorted_keys_def intro: less_trans\<close>)
qed (simp add: sorted_keys_def)

lemma map_of_obj_insert [simp]:
  "map_of (obj_insert k v m) = (map_of m)(k \<mapsto> v)"
  by (induction m) (auto simp: fun_eq_iff)

lemma sorted_keys_obj_remove: "sorted_keys m \<Longrightarrow> sorted_keys (obj_remove k m)"
  unfolding sorted_keys_def obj_remove_def
  by (induction m) (auto split: prod.splits)

lemma map_of_obj_remove [simp]: "map_of (obj_remove k m) k' = (if k' = k then None else map_of m k')"
  by (induction m) (auto simp: obj_remove_def)

lemma sorted_keys_distinct: "sorted_keys m \<Longrightarrow> distinct (map fst m)"
  unfolding sorted_keys_def
  by (induction m) (auto simp: image_iff)

lemma sorted_keys_obj_of: "sorted_keys (obj_of kvs)"
proof -
  have "sorted_keys m \<Longrightarrow> sorted_keys (foldl (\<lambda>m (k, v). obj_insert k v m) m kvs)" for m
    by (induction kvs arbitrary: m) (auto intro: sorted_keys_obj_insert)
  then show ?thesis by (simp add: obj_of_def sorted_keys_def)
qed

section \<open>Mapping over a value\<close>

text \<open>
  The shape of \<^verbatim>\<open>inject_placeholders\<close> and \<^verbatim>\<open>substitute_item_in_value\<close>: rewrite every string of a value
  and keep everything else, keys included.
\<close>

fun map_strings :: "(ustring \<Rightarrow> ustring) \<Rightarrow> Value \<Rightarrow> Value" where
  "map_strings f (String s) = String (f s)"
| "map_strings f (Array xs) = Array (map (map_strings f) xs)"
| "map_strings f (Object m) = Object (map (\<lambda>(k, v). (k, map_strings f v)) m)"
| "map_strings f Null = Null"
| "map_strings f (Bool b) = Bool b"
| "map_strings f (Number n) = Number n"

lemma map_strings_id: "(\<And>s. f s = s) \<Longrightarrow> map_strings f v = v"
  by (induction v rule: map_strings.induct [of _ f])
    (auto intro!: map_idI simp: case_prod_beta)

end
