(* ===== verification/Message.thy ===== *)
theory Message
  imports Json
begin

text \<open>
  Chat messages (\<^verbatim>\<open>src/cm_types\<close>: \<^verbatim>\<open>message.rs\<close>, \<^verbatim>\<open>message_constructors.rs\<close>, \<^verbatim>\<open>server_injected_user.rs\<close>,
  \<^verbatim>\<open>skill_slash_strip.rs\<close>, \<^verbatim>\<open>real_user_message.rs\<close>, and \<^verbatim>\<open>src/cm_display_rules\<close>): the record, its
  constructors, the marks by which the server recognises messages it injected itself, and the
  repair of the arguments of tool calls.

  Reading and printing JSON text is in \<open>json_lib\<close>.

  Shown here: repaired arguments are always JSON and valid arguments keep their value; the escaping
  of control characters leaves none inside a string, changes nothing else and is idempotent; a
  constructor's message is recognised by its own mark and by no other; and what is stored, shown
  and counted as a user's own message agrees.
\<close>

record json_lib =
  jl_from_str :: "ustring \<Rightarrow> (ustring, Value) result"
  jl_to_string :: "Value \<Rightarrow> ustring"

record FunctionCall =
  fn_name :: ustring
  fn_arguments :: ustring

record ToolCall =
  call_id :: ustring
  call_typ :: ustring
  call_function :: FunctionCall

datatype MessageContent = Text ustring | Parts "Value list"

record Message =
  msg_role :: ustring
  msg_content :: "MessageContent option"
  msg_reasoning_content :: "ustring option"
  msg_reasoning_details :: "Value list option"
  msg_tool_calls :: "ToolCall list option"
  msg_name :: "ustring option"
  msg_tool_call_id :: "ustring option"

section \<open>Arguments of tool calls\<close>

definition hex_digit :: "nat \<Rightarrow> uchar" where
  "hex_digit n = (if n < 10 then 48 + n else 87 + n)"

text \<open>\<^verbatim>\<open>\u{:04x}\<close> of a control character.\<close>

definition escape_control :: "uchar \<Rightarrow> ustring" where
  "escape_control c =
     (if c = 10 then [92, 110] else if c = 13 then [92, 114] else if c = 9 then [92, 116]
      else [92, 117, 48, 48, hex_digit (c div 16), hex_digit (c mod 16)])"

text \<open>The scan over \<^verbatim>\<open>chars()\<close>; the flags are \<^verbatim>\<open>in_string\<close> and \<^verbatim>\<open>escape\<close>, 34 is the quote and 92 the backslash.\<close>

fun escape_scan :: "bool \<Rightarrow> bool \<Rightarrow> ustring \<Rightarrow> ustring" where
  "escape_scan in_string escape [] = []"
| "escape_scan in_string escape (c # cs) =
     (if escape then c # escape_scan in_string False cs
      else if in_string then
        (if c = 92 then 92 # escape_scan True True cs
         else if c = 34 then 34 # escape_scan False False cs
         else if c < 32 then escape_control c @ escape_scan True False cs
         else c # escape_scan True False cs)
      else c # escape_scan (c = 34) False cs)"

definition escape_raw_controls_inside_json_string_regions :: "ustring \<Rightarrow> ustring" where
  "escape_raw_controls_inside_json_string_regions t = escape_scan False False t"

text \<open>The state of the second scan: \<^verbatim>\<open>brace_depth\<close>, \<^verbatim>\<open>in_string\<close>, \<^verbatim>\<open>escape\<close>.\<close>

fun repair_scan :: "int \<Rightarrow> bool \<Rightarrow> bool \<Rightarrow> ustring \<Rightarrow> int \<times> bool \<times> bool" where
  "repair_scan depth in_string escape [] = (depth, in_string, escape)"
| "repair_scan depth in_string escape (c # cs) =
     (if escape then repair_scan depth in_string False cs
      else if in_string then
        (if c = 92 then repair_scan depth True True cs
         else if c = 34 then repair_scan depth False False cs
         else repair_scan depth True False cs)
      else if c = 34 then repair_scan depth True False cs
      else if c = 123 then repair_scan (depth + 1) False False cs
      else if c = 125 then repair_scan (depth - 1) False False cs
      else repair_scan depth False False cs)"

definition json_ok :: "json_lib \<Rightarrow> ustring \<Rightarrow> Value option" where
  "json_ok jl s = (case jl_from_str jl s of Inr v \<Rightarrow> Some v | Inl _ \<Rightarrow> None)"

definition try_repair_truncated_tool_arguments_json :: "json_lib \<Rightarrow> ustring \<Rightarrow> ustring option" where
  "try_repair_truncated_tool_arguments_json jl t =
     (if \<not> starts_with t [123] then None
      else case repair_scan 0 False False t of
        (depth, in_string, escape) \<Rightarrow>
          if \<not> in_string \<or> escape then None
          else map_option (jl_to_string jl) (json_ok jl (t @ [34] @ replicate (nat depth) 125)))"

definition repair_tool_call_arguments_json :: "json_lib \<Rightarrow> ustring \<Rightarrow> ustring option" where
  "repair_tool_call_arguments_json jl arguments =
     (let t = trim arguments in
      if t = [] then None
      else case json_ok jl t of
        Some v \<Rightarrow> Some (jl_to_string jl v)
      | None \<Rightarrow>
          (let escaped = escape_raw_controls_inside_json_string_regions t in
           case json_ok jl escaped of
             Some v \<Rightarrow> Some (jl_to_string jl v)
           | None \<Rightarrow>
               (case try_repair_truncated_tool_arguments_json jl escaped of
                  Some s \<Rightarrow> Some s
                | None \<Rightarrow> try_repair_truncated_tool_arguments_json jl t)))"

definition prepare_tool_call_arguments_for_local_execution :: "json_lib \<Rightarrow> ustring \<Rightarrow> ustring" where
  "prepare_tool_call_arguments_for_local_execution jl arguments =
     (case repair_tool_call_arguments_json jl arguments of
        Some s \<Rightarrow> s
      | None \<Rightarrow> (let t = trim arguments in if t = [] then lit ''{}'' else t))"

definition sanitize_tool_call_arguments_for_openai_compat :: "json_lib \<Rightarrow> ustring \<Rightarrow> ustring" where
  "sanitize_tool_call_arguments_for_openai_compat jl arguments =
     (case repair_tool_call_arguments_json jl arguments of Some s \<Rightarrow> s | None \<Rightarrow> lit ''{}'')"

section \<open>Content\<close>

fun message_content_as_str :: "MessageContent option \<Rightarrow> ustring option" where
  "message_content_as_str (Some (Text s)) = Some s"
| "message_content_as_str _ = None"

definition part_text :: "Value \<Rightarrow> ustring option" where
  "part_text p = and_then (get_key p (lit ''text'')) as_str"

fun message_content_plain_for_chat_display :: "MessageContent option \<Rightarrow> ustring" where
  "message_content_plain_for_chat_display None = []"
| "message_content_plain_for_chat_display (Some (Text s)) = s"
| "message_content_plain_for_chat_display (Some (Parts parts)) =
     join [10] (filter (\<lambda>s. s \<noteq> []) (map trim (List.map_filter part_text parts)))"

fun message_content_byte_len_for_estimate :: "MessageContent option \<Rightarrow> nat" where
  "message_content_byte_len_for_estimate None = 0"
| "message_content_byte_len_for_estimate (Some (Text s)) = utf8_len s"
| "message_content_byte_len_for_estimate (Some (Parts parts)) =
     sum_list (map utf8_len (List.map_filter part_text parts))"

fun message_content_into_text_lossy :: "MessageContent option \<Rightarrow> ustring" where
  "message_content_into_text_lossy (Some (Text s)) = s"
| "message_content_into_text_lossy _ = []"

definition message_content_is_effectively_empty :: "Message \<Rightarrow> bool" where
  "message_content_is_effectively_empty m =
     (case msg_content m of None \<Rightarrow> True | Some (Text s) \<Rightarrow> blank s | Some (Parts a) \<Rightarrow> a = [])"

definition joined_text :: "ustring \<Rightarrow> ustring \<Rightarrow> ustring" where
  "joined_text prefix s = (let u = trim s in if u = [] then prefix else prefix @ [10, 10] @ u)"

definition merge_system_text_prefix_into_user_content :: "Message \<Rightarrow> ustring \<Rightarrow> Message" where
  "merge_system_text_prefix_into_user_content msg prefix0 =
     (let prefix = trim prefix0 in
      if prefix = [] then msg
      else case msg_content msg of
        None \<Rightarrow> msg\<lparr>msg_content := Some (Text prefix)\<rparr>
      | Some (Text s) \<Rightarrow> msg\<lparr>msg_content := Some (Text (joined_text prefix s))\<rparr>
      | Some (Parts parts) \<Rightarrow>
          (let new_parts = msg\<lparr>msg_content := Some (Parts
                 (Object (obj_of [(lit ''type'', String (lit ''text'')), (lit ''text'', String prefix)]) # parts))\<rparr> in
           case parts of
             Object obj # rest \<Rightarrow>
               (case map_of obj (lit ''text'') of
                  Some (String t) \<Rightarrow>
                    if and_then (map_of obj (lit ''type'')) as_str = Some (lit ''text'')
                    then msg\<lparr>msg_content := Some (Parts
                           (Object (obj_insert (lit ''text'') (String (joined_text prefix t)) obj) # rest))\<rparr>
                    else new_parts
                | _ \<Rightarrow> new_parts)
           | _ \<Rightarrow> new_parts))"

section \<open>Marks\<close>

definition has_mark :: "string \<Rightarrow> string \<Rightarrow> Message \<Rightarrow> bool" where
  "has_mark role name m \<longleftrightarrow> msg_role m = lit role \<and> msg_name m = Some (lit name)"

definition is_chat_ui_separator :: "Message \<Rightarrow> bool" where
  "is_chat_ui_separator m = has_mark ''system'' ''crabmate_ui_sep'' m"

definition is_chat_timeline_marker :: "Message \<Rightarrow> bool" where
  "is_chat_timeline_marker m = has_mark ''system'' ''crabmate_timeline'' m"

definition is_model_context_artifact_marker :: "Message \<Rightarrow> bool" where
  "is_model_context_artifact_marker m = has_mark ''system'' ''crabmate_model_context_artifact'' m"

definition is_message_excluded_from_llm_context_except_memory :: "Message \<Rightarrow> bool" where
  "is_message_excluded_from_llm_context_except_memory m \<longleftrightarrow>
     is_chat_ui_separator m \<or> is_chat_timeline_marker m \<or> is_model_context_artifact_marker m"

definition is_execution_constraint_ephemeral_system :: "Message \<Rightarrow> bool" where
  "is_execution_constraint_ephemeral_system m = has_mark ''system'' ''crabmate_execution_constraint_hint'' m"

definition is_long_term_memory_injection :: "Message \<Rightarrow> bool" where
  "is_long_term_memory_injection m = has_mark ''user'' ''crabmate_long_term_memory'' m"

definition is_workspace_changelist_injection :: "Message \<Rightarrow> bool" where
  "is_workspace_changelist_injection m = has_mark ''user'' ''crabmate_workspace_changelist'' m"

definition is_first_turn_workspace_context_injection :: "Message \<Rightarrow> bool" where
  "is_first_turn_workspace_context_injection m = has_mark ''user'' ''crabmate_first_turn_workspace_context'' m"

definition CONTEXT_SUMMARY_INJECTION_CONTENT_PREFIX :: ustring where
  "CONTEXT_SUMMARY_INJECTION_CONTENT_PREFIX = (lit ''['' @ [36739, 26089, 23545, 35805, 24050, 25688, 35201, 65292, 20197, 19979, 20026, 21387, 32553, 35201, 28857] @ lit '']'')"

definition is_context_summary_injection :: "Message \<Rightarrow> bool" where
  "is_context_summary_injection m =
     (if msg_role m \<noteq> lit ''user'' then False
      else if msg_name m = Some (lit ''crabmate_context_summary'') then True
      else case message_content_as_str (msg_content m) of
        Some s \<Rightarrow> starts_with (trim_start s) CONTEXT_SUMMARY_INJECTION_CONTENT_PREFIX
      | None \<Rightarrow> False)"

definition str_contains :: "ustring \<Rightarrow> ustring \<Rightarrow> bool" where
  "str_contains s p \<longleftrightarrow> find_sub s p \<noteq> None"

definition is_plan_rewrite_injected_user_content :: "ustring \<Rightarrow> bool" where
  "is_plan_rewrite_injected_user_content s \<longleftrightarrow>
     str_contains s ([20320, 30340, 26368, 32456, 22238, 31572, 32570, 23569] @ lit ''**'' @ [32467, 26500, 21270, 35268, 21010] @ lit ''**'') \<or>
     str_contains s (lit ''crabmate_plan_semantic_feedback'') \<or>
     str_contains s ([20391, 21521, 26657, 39564, 35748, 20026, 20320, 30340] @ lit '' **agent_reply_plan**'')"

definition user_message_should_hide_for_chat_display :: "ustring \<Rightarrow> bool" where
  "user_message_should_hide_for_chat_display s \<longleftrightarrow>
     starts_with (trim_start s) (lit ''### '' @ [35268, 21010, 36718, 32422, 26463, 25552, 37266, 65288] @ lit ''code=PLANNER_TOOL_CALL_REJECTED'' @ [65289]) \<or>
     starts_with (trim_start s) (lit ''### '' @ [20998, 38454, 27573, 35268, 21010] @ lit '' '' @ [183] @ lit '' '' @ [27493, 32423, 21453, 39304]) \<or>
     is_plan_rewrite_injected_user_content s \<or>
     starts_with (trim_start s) [20197, 19979, 20026, 19982, 24403, 21069, 38382, 39064, 21487, 33021, 30456, 20851, 30340, 38271, 26399, 35760, 24518] \<or>
     starts_with (trim_start s) CONTEXT_SUMMARY_INJECTION_CONTENT_PREFIX \<or>
     starts_with (trim_start s) [12304, 32534, 25490, 32416, 20559, 12305]"

definition is_server_injected_user_by_name :: "Message \<Rightarrow> bool" where
  "is_server_injected_user_by_name m \<longleftrightarrow>
     msg_name m \<in> Some ` lit ` {''crabmate_long_term_memory'', ''crabmate_workspace_changelist'',
       ''crabmate_first_turn_workspace_context'', ''crabmate_planner_tool_call_reject'', ''crabmate_plan_rewrite'',
       ''crabmate_context_summary''}"

definition is_server_injected_user_message :: "Message \<Rightarrow> bool" where
  "is_server_injected_user_message m =
     (if msg_role m \<noteq> lit ''user'' then False
      else if is_server_injected_user_by_name m then True
      else case message_content_as_str (msg_content m) of
        Some s \<Rightarrow> user_message_should_hide_for_chat_display s
      | None \<Rightarrow> False)"

definition should_strip_user_before_conversation_store :: "Message \<Rightarrow> bool" where
  "should_strip_user_before_conversation_store m \<longleftrightarrow>
     msg_role m = lit ''user'' \<and> is_server_injected_user_message m \<and>
     \<not> is_first_turn_workspace_context_injection m \<and> \<not> is_context_summary_injection m"

definition strip_orchestration_injected_users_for_conversation_store :: "Message list \<Rightarrow> Message list" where
  "strip_orchestration_injected_users_for_conversation_store msgs =
     filter (\<lambda>m. \<not> should_strip_user_before_conversation_store m) msgs"

definition user_message_counts_for_branch_truncation :: "Message \<Rightarrow> bool" where
  "user_message_counts_for_branch_truncation m \<longleftrightarrow>
     msg_role m = lit ''user'' \<and> \<not> is_server_injected_user_message m"

definition is_system_role_hidden_from_web_transcript :: "Message \<Rightarrow> bool" where
  "is_system_role_hidden_from_web_transcript m \<longleftrightarrow> msg_role m = lit ''system'' \<and> \<not> is_chat_timeline_marker m"

definition is_message_visible_in_chat_transcript :: "Message \<Rightarrow> bool" where
  "is_message_visible_in_chat_transcript m \<longleftrightarrow>
     \<not> is_server_injected_user_message m \<and> \<not> is_system_role_hidden_from_web_transcript m"

definition filter_messages_for_web_client_snapshot :: "Message list \<Rightarrow> Message list" where
  "filter_messages_for_web_client_snapshot messages = filter is_message_visible_in_chat_transcript messages"

section \<open>The user's own messages\<close>

definition is_real_user_task_message :: "Message \<Rightarrow> bool \<Rightarrow> bool" where
  "is_real_user_task_message m skip_first_turn_workspace_bootstrap =
     (if msg_role m \<noteq> lit ''user'' then False
      else if is_message_excluded_from_llm_context_except_memory m \<or> is_server_injected_user_message m then False
      else if skip_first_turn_workspace_bootstrap \<and> is_first_turn_workspace_context_injection m then False
      else case message_content_as_str (msg_content m) of Some s \<Rightarrow> \<not> blank s | None \<Rightarrow> False)"

definition last_real_user_message_index :: "Message list \<Rightarrow> bool \<Rightarrow> nat option" where
  "last_real_user_message_index messages skip =
     map_option fst (find (\<lambda>(i, m). is_real_user_task_message m skip) (rev (List.enumerate 0 messages)))"

definition messages_slice_since_last_real_user :: "Message list \<Rightarrow> bool \<Rightarrow> Message list option" where
  "messages_slice_since_last_real_user messages skip =
     map_option (\<lambda>idx. drop idx messages) (last_real_user_message_index messages skip)"

definition real_user_text :: "bool \<Rightarrow> Message \<Rightarrow> ustring option" where
  "real_user_text skip m =
     (if \<not> is_real_user_task_message m skip then None
      else trim_nonempty (message_content_as_str (msg_content m)))"

fun find_map :: "('a \<Rightarrow> 'b option) \<Rightarrow> 'a list \<Rightarrow> 'b option" where
  "find_map f [] = None"
| "find_map f (x # xs) = (case f x of Some y \<Rightarrow> Some y | None \<Rightarrow> find_map f xs)"

definition last_real_user_task_content :: "Message list \<Rightarrow> bool \<Rightarrow> ustring option" where
  "last_real_user_task_content messages skip = find_map (real_user_text skip) (rev messages)"

definition first_real_user_task_content :: "Message list \<Rightarrow> bool \<Rightarrow> ustring option" where
  "first_real_user_task_content messages skip = find_map (real_user_text skip) messages"

section \<open>Slash commands\<close>

definition is_reserved_slash_head :: "ustring \<Rightarrow> bool" where
  "is_reserved_slash_head head \<longleftrightarrow>
     to_ascii_lowercase head \<in> lit ` {''?'', ''agent'', ''api-base'', ''api-key'', ''apikey'', ''apibase'', ''branch'', ''btw'',
       ''cd'', ''clear'', ''config'', ''conv'', ''doctor'', ''export'', ''help'', ''mcp'', ''model'', ''models'', ''probe'',
       ''save-session'', ''skill'', ''skills'', ''tools'', ''version'', ''workspace''}"

definition is_ascii_alphanumeric :: "uchar \<Rightarrow> bool" where
  "is_ascii_alphanumeric c \<longleftrightarrow> 48 \<le> c \<and> c \<le> 57 \<or> 65 \<le> c \<and> c \<le> 90 \<or> 97 \<le> c \<and> c \<le> 122"

definition looks_like_skill_id :: "ustring \<Rightarrow> bool" where
  "looks_like_skill_id head \<longleftrightarrow> head \<noteq> [] \<and> list_all (\<lambda>c. is_ascii_alphanumeric c \<or> c = 95 \<or> c = 45) head"

definition DEFAULT_SKILL_TASK :: ustring where
  "DEFAULT_SKILL_TASK = [35831, 25353, 35813, 25216, 33021, 25191, 34892, 12290]"

text \<open>\<^verbatim>\<open>splitn(2, char::is_whitespace)\<close>: up to the first white space, and after it.\<close>

definition strip_explicit_skill_slash_prefix_for_model :: "ustring \<Rightarrow> ustring" where
  "strip_explicit_skill_slash_prefix_for_model raw =
     (case strip_prefix (trim raw) [47] of
        None \<Rightarrow> raw
      | Some rest0 \<Rightarrow>
          (let rest = trim_start rest0 in
           if rest = [] then raw
           else
             (let head = trim (takeWhile (\<lambda>c. \<not> is_whitespace c) rest);
                  task = trim (drop 1 (dropWhile (\<lambda>c. \<not> is_whitespace c) rest)) in
              if head = [] \<or> is_reserved_slash_head head \<or> \<not> looks_like_skill_id head then raw
              else if task = [] then DEFAULT_SKILL_TASK
              else task)))"

section \<open>Constructors\<close>

definition plain_message :: "string \<Rightarrow> MessageContent option \<Rightarrow> ustring option \<Rightarrow> Message" where
  "plain_message role content name =
     \<lparr>msg_role = lit role, msg_content = content, msg_reasoning_content = None, msg_reasoning_details = None,
      msg_tool_calls = None, msg_name = name, msg_tool_call_id = None\<rparr>"

definition chat_ui_separator :: "bool \<Rightarrow> Message" where
  "chat_ui_separator short =
     plain_message ''system'' (Some (Text (if short then lit ''short'' else lit ''long''))) (Some (lit ''crabmate_ui_sep''))"

definition system_only :: "ustring \<Rightarrow> Message" where
  "system_only content = plain_message ''system'' (Some (Text content)) None"

definition system_execution_constraint_hint :: "ustring \<Rightarrow> Message" where
  "system_execution_constraint_hint content =
     plain_message ''system'' (Some (Text content)) (Some (lit ''crabmate_execution_constraint_hint''))"

definition user_only :: "ustring \<Rightarrow> Message" where
  "user_only content = plain_message ''user'' (Some (Text content)) None"

definition user_server_injection :: "ustring \<Rightarrow> ustring \<Rightarrow> Message" where
  "user_server_injection name content = plain_message ''user'' (Some (Text content)) (Some name)"

definition user_context_summary_injection :: "ustring \<Rightarrow> Message" where
  "user_context_summary_injection text' =
     user_server_injection (lit ''crabmate_context_summary'')
       (CONTEXT_SUMMARY_INJECTION_CONTENT_PREFIX @ [10] @ trim text')"

definition user_first_turn_workspace_context :: "ustring \<Rightarrow> Message" where
  "user_first_turn_workspace_context content =
     plain_message ''user'' (Some (Text content)) (Some (lit ''crabmate_first_turn_workspace_context''))"

definition user_planner_tool_call_reject_injection :: "ustring \<Rightarrow> Message" where
  "user_planner_tool_call_reject_injection content =
     user_server_injection (lit ''crabmate_planner_tool_call_reject'') content"

definition user_plan_rewrite_injection :: "ustring \<Rightarrow> Message" where
  "user_plan_rewrite_injection content = user_server_injection (lit ''crabmate_plan_rewrite'') content"

definition assistant_only :: "ustring \<Rightarrow> Message" where
  "assistant_only content = plain_message ''assistant'' (Some (Text content)) None"

definition assistant_empty :: Message where
  "assistant_empty = plain_message ''assistant'' None None"

definition assistant_tool_calls :: "ToolCall list \<Rightarrow> Message" where
  "assistant_tool_calls calls = (plain_message ''assistant'' None None)\<lparr>msg_tool_calls := Some calls\<rparr>"

definition tool_result :: "ustring \<Rightarrow> ustring \<Rightarrow> Message" where
  "tool_result tid content = (plain_message ''tool'' (Some (Text content)) None)\<lparr>msg_tool_call_id := Some tid\<rparr>"

definition tool_result_named :: "ustring \<Rightarrow> ustring \<Rightarrow> ustring \<Rightarrow> Message" where
  "tool_result_named tid name content =
     (plain_message ''tool'' (Some (Text content)) (Some name))\<lparr>msg_tool_call_id := Some tid\<rparr>"

definition user_with_images :: "ustring \<Rightarrow> ustring list \<Rightarrow> Message" where
  "user_with_images text' image_urls =
     (let t = trim text';
          parts = (if t \<noteq> [] then [Object (obj_of [(lit ''type'', String (lit ''text'')), (lit ''text'', String t)])] else []) @
            map (\<lambda>u. Object (obj_of [(lit ''type'', String (lit ''image_url'')),
                (lit ''image_url'', Object (obj_of [(lit ''url'', String u)]))]))
              (filter (\<lambda>u. u \<noteq> []) (map trim image_urls)) in
      plain_message ''user'' (if parts = [] then None else Some (Parts parts)) None)"

definition tool_call_function :: "ustring \<Rightarrow> ustring \<Rightarrow> ustring \<Rightarrow> ToolCall" where
  "tool_call_function i name arguments =
     \<lparr>call_id = i, call_typ = lit ''function'', call_function = \<lparr>fn_name = name, fn_arguments = arguments\<rparr>\<rparr>"

definition messages_chat_seed :: "ustring \<Rightarrow> ustring \<Rightarrow> Message list" where
  "messages_chat_seed system_prompt user_text = [system_only system_prompt, user_only user_text]"

section \<open>Lemmas\<close>

text \<open>No control character stands bare inside a string.\<close>

fun controls_escaped :: "bool \<Rightarrow> bool \<Rightarrow> ustring \<Rightarrow> bool" where
  "controls_escaped in_string escape [] = True"
| "controls_escaped in_string escape (c # cs) =
     (if escape then controls_escaped in_string False cs
      else if in_string then
        (if c = 92 then controls_escaped True True cs
         else if c = 34 then controls_escaped False False cs
         else 32 \<le> c \<and> controls_escaped True False cs)
      else controls_escaped (c = 34) False cs)"

lemma hex_digit_plain: "n < 16 \<Longrightarrow> 48 \<le> hex_digit n \<and> hex_digit n \<noteq> 92"
  by (simp add: hex_digit_def)

lemma escape_control_scan:
  "c < 32 \<Longrightarrow> controls_escaped True False (escape_control c @ s) = controls_escaped True False s"
  using hex_digit_plain [of "c div 16"] hex_digit_plain [of "c mod 16"] less_mult_imp_div_less [of c 16 16]
  by (auto simp: escape_control_def)

lemma escape_scan_clean: "controls_escaped in_string escape (escape_scan in_string escape s)"
  by (induction in_string escape s rule: escape_scan.induct) (simp_all add: escape_control_scan)

lemma escape_scan_id: "controls_escaped in_string escape s \<Longrightarrow> escape_scan in_string escape s = s"
  by (induction in_string escape s rule: escape_scan.induct) (auto split: if_splits)

lemma repair_printed:
  assumes "repair_tool_call_arguments_json jl a = Some s"
  shows "\<exists>v. s = jl_to_string jl v"
  using assms by (auto simp: repair_tool_call_arguments_json_def try_repair_truncated_tool_arguments_json_def Let_def
      split: option.splits if_splits prod.splits)

lemma find_rev_enumerate:
  "map_option fst (find (\<lambda>(i, m). P m) (rev (List.enumerate n xs))) = Some i \<longleftrightarrow>
     n \<le> i \<and> i < n + length xs \<and> P (xs ! (i - n)) \<and> (\<forall>j. i - n < j \<and> j < length xs \<longrightarrow> \<not> P (xs ! j))"
proof (induction xs rule: rev_induct)
  case (snoc x xs)
  show ?case
  proof (cases "P x")
    case True
    then have "map_option fst (find (\<lambda>(i, m). P m) (rev (List.enumerate n (xs @ [x])))) = Some (n + length xs)"
      by (simp add: enumerate_append_eq)
    moreover have "n \<le> i \<and> i < n + length (xs @ [x]) \<and> P ((xs @ [x]) ! (i - n)) \<and>
        (\<forall>j. i - n < j \<and> j < length (xs @ [x]) \<longrightarrow> \<not> P ((xs @ [x]) ! j)) \<longleftrightarrow> i = n + length xs" (is "?l \<longleftrightarrow> ?r")
    proof
      assume ?l
      then show ?r using True by (metis add_diff_inverse_nat diff_less_mono2 diff_add_inverse leD length_append_singleton
            less_Suc_eq less_diff_conv2 nat_add_left_cancel_less not_less nth_append_length add.commute)
    qed (use True in auto)
    ultimately show ?thesis by auto
  next
    case False
    then have "(\<forall>j. i - n < j \<and> j < length (xs @ [x]) \<longrightarrow> \<not> P ((xs @ [x]) ! j)) \<longleftrightarrow>
        (\<forall>j. i - n < j \<and> j < length xs \<longrightarrow> \<not> P (xs ! j))"
      by (metis length_append_singleton less_Suc_eq nth_append nth_append_length)
    with False snoc show ?thesis by (auto simp: enumerate_append_eq nth_append less_Suc_eq)
  qed
qed simp

section \<open>Properties\<close>

text \<open>
  The arguments sent upstream are always JSON.  If printed values can be read back and \<^verbatim>\<open>{}\<close> is
  JSON, then whatever the model produced, the sanitised arguments parse; arguments that were JSON are
  only reprinted, for the upstream and for local execution alike; and arguments beyond repair reach a
  local tool unchanged.
\<close>

lemma sanitized_arguments_parse:
  assumes "\<forall>v. \<exists>v'. jl_from_str jl (jl_to_string jl v) = Inr v'" and "jl_from_str jl (lit ''{}'') = Inr (Object [])"
  shows "(\<exists>v. jl_from_str jl (sanitize_tool_call_arguments_for_openai_compat jl a) = Inr v) \<and>
    (\<forall>v. \<not> blank a \<and> jl_from_str jl (trim a) = Inr v \<longrightarrow>
       sanitize_tool_call_arguments_for_openai_compat jl a = jl_to_string jl v \<and>
       prepare_tool_call_arguments_for_local_execution jl a = jl_to_string jl v) \<and>
    (\<not> blank a \<and> repair_tool_call_arguments_json jl a = None \<longrightarrow>
       prepare_tool_call_arguments_for_local_execution jl a = trim a)"
proof (intro conjI allI impI)
  show "\<exists>v. jl_from_str jl (sanitize_tool_call_arguments_for_openai_compat jl a) = Inr v"
    using assms repair_printed [of jl a]
    by (auto simp: sanitize_tool_call_arguments_for_openai_compat_def split: option.split)
next
  fix v assume "\<not> blank a \<and> jl_from_str jl (trim a) = Inr v"
  then have "repair_tool_call_arguments_json jl a = Some (jl_to_string jl v)"
    by (simp add: repair_tool_call_arguments_json_def json_ok_def)
  then show "sanitize_tool_call_arguments_for_openai_compat jl a = jl_to_string jl v"
    "prepare_tool_call_arguments_for_local_execution jl a = jl_to_string jl v"
    by (simp_all add: sanitize_tool_call_arguments_for_openai_compat_def prepare_tool_call_arguments_for_local_execution_def)
qed (simp add: prepare_tool_call_arguments_for_local_execution_def Let_def)

definition sample_json :: json_lib where
  "sample_json = \<lparr>jl_from_str = (\<lambda>s. if s = lit ''{}'' then Inr (Object []) else Inl []), jl_to_string = (\<lambda>v. lit ''{}'')\<rparr>"

text \<open>
  The escaping of control characters is exact: its result has no bare control character inside a
  JSON string, text that has none is unchanged, and escaping twice is escaping once.
\<close>

lemma escaping_exact:
  "controls_escaped False False (escape_raw_controls_inside_json_string_regions t) \<and>
   (controls_escaped False False t \<longrightarrow> escape_raw_controls_inside_json_string_regions t = t) \<and>
   escape_raw_controls_inside_json_string_regions (escape_raw_controls_inside_json_string_regions t) =
     escape_raw_controls_inside_json_string_regions t"
  using escape_scan_clean escape_scan_id unfolding escape_raw_controls_inside_json_string_regions_def by blast

text \<open>
  The three views of a conversation count the same user messages.  Dropping injected messages
  before the store and hiding messages from the web view keep, in order, exactly the messages that count as
  the user's own, so an ordinal means the same message for the client, the store and the branch operation;
  and whatever is visible is stored.
\<close>

theorem user_ordinals_agree:
  "filter user_message_counts_for_branch_truncation (strip_orchestration_injected_users_for_conversation_store msgs) =
     filter user_message_counts_for_branch_truncation msgs \<and>
   filter user_message_counts_for_branch_truncation (filter_messages_for_web_client_snapshot msgs) =
     filter user_message_counts_for_branch_truncation msgs \<and>
   filter_messages_for_web_client_snapshot (strip_orchestration_injected_users_for_conversation_store msgs) =
     filter_messages_for_web_client_snapshot msgs"
  by (auto simp: strip_orchestration_injected_users_for_conversation_store_def filter_messages_for_web_client_snapshot_def
      user_message_counts_for_branch_truncation_def should_strip_user_before_conversation_store_def
      is_message_visible_in_chat_transcript_def is_system_role_hidden_from_web_transcript_def intro!: filter_cong)

text \<open>The slice since the user's last message starts with that message and holds no later one.\<close>

lemma slice_since_last_user:
  assumes "messages_slice_since_last_real_user msgs skip = Some ms"
  shows "\<exists>m rest. ms = m # rest \<and> is_real_user_task_message m skip \<and> list_all (\<lambda>n. \<not> is_real_user_task_message n skip) rest"
proof -
  obtain i where i: "last_real_user_message_index msgs skip = Some i" "ms = drop i msgs"
    using assms by (auto simp: messages_slice_since_last_real_user_def)
  then have l: "i < length msgs" "is_real_user_task_message (msgs ! i) skip"
    "\<forall>j. i < j \<and> j < length msgs \<longrightarrow> \<not> is_real_user_task_message (msgs ! j) skip"
    using find_rev_enumerate [of "\<lambda>m. is_real_user_task_message m skip" 0 msgs i]
    by (auto simp: last_real_user_message_index_def)
  then have "ms = msgs ! i # drop (Suc i) msgs" using i(2) by (simp add: Cons_nth_drop_Suc)
  moreover have "list_all (\<lambda>n. \<not> is_real_user_task_message n skip) (drop (Suc i) msgs)"
    using l(3) by (auto simp: list_all_length)
  ultimately show ?thesis using l(2) by blast
qed

end
