(* ===== verification/Tool_Result.thy ===== *)
theory Tool_Result
  imports Message
begin

text \<open>
  What a tool's output means (\<^verbatim>\<open>src/cm_tools/tool_result\<close>): success, exit code, streams and error code read off a
  plain text output, the structured payloads, the failure categories, the envelope that goes into the
  conversation and its way back, and the compression of outputs that are too long.

  The reader and the printer of JSON are the parameter \<open>json_lib\<close>.  The derived deserialiser of the header
  line is written on JSON values: an object with the field names (absent or null is \<^verbatim>\<open>None\<close>, a
  wrong type an error) or an array of the fields in order.

  Shown here: the envelope is read back as it was written; compression keeps the bound, the head and the tail,
  and is stable on envelopes but not on plain text; a result is ok exactly when it has no error
  code; the categories stored by the constructors agree with the table, with one exception.
\<close>

section \<open>Outputs of commands\<close>

definition STDOUT_LINE :: ustring where "STDOUT_LINE = [26631, 20934, 36755, 20986, 65306]"

definition STDERR_LINE :: ustring where "STDERR_LINE = [26631, 20934, 38169, 35823, 65306]"

definition strip_leading_command_invocation_line :: "ustring \<Rightarrow> ustring" where
  "strip_leading_command_invocation_line output =
     (let s = trim_start output in
      case find_sub s [10] of
        Some idx \<Rightarrow>
          (let first = trim (take idx s) in
           if starts_with first [21629, 20196, 65306] then trim_start (drop (idx + 1) s) else s)
      | None \<Rightarrow> s)"

definition parse_exit_code :: "ustring \<Rightarrow> int option" where
  "parse_exit_code l =
     (case strip_prefix l [36864, 20986, 30721, 65306] of
        Some rest \<Rightarrow> parse_i32 (trim rest)
      | None \<Rightarrow>
          (case find_sub l (lit ''(exit='') of
             None \<Rightarrow> None
           | Some idx \<Rightarrow>
               (let rest = drop (idx + length (lit ''(exit='')) l in
                case find_sub rest (lit '')'') of
                  None \<Rightarrow> None
                | Some end_idx \<Rightarrow> parse_i32 (trim (take end_idx rest)))))"

fun exit_code_scan :: "int option \<Rightarrow> ustring list \<Rightarrow> int option" where
  "exit_code_scan found [] = None"
| "exit_code_scan found (l # ls) =
     (let t = trim l in
      if t = STDOUT_LINE \<or> t = STDERR_LINE then found
      else exit_code_scan (if found = None then parse_exit_code t else found) ls)"

definition exit_code_in_header_region :: "ustring \<Rightarrow> int option" where
  "exit_code_in_header_region output = exit_code_scan None (lines output)"

definition looks_like_failure :: "ustring \<Rightarrow> bool" where
  "looks_like_failure l \<longleftrightarrow>
     l \<noteq> [] \<and>
     (starts_with l [38169, 35823] \<or> starts_with l [26410, 30693, 24037, 20855] \<or> starts_with l [21442, 25968, 35299, 26512, 38169, 35823] \<or>
      starts_with l [25191, 34892, 22833, 36133] \<or> str_contains l [22833, 36133] \<or> str_contains l [36229, 26102])"

definition extract_streams :: "ustring \<Rightarrow> ustring \<times> ustring" where
  "extract_streams output =
     (let out_mark = STDOUT_LINE @ [10]; err_mark = STDERR_LINE @ [10] in
      ((case find_sub output out_mark of
          Some pos \<Rightarrow>
            (let rest = drop (pos + length out_mark) output in
             trim (case find_sub rest err_mark of Some i \<Rightarrow> take i rest | None \<Rightarrow> rest))
        | None \<Rightarrow> []),
       (case find_sub output err_mark of Some pos \<Rightarrow> trim (drop (pos + length err_mark) output) | None \<Rightarrow> [])))"

definition is_invocation_terminator :: "ustring \<Rightarrow> bool" where
  "is_invocation_terminator l \<longleftrightarrow>
     l = STDOUT_LINE \<or> l = STDERR_LINE \<or> l = (lit ''('' @ [26080, 36755, 20986] @ lit '')'') \<or> starts_with l [36864, 20986, 30721, 65306]"

definition split_inclusive :: "ustring \<Rightarrow> ustring list" where
  "split_inclusive s =
     (let ps = split_char 10 s in map (\<lambda>p. p @ [10]) (butlast ps) @ (if last ps = [] then [] else [last ps]))"

definition strip_newline :: "ustring \<Rightarrow> ustring" where
  "strip_newline l = (if l \<noteq> [] \<and> last l = 10 then butlast l else l)"

fun invocation_loop :: "ustring \<Rightarrow> ustring list \<Rightarrow> ustring \<times> ustring" where
  "invocation_loop invocation [] = (invocation, [])"
| "invocation_loop invocation (l # ls) =
     (if is_invocation_terminator (trim (strip_newline l)) then (invocation, concat (l # ls))
      else invocation_loop ((if invocation \<noteq> [] then invocation @ [10] else invocation) @ strip_newline l) ls)"

definition split_invocation_and_body :: "ustring \<Rightarrow> ustring \<times> ustring" where
  "split_invocation_and_body raw_output =
     (case find_sub raw_output [21629, 20196, 65306] of
        None \<Rightarrow> ([], raw_output)
      | Some pos \<Rightarrow>
          (case invocation_loop [] (split_inclusive (drop (pos + length ([21629, 20196, 65306] :: ustring)) raw_output)) of
             (invocation, body) \<Rightarrow> (trim invocation, body)))"

definition first_trimmed :: "ustring \<Rightarrow> ustring" where
  "first_trimmed body = trim (unwrap_or (first_line body) [])"

definition json_int :: "int \<Rightarrow> Value" where
  "json_int i = Number (if 0 \<le> i then PosInt (nat i) else NegInt i)"

definition run_command_structured_payload :: "ustring \<Rightarrow> Value" where
  "run_command_structured_payload raw_output =
     (case split_invocation_and_body raw_output of
        (invocation, body) \<Rightarrow>
          let first = first_trimmed body;
              exit_code = or_option (parse_exit_code first) (exit_code_in_header_region raw_output);
              ok = (case exit_code of Some code \<Rightarrow> code = 0 | None \<Rightarrow> \<not> looks_like_failure first);
              (stdout, stderr) = extract_streams raw_output in
          Object (obj_of
            [(lit ''kind'', String (lit ''crabmate_structured_payload'')),
             (lit ''tool'', String (lit ''run_command'')),
             (lit ''version'', Number (PosInt 1)),
             (lit ''schema'', String (lit ''run_command_exit_v1'')),
             (lit ''invocation'', String invocation),
             (lit ''ok'', Bool ok),
             (lit ''exit_code'', (case exit_code of Some i \<Rightarrow> json_int i | None \<Rightarrow> Null)),
             (lit ''stdout_nonempty'', Bool (stdout \<noteq> [])),
             (lit ''stderr_nonempty'', Bool (stderr \<noteq> []))]))"

section \<open>The header line\<close>

record CrabmateToolOutputMeta =
  meta_kind :: ustring
  meta_tool :: "ustring option"
  meta_ok :: "bool option"
  meta_error_code :: "ustring option"
  meta_preview :: "ustring option"

text \<open>An optional field: absent or null is \<open>Some None\<close>, a value of the wrong type is \<open>None\<close>.\<close>

definition optional_field :: "(Value \<Rightarrow> 'a option) \<Rightarrow> Value option \<Rightarrow> 'a option option" where
  "optional_field conv v =
     (case v of None \<Rightarrow> Some None | Some Null \<Rightarrow> Some None | Some w \<Rightarrow> map_option Some (conv w))"

definition meta_of_fields :: "Value option \<Rightarrow> Value option \<Rightarrow> Value option \<Rightarrow> Value option \<Rightarrow> Value option \<Rightarrow>
    CrabmateToolOutputMeta option" where
  "meta_of_fields kind tool ok_field error_code preview =
     and_then (and_then kind as_str) (\<lambda>k.
     and_then (optional_field as_str tool) (\<lambda>t.
     and_then (optional_field as_bool ok_field) (\<lambda>b.
     and_then (optional_field as_str error_code) (\<lambda>e.
     and_then (optional_field as_str preview) (\<lambda>p.
       Some \<lparr>meta_kind = k, meta_tool = t, meta_ok = b, meta_error_code = e, meta_preview = p\<rparr>)))))"

definition meta_of_value :: "Value \<Rightarrow> CrabmateToolOutputMeta option" where
  "meta_of_value v =
     (case v of
        Object m \<Rightarrow> meta_of_fields (map_of m (lit ''kind'')) (map_of m (lit ''tool'')) (map_of m (lit ''ok''))
          (map_of m (lit ''error_code'')) (map_of m (lit ''preview''))
      | Array xs \<Rightarrow>
          if length xs > 5 then None
          else meta_of_fields (get_index v 0) (get_index v 1) (get_index v 2) (get_index v 3) (get_index v 4)
      | _ \<Rightarrow> None)"

definition is_crabmate_tool_output :: "CrabmateToolOutputMeta \<Rightarrow> bool" where
  "is_crabmate_tool_output meta \<longleftrightarrow> meta_kind meta = lit ''crabmate_tool_output''"

definition is_workspace_write_diff :: "CrabmateToolOutputMeta \<Rightarrow> bool" where
  "is_workspace_write_diff meta \<longleftrightarrow> meta_preview meta = Some (lit ''workspace_write_diff'')"

definition parse_line :: "json_lib \<Rightarrow> ustring \<Rightarrow> CrabmateToolOutputMeta option" where
  "parse_line jl first = filter_option is_crabmate_tool_output (and_then (json_ok jl first) meta_of_value)"

text \<open>The header that producers put before the text; \<^verbatim>\<open>fs\<close> are the flattened fields of the tool.\<close>

record CrabmateToolOutputEnvelope =
  out_kind :: ustring
  out_tool :: ustring
  out_version :: nat
  out_ok :: "bool option"
  out_error_code :: "ustring option"
  out_fields :: json_object

definition new_with_ok_and_error_code :: "ustring \<Rightarrow> json_object \<Rightarrow> bool option \<Rightarrow> ustring option \<Rightarrow> CrabmateToolOutputEnvelope" where
  "new_with_ok_and_error_code tool fs ok_field error_code =
     \<lparr>out_kind = lit ''crabmate_tool_output'', out_tool = tool, out_version = 1, out_ok = ok_field, out_error_code = error_code,
      out_fields = fs\<rparr>"

definition insert_opt :: "ustring \<Rightarrow> Value option \<Rightarrow> json_object \<Rightarrow> json_object" where
  "insert_opt key v ct = (case v of Some x \<Rightarrow> obj_insert key x ct | None \<Rightarrow> ct)"

definition to_json_value :: "CrabmateToolOutputEnvelope \<Rightarrow> Value" where
  "to_json_value e =
     Object (foldl (\<lambda>m (k, v). obj_insert k v m)
       (insert_opt (lit ''error_code'') (map_option String (out_error_code e))
         (insert_opt (lit ''ok'') (map_option Bool (out_ok e))
           (obj_of [(lit ''kind'', String (out_kind e)), (lit ''tool'', String (out_tool e)),
                    (lit ''version'', Number (PosInt (out_version e)))])))
       (out_fields e))"

definition prepend_crabmate_tool_output :: "json_lib \<Rightarrow> ustring \<Rightarrow> json_object \<Rightarrow> ustring \<Rightarrow> ustring" where
  "prepend_crabmate_tool_output jl tool fs body =
     jl_to_string jl (to_json_value (new_with_ok_and_error_code tool fs None None)) @ [10] @ body"

definition prepend_crabmate_tool_output_with_ok_and_error_code ::
    "json_lib \<Rightarrow> ustring \<Rightarrow> bool \<Rightarrow> ustring option \<Rightarrow> json_object \<Rightarrow> ustring \<Rightarrow> ustring" where
  "prepend_crabmate_tool_output_with_ok_and_error_code jl tool ok error_code fs body =
     jl_to_string jl (to_json_value (new_with_ok_and_error_code tool fs (Some ok) error_code)) @ [10] @ body"

section \<open>Success and error codes\<close>

record ParsedToolOutput =
  po_ok :: bool
  po_exit_code :: "int option"
  po_stdout :: ustring
  po_stderr :: ustring
  po_error_code :: "ustring option"

record ToolResult =
  tr_ok :: bool
  tr_exit_code :: "int option"
  tr_message :: ustring
  tr_stdout :: ustring
  tr_stderr :: ustring
  tr_error_code :: "ustring option"

definition is_tool_output_header :: "json_lib \<Rightarrow> ustring \<Rightarrow> bool" where
  "is_tool_output_header jl first \<longleftrightarrow>
     parse_line jl first \<noteq> None \<or> str_contains first ([34] @ lit ''kind'' @ [34] @ lit '':'' @ [34] @ lit ''crabmate_tool_output'' @ [34])"

definition body_after_header_looks_like_failure :: "ustring \<Rightarrow> bool" where
  "body_after_header_looks_like_failure body = list_ex (\<lambda>l. looks_like_failure (trim l)) (drop 1 (lines body))"

definition structured_header_output_ok :: "CrabmateToolOutputMeta \<Rightarrow> ustring \<Rightarrow> bool" where
  "structured_header_output_ok header body =
     (case meta_ok header of
        Some ok \<Rightarrow> ok
      | None \<Rightarrow> if is_workspace_write_diff header then \<not> body_after_header_looks_like_failure body else True)"

definition extract_error_code_marker :: "ustring \<Rightarrow> ustring option" where
  "extract_error_code_marker l =
     and_then (strip_prefix l ([38169, 35823] @ lit ''['')) (\<lambda>rest.
     and_then (find_sub rest (lit '']'')) (\<lambda>end_idx.
       let code = take end_idx rest in
       if code = [] \<or> \<not> list_all (\<lambda>c. 97 \<le> c \<and> c \<le> 122 \<or> 48 \<le> c \<and> c \<le> 57 \<or> c = 95) code then None else Some code))"

definition classify_error_code :: "ustring \<Rightarrow> ustring \<Rightarrow> ustring" where
  "classify_error_code l tool_name =
     (case extract_error_code_marker l of
        Some code \<Rightarrow> code
      | None \<Rightarrow>
          if str_contains l [26816, 27979, 21040, 21516, 21629, 20196, 37325, 22797, 22833, 36133] then lit ''repeated_tool_failure_short_circuit''
          else if str_contains l [26816, 27979, 21040, 21516, 31867, 22833, 36133, 24050, 21457, 29983] then lit ''repeated_tool_family_failure_short_circuit''
          else if str_contains l [21442, 25968, 35299, 26512, 38169, 35823] then lit ''invalid_args''
          else if str_contains l [26657, 39564, 22833, 36133, 65288] then lit ''write_precheck_failed''
          else if str_contains l ([21442, 25968, 19982, 24037, 20855] @ lit '' JSON Schema'') then lit ''invalid_args''
          else if str_contains l [19981, 20801, 35768, 30340, 21629, 20196] then lit ''command_not_allowed''
          else if str_contains l [26410, 35774, 32622, 24037, 20316, 21306] then lit ''workspace_not_set''
          else if str_contains l [36229, 26102] then lit ''timeout''
          else if starts_with l [26410, 30693, 24037, 20855] then lit ''unknown_tool''
          else tool_name @ lit ''_failed'')"

definition parse_tool_output :: "json_lib \<Rightarrow> ustring \<Rightarrow> ustring \<Rightarrow> ParsedToolOutput" where
  "parse_tool_output jl tool_name output =
     (let body = strip_leading_command_invocation_line output;
          first = first_trimmed body;
          exit_code = or_option (parse_exit_code first) (exit_code_in_header_region output);
          (stdout, stderr) = extract_streams output;
          header = parse_line jl first;
          ok = (case header of
                  Some h \<Rightarrow> structured_header_output_ok h body
                | None \<Rightarrow>
                    if is_tool_output_header jl first then \<not> body_after_header_looks_like_failure body
                    else case exit_code of Some code \<Rightarrow> code = 0 | None \<Rightarrow> \<not> looks_like_failure first);
          error_code = (if ok then None
                else or_option (filter_option (\<lambda>code. code \<noteq> []) (and_then header meta_error_code))
                       (Some (classify_error_code first tool_name))) in
      \<lparr>po_ok = ok, po_exit_code = exit_code, po_stdout = stdout, po_stderr = stderr, po_error_code = error_code\<rparr>)"

definition tool_result_from_parsed :: "ustring \<Rightarrow> ParsedToolOutput \<Rightarrow> ToolResult" where
  "tool_result_from_parsed output parsed =
     \<lparr>tr_ok = po_ok parsed, tr_exit_code = po_exit_code parsed, tr_message = output, tr_stdout = po_stdout parsed,
      tr_stderr = po_stderr parsed, tr_error_code = po_error_code parsed\<rparr>"

definition from_output :: "json_lib \<Rightarrow> ustring \<Rightarrow> ustring \<Rightarrow> ToolResult" where
  "from_output jl tool_name output = tool_result_from_parsed output (parse_tool_output jl tool_name output)"

definition tool_error_retryable_heuristic :: "ustring option \<Rightarrow> bool" where
  "tool_error_retryable_heuristic error_code =
     (error_code \<in> Some ` lit ` {''timeout'', ''http_timeout'', ''rate_limited'', ''workflow_tool_join_error'',
        ''workflow_semaphore_closed'', ''workflow_node_missing_result''})"

section \<open>Structured payloads\<close>

text \<open>\<^verbatim>\<open>str::rfind\<close>.\<close>

definition rfind_sub :: "ustring \<Rightarrow> ustring \<Rightarrow> nat option" where
  "rfind_sub s p = find (\<lambda>i. starts_with (drop i s) p) (rev [0 ..< Suc (length s)])"

definition parse_title_exit_prefix_line :: "ustring \<Rightarrow> (ustring \<times> int) option" where
  "parse_title_exit_prefix_line line =
     and_then (rfind_sub line (lit '' (exit='')) (\<lambda>idx.
       let after = drop (idx + length (lit '' (exit=''))  line in
       and_then (find_sub after (lit '')'')) (\<lambda>end_paren.
       and_then (parse_i32 (trim (take end_paren after))) (\<lambda>code.
         let rest = trim_start (drop (end_paren + 1) after) in
         if \<not> starts_with rest (lit '':'') then None else Some (trim (take idx line), code))))"

definition subprocess_exit_v1_payload :: "ustring \<Rightarrow> ustring \<Rightarrow> Value option" where
  "subprocess_exit_v1_payload tool_name raw_output =
     and_then (map_option trim (first_line raw_output)) (\<lambda>first.
     map_option (\<lambda>(title, exit_code). Object (obj_of
       [(lit ''kind'', String (lit ''crabmate_structured_payload'')),
        (lit ''tool'', String tool_name),
        (lit ''version'', Number (PosInt 1)),
        (lit ''schema'', String (lit ''subprocess_exit_v1'')),
        (lit ''title'', String title),
        (lit ''exit_code'', json_int exit_code),
        (lit ''ok'', Bool (exit_code = 0))]))
       (parse_title_exit_prefix_line first))"

definition HTTP_TOOL_FAILURE_PREFIXES :: "ustring list" where
  "HTTP_TOOL_FAILURE_PREFIXES =
     [[38169, 35823, 65306], ([38169, 35823] @ lit ''[''), ([35831, 27714, 22833, 36133] @ lit '':''), ([35835, 21462, 21709, 24212, 20307, 22833, 36133] @ lit '':''), (lit ''HTTP '' @ [23458, 25143, 31471, 26500, 24314, 22833, 36133]), (lit ''json_body '' @ [24207, 21015, 21270, 22833, 36133])]"

text \<open>\<^verbatim>\<open>method\<close>, \<^verbatim>\<open>request_url\<close> and \<^verbatim>\<open>status_line\<close>.\<close>

type_synonym http_v1_fields = "ustring option \<times> ustring option \<times> ustring option"

definition capture_http_v1_field :: "http_v1_fields \<Rightarrow> ustring \<Rightarrow> http_v1_fields" where
  "capture_http_v1_field captured t =
     (case captured of
        (http_method, request_url, status_line) \<Rightarrow>
          (case strip_prefix t (lit ''method:'') of
             Some rest \<Rightarrow> (Some (trim rest), request_url, status_line)
           | None \<Rightarrow>
               (case strip_prefix t ([35831, 27714] @ lit '' URL:'') of
                  Some rest \<Rightarrow> (http_method, Some (trim rest), status_line)
                | None \<Rightarrow>
                    (case strip_prefix t ([29366, 24577] @ lit '':'') of
                       Some rest \<Rightarrow> (http_method, request_url, Some (trim rest))
                     | None \<Rightarrow> captured))))"

definition http_tool_response_v1_payload :: "ustring \<Rightarrow> ustring \<Rightarrow> Value option" where
  "http_tool_response_v1_payload tool_name raw_output =
     (if list_ex (starts_with raw_output) HTTP_TOOL_FAILURE_PREFIXES \<or>
         str_contains raw_output ([26410, 21305, 37197, 37197, 32622, 30340] @ lit '' http_fetch_allowed_prefixes'')
      then None
      else case foldl (\<lambda>f l. capture_http_v1_field f (trim l)) (None, None, None) (lines raw_output) of
        (http_method, request_url, status_line) \<Rightarrow>
          and_then status_line (\<lambda>status_text.
            let status_code = and_then (first_token status_text) (parse_unsigned 65535);
                ok = (case status_code of Some c \<Rightarrow> 200 \<le> c \<and> c < 300 | None \<Rightarrow> False) in
            and_then http_method (\<lambda>meth.
            and_then request_url (\<lambda>url. Some (Object (obj_of
              [(lit ''kind'', String (lit ''crabmate_structured_payload'')),
               (lit ''tool'', String tool_name),
               (lit ''version'', Number (PosInt 1)),
               (lit ''schema'', String (lit ''http_tool_response_v1'')),
               (lit ''method'', String meth),
               (lit ''request_url'', String url),
               (lit ''http_status'', String status_text),
               (lit ''http_status_code'', (case status_code of Some c \<Rightarrow> Number (PosInt c) | None \<Rightarrow> Null)),
               (lit ''ok'', Bool ok)]))))))"

definition structured_payload_for_tool :: "ustring \<Rightarrow> ustring \<Rightarrow> Value option" where
  "structured_payload_for_tool tool_name raw_output =
     (if tool_name = lit ''run_command'' then Some (run_command_structured_payload raw_output)
      else if tool_name = lit ''http_fetch'' \<or> tool_name = lit ''http_request''
      then http_tool_response_v1_payload tool_name raw_output
      else if starts_with tool_name (lit ''cargo_'') then subprocess_exit_v1_payload tool_name raw_output
      else None)"

section \<open>Failure categories\<close>

datatype ToolFailureCategory = InvalidInput | PolicyDenied | Workspace | Timeout | External | Internal | Unknown

fun category_as_str :: "ToolFailureCategory \<Rightarrow> ustring" where
  "category_as_str InvalidInput = lit ''invalid_input''"
| "category_as_str PolicyDenied = lit ''policy_denied''"
| "category_as_str Workspace = lit ''workspace''"
| "category_as_str Timeout = lit ''timeout''"
| "category_as_str External = lit ''external''"
| "category_as_str Internal = lit ''internal''"
| "category_as_str Unknown = lit ''unknown''"

definition ends_with :: "ustring \<Rightarrow> ustring \<Rightarrow> bool" where
  "ends_with s p \<longleftrightarrow> length p \<le> length s \<and> drop (length s - length p) s = p"

definition one_of :: "ustring \<Rightarrow> string list \<Rightarrow> bool" where
  "one_of code names \<longleftrightarrow> code \<in> set (map lit names)"

definition failure_category_for_error_code :: "ustring \<Rightarrow> ToolFailureCategory" where
  "failure_category_for_error_code code =
     (if one_of code [''invalid_args'', ''json_parse'', ''args_not_array'', ''missing_command'', ''unsafe_arg'', ''cd_prefix_invalid'']
      then InvalidInput
      else if one_of code [''unknown_tool''] then Unknown
      else if one_of code [''command_not_allowed'', ''command_denied'', ''approval_denied'', ''approval_required'',
        ''repeated_tool_failure_short_circuit'', ''repeated_tool_family_failure_short_circuit''] then PolicyDenied
      else if one_of code [''workflow_semaphore_closed'', ''workflow_node_missing_result'', ''workflow_tool_join_error''] then External
      else if one_of code [''workspace_not_set'', ''workspace_no_cargo_toml'', ''codebase_semantic_unconfigured'', ''git_not_a_repo'']
      then Workspace
      else if one_of code [''timeout''] then Timeout
      else if one_of code [''cancelled''] then Timeout
      else if one_of code [''http_timeout''] then Timeout
      else if one_of code [''http_network_error'', ''http_body_read_error''] then External
      else if one_of code [''http_fetch_url_not_allowed'', ''http_request_url_not_allowed''] then PolicyDenied
      else if one_of code [''http_client_failed''] then External
      else if one_of code [''weather_api_error'', ''web_search_api_error''] then External
      else if one_of code [''weather_city_not_found''] then InvalidInput
      else if one_of code [''web_search_not_configured''] then Workspace
      else if one_of code [''weather_client_failed'', ''weather_no_current_data'', ''web_search_client_failed'',
        ''web_search_browser_unavailable''] then External
      else if one_of code [''rate_limited''] then PolicyDenied
      else if one_of code [''command_not_found'', ''permission_denied'', ''spawn_failed'', ''cargo_spawn_failed''] then External
      else if one_of code [''read_file_invalid_range'', ''read_file_count_total_too_large''] then InvalidInput
      else if one_of code [''read_file_not_file'', ''read_file_io'', ''read_file_utf8_decode'', ''read_file_encoding'', ''read_file_internal'']
      then External
      else if starts_with code (lit ''read_file_workspace_'') then Workspace
      else if one_of code [''read_dir_path_not_dir'', ''glob_files_path_not_dir'', ''list_tree_path_not_dir'',
        ''read_binary_meta_path_not_file''] then InvalidInput
      else if one_of code [''read_dir_sensitive_path''] then PolicyDenied
      else if one_of code [''code_nav_path_absolute_not_allowed'', ''code_nav_path_parent_not_allowed'',
        ''code_nav_path_outside_workspace''] then PolicyDenied
      else if one_of code [''code_nav_path_not_file'', ''code_nav_path_not_rust_file''] then InvalidInput
      else if one_of code [''code_nav_workspace_resolve_failed''] then Workspace
      else if one_of code [''code_nav_search_failed'', ''code_nav_read_failed''] then External
      else if one_of code [''code_nav_regex_failed''] then Internal
      else if one_of code [''codebase_semantic_workspace_resolve_failed'', ''codebase_semantic_requires_fastembed''] then Workspace
      else if one_of code [''codebase_semantic_index_failed''] then External
      else if one_of code [''python_snippet_temp_path_outside_workspace''] then PolicyDenied
      else if one_of code [''read_dir_workspace_resolve_failed'', ''glob_files_workspace_resolve_failed'',
        ''glob_files_workspace_root_resolve_failed'', ''list_tree_workspace_resolve_failed'',
        ''list_tree_workspace_root_resolve_failed'', ''read_binary_meta_workspace_resolve_failed''] then Workspace
      else if one_of code [''read_dir_io_failed'', ''glob_files_io_failed'', ''list_tree_io_failed'', ''read_binary_meta_io_failed'']
      then External
      else if one_of code [''write_precheck_failed''] then InvalidInput
      else if one_of code [''search_in_files_invalid_regex'', ''search_in_files_invalid_glob'', ''regex_test_invalid_regex''] then InvalidInput
      else if one_of code [''search_in_files_workspace_base_resolve_failed'', ''search_in_files_workspace_subpath_resolve_failed'',
        ''search_in_files_workspace_outside_root'', ''search_in_files_path_absolute_not_allowed'',
        ''markdown_check_links_workspace_failed'', ''structured_diff_path_a_resolve_failed'',
        ''structured_diff_path_b_resolve_failed'', ''tool_context_incomplete''] then Workspace
      else if one_of code [''text_diff_io_failed'', ''table_text_io_failed'', ''table_text_parse_failed'', ''markdown_check_links_failed'',
        ''structured_io_failed'', ''structured_parse_failed'', ''structured_patch_write_failed'', ''structured_patch_parse_failed'',
        ''structured_patch_serialize_failed''] then External
      else if one_of code [''archive_not_found'', ''archive_pack_failed'', ''archive_unpack_failed'', ''archive_list_failed''] then External
      else if one_of code [''rust_analyzer_file_not_found'', ''rust_analyzer_read_failed'', ''rust_analyzer_spawn_failed'',
        ''rust_analyzer_lsp_failed''] then External
      else if one_of code [''rust_analyzer_workspace_resolve_failed''] then Workspace
      else if one_of code [''reminder_not_found'', ''event_not_found''] then InvalidInput
      else if one_of code [''schedule_io_failed'', ''schedule_parse_failed''] then External
      else if ends_with code (lit ''_serialize_failed'') \<or> ends_with code (lit ''_internal'') then Internal
      else if ends_with code (lit ''_failed'') then External
      else Unknown)"

section \<open>Errors of tools\<close>

record ToolError =
  te_category :: ToolFailureCategory
  te_code :: ustring
  te_message :: ustring
  te_retryable :: bool
  te_parsed :: ParsedToolOutput

definition parsed_failure :: "int option \<Rightarrow> ustring \<Rightarrow> ParsedToolOutput" where
  "parsed_failure exit_code code =
     \<lparr>po_ok = False, po_exit_code = exit_code, po_stdout = [], po_stderr = [], po_error_code = Some code\<rparr>"

definition from_parsed :: "ustring \<Rightarrow> ParsedToolOutput \<Rightarrow> ustring \<Rightarrow> ToolError" where
  "from_parsed tool_name parsed raw_output =
     (let code = unwrap_or (po_error_code parsed) (tool_name @ lit ''_failed'') in
      \<lparr>te_category = failure_category_for_error_code code, te_code = code, te_message = raw_output,
       te_retryable = tool_error_retryable_heuristic (po_error_code parsed), te_parsed = parsed\<rparr>)"

definition with_code :: "ustring \<Rightarrow> ustring \<Rightarrow> ToolError" where
  "with_code code message =
     \<lparr>te_category = failure_category_for_error_code code, te_code = code, te_message = message,
      te_retryable = tool_error_retryable_heuristic (Some code), te_parsed = parsed_failure None code\<rparr>"

definition invalid_args :: "ustring \<Rightarrow> ToolError" where
  "invalid_args message =
     \<lparr>te_category = InvalidInput, te_code = lit ''invalid_args'', te_message = message, te_retryable = False,
      te_parsed = parsed_failure None (lit ''invalid_args'')\<rparr>"

definition write_precheck_failed :: "json_lib \<Rightarrow> ustring \<Rightarrow> ustring \<Rightarrow> ToolError" where
  "write_precheck_failed jl tool message = from_parsed tool (parse_tool_output jl tool message) message"

definition workspace_error :: "ustring \<Rightarrow> ustring \<Rightarrow> ToolError" where
  "workspace_error code message = with_code code message"

definition unknown_tool :: "json_lib \<Rightarrow> ustring \<Rightarrow> ToolError" where
  "unknown_tool jl name =
     (let message = [26410, 30693, 24037, 20855, 65306] @ name in from_parsed name (parse_tool_output jl name message) message)"

definition rate_limited :: "ustring \<Rightarrow> ToolError" where
  "rate_limited message =
     \<lparr>te_category = PolicyDenied, te_code = lit ''rate_limited'', te_message = message, te_retryable = True,
      te_parsed = parsed_failure None (lit ''rate_limited'')\<rparr>"

definition approval_required :: "ustring \<Rightarrow> ToolError" where
  "approval_required message =
     \<lparr>te_category = PolicyDenied, te_code = lit ''approval_required'', te_message = message, te_retryable = False,
      te_parsed = parsed_failure None (lit ''approval_required'')\<rparr>"

definition subprocess_failed :: "ustring \<Rightarrow> int \<Rightarrow> ustring \<Rightarrow> ToolError" where
  "subprocess_failed tool_code exit_code message =
     (let code = tool_code @ lit ''_failed'' in
      \<lparr>te_category = External, te_code = code, te_message = message,
       te_retryable = tool_error_retryable_heuristic (Some code), te_parsed = parsed_failure (Some exit_code) code\<rparr>)"

definition subprocess_spawn_error :: "ustring \<Rightarrow> ustring \<Rightarrow> ToolError" where
  "subprocess_spawn_error title err =
     \<lparr>te_category = External, te_code = lit ''cargo_spawn_failed'', te_message = title @ (lit '': '' @ [25191, 34892, 22833, 36133, 65288]) @ err @ [65289],
      te_retryable = False, te_parsed = parsed_failure None (lit ''cargo_spawn_failed'')\<rparr>"

definition external_code_owned :: "ustring \<Rightarrow> ustring \<Rightarrow> ToolError" where
  "external_code_owned code message =
     \<lparr>te_category = failure_category_for_error_code code, te_code = code, te_message = message,
      te_retryable = tool_error_retryable_heuristic (Some code), te_parsed = parsed_failure None code\<rparr>"

definition internal_code :: "ustring \<Rightarrow> ustring \<Rightarrow> ToolError" where
  "internal_code code message =
     \<lparr>te_category = Internal, te_code = code, te_message = message, te_retryable = False, te_parsed = parsed_failure None code\<rparr>"

definition session_stop :: "json_lib \<Rightarrow> ustring \<Rightarrow> ustring \<Rightarrow> ToolError" where
  "session_stop jl code message =
     (let parsed = (parse_tool_output jl code message)\<lparr>po_ok := False, po_error_code := Some code\<rparr> in
      \<lparr>te_category = Timeout, te_code = code, te_message = message, te_retryable = (code = lit ''timeout''), te_parsed = parsed\<rparr>)"

section \<open>The envelope\<close>

record ToolEnvelopeContext =
  ec_tool_call_id :: ustring
  ec_execution_mode :: ustring
  ec_parallel_batch_id :: "ustring option"

record NormalizedToolEnvelope =
  envelope_version :: nat
  env_name :: ustring
  env_summary :: ustring
  env_output :: ustring
  env_ok :: bool
  env_exit_code :: "int option"
  env_error_code :: "ustring option"
  env_failure_category :: "ustring option"
  env_retryable :: "bool option"
  env_tool_call_id :: "ustring option"
  env_execution_mode :: "ustring option"
  env_parallel_batch_id :: "ustring option"
  output_truncated :: bool
  output_original_chars :: "nat option"
  output_kept_head_chars :: "nat option"
  output_kept_tail_chars :: "nat option"
  structured_payload :: "Value option"

definition category_text :: "ustring option \<Rightarrow> ustring option" where
  "category_text error_code = map_option (\<lambda>c. category_as_str (failure_category_for_error_code c)) error_code"

definition from_tool_run :: "ustring \<Rightarrow> ustring \<Rightarrow> ParsedToolOutput \<Rightarrow> ustring \<Rightarrow> ToolEnvelopeContext option \<Rightarrow>
    Value option \<Rightarrow> NormalizedToolEnvelope" where
  "from_tool_run tool_name summary parsed raw_output envelope_ctx payload =
     \<lparr>envelope_version = 1, env_name = tool_name, env_summary = summary, env_output = raw_output, env_ok = po_ok parsed,
      env_exit_code = po_exit_code parsed, env_error_code = po_error_code parsed,
      env_failure_category = (if po_ok parsed then None else category_text (po_error_code parsed)),
      env_retryable = (if po_ok parsed then None else Some (tool_error_retryable_heuristic (po_error_code parsed))),
      env_tool_call_id = map_option ec_tool_call_id envelope_ctx,
      env_execution_mode = map_option ec_execution_mode envelope_ctx,
      env_parallel_batch_id = and_then envelope_ctx ec_parallel_batch_id,
      output_truncated = False, output_original_chars = None, output_kept_head_chars = None, output_kept_tail_chars = None,
      structured_payload = payload\<rparr>"

text \<open>\<^verbatim>\<open>as i32\<close> of a 64-bit value.\<close>

definition wrap_i32 :: "int \<Rightarrow> int" where
  "wrap_i32 i = (i + 2 ^ 31) mod 2 ^ 32 - 2 ^ 31"

definition from_crabmate_object :: "json_lib \<Rightarrow> json_object \<Rightarrow> NormalizedToolEnvelope option" where
  "from_crabmate_object jl ct =
     (let str_field = (\<lambda>k. and_then (map_of ct (lit k)) as_str); u64_field = (\<lambda>k. and_then (map_of ct (lit k)) as_u64) in
      and_then (str_field ''name'') (\<lambda>name.
      and_then (str_field ''output'') (\<lambda>output.
        let ok = unwrap_or (and_then (map_of ct (lit ''ok'')) as_bool) (po_ok (parse_tool_output jl name output));
            error_code = str_field ''error_code'' in
        Some
          \<lparr>envelope_version = unwrap_or (map_option (\<lambda>u. u mod 2 ^ 32) (u64_field ''v'')) 1,
           env_name = name, env_summary = unwrap_or (str_field ''summary'') [], env_output = output, env_ok = ok,
           env_exit_code = map_option wrap_i32 (and_then (map_of ct (lit ''exit_code'')) as_i64),
           env_error_code = error_code,
           env_failure_category = or_option (str_field ''failure_category'') (if ok then None else category_text error_code),
           env_retryable = and_then (map_of ct (lit ''retryable'')) as_bool,
           env_tool_call_id = str_field ''tool_call_id'', env_execution_mode = str_field ''execution_mode'',
           env_parallel_batch_id = str_field ''parallel_batch_id'',
           output_truncated = (and_then (map_of ct (lit ''output_truncated'')) as_bool = Some True),
           output_original_chars = u64_field ''output_original_chars'',
           output_kept_head_chars = u64_field ''output_kept_head_chars'',
           output_kept_tail_chars = u64_field ''output_kept_tail_chars'',
           structured_payload = map_of ct (lit ''structured_payload'')\<rparr>)))"

definition normalize_tool_message_content :: "json_lib \<Rightarrow> ustring \<Rightarrow> NormalizedToolEnvelope option" where
  "normalize_tool_message_content jl content =
     and_then (json_ok jl (trim content)) (\<lambda>v.
     and_then (and_then (get_key v (lit ''crabmate_tool'')) as_object) (from_crabmate_object jl))"

definition to_crabmate_tool_map :: "NormalizedToolEnvelope \<Rightarrow> json_object" where
  "to_crabmate_tool_map e =
     insert_opt (lit ''structured_payload'') (structured_payload e)
    (insert_opt (lit ''output_kept_tail_chars'') (map_option (\<lambda>n. Number (PosInt n)) (output_kept_tail_chars e))
    (insert_opt (lit ''output_kept_head_chars'') (map_option (\<lambda>n. Number (PosInt n)) (output_kept_head_chars e))
    (insert_opt (lit ''output_original_chars'') (map_option (\<lambda>n. Number (PosInt n)) (output_original_chars e))
    (insert_opt (lit ''output_truncated'') (if output_truncated e then Some (Bool True) else None)
    (insert_opt (lit ''parallel_batch_id'') (map_option String (env_parallel_batch_id e))
    (insert_opt (lit ''execution_mode'') (map_option String (env_execution_mode e))
    (insert_opt (lit ''tool_call_id'') (map_option String (env_tool_call_id e))
    (insert_opt (lit ''retryable'') (map_option Bool (env_retryable e))
    (insert_opt (lit ''failure_category'') (map_option String (env_failure_category e))
    (insert_opt (lit ''error_code'') (map_option String (env_error_code e))
    (insert_opt (lit ''exit_code'') (map_option json_int (env_exit_code e))
    (obj_of
      [(lit ''v'', Number (PosInt (envelope_version e))), (lit ''name'', String (env_name e)),
       (lit ''summary'', String (env_summary e)), (lit ''ok'', Bool (env_ok e)),
       (lit ''output'', String (env_output e))]))))))))))))"

definition encode_to_message_line :: "json_lib \<Rightarrow> NormalizedToolEnvelope \<Rightarrow> ustring" where
  "encode_to_message_line jl e = jl_to_string jl (Object [(lit ''crabmate_tool'', Object (to_crabmate_tool_map e))])"

definition encode_tool_message_envelope_v1 :: "json_lib \<Rightarrow> ustring \<Rightarrow> ustring \<Rightarrow> ParsedToolOutput \<Rightarrow> ustring \<Rightarrow>
    ToolEnvelopeContext option \<Rightarrow> ustring" where
  "encode_tool_message_envelope_v1 jl tool_name summary parsed raw_output envelope_ctx =
     encode_to_message_line jl
       (from_tool_run tool_name summary parsed raw_output envelope_ctx (structured_payload_for_tool tool_name raw_output))"

definition tool_message_payload_for_inner_parse :: "json_lib \<Rightarrow> ustring \<Rightarrow> ustring" where
  "tool_message_payload_for_inner_parse jl content =
     (case normalize_tool_message_content jl content of Some env \<Rightarrow> env_output env | None \<Rightarrow> trim content)"

definition tool_message_content_ok_for_model :: "json_lib \<Rightarrow> ustring \<Rightarrow> ustring \<Rightarrow> bool" where
  "tool_message_content_ok_for_model jl content tool_name_fallback =
     (case normalize_tool_message_content jl content of
        Some env \<Rightarrow> env_ok env
      | None \<Rightarrow> po_ok (parse_tool_output jl tool_name_fallback (trim content)))"

section \<open>Compression\<close>

definition sample_separator :: "nat \<Rightarrow> ustring" where
  "sample_separator omitted =
     [10, 10] @ lit ''---'' @ [10] @ ([8230, 65288, 30465, 30053, 32422] @ lit '' '') @ show_nat omitted @ (lit '' '' @ [23383, 31526, 65289, 8230]) @ [10] @ lit ''---'' @ [10, 10]"

definition sample_note :: "nat \<Rightarrow> ustring" where
  "sample_note n =
     [10, 10] @ (lit ''['' @ [36755, 20986, 24050, 37319, 26679, 65306, 21407, 25991, 32422] @ lit '' '') @ show_nat n @
       (lit '' '' @ [23383, 31526, 65307, 20165, 39318, 23614, 29255, 27573, 36827, 20837, 27169, 22411, 19978, 19979, 25991, 65292, 21487, 25353, 36335, 24452, 32553, 23567, 33539, 22260, 25110, 20998, 39029, 35835, 21462, 21518, 37325, 35797, 12290] @ lit '']'')"

definition tool_output_head_tail_sample :: "ustring \<Rightarrow> nat \<Rightarrow> ustring \<times> nat \<times> nat" where
  "tool_output_head_tail_sample original max_output_chars =
     (let total = length original;
          inner_budget = max (max_output_chars - 160) 16;
          half = inner_budget div 2;
          head_n = min (max half 1) (inner_budget - 1);
          tail_n = max (inner_budget - head_n) 1;
          omitted = total - (head_n + tail_n) in
      (take head_n original @ sample_separator omitted @ drop (total - tail_n) original @ sample_note total, head_n, tail_n))"

definition maybe_compress_tool_message_content :: "json_lib \<Rightarrow> ustring \<Rightarrow> nat \<Rightarrow> ustring option" where
  "maybe_compress_tool_message_content jl content max_chars0 =
     (let max_chars = max max_chars0 256; total_chars = length content in
      if total_chars \<le> max_chars then None
      else case normalize_tool_message_content jl content of
        Some env \<Rightarrow>
          (let out_chars = length (env_output env) in
           if out_chars > max_chars then
             (case tool_output_head_tail_sample (env_output env) max_chars of
                (sampled, head_n, tail_n) \<Rightarrow>
                  Some (encode_to_message_line jl (env\<lparr>env_output := sampled, output_truncated := True,
                    output_original_chars := Some out_chars, output_kept_head_chars := Some head_n,
                    output_kept_tail_chars := Some tail_n\<rparr>)))
           else None)
      | None \<Rightarrow> Some (take max_chars content @ [10, 10] @ (lit ''[... '' @ [24050, 25130, 26029, 65292, 21407, 22987, 32422] @ lit '' '') @ show_nat total_chars @ (lit '' '' @ [23383, 31526, 65292, 20445, 30041, 21069] @ lit '' '') @
                  show_nat max_chars @ (lit '' '' @ [23383, 31526] @ lit '' ...]'')))"

section \<open>Lemmas\<close>

lemma map_of_insert_opt [simp]:
  "map_of (insert_opt k v ct) k' = (if k' = k then (case v of Some x \<Rightarrow> Some x | None \<Rightarrow> map_of ct k') else map_of ct k')"
  by (simp add: insert_opt_def split: option.split)

lemma wrap_i32_id: "- (2 ^ 31) \<le> i \<Longrightarrow> i < 2 ^ 31 \<Longrightarrow> wrap_i32 i = i"
  by (simp add: wrap_i32_def mod_pos_pos_trivial)

lemma as_i64_json_int: "- (2 ^ 31) \<le> i \<Longrightarrow> i < 2 ^ 31 \<Longrightarrow> as_i64 (json_int i) = Some i"
  by (simp add: json_int_def)

text \<open>What every envelope the program writes satisfies: the widths of its numbers, and a category with a failure's code.\<close>

definition wf_envelope :: "NormalizedToolEnvelope \<Rightarrow> bool" where
  "wf_envelope e \<longleftrightarrow> envelope_version e < 2 ^ 32 \<and>
     (case env_exit_code e of Some i \<Rightarrow> - (2 ^ 31) \<le> i \<and> i < 2 ^ 31 | None \<Rightarrow> True) \<and>
     (env_failure_category e = None \<longrightarrow> env_ok e \<or> env_error_code e = None)"

lemma envelope_map_of:
  "map_of (to_crabmate_tool_map e) (lit ''v'') = Some (Number (PosInt (envelope_version e)))"
  "map_of (to_crabmate_tool_map e) (lit ''name'') = Some (String (env_name e))"
  "map_of (to_crabmate_tool_map e) (lit ''summary'') = Some (String (env_summary e))"
  "map_of (to_crabmate_tool_map e) (lit ''ok'') = Some (Bool (env_ok e))"
  "map_of (to_crabmate_tool_map e) (lit ''output'') = Some (String (env_output e))"
  "map_of (to_crabmate_tool_map e) (lit ''exit_code'') = map_option json_int (env_exit_code e)"
  "map_of (to_crabmate_tool_map e) (lit ''error_code'') = map_option String (env_error_code e)"
  "map_of (to_crabmate_tool_map e) (lit ''failure_category'') = map_option String (env_failure_category e)"
  "map_of (to_crabmate_tool_map e) (lit ''retryable'') = map_option Bool (env_retryable e)"
  "map_of (to_crabmate_tool_map e) (lit ''tool_call_id'') = map_option String (env_tool_call_id e)"
  "map_of (to_crabmate_tool_map e) (lit ''execution_mode'') = map_option String (env_execution_mode e)"
  "map_of (to_crabmate_tool_map e) (lit ''parallel_batch_id'') = map_option String (env_parallel_batch_id e)"
  "map_of (to_crabmate_tool_map e) (lit ''output_truncated'') = (if output_truncated e then Some (Bool True) else None)"
  "map_of (to_crabmate_tool_map e) (lit ''output_original_chars'') = map_option (\<lambda>n. Number (PosInt n)) (output_original_chars e)"
  "map_of (to_crabmate_tool_map e) (lit ''output_kept_head_chars'') = map_option (\<lambda>n. Number (PosInt n)) (output_kept_head_chars e)"
  "map_of (to_crabmate_tool_map e) (lit ''output_kept_tail_chars'') = map_option (\<lambda>n. Number (PosInt n)) (output_kept_tail_chars e)"
  "map_of (to_crabmate_tool_map e) (lit ''structured_payload'') = structured_payload e"
  by (simp_all add: to_crabmate_tool_map_def obj_of_def split: option.split)

lemma and_then_map_option: "and_then (map_option f x) g = and_then x (\<lambda>y. g (f y))"
  by (cases x) simp_all

lemma and_then_Some: "and_then x Some = x"
  by (cases x) simp_all

lemma exit_code_back:
  "(case x of Some i \<Rightarrow> - (2 ^ 31) \<le> i \<and> i < 2 ^ 31 | None \<Rightarrow> True) \<Longrightarrow>
   map_option wrap_i32 (and_then (map_option json_int x) as_i64) = x"
  by (cases x) (simp_all add: as_i64_json_int wrap_i32_id del: as_i64.simps)

lemma from_to_object: "wf_envelope e \<Longrightarrow> from_crabmate_object jl (to_crabmate_tool_map e) = Some e"
  unfolding wf_envelope_def
  by (cases e) (auto simp: from_crabmate_object_def envelope_map_of exit_code_back and_then_map_option and_then_Some category_text_def
      Let_def or_option_def
      as_i64_json_int wrap_i32_id split: option.splits)

text \<open>A JSON library that reads back what it prints, and prints nothing around it.\<close>

definition reads_back :: "json_lib \<Rightarrow> NormalizedToolEnvelope \<Rightarrow> bool" where
  "reads_back jl e \<longleftrightarrow> trim (encode_to_message_line jl e) = encode_to_message_line jl e \<and>
     jl_from_str jl (encode_to_message_line jl e) = Inr (Object [(lit ''crabmate_tool'', Object (to_crabmate_tool_map e))])"

lemma normalize_encode:
  assumes "reads_back jl e" "wf_envelope e"
  shows "normalize_tool_message_content jl (encode_to_message_line jl e) = Some e"
  using assms by (simp add: normalize_tool_message_content_def reads_back_def json_ok_def from_to_object)

lemma parse_i32_range: "parse_i32 s = Some i \<Longrightarrow> - (2 ^ 31) \<le> i \<and> i < 2 ^ 31"
  by (auto simp: parse_i32_def Let_def split: option.splits if_splits)

lemma parse_exit_code_range: "parse_exit_code s = Some i \<Longrightarrow> - (2 ^ 31) \<le> i \<and> i < 2 ^ 31"
  by (auto simp: parse_exit_code_def Let_def dest!: parse_i32_range split: option.splits)

lemma exit_code_scan_range:
  "exit_code_scan found ls = Some i \<Longrightarrow> (\<And>j. found = Some j \<Longrightarrow> - (2 ^ 31) \<le> j \<and> j < 2 ^ 31) \<Longrightarrow> - (2 ^ 31) \<le> i \<and> i < 2 ^ 31"
proof (induction found ls rule: exit_code_scan.induct)
  case (2 found l ls)
  show ?case
  proof (cases "trim l = STDOUT_LINE \<or> trim l = STDERR_LINE")
    case True
    then show ?thesis using "2.prems" by simp
  next
    case False
    show ?thesis
    proof (rule "2.IH")
      show "\<not> (trim l = STDOUT_LINE \<or> trim l = STDERR_LINE)" by (rule False)
      show "exit_code_scan (if found = None then parse_exit_code (trim l) else found) ls = Some i"
        using "2.prems"(1) False by (simp add: Let_def)
      show "- (2 ^ 31) \<le> j \<and> j < 2 ^ 31" if "(if found = None then parse_exit_code (trim l) else found) = Some j" for j
        using that "2.prems"(2) parse_exit_code_range by (auto split: if_splits)
    qed simp
  qed
qed simp

lemma parsed_exit_code_range:
  "po_exit_code (parse_tool_output jl name output) = Some i \<Longrightarrow> - (2 ^ 31) \<le> i \<and> i < 2 ^ 31"
  using parse_exit_code_range exit_code_scan_range [of None "lines output" i]
  by (auto simp: parse_tool_output_def Let_def or_option_def exit_code_in_header_region_def split: option.splits prod.splits)

lemma parsed_ok_iff: "po_ok (parse_tool_output jl name output) \<longleftrightarrow> po_error_code (parse_tool_output jl name output) = None"
  by (simp add: parse_tool_output_def Let_def or_option_def split: prod.split option.split)

lemma run_envelope_wf: "wf_envelope (from_tool_run name summary (parse_tool_output jl name output) output ctx payload)"
  using parsed_exit_code_range [of jl name "output"]
  by (simp add: wf_envelope_def from_tool_run_def category_text_def split: option.split)

lemma show_nat_length: "n < 10 ^ k \<Longrightarrow> 0 < k \<Longrightarrow> length (show_nat n) \<le> k"
proof (induction n arbitrary: k rule: show_nat.induct)
  case (1 n)
  show ?case
  proof (cases "n < 10")
    case False
    then obtain k' where k: "k = Suc k'" "0 < k'"
      using "1.prems" by (cases k; cases "k - 1") auto
    then have "n div 10 < 10 ^ k'" using "1.prems" by (simp add: less_mult_imp_div_less mult.commute)
    then show ?thesis using "1.IH" [OF False] k False by (simp add: show_nat.simps [of n])
  qed (use "1.prems" in simp)
qed

lemma sample_text_lengths:
  "length (sample_separator n) = 23 + length (show_nat n)" "length (sample_note n) = 48 + length (show_nat n)"
  by (simp_all add: sample_separator_def sample_note_def)

lemma sample_shape:
  assumes "tool_output_head_tail_sample original n = (sampled, h, t)" and "256 \<le> n" and "n < length original" and "length original < 2 ^ 64"
  shows "length sampled \<le> n \<and> h + t = n - 160 \<and> starts_with sampled (take h original) \<and>
    str_contains sampled (drop (length original - t) original)"
proof -
  let ?m = "max (n - 160) 16" and ?tail = "drop (length original - t) original"
  define left_out where "left_out = length original - (h + t)"
  have s: "sampled = take h original @ sample_separator left_out @ ?tail @ sample_note (length original)"
    and ht: "h = min (max (?m div 2) 1) (?m - 1)" "t = max (?m - h) 1"
    using assms(1) unfolding tool_output_head_tail_sample_def Let_def left_out_def by (auto simp only: prod.inject)
  have m: "?m = n - 160" using assms(2) by simp
  have h: "h = (n - 160) div 2" unfolding ht(1) m using assms(2) by linarith
  have sum: "h + t = n - 160" unfolding ht(2) m using h assms(2) by linarith
  have d: "length (show_nat k) \<le> 20" if "k \<le> length original" for k
    using show_nat_length [of k 20] that assms(4) by simp
  have "length sampled \<le> h + t + 71 + length (show_nat left_out) + length (show_nat (length original))"
    unfolding s by (simp add: sample_text_lengths)
  moreover have "length (show_nat left_out) \<le> 20" "length (show_nat (length original)) \<le> 20" using d by (simp_all add: left_out_def)
  ultimately have "length sampled \<le> n" using sum assms(2) by linarith
  moreover have "starts_with (drop (length (take h original @ sample_separator left_out)) sampled) ?tail"
    unfolding s by (simp add: starts_with_iff)
  then have "str_contains sampled ?tail" unfolding str_contains_def using find_sub_None by blast
  ultimately show ?thesis using sum unfolding s by (simp add: starts_with_iff)
qed

lemma wrap_i32_range: "- (2 ^ 31) \<le> wrap_i32 i \<and> wrap_i32 i < 2 ^ 31"
proof -
  have "0 \<le> (i + 2 ^ 31) mod 2 ^ 32 \<and> (i + 2 ^ 31) mod 2 ^ 32 < 2 ^ 32" by (intro conjI pos_mod_sign pos_mod_bound) simp_all
  then show ?thesis unfolding wrap_i32_def by simp
qed

lemma from_object_fields:
  assumes "from_crabmate_object jl ct = Some e"
  shows "\<exists>u x f. envelope_version e = unwrap_or (map_option (\<lambda>u. u mod 2 ^ 32) u) 1 \<and> env_exit_code e = map_option wrap_i32 x \<and>
    env_failure_category e = or_option f (if env_ok e then None else category_text (env_error_code e))"
  using assms unfolding from_crabmate_object_def Let_def bind_eq_Some_conv by (elim exE conjE) (clarsimp, blast)

lemma from_object_wf:
  assumes "from_crabmate_object jl ct = Some e"
  shows "wf_envelope e"
proof -
  obtain u x f where e: "envelope_version e = unwrap_or (map_option (\<lambda>u. u mod 2 ^ 32) u) 1" "env_exit_code e = map_option wrap_i32 x"
    "env_failure_category e = or_option f (if env_ok e then None else category_text (env_error_code e))"
    using from_object_fields [OF assms] by blast
  have "envelope_version e < 2 ^ 32" using e(1) by (cases u) simp_all
  moreover have "case env_exit_code e of Some i \<Rightarrow> - (2 ^ 31) \<le> i \<and> i < 2 ^ 31 | None \<Rightarrow> True"
    using e(2) wrap_i32_range by (cases x) simp_all
  moreover have "env_failure_category e = None \<longrightarrow> env_ok e \<or> env_error_code e = None"
    using e(3) by (cases f) (auto simp: category_text_def split: if_splits)
  ultimately show ?thesis by (simp add: wf_envelope_def)
qed

lemma normalized_wf: "normalize_tool_message_content jl content = Some e \<Longrightarrow> wf_envelope e"
  unfolding normalize_tool_message_content_def bind_eq_Some_conv using from_object_wf by blast

text \<open>The constructors of errors store the category of the table, except where they name another.\<close>

lemma constructor_categories:
  "te_category (from_parsed name p raw) = failure_category_for_error_code (te_code (from_parsed name p raw))"
  "te_category (with_code c m) = failure_category_for_error_code c"
  "te_category (external_code_owned c m) = failure_category_for_error_code c"
  "te_category (invalid_args m) = failure_category_for_error_code (lit ''invalid_args'')"
  "te_category (rate_limited m) = failure_category_for_error_code (lit ''rate_limited'')"
  "te_category (approval_required m) = failure_category_for_error_code (lit ''approval_required'')"
  "te_category (subprocess_spawn_error t m) = failure_category_for_error_code (lit ''cargo_spawn_failed'')"
  "te_category (session_stop jl (lit ''timeout'') m) = failure_category_for_error_code (lit ''timeout'')"
  "te_category (session_stop jl (lit ''cancelled'') m) = failure_category_for_error_code (lit ''cancelled'')"
  by (simp_all add: from_parsed_def with_code_def external_code_owned_def invalid_args_def rate_limited_def approval_required_def
      subprocess_spawn_error_def session_stop_def failure_category_for_error_code_def one_of_def Let_def)

text \<open>
  \<^verbatim>\<open>read_file\<close> reports its internal error as \<open>Internal\<close>, but the category recomputed from its code for the
  envelope is \<open>External\<close>: the code is listed before the rule for names that end in \<^verbatim>\<open>_internal\<close>.
\<close>

lemma read_file_internal_conflict:
  "te_category (internal_code (lit ''read_file_internal'') m) = Internal \<and>
   failure_category_for_error_code (lit ''read_file_internal'') = External"
  by (simp add: internal_code_def failure_category_for_error_code_def one_of_def)

text \<open>
  Plain text that was cut is longer than the limit again because of the note, so the next pass cuts it again and
  the note then names the length of the cut text as the original length.
\<close>

lemma plain_compression_repeats:
  assumes "normalize_tool_message_content jl content = None" and "normalize_tool_message_content jl c1 = None"
    and "maybe_compress_tool_message_content jl content n = Some c1"
  shows "\<exists>c2. maybe_compress_tool_message_content jl c1 n = Some c2 \<and> max n 256 < length c1 \<and>
    starts_with c2 (take (max n 256) content @ [10, 10] @ (lit ''[... '' @ [24050, 25130, 26029, 65292, 21407, 22987, 32422] @ lit '' '') @ show_nat (length c1))"
proof -
  let ?m = "max n 256"
  have len: "?m < length content" using assms(3) by (auto simp: maybe_compress_tool_message_content_def Let_def split: if_splits)
  then have c1: "c1 = take ?m content @ [10, 10] @ (lit ''[... '' @ [24050, 25130, 26029, 65292, 21407, 22987, 32422] @ lit '' '') @ show_nat (length content) @ (lit '' '' @ [23383, 31526, 65292, 20445, 30041, 21069] @ lit '' '') @
      show_nat ?m @ (lit '' '' @ [23383, 31526] @ lit '' ...]'')"
    using assms(1,3) unfolding maybe_compress_tool_message_content_def Let_def by (simp only: not_le [symmetric] if_False option.case option.inject)
  obtain rest where "c1 = take ?m content @ 10 # rest" using c1 by auto
  then have "?m < length c1" "take ?m c1 = take ?m content" using len by (simp_all del: max_less_iff_conj)
  then show ?thesis
    using assms(2) by (simp add: maybe_compress_tool_message_content_def Let_def starts_with_iff not_le del: max_less_iff_conj)
qed

section \<open>Properties\<close>

text \<open>
  C33: Nothing is lost between a tool run and the conversation: the envelope written for an output is read back
  field by field as it was written, the payload for further parsing is the raw output, and the
  success shown to the model is the success that was parsed from the output.
\<close>

theorem envelope_roundtrip:
  assumes "env = from_tool_run name summary (parse_tool_output jl name raw) raw ctx (structured_payload_for_tool name raw)"
    and "reads_back jl env"
  shows "normalize_tool_message_content jl (encode_tool_message_envelope_v1 jl name summary (parse_tool_output jl name raw) raw ctx) = Some env \<and>
    tool_message_payload_for_inner_parse jl (encode_tool_message_envelope_v1 jl name summary (parse_tool_output jl name raw) raw ctx) = raw \<and>
    tool_message_content_ok_for_model jl (encode_tool_message_envelope_v1 jl name summary (parse_tool_output jl name raw) raw ctx) fallback =
      (env_error_code env = None)"
proof -
  have "wf_envelope env" unfolding assms(1) by (rule run_envelope_wf)
  then have n: "normalize_tool_message_content jl (encode_to_message_line jl env) = Some env" using normalize_encode assms(2) by blast
  have "env_output env = raw" "env_ok env = (env_error_code env = None)"
    by (simp_all add: assms(1) from_tool_run_def parsed_ok_iff)
  then show ?thesis
    using n unfolding assms(1)
    by (simp add: encode_tool_message_envelope_v1_def tool_message_payload_for_inner_parse_def tool_message_content_ok_for_model_def)
qed

definition one_value_json :: "Value \<Rightarrow> json_lib" where
  "one_value_json v = \<lparr>jl_from_str = (\<lambda>s. if s = lit ''x'' then Inr v else Inl []), jl_to_string = (\<lambda>v. lit ''x'')\<rparr>"

lemma one_value_reads_back:
  "reads_back (one_value_json (Object [(lit ''crabmate_tool'', Object (to_crabmate_tool_map e))])) e"
  by (simp add: reads_back_def encode_to_message_line_def one_value_json_def trim_id lit_Cons is_whitespace_def)

definition sample_run_json :: json_lib where
  "sample_run_json = one_value_json (Object [(lit ''crabmate_tool'', Object (to_crabmate_tool_map
     (from_tool_run (lit ''t'') [] (parse_tool_output sample_json (lit ''t'') (lit ''hello'')) (lit ''hello'') None None)))])"

lemma sample_run_parse:
  "parse_tool_output sample_run_json (lit ''t'') (lit ''hello'') = parse_tool_output sample_json (lit ''t'') (lit ''hello'')"
proof -
  have f: "first_trimmed (strip_leading_command_invocation_line (lit ''hello'')) = lit ''hello''"
    by (simp add: first_trimmed_def strip_leading_command_invocation_line_def first_line_def trim_start_def trim_id lit_Cons
        is_whitespace_def starts_with_def Let_def)
  have "parse_line jl (lit ''hello'') = None" if "jl \<in> {sample_json, sample_run_json}" for jl
    using that by (auto simp: parse_line_def json_ok_def sample_json_def sample_run_json_def one_value_json_def filter_option_def)
  then show ?thesis by (simp add: parse_tool_output_def f is_tool_output_header_def)
qed

lemma sample_run_reads_back:
  "reads_back sample_run_json (from_tool_run (lit ''t'') [] (parse_tool_output sample_run_json (lit ''t'') (lit ''hello''))
     (lit ''hello'') None (structured_payload_for_tool (lit ''t'') (lit ''hello'')))"
proof -
  have p: "structured_payload_for_tool (lit ''t'') (lit ''hello'') = None"
    by (simp add: structured_payload_for_tool_def starts_with_def lit_Cons)
  show ?thesis unfolding p sample_run_parse unfolding sample_run_json_def by (rule one_value_reads_back)
qed

theorem envelope_roundtrip_witness:
  "tool_message_payload_for_inner_parse sample_run_json (encode_tool_message_envelope_v1 sample_run_json (lit ''t'') []
     (parse_tool_output sample_run_json (lit ''t'') (lit ''hello'')) (lit ''hello'') None) = lit ''hello''"
  using envelope_roundtrip [OF refl sample_run_reads_back] by blast

text \<open>
  Compressing an envelope keeps its output within the limit and records the truth about the cut: the first and the
  last characters of the original are still there, their numbers and the original length are in the
  envelope, every other field is unchanged, and a second pass leaves the message alone.
\<close>

theorem envelope_compression_stable:
  assumes "normalize_tool_message_content jl content = Some env" and "maybe_compress_tool_message_content jl content n = Some line"
    and "length (env_output env) < 2 ^ 64"
    and "tool_output_head_tail_sample (env_output env) (max n 256) = (sampled, h, t)"
    and "env' = env\<lparr>env_output := sampled, output_truncated := True, output_original_chars := Some (length (env_output env)),
      output_kept_head_chars := Some h, output_kept_tail_chars := Some t\<rparr>"
    and "reads_back jl env'"
  shows "normalize_tool_message_content jl line = Some env' \<and> length sampled \<le> max n 256 \<and> h + t = max n 256 - 160 \<and>
    starts_with sampled (take h (env_output env)) \<and>
    str_contains sampled (drop (length (env_output env) - t) (env_output env)) \<and>
    maybe_compress_tool_message_content jl line n = None"
proof -
  have long: "max n 256 < length (env_output env)" and line: "line = encode_to_message_line jl env'"
    using assms(1,2,4) unfolding assms(5)
    by (auto simp: maybe_compress_tool_message_content_def Let_def split: if_splits)
  have "wf_envelope env'" using normalized_wf [OF assms(1)] by (simp add: assms(5) wf_envelope_def)
  then have n: "normalize_tool_message_content jl line = Some env'" unfolding line using normalize_encode assms(6) by blast
  have s: "length sampled \<le> max n 256 \<and> h + t = max n 256 - 160 \<and> starts_with sampled (take h (env_output env)) \<and>
      str_contains sampled (drop (length (env_output env) - t) (env_output env))"
    by (rule sample_shape [OF assms(4) _ long assms(3)]) simp
  then have "maybe_compress_tool_message_content jl line n = None"
    using n by (simp add: maybe_compress_tool_message_content_def Let_def assms(5) not_less [symmetric] del: max_less_iff_conj)
  with s n show ?thesis by blast
qed

definition long_env :: NormalizedToolEnvelope where
  "long_env = from_tool_run (lit ''t'') [] \<lparr>po_ok = True, po_exit_code = None, po_stdout = [], po_stderr = [], po_error_code = None\<rparr>
     (replicate 300 97) None None"

definition cut_env :: NormalizedToolEnvelope where
  "cut_env = (case tool_output_head_tail_sample (env_output long_env) 256 of
     (sampled, h, t) \<Rightarrow> long_env\<lparr>env_output := sampled, output_truncated := True, output_original_chars := Some (length (env_output long_env)),
       output_kept_head_chars := Some h, output_kept_tail_chars := Some t\<rparr>)"

definition two_value_json :: json_lib where
  "two_value_json = \<lparr>jl_from_str = (\<lambda>s. Inr (Object [(lit ''crabmate_tool'', Object (to_crabmate_tool_map
     (if s = lit ''x'' then cut_env else long_env)))])), jl_to_string = (\<lambda>v. lit ''x'')\<rparr>"

theorem envelope_compression_stable_witness:
  "normalize_tool_message_content two_value_json (lit ''x'') = Some cut_env \<and> length (env_output cut_env) \<le> 256 \<and>
   maybe_compress_tool_message_content two_value_json (lit ''x'') 256 = None"
proof -
  obtain sampled h t where s: "tool_output_head_tail_sample (env_output long_env) (max 256 256) = (sampled, h, t)"
    using prod_cases3 by blast
  have x: "trim (lit ''x'') = lit ''x''" by (simp add: trim_id lit_Cons is_whitespace_def)
  have cut: "cut_env = long_env\<lparr>env_output := sampled, output_truncated := True, output_original_chars := Some (length (env_output long_env)),
       output_kept_head_chars := Some h, output_kept_tail_chars := Some t\<rparr>" using s by (simp add: cut_env_def)
  have "trim (replicate 300 97) = replicate 300 (97 :: nat)" by (rule trim_id) (simp_all add: is_whitespace_def)
  moreover have "wf_envelope long_env" by (simp add: long_env_def from_tool_run_def wf_envelope_def)
  moreover have "replicate 300 97 \<noteq> lit ''x''" using length_replicate [of 300 "97 :: nat"] by (auto simp: lit_Cons dest: arg_cong [of _ _ length])
  ultimately have norm: "normalize_tool_message_content two_value_json (replicate 300 97) = Some long_env"
    by (simp add: normalize_tool_message_content_def two_value_json_def json_ok_def from_to_object)
  have rb: "reads_back two_value_json cut_env"
    by (simp add: reads_back_def encode_to_message_line_def two_value_json_def x)
  have out: "length (env_output long_env) = 300" by (simp add: long_env_def from_tool_run_def)
  have line: "maybe_compress_tool_message_content two_value_json (replicate 300 97) 256 = Some (lit ''x'')"
    using norm s out by (simp add: maybe_compress_tool_message_content_def Let_def encode_to_message_line_def two_value_json_def)
  have "env_output cut_env = sampled" unfolding cut by simp
  then show ?thesis
    using envelope_compression_stable [OF norm line _ s cut rb] out by simp
qed
end
