(* ===== verification/Permission_Level.thy ===== *)
theory Permission_Level
  imports Prelude
begin

text \<open>
  The permission level of a turn and the values around it
  (\<^verbatim>\<open>src/cm_types/permission_level.rs\<close>, \<^verbatim>\<open>session_mode.rs\<close>, \<^verbatim>\<open>permission_audit.rs\<close>):
  the five ordered levels with their wire strings, the level-scoped keys of the persistent
  allowlist, parsing, the session mode, and the filter of the audit trail.

  Shown here: the levels form a linear order that agrees with their index; printing and parsing are
  inverse; a scoped allowlist key determines its level and its bare key, so an approval given at
  one level is never found at another.
\<close>

section \<open>Levels\<close>

datatype PermissionLevel = Chat | Read | Workspace | Approved | Unrestricted

fun index :: "PermissionLevel \<Rightarrow> nat" where
  "index PermissionLevel.Chat = 0"
| "index PermissionLevel.Read = 1"
| "index PermissionLevel.Workspace = 2"
| "index PermissionLevel.Approved = 3"
| "index PermissionLevel.Unrestricted = 4"

text \<open>The derived \<^verbatim>\<open>Ord\<close>: declaration order.\<close>

instantiation PermissionLevel :: linorder
begin

definition less_eq_PermissionLevel :: "PermissionLevel \<Rightarrow> PermissionLevel \<Rightarrow> bool" where
  "less_eq_PermissionLevel a b \<longleftrightarrow> index a \<le> index b"

definition less_PermissionLevel :: "PermissionLevel \<Rightarrow> PermissionLevel \<Rightarrow> bool" where
  "less_PermissionLevel a b \<longleftrightarrow> index a < index b"

instance
proof
  fix a b :: PermissionLevel
  show "a \<le> b \<Longrightarrow> b \<le> a \<Longrightarrow> a = b"
    by (cases a; cases b) (simp_all add: less_eq_PermissionLevel_def)
qed (auto simp: less_eq_PermissionLevel_def less_PermissionLevel_def)

end

lemmas level_order = less_eq_PermissionLevel_def less_PermissionLevel_def

definition default_level :: PermissionLevel where
  "default_level = PermissionLevel.Approved"

definition ALL_levels :: "PermissionLevel list" where
  "ALL_levels = [PermissionLevel.Chat, PermissionLevel.Read, PermissionLevel.Workspace,
     PermissionLevel.Approved, PermissionLevel.Unrestricted]"

fun level_as_str :: "PermissionLevel \<Rightarrow> ustring" where
  "level_as_str PermissionLevel.Chat = lit ''chat''"
| "level_as_str PermissionLevel.Read = lit ''read''"
| "level_as_str PermissionLevel.Workspace = lit ''workspace''"
| "level_as_str PermissionLevel.Approved = lit ''approved''"
| "level_as_str PermissionLevel.Unrestricted = lit ''unrestricted''"

fun promise_zh :: "PermissionLevel \<Rightarrow> ustring" where
  "promise_zh PermissionLevel.Chat = [21482, 33021, 23545, 35805, 65306, 19981, 19979, 21457, 24037, 20855, 23450, 20041]"
| "promise_zh PermissionLevel.Read = ([21482, 35835, 25506, 26597, 65306, 24037, 20316, 21306, 20869, 35835] @ lit '' + '' @ [20986, 31449, 21482, 35835])"
| "promise_zh PermissionLevel.Workspace = [24037, 20316, 21306, 30828, 36793, 30028, 65306, 36234, 30028, 30452, 25509, 25298, 65292, 19981, 24377, 23457, 25209]"
| "promise_zh PermissionLevel.Approved = [29616, 29366, 65306, 36234, 30028, 36208, 20154, 24037, 23457, 25209]"
| "promise_zh PermissionLevel.Unrestricted = ([19981, 21463, 24037, 20316, 21306, 36335, 24452, 19982, 21629, 20196, 30333, 21517, 21333, 38480, 21046, 65306, 25918, 34892] @ lit '' + '' @ [23457, 35745])"

section \<open>Level-scoped allowlist keys\<close>

definition scoped_allowlist_key :: "PermissionLevel option \<Rightarrow> ustring \<Rightarrow> ustring" where
  "scoped_allowlist_key level key =
     (case level of
        Some l \<Rightarrow> lit ''l'' @ show_nat (index l) @ lit ''|'' @ key
      | None \<Rightarrow> key)"

section \<open>Parsing\<close>

datatype level_error = EmptyLevel | UnknownLevel ustring

definition parse_permission_level :: "ustring \<Rightarrow> (level_error, PermissionLevel) result" where
  "parse_permission_level raw =
     (let s = to_ascii_lowercase (trim raw) in
      if s = lit ''chat'' then Inr PermissionLevel.Chat
      else if s = lit ''read'' then Inr PermissionLevel.Read
      else if s = lit ''workspace'' then Inr PermissionLevel.Workspace
      else if s = lit ''approved'' then Inr PermissionLevel.Approved
      else if s = lit ''unrestricted'' then Inr PermissionLevel.Unrestricted
      else if s = [] then Inl EmptyLevel
      else Inl (UnknownLevel s))"

definition parse_optional_permission_level ::
    "ustring option \<Rightarrow> (level_error, PermissionLevel option) result" where
  "parse_optional_permission_level raw =
     (case raw of
        None \<Rightarrow> Inr None
      | Some r \<Rightarrow>
          (if trim r = [] then Inr None
           else bind_result (parse_permission_level (trim r)) (\<lambda>l. Inr (Some l))))"

section \<open>Approval policy, ceiling source, path scope and the serialised view\<close>

datatype ApprovalPolicy = Deny | Gate | AuditOnly

fun approval_as_str :: "ApprovalPolicy \<Rightarrow> ustring" where
  "approval_as_str ApprovalPolicy.Deny = lit ''deny''"
| "approval_as_str ApprovalPolicy.Gate = lit ''gate''"
| "approval_as_str ApprovalPolicy.AuditOnly = lit ''audit_only''"

datatype CeilingSource = Config | DerivedLoopback | DerivedNonLoopback

fun ceiling_as_str :: "CeilingSource \<Rightarrow> ustring" where
  "ceiling_as_str CeilingSource.Config = lit ''config''"
| "ceiling_as_str CeilingSource.DerivedLoopback = lit ''derived_loopback''"
| "ceiling_as_str CeilingSource.DerivedNonLoopback = lit ''derived_non_loopback''"

definition is_derived :: "CeilingSource \<Rightarrow> bool" where
  "is_derived c \<longleftrightarrow> c = CeilingSource.DerivedLoopback \<or> c = CeilingSource.DerivedNonLoopback"

datatype PathScope = SessionRoot | AllowedRoots | AnyPath

fun path_scope_as_str :: "PathScope \<Rightarrow> ustring" where
  "path_scope_as_str SessionRoot = lit ''session_root''"
| "path_scope_as_str AllowedRoots = lit ''allowed_roots''"
| "path_scope_as_str AnyPath = lit ''any''"

definition is_unrestricted :: "PathScope \<Rightarrow> bool" where
  "is_unrestricted p \<longleftrightarrow> p = AnyPath"

record PermissionCapsView =
  view_tool_visibility :: ustring
  view_external_tools :: ustring
  view_path_scope :: ustring
  view_command_scope :: ustring
  view_net_scope :: ustring
  view_approval :: ustring

definition mk_view ::
    "string \<Rightarrow> string \<Rightarrow> string \<Rightarrow> string \<Rightarrow> string \<Rightarrow> string \<Rightarrow> PermissionCapsView" where
  "mk_view tv et ps cs ns ap =
     \<lparr>view_tool_visibility = lit tv, view_external_tools = lit et, view_path_scope = lit ps,
      view_command_scope = lit cs, view_net_scope = lit ns, view_approval = lit ap\<rparr>"

fun caps_view :: "PermissionLevel \<Rightarrow> PermissionCapsView" where
  "caps_view PermissionLevel.Chat =
     mk_view ''none'' ''denied'' ''session_root'' ''none'' ''none'' ''deny''"
| "caps_view PermissionLevel.Read =
     mk_view ''readonly'' ''denied'' ''session_root'' ''none'' ''prefixes'' ''deny''"
| "caps_view PermissionLevel.Workspace =
     mk_view ''full'' ''denied'' ''session_root'' ''allowlist'' ''prefixes'' ''deny''"
| "caps_view PermissionLevel.Approved =
     mk_view ''full'' ''allowed'' ''session_root'' ''allowlist'' ''prefixes'' ''gate''"
| "caps_view PermissionLevel.Unrestricted =
     mk_view ''full'' ''allowed'' ''any'' ''any'' ''any'' ''audit_only''"

section \<open>Session mode\<close>

datatype SessionMode = Ask | Plan | Act

fun mode_as_str :: "SessionMode \<Rightarrow> ustring" where
  "mode_as_str SessionMode.Ask = lit ''ask''"
| "mode_as_str SessionMode.Plan = lit ''plan''"
| "mode_as_str SessionMode.Act = lit ''act''"

definition requires_readonly_tools :: "SessionMode \<Rightarrow> bool" where
  "requires_readonly_tools m \<longleftrightarrow> m = SessionMode.Ask \<or> m = SessionMode.Plan"

datatype mode_error = EmptyMode | UnknownMode ustring

definition parse_session_mode :: "ustring \<Rightarrow> (mode_error, SessionMode) result" where
  "parse_session_mode raw =
     (let s = to_ascii_lowercase (trim raw) in
      if s = lit ''ask'' then Inr SessionMode.Ask
      else if s = lit ''plan'' then Inr SessionMode.Plan
      else if s = lit ''act'' then Inr SessionMode.Act
      else if s = [] then Inl EmptyMode
      else Inl (UnknownMode s))"

definition parse_optional_session_mode ::
    "ustring option \<Rightarrow> (mode_error, SessionMode option) result" where
  "parse_optional_session_mode raw =
     (case raw of
        None \<Rightarrow> Inr None
      | Some r \<Rightarrow>
          (if trim r = [] then Inr None
           else bind_result (parse_session_mode (trim r)) (\<lambda>m. Inr (Some m))))"

section \<open>Audit events\<close>

datatype PermissionAxis = ToolAxis | PathAxis | CommandAxis | NetAxis | ExternalAxis

datatype PermissionDecision = AllowedDecision | DeniedDecision | ApprovedDecision

fun axis_as_str :: "PermissionAxis \<Rightarrow> ustring" where
  "axis_as_str ToolAxis = lit ''tool''"
| "axis_as_str PathAxis = lit ''path''"
| "axis_as_str CommandAxis = lit ''command''"
| "axis_as_str NetAxis = lit ''net''"
| "axis_as_str ExternalAxis = lit ''external''"

fun decision_as_str :: "PermissionDecision \<Rightarrow> ustring" where
  "decision_as_str AllowedDecision = lit ''allowed''"
| "decision_as_str DeniedDecision = lit ''denied''"
| "decision_as_str ApprovedDecision = lit ''approved''"

record PermissionAuditEvent =
  audit_level :: PermissionLevel
  audit_axis :: PermissionAxis
  audit_decision :: PermissionDecision
  audit_tool :: "ustring option"
  audit_detail :: "ustring option"

fun should_emit :: "ApprovalPolicy \<Rightarrow> PermissionDecision \<Rightarrow> bool" where
  "should_emit approval DeniedDecision = True"
| "should_emit approval ApprovedDecision = True"
| "should_emit approval AllowedDecision = (approval = ApprovalPolicy.AuditOnly)"

text \<open>
  The log is the list of emitted events, oldest first: \<open>emit\<close> is the \<^verbatim>\<open>server\<close> build's one \<^verbatim>\<open>tracing\<close>
  line, with its level (\<open>True\<close> for \<^verbatim>\<open>warn!\<close>) and its five fields.
\<close>

record audit_line =
  line_warn :: bool
  line_level :: ustring
  line_axis :: ustring
  line_decision :: ustring
  line_tool :: ustring
  line_detail :: ustring

type_synonym audit_log = "audit_line list"

definition emit :: "audit_log \<Rightarrow> PermissionAuditEvent \<Rightarrow> audit_log" where
  "emit log e =
     log @ [\<lparr>line_warn = (audit_decision e = DeniedDecision),
             line_level = level_as_str (audit_level e),
             line_axis = axis_as_str (audit_axis e),
             line_decision = decision_as_str (audit_decision e),
             line_tool = (case audit_tool e of Some t \<Rightarrow> t | None \<Rightarrow> lit ''-''),
             line_detail = (case audit_detail e of Some d \<Rightarrow> d | None \<Rightarrow> lit ''-'')\<rparr>]"

definition record_event ::
    "audit_log \<Rightarrow> PermissionLevel \<Rightarrow> ApprovalPolicy \<Rightarrow> PermissionAxis \<Rightarrow> PermissionDecision \<Rightarrow>
     ustring option \<Rightarrow> ustring option \<Rightarrow> audit_log" where
  "record_event log level approval axis decision tool detail =
     (if \<not> should_emit approval decision then log
      else emit log \<lparr>audit_level = level, audit_axis = axis, audit_decision = decision,
             audit_tool = tool, audit_detail = detail\<rparr>)"

definition record_allowed ::
    "audit_log \<Rightarrow> PermissionLevel \<Rightarrow> ApprovalPolicy \<Rightarrow> PermissionAxis \<Rightarrow>
     ustring option \<Rightarrow> ustring option \<Rightarrow> audit_log" where
  "record_allowed log level approval axis tool detail =
     record_event log level approval axis AllowedDecision tool detail"

definition record_denied ::
    "audit_log \<Rightarrow> PermissionLevel \<Rightarrow> ApprovalPolicy \<Rightarrow> PermissionAxis \<Rightarrow>
     ustring option \<Rightarrow> ustring option \<Rightarrow> audit_log" where
  "record_denied log level approval axis tool detail =
     record_event log level approval axis DeniedDecision tool detail"

definition record_approved ::
    "audit_log \<Rightarrow> PermissionLevel \<Rightarrow> PermissionAxis \<Rightarrow> ustring option \<Rightarrow> ustring option \<Rightarrow> audit_log" where
  "record_approved log level axis tool detail =
     emit log \<lparr>audit_level = level, audit_axis = axis, audit_decision = ApprovedDecision,
             audit_tool = tool, audit_detail = detail\<rparr>"

section \<open>Lemmas\<close>

lemma index_inject [simp]: "index a = index b \<longleftrightarrow> a = b"
  by (cases a; cases b) simp_all

lemma index_less: "index l < 5"
  by (cases l) simp_all

lemma level_le_Unrestricted [simp]: "l \<le> PermissionLevel.Unrestricted"
  by (cases l) (simp_all add: level_order)

lemma Chat_le_level [simp]: "PermissionLevel.Chat \<le> l"
  by (simp add: level_order)

lemma Unrestricted_le [simp]:
  "PermissionLevel.Unrestricted \<le> l \<longleftrightarrow> l = PermissionLevel.Unrestricted"
  by (cases l) (simp_all add: level_order)

lemma set_ALL_levels [simp]: "set ALL_levels = UNIV"
proof -
  have "l \<in> set ALL_levels" for l
    by (cases l) (simp_all add: ALL_levels_def)
  then show ?thesis by auto
qed

lemma sorted_ALL_levels: "sorted_wrt (<) ALL_levels"
  by (simp add: ALL_levels_def level_order)

lemma lit_eq_codes: "lit s = xs \<longleftrightarrow> map of_char s = xs"
  by (simp add: lit_def)

lemma parse_level_as_str [simp]: "parse_permission_level (level_as_str l) = Inr l"
  by (cases l)
    (simp_all add: parse_permission_level_def trim_id is_whitespace_def lit_def to_ascii_lowercase_def)

text \<open>
  The claims on keys.  In \<^verbatim>\<open>l{n}|key\<close> the first character after \<^verbatim>\<open>l\<close> is the level's digit and the next
  one is the bar, so both the level and the key can be read back.
\<close>

lemma scoped_key_Some: "scoped_allowlist_key (Some l) k = [108, 48 + index l, 124] @ k"
  using index_less [of l] by (simp add: scoped_allowlist_key_def lit_def)

section \<open>Approvals do not leak between levels\<close>

text \<open>
  A scoped key determines its level and its bare key, and a persistent allowlist written at one
  level is never hit at another: after storing the key of \<open>k\<close> at level \<open>l\<close>, a lookup of \<open>k'\<close> at level
  \<open>l'\<close> succeeds only if it succeeded before or both agree.
\<close>

theorem scoped_keys_do_not_leak:
  "scoped_allowlist_key (Some l') k' \<in> insert (scoped_allowlist_key (Some l) k) allowlist \<longleftrightarrow>
     (l' = l \<and> k' = k) \<or> scoped_allowlist_key (Some l') k' \<in> allowlist"
  by (auto simp: scoped_key_Some)

text \<open>
  Parsing accepts what printing produces, in any ASCII case and surrounded by any white space, and
  an accepted text denotes the level whose name it is.
\<close>

theorem parse_level_iff:
  "parse_permission_level raw = Inr l \<longleftrightarrow> to_ascii_lowercase (trim raw) = level_as_str l"
  by (cases l) (auto simp: parse_permission_level_def Let_def)

end
