(* ===== verification/Permission_Config.thy ===== *)
theory Permission_Config
  imports Permission_Level
begin

text \<open>
  The permission part of the configuration
  (\<^verbatim>\<open>src/cm_config/permission.rs\<close>, \<^verbatim>\<open>types/agent_config_sections.rs\<close>, \<^verbatim>\<open>hot_reload.rs\<close>): how the
  server's ceiling is derived from the bind address, frozen when the server starts, and clamped
  when the configuration is reloaded.  \<open>AgentConfig\<close> holds the sections that the permission
  code reads or writes; no other section influences it.

  Shown here: deriving, freezing and reloading keep the default level at or below the ceiling; a
  sequence of reloads never raises the ceiling (an instance of \<open>descending_machine\<close>); and a
  server bound to a non-loopback address reaches \<^verbatim>\<open>unrestricted\<close> only through the explicit switch.
\<close>

section \<open>Configuration records\<close>

record PermissionConfig =
  permission_level :: PermissionLevel
  permission_level_max :: "PermissionLevel option"
  permission_level_max_effective :: PermissionLevel
  permission_level_max_source :: CeilingSource
  permission_chat_control_tools :: "ustring list"
  permission_read_tools :: "ustring list option"
  permission_deny_system_paths :: "ustring list"
  allow_unrestricted_permission_for_non_loopback :: bool

definition effective_ceiling :: "PermissionConfig \<Rightarrow> PermissionLevel" where
  "effective_ceiling p = permission_level_max_effective p"

datatype FinalPlanRequirementMode = Never | WorkflowReflection | Always

record AgentRoleSpec =
  allowed_tools :: "ustring set option"
  default_session_mode :: "SessionMode option"
  max_permission_level :: "PermissionLevel option"

datatype WebSearchProvider = Brave | Tavily | Worbrow

record ToolRegistryPolicyConfig =
  tool_registry_http_fetch_wall_timeout_secs :: "nat option"
  tool_registry_http_request_wall_timeout_secs :: "nat option"
  tool_registry_parallel_wall_timeout_secs :: "ustring \<rightharpoonup> nat"
  tool_registry_parallel_sync_denied_tools :: "ustring set option"
  tool_registry_parallel_sync_denied_prefixes :: "ustring list option"
  tool_registry_sync_default_inline_tools :: "ustring set option"
  tool_registry_write_effect_tools :: "ustring set option"
  tool_registry_sub_agent_patch_write_extra_tools :: "ustring set option"
  tool_registry_sub_agent_test_runner_extra_tools :: "ustring set option"
  tool_registry_sub_agent_review_readonly_deny_tools :: "ustring set option"

record AgentConfig =
  permission :: PermissionConfig
  allowed_commands :: "ustring list"
  command_timeout_secs :: nat
  weather_timeout_secs :: nat
  web_search_provider :: WebSearchProvider
  web_search_timeout_secs :: nat
  http_fetch_timeout_secs :: nat
  http_fetch_allowed_prefixes :: "ustring list"
  final_plan_requirement :: FinalPlanRequirementMode
  chat_workspace_root :: "ustring option"
  agent_roles :: "ustring \<rightharpoonup> AgentRoleSpec"
  default_agent_role_id :: "ustring option"
  cfg_default_session_mode :: SessionMode
  tool_registry_policy :: ToolRegistryPolicyConfig

section \<open>The ceiling\<close>

datatype config_error =
    RemoteUnrestricted
  | EmptyReadTools
  | BadPermissionLevel level_error
  | BadPermissionLevelMax level_error

definition resolve_permission_ceiling ::
    "PermissionLevel option \<Rightarrow> bool option \<Rightarrow> bool \<Rightarrow>
     (config_error, PermissionLevel \<times> CeilingSource) result" where
  "resolve_permission_ceiling explicit loopback allow_unrestricted_for_non_loopback =
     (case explicit of
        Some level \<Rightarrow>
          (let remote_unrestricted =
             level = PermissionLevel.Unrestricted \<and> loopback = Some False \<and>
             \<not> allow_unrestricted_for_non_loopback in
           if remote_unrestricted then Inl RemoteUnrestricted
           else Inr (level, CeilingSource.Config))
      | None \<Rightarrow>
          (case loopback of
             Some True \<Rightarrow> Inr (PermissionLevel.Unrestricted, CeilingSource.DerivedLoopback)
           | _ \<Rightarrow> Inr (PermissionLevel.Approved, CeilingSource.DerivedNonLoopback)))"

definition clamp_permission_ceiling_on_reload ::
    "PermissionLevel \<times> CeilingSource \<Rightarrow> PermissionLevel option \<Rightarrow>
     PermissionLevel \<times> CeilingSource" where
  "clamp_permission_ceiling_on_reload startup incoming_explicit =
     (case incoming_explicit of
        None \<Rightarrow> startup
      | Some level \<Rightarrow>
          (if level \<le> fst startup then (level, CeilingSource.Config)
           else (fst startup, snd startup)))"

definition reconcile_default_level_with_ceiling ::
    "PermissionLevel \<Rightarrow> PermissionLevel \<Rightarrow> PermissionLevel" where
  "reconcile_default_level_with_ceiling level ceiling = (if ceiling < level then ceiling else level)"

text \<open>\<^verbatim>\<open>std::net::IpAddr\<close>: four octets, or eight segments.\<close>

datatype IpAddr = V4 nat nat nat nat | V6 "nat list"

fun is_loopback :: "IpAddr \<Rightarrow> bool" where
  "is_loopback (V4 a b c d) = (a = 127)"
| "is_loopback (V6 segs) = (segs = [0, 0, 0, 0, 0, 0, 0, 1])"

definition apply_ceiling_for_bind ::
    "PermissionConfig \<Rightarrow> IpAddr \<Rightarrow>
     (config_error, PermissionConfig \<times> (PermissionLevel \<times> CeilingSource)) result" where
  "apply_ceiling_for_bind perm bind_ip =
     bind_result
       (resolve_permission_ceiling (permission_level_max perm) (Some (is_loopback bind_ip))
          (allow_unrestricted_permission_for_non_loopback perm))
       (\<lambda>resolved. Inr
          (perm\<lparr>permission_level_max_effective := fst resolved,
                permission_level_max_source := snd resolved,
                permission_level :=
                  reconcile_default_level_with_ceiling (permission_level perm) (fst resolved)\<rparr>,
           resolved))"

text \<open>The write lock of \<^verbatim>\<open>SharedAgentConfig\<close> makes the freeze one atomic update of the shared value.\<close>

definition freeze_permission_ceiling_for_bind ::
    "AgentConfig \<Rightarrow> IpAddr \<Rightarrow>
     (config_error, AgentConfig \<times> (PermissionLevel \<times> CeilingSource)) result" where
  "freeze_permission_ceiling_for_bind cfg bind_ip =
     bind_result (apply_ceiling_for_bind (permission cfg) bind_ip)
       (\<lambda>(perm, resolved). Inr (cfg\<lparr>permission := perm\<rparr>, resolved))"

section \<open>From the raw configuration\<close>

definition validate_permission_config :: "PermissionConfig \<Rightarrow> (config_error, unit) result" where
  "validate_permission_config perm =
     (if permission_read_tools perm = Some [] then Inl EmptyReadTools else Inr ())"

definition trim_drop_empty :: "ustring list \<Rightarrow> ustring list" where
  "trim_drop_empty list = filter (\<lambda>s. s \<noteq> []) (map trim list)"

text \<open>The raw fields of \<^verbatim>\<open>ConfigBuilder::permission\<close>, as the TOML and the environment give them.\<close>

record PermissionRaw =
  permission_level_str :: "ustring option"
  permission_level_max_str :: "ustring option"
  raw_read_tools :: "ustring list option"
  raw_chat_control_tools :: "ustring list option"
  raw_deny_system_paths :: "ustring list option"
  raw_allow_unrestricted :: "bool option"

definition map_error :: "('e \<Rightarrow> 'f) \<Rightarrow> ('e, 'a) result \<Rightarrow> ('f, 'a) result" where
  "map_error f r = (case r of Inl e \<Rightarrow> Inl (f e) | Inr a \<Rightarrow> Inr a)"

definition derive_permission_config :: "PermissionRaw \<Rightarrow> (config_error, PermissionConfig) result" where
  "derive_permission_config raw =
     bind_result (map_error BadPermissionLevel
         (parse_optional_permission_level (permission_level_str raw))) (\<lambda>level_opt.
     bind_result (map_error BadPermissionLevelMax
         (parse_optional_permission_level (permission_level_max_str raw))) (\<lambda>explicit_max.
     let cfg =
       \<lparr>permission_level = unwrap_or level_opt default_level,
        permission_level_max = explicit_max,
        permission_level_max_effective = unwrap_or explicit_max default_level,
        permission_level_max_source =
          (if explicit_max \<noteq> None then CeilingSource.Config else CeilingSource.DerivedNonLoopback),
        permission_chat_control_tools = trim_drop_empty (unwrap_or (raw_chat_control_tools raw) []),
        permission_read_tools = map_option trim_drop_empty (raw_read_tools raw),
        permission_deny_system_paths = trim_drop_empty (unwrap_or (raw_deny_system_paths raw) []),
        allow_unrestricted_permission_for_non_loopback = unwrap_or (raw_allow_unrestricted raw) False\<rparr>
     in
     bind_result (validate_permission_config cfg) (\<lambda>_.
       Inr (if permission_level_max cfg \<noteq> None
            then cfg\<lparr>permission_level :=
              reconcile_default_level_with_ceiling (permission_level cfg)
                (permission_level_max_effective cfg)\<rparr>
            else cfg))))"

section \<open>Hot reload\<close>

definition apply_hot_reload_config_subset :: "AgentConfig \<Rightarrow> AgentConfig \<Rightarrow> AgentConfig" where
  "apply_hot_reload_config_subset dst src =
     (let allowlist_allows_all = list_ex (\<lambda>c. trim c = lit ''*'') (allowed_commands dst);
          ceiling_at_startup =
            (permission_level_max_effective (permission dst),
             permission_level_max_source (permission dst));
          (ceiling, ceiling_source) =
            clamp_permission_ceiling_on_reload ceiling_at_startup
              (permission_level_max (permission src)) in
      dst\<lparr>allowed_commands := (if allowlist_allows_all then [lit ''*''] else allowed_commands src),
          command_timeout_secs := command_timeout_secs src,
          weather_timeout_secs := weather_timeout_secs src,
          web_search_provider := web_search_provider src,
          web_search_timeout_secs := web_search_timeout_secs src,
          http_fetch_timeout_secs := http_fetch_timeout_secs src,
          http_fetch_allowed_prefixes := http_fetch_allowed_prefixes src,
          final_plan_requirement := final_plan_requirement src,
          agent_roles := agent_roles src,
          default_agent_role_id := default_agent_role_id src,
          cfg_default_session_mode := cfg_default_session_mode src,
          tool_registry_policy := tool_registry_policy src,
          permission := (permission src)\<lparr>
            permission_level_max_effective := ceiling,
            permission_level_max_source := ceiling_source,
            permission_level :=
              reconcile_default_level_with_ceiling (permission_level (permission src)) ceiling\<rparr>\<rparr>)"

section \<open>Lemmas\<close>

lemma reconcile_le [simp]: "reconcile_default_level_with_ceiling l c \<le> c"
  by (simp add: reconcile_default_level_with_ceiling_def not_less)

lemma reconcile_min: "reconcile_default_level_with_ceiling l c = min l c"
  by (auto simp: reconcile_default_level_with_ceiling_def min_def)

lemma clamp_le: "fst (clamp_permission_ceiling_on_reload st inc) \<le> fst st"
  by (auto simp: clamp_permission_ceiling_on_reload_def split: option.splits)

lemma clamp_min:
  "fst (clamp_permission_ceiling_on_reload st inc) =
     (case inc of None \<Rightarrow> fst st | Some l \<Rightarrow> min l (fst st))"
  by (auto simp: clamp_permission_ceiling_on_reload_def min_def split: option.splits)

lemma reload_ceiling:
  "effective_ceiling (permission (apply_hot_reload_config_subset dst src)) =
     (case permission_level_max (permission src) of
        None \<Rightarrow> effective_ceiling (permission dst)
      | Some l \<Rightarrow> min l (effective_ceiling (permission dst)))"
  by (simp add: apply_hot_reload_config_subset_def effective_ceiling_def case_prod_beta clamp_min
      Let_def split: option.split)

lemma reload_default_level:
  "permission_level (permission (apply_hot_reload_config_subset dst src)) =
     min (permission_level (permission src))
       (effective_ceiling (permission (apply_hot_reload_config_subset dst src)))"
  by (simp add: apply_hot_reload_config_subset_def effective_ceiling_def case_prod_beta
      reconcile_min Let_def)

text \<open>Reloading is an event-driven component whose ceiling can only go down.\<close>

interpretation reload: descending_machine apply_hot_reload_config_subset
    "\<lambda>cfg. effective_ceiling (permission cfg)"
  by unfold_locales (simp add: reload_ceiling split: option.split)

text \<open>The default level of a usable configuration never exceeds its ceiling.\<close>

definition level_within_ceiling :: "PermissionConfig \<Rightarrow> bool" where
  "level_within_ceiling p \<longleftrightarrow> permission_level p \<le> effective_ceiling p"

interpretation reload_wf: event_machine apply_hot_reload_config_subset
    "\<lambda>cfg. level_within_ceiling (permission cfg)"
  by unfold_locales (simp add: level_within_ceiling_def reload_default_level)

lemma freeze_within_ceiling:
  "freeze_permission_ceiling_for_bind cfg ip = Inr (cfg', r) \<Longrightarrow>
     level_within_ceiling (permission cfg')"
  by (auto simp: freeze_permission_ceiling_for_bind_def apply_ceiling_for_bind_def
      bind_result_Inr level_within_ceiling_def effective_ceiling_def)

section \<open>What the configuration guarantees\<close>

text \<open>
  C27: The ceiling only goes down.  After any sequence of hot reloads, the effective ceiling is at most
  the one frozen at start-up, each further reload keeps it or lowers it, and if the default level was
  within the ceiling before, it is within the (possibly lowered) ceiling afterwards.
\<close>

theorem reloads_never_raise_ceiling:
  "effective_ceiling (permission (foldl apply_hot_reload_config_subset cfg (srcs @ srcs2))) \<le>
     effective_ceiling (permission (foldl apply_hot_reload_config_subset cfg srcs)) \<and>
   effective_ceiling (permission (foldl apply_hot_reload_config_subset cfg srcs)) \<le>
     effective_ceiling (permission cfg) \<and>
   (level_within_ceiling (permission cfg) \<longrightarrow>
     level_within_ceiling (permission (foldl apply_hot_reload_config_subset cfg srcs)))"
  using reload.run_append_le reload.run_le reload_wf.run_inv by blast

definition sample_permission :: PermissionConfig where
  "sample_permission =
     \<lparr>permission_level = PermissionLevel.Approved, permission_level_max = None,
      permission_level_max_effective = PermissionLevel.Approved,
      permission_level_max_source = CeilingSource.DerivedNonLoopback,
      permission_chat_control_tools = [], permission_read_tools = None,
      permission_deny_system_paths = [],
      allow_unrestricted_permission_for_non_loopback = False\<rparr>"

definition default_registry_policy :: ToolRegistryPolicyConfig where
  "default_registry_policy =
     \<lparr>tool_registry_http_fetch_wall_timeout_secs = None,
      tool_registry_http_request_wall_timeout_secs = None,
      tool_registry_parallel_wall_timeout_secs = Map.empty,
      tool_registry_parallel_sync_denied_tools = None,
      tool_registry_parallel_sync_denied_prefixes = None,
      tool_registry_sync_default_inline_tools = None,
      tool_registry_write_effect_tools = None,
      tool_registry_sub_agent_patch_write_extra_tools = None,
      tool_registry_sub_agent_test_runner_extra_tools = None,
      tool_registry_sub_agent_review_readonly_deny_tools = None\<rparr>"

definition sample_config :: AgentConfig where
  "sample_config =
     \<lparr>permission = sample_permission, allowed_commands = [lit ''git'', lit ''ls''],
      command_timeout_secs = 30, weather_timeout_secs = 15,
      web_search_provider = WebSearchProvider.Brave, web_search_timeout_secs = 30,
      http_fetch_timeout_secs = 30,
      http_fetch_allowed_prefixes = [lit ''https://docs.rs/''],
      final_plan_requirement = FinalPlanRequirementMode.WorkflowReflection,
      chat_workspace_root = None, agent_roles = Map.empty, default_agent_role_id = None,
      cfg_default_session_mode = SessionMode.Act,
      tool_registry_policy = default_registry_policy\<rparr>"

theorem reloads_never_raise_ceiling_witness:
  "level_within_ceiling (permission sample_config) \<and>
   level_within_ceiling (permission (foldl apply_hot_reload_config_subset sample_config
     [sample_config\<lparr>permission := sample_permission\<lparr>permission_level_max := Some PermissionLevel.Read\<rparr>\<rparr>]))"
proof -
  have "level_within_ceiling (permission sample_config)"
    by (simp add: level_within_ceiling_def effective_ceiling_def sample_config_def sample_permission_def)
  then show ?thesis using reloads_never_raise_ceiling by blast
qed

text \<open>
  C28: A remote server is never unrestricted by accident.  If the freeze for a non-loopback address
  succeeds with the ceiling \<^verbatim>\<open>unrestricted\<close>, then the operator both configured that ceiling explicitly
  and set the separate switch; and every successful freeze stores the ceiling it reports and a
  default level within it.
\<close>

theorem remote_unrestricted_needs_switch:
  assumes "freeze_permission_ceiling_for_bind cfg ip = Inr (cfg', ceiling, source)"
  shows "effective_ceiling (permission cfg') = ceiling \<and> level_within_ceiling (permission cfg') \<and>
    (\<not> is_loopback ip \<and> ceiling = PermissionLevel.Unrestricted \<longrightarrow>
       permission_level_max (permission cfg) = Some PermissionLevel.Unrestricted \<and>
       allow_unrestricted_permission_for_non_loopback (permission cfg) \<and>
       source = CeilingSource.Config)"
proof -
  from assms obtain perm' where perm':
      "apply_ceiling_for_bind (permission cfg) ip = Inr (perm', ceiling, source)"
      "cfg' = cfg\<lparr>permission := perm'\<rparr>"
    by (auto simp: freeze_permission_ceiling_for_bind_def bind_result_Inr)
  then have res: "resolve_permission_ceiling (permission_level_max (permission cfg))
        (Some (is_loopback ip)) (allow_unrestricted_permission_for_non_loopback (permission cfg))
        = Inr (ceiling, source)"
    and eff: "effective_ceiling perm' = ceiling"
    by (auto simp: apply_ceiling_for_bind_def bind_result_Inr effective_ceiling_def)
  from res have "\<not> is_loopback ip \<and> ceiling = PermissionLevel.Unrestricted \<longrightarrow>
       permission_level_max (permission cfg) = Some PermissionLevel.Unrestricted \<and>
       allow_unrestricted_permission_for_non_loopback (permission cfg) \<and>
       source = CeilingSource.Config"
    by (auto simp: resolve_permission_ceiling_def Let_def split: option.splits if_splits bool.splits)
  with eff perm'(2) freeze_within_ceiling [OF assms] show ?thesis by simp
qed

theorem remote_unrestricted_needs_switch_witness:
  "\<exists>cfg'. freeze_permission_ceiling_for_bind
        (sample_config\<lparr>permission := sample_permission\<lparr>
            permission_level_max := Some PermissionLevel.Unrestricted,
            allow_unrestricted_permission_for_non_loopback := True\<rparr>\<rparr>) (V4 10 0 0 7)
      = Inr (cfg', PermissionLevel.Unrestricted, CeilingSource.Config) \<and>
    effective_ceiling (permission cfg') = PermissionLevel.Unrestricted"
proof -
  let ?cfg = "sample_config\<lparr>permission := sample_permission\<lparr>
            permission_level_max := Some PermissionLevel.Unrestricted,
            allow_unrestricted_permission_for_non_loopback := True\<rparr>\<rparr>"
  have "\<exists>cfg'. freeze_permission_ceiling_for_bind ?cfg (V4 10 0 0 7)
      = Inr (cfg', PermissionLevel.Unrestricted, CeilingSource.Config)"
    by (simp add: freeze_permission_ceiling_for_bind_def apply_ceiling_for_bind_def
        resolve_permission_ceiling_def Let_def)
  then show ?thesis using remote_unrestricted_needs_switch by blast
qed

end
