(* ===== verification/Permission.thy ===== *)
theory Permission
  imports Permission_Config
begin

text \<open>
  The turn's permission (\<^verbatim>\<open>src/cm_agent/permission.rs\<close>): the min chain that resolves the level of a
  turn, the projection of a level onto six capability axes, the decision whether a tool may run,
  and the policy port that the execution side consumes.  The read-only derivation uses the tool
  naming rules of \<^verbatim>\<open>src/cm_tools/tool_naming.rs\<close> and the list of tools with write effects
  (\<^verbatim>\<open>src/cm_config/tool_write_effect.rs\<close>, in the default build, without \<^verbatim>\<open>archive-tools\<close>).

  Shown here: no input raises the level above the ceiling, the role limit or, in a read-only
  session mode, \<^verbatim>\<open>read\<close>; the selector offers exactly the levels the chain can reach; the
  projection is monotone in the level on every axis; a tool with write effects, a command tool or
  an external tool is never allowed at \<^verbatim>\<open>read\<close> through the derived list; and the port decides a
  denial and its audit axis consistently.
\<close>

section \<open>Tool names\<close>

definition MCP_PROXY_PREFIX :: ustring where
  "MCP_PROXY_PREFIX = lit ''mcp__''"

definition DYNAMIC_TOOL_PREFIX :: ustring where
  "DYNAMIC_TOOL_PREFIX = lit ''dyn__''"

definition is_mcp_proxy_tool :: "ustring \<Rightarrow> bool" where
  "is_mcp_proxy_tool name \<longleftrightarrow> starts_with name MCP_PROXY_PREFIX"

definition is_dynamic_tool_name :: "ustring \<Rightarrow> bool" where
  "is_dynamic_tool_name name \<longleftrightarrow> starts_with name DYNAMIC_TOOL_PREFIX"

datatype ToolOrigin = Builtin | Mcp | Dynamic

definition tool_origin :: "ustring \<Rightarrow> ToolOrigin" where
  "tool_origin name =
     (if is_mcp_proxy_tool name then ToolOrigin.Mcp
      else if is_dynamic_tool_name name then ToolOrigin.Dynamic
      else ToolOrigin.Builtin)"

definition tool_name_allowed_by_turn_allowlist :: "ustring \<Rightarrow> ustring set option \<Rightarrow> bool" where
  "tool_name_allowed_by_turn_allowlist name allow =
     (case allow of
        None \<Rightarrow> True
      | Some names \<Rightarrow>
          (if tool_origin name = ToolOrigin.Mcp then lit ''mcp'' \<in> names \<or> name \<in> names
           else name \<in> names))"

definition is_builtin_tool :: "ustring \<Rightarrow> bool" where
  "is_builtin_tool name \<longleftrightarrow> tool_origin name = ToolOrigin.Builtin"

definition RUN_COMMAND :: ustring where "RUN_COMMAND = lit ''run_command''"
definition TERMINAL_SESSION :: ustring where "TERMINAL_SESSION = lit ''terminal_session''"
definition PYTHON_SNIPPET_RUN :: ustring where "PYTHON_SNIPPET_RUN = lit ''python_snippet_run''"
definition HTTP_REQUEST :: ustring where "HTTP_REQUEST = lit ''http_request''"

definition builtin_write_effect_tools :: "ustring list" where
  "builtin_write_effect_tools =
     [lit ''create_file'', lit ''modify_file'', lit ''copy_file'', lit ''move_file'',
      lit ''delete_files'', lit ''delete_dir'', lit ''append_file'', lit ''create_dir'',
      lit ''search_replace'', lit ''apply_patch'', lit ''structured'',
      lit ''long_term_remember'', lit ''long_term_forget'', lit ''summarize_experience'',
      RUN_COMMAND, TERMINAL_SESSION, PYTHON_SNIPPET_RUN, lit ''pytest_run'',
      lit ''cargo_test'', lit ''cargo_run'', lit ''workflow_execute'', HTTP_REQUEST,
      lit ''gh_api'', lit ''gh_pr'', lit ''gh_run'', lit ''gh_issue_create'',
      lit ''gh_release_create'', lit ''skill_manage'', lit ''background_job_cancel'',
      lit ''reminder'', lit ''event'']"

definition is_readonly_tool_for_permission :: "ustring \<Rightarrow> bool" where
  "is_readonly_tool_for_permission name \<longleftrightarrow>
     is_builtin_tool name \<and> name \<notin> set builtin_write_effect_tools"

section \<open>The six axes\<close>

datatype ToolVisibility = NoTools | Readonly | Full

datatype ReadonlyAllow = Explicit "ustring set" | Derived

definition readonly_allow_from_cfg :: "AgentConfig \<Rightarrow> ReadonlyAllow" where
  "readonly_allow_from_cfg cfg =
     (case permission_read_tools (permission cfg) of
        Some list \<Rightarrow> Explicit (set (filter (\<lambda>s. s \<noteq> []) (map trim list)))
      | None \<Rightarrow> Derived)"

fun allows :: "ReadonlyAllow \<Rightarrow> ustring \<Rightarrow> bool" where
  "allows (Explicit names) name = (name \<in> names)"
| "allows Derived name = is_readonly_tool_for_permission name"

datatype ExternalTools = ExtDenied | ExtAllowed

datatype CommandScope = CommandNone | CommandAllowlist "ustring list" | CommandAny

datatype NetScope = NetNone | NetPrefixes "ustring list" | NetAny

definition COMMAND_ALLOW_ALL :: ustring where
  "COMMAND_ALLOW_ALL = lit ''*''"

fun visibility_as_str :: "ToolVisibility \<Rightarrow> ustring" where
  "visibility_as_str NoTools = lit ''none''"
| "visibility_as_str Readonly = lit ''readonly''"
| "visibility_as_str Full = lit ''full''"

fun external_as_str :: "ExternalTools \<Rightarrow> ustring" where
  "external_as_str ExtDenied = lit ''denied''"
| "external_as_str ExtAllowed = lit ''allowed''"

fun command_scope_as_str :: "CommandScope \<Rightarrow> ustring" where
  "command_scope_as_str CommandNone = lit ''none''"
| "command_scope_as_str (CommandAllowlist list) = lit ''allowlist''"
| "command_scope_as_str CommandAny = lit ''any''"

fun net_scope_as_str :: "NetScope \<Rightarrow> ustring" where
  "net_scope_as_str NetNone = lit ''none''"
| "net_scope_as_str (NetPrefixes list) = lit ''prefixes''"
| "net_scope_as_str NetAny = lit ''any''"

record PermissionCaps =
  caps_level :: PermissionLevel
  tool_visibility :: ToolVisibility
  readonly_allow :: "ReadonlyAllow option"
  external_tools :: ExternalTools
  path_scope :: PathScope
  command_scope :: CommandScope
  net_scope :: NetScope
  approval :: ApprovalPolicy

definition view :: "PermissionCaps \<Rightarrow> PermissionCapsView" where
  "view caps =
     \<lparr>view_tool_visibility = visibility_as_str (tool_visibility caps),
      view_external_tools = external_as_str (external_tools caps),
      view_path_scope = path_scope_as_str (path_scope caps),
      view_command_scope = command_scope_as_str (command_scope caps),
      view_net_scope = net_scope_as_str (net_scope caps),
      view_approval = approval_as_str (approval caps)\<rparr>"

definition command_allowlist :: "PermissionCaps \<Rightarrow> ustring list option" where
  "command_allowlist caps =
     (case command_scope caps of
        CommandNone \<Rightarrow> None
      | CommandAllowlist list \<Rightarrow> Some list
      | CommandAny \<Rightarrow> Some [COMMAND_ALLOW_ALL])"

definition allowlist_from_cfg :: "AgentConfig \<Rightarrow> CommandScope" where
  "allowlist_from_cfg cfg = CommandAllowlist (allowed_commands cfg)"

definition prefixes_from_cfg :: "AgentConfig \<Rightarrow> NetScope" where
  "prefixes_from_cfg cfg = NetPrefixes (http_fetch_allowed_prefixes cfg)"

definition full_caps :: "PermissionLevel \<Rightarrow> AgentConfig \<Rightarrow> PermissionCaps" where
  "full_caps level cfg =
     \<lparr>caps_level = level, tool_visibility = Full, readonly_allow = None,
      external_tools = ExtAllowed, path_scope = SessionRoot,
      command_scope = allowlist_from_cfg cfg, net_scope = prefixes_from_cfg cfg,
      approval = ApprovalPolicy.Gate\<rparr>"

fun project_caps :: "PermissionLevel \<Rightarrow> AgentConfig \<Rightarrow> PermissionCaps" where
  "project_caps PermissionLevel.Chat cfg =
     \<lparr>caps_level = PermissionLevel.Chat, tool_visibility = NoTools, readonly_allow = None,
      external_tools = ExtDenied, path_scope = SessionRoot, command_scope = CommandNone,
      net_scope = NetNone, approval = ApprovalPolicy.Deny\<rparr>"
| "project_caps PermissionLevel.Read cfg =
     \<lparr>caps_level = PermissionLevel.Read, tool_visibility = Readonly,
      readonly_allow = Some (readonly_allow_from_cfg cfg),
      external_tools = ExtDenied, path_scope = SessionRoot, command_scope = CommandNone,
      net_scope = prefixes_from_cfg cfg, approval = ApprovalPolicy.Deny\<rparr>"
| "project_caps PermissionLevel.Workspace cfg =
     (full_caps PermissionLevel.Workspace cfg)\<lparr>tool_visibility := Full,
        external_tools := ExtDenied, approval := ApprovalPolicy.Deny\<rparr>"
| "project_caps PermissionLevel.Approved cfg = full_caps PermissionLevel.Approved cfg"
| "project_caps PermissionLevel.Unrestricted cfg =
     \<lparr>caps_level = PermissionLevel.Unrestricted, tool_visibility = Full, readonly_allow = None,
      external_tools = ExtAllowed, path_scope = AnyPath, command_scope = CommandAny,
      net_scope = NetAny, approval = ApprovalPolicy.AuditOnly\<rparr>"

section \<open>Tool decisions\<close>

definition COMMAND_TOOLS :: "ustring list" where
  "COMMAND_TOOLS = [RUN_COMMAND, TERMINAL_SESSION, PYTHON_SNIPPET_RUN]"

definition is_command_tool :: "ustring \<Rightarrow> bool" where
  "is_command_tool name \<longleftrightarrow> name \<in> set COMMAND_TOOLS"

definition external_tools_allowed_by_caps :: "PermissionCaps \<Rightarrow> ustring \<Rightarrow> bool" where
  "external_tools_allowed_by_caps caps name \<longleftrightarrow>
     external_tools caps = ExtAllowed \<or> tool_origin name = ToolOrigin.Builtin"

definition tool_allowed_by_caps :: "PermissionCaps \<Rightarrow> ustring \<Rightarrow> bool" where
  "tool_allowed_by_caps caps name =
     (if \<not> external_tools_allowed_by_caps caps name then False
      else if command_scope caps = CommandNone \<and> is_command_tool name then False
      else (case tool_visibility caps of
              NoTools \<Rightarrow> False
            | Full \<Rightarrow> True
            | Readonly \<Rightarrow>
                is_builtin_tool name \<and>
                (case readonly_allow caps of Some allow \<Rightarrow> allows allow name | None \<Rightarrow> False)))"

definition permission_denied_message :: "PermissionCaps \<Rightarrow> ustring \<Rightarrow> ustring" where
  "permission_denied_message caps name =
     ([24037, 20855] @ lit '' '' @ [96]) @ name @ ([96] @ lit '' '' @ [22312, 24403, 21069, 26435, 38480, 31561, 32423, 65288]) @ level_as_str (caps_level caps) @
     [65289, 19979, 19981, 21487, 29992, 65306] @ promise_zh (caps_level caps) @
     ([12290, 35831, 25913, 29992, 21482, 35835, 26041, 24335, 23436, 25104, 65292, 25110, 35831, 29992, 25143, 35843, 25972] @ lit '' permission_level'' @ [12290])"

section \<open>The policy port, implemented by the capability snapshot\<close>

definition outbound_denied :: "PermissionCaps \<Rightarrow> bool" where
  "outbound_denied caps \<longleftrightarrow> net_scope caps = NetNone"

definition outbound_allows_any :: "PermissionCaps \<Rightarrow> bool" where
  "outbound_allows_any caps \<longleftrightarrow> net_scope caps = NetAny"

definition outbound_prefixes :: "PermissionCaps \<Rightarrow> ustring list" where
  "outbound_prefixes caps =
     (case net_scope caps of NetPrefixes list \<Rightarrow> list | NetNone \<Rightarrow> [] | NetAny \<Rightarrow> [])"

definition outbound_uses_prefixes :: "PermissionCaps \<Rightarrow> bool" where
  "outbound_uses_prefixes caps \<longleftrightarrow> \<not> outbound_denied caps \<and> \<not> outbound_allows_any caps"

definition denied_axis :: "PermissionCaps \<Rightarrow> ustring \<Rightarrow> PermissionAxis option" where
  "denied_axis caps name =
     (if \<not> external_tools_allowed_by_caps caps name then Some ExternalAxis
      else if command_scope caps = CommandNone \<and> is_command_tool name then Some CommandAxis
      else if tool_allowed_by_caps caps name then None
      else Some ToolAxis)"

definition allows_tool :: "PermissionCaps \<Rightarrow> ustring \<Rightarrow> bool" where
  "allows_tool caps name \<longleftrightarrow> denied_axis caps name = None"

definition deny_message :: "PermissionCaps \<Rightarrow> ustring \<Rightarrow> ustring" where
  "deny_message caps name = permission_denied_message caps name"

section \<open>The min chain\<close>

datatype PermissionClamp = ClampCeiling | ClampRole | ClampSessionMode

fun clamp_as_str :: "PermissionClamp \<Rightarrow> ustring" where
  "clamp_as_str ClampCeiling = lit ''ceiling''"
| "clamp_as_str ClampRole = lit ''role''"
| "clamp_as_str ClampSessionMode = lit ''session_mode''"

record PermissionTurnInput =
  in_cfg :: AgentConfig
  in_requested :: "PermissionLevel option"
  in_persisted :: "PermissionLevel option"
  in_role_max :: "PermissionLevel option"
  in_session_mode :: SessionMode

record ResolvedPermission =
  effective :: PermissionLevel
  projection_level :: PermissionLevel
  res_requested :: "PermissionLevel option"
  clamped_by :: "PermissionClamp list"

definition resolve_permission_level_for_turn :: "PermissionTurnInput \<Rightarrow> ResolvedPermission" where
  "resolve_permission_level_for_turn input =
     (let ceiling = effective_ceiling (permission (in_cfg input));
          role_limit = unwrap_or (in_role_max input) PermissionLevel.Unrestricted;
          fallback = min (min (permission_level (permission (in_cfg input))) ceiling) role_limit;
          chosen = unwrap_or (or_option (in_requested input) (in_persisted input)) fallback;
          (eff1, cl1) = (if ceiling < chosen then (ceiling, [ClampCeiling]) else (chosen, []));
          (eff2, cl2) = (if role_limit < eff1 then (role_limit, cl1 @ [ClampRole]) else (eff1, cl1));
          projection = eff2;
          (eff3, cl3) =
            (if requires_readonly_tools (in_session_mode input) \<and> PermissionLevel.Read < eff2
             then (PermissionLevel.Read, cl2 @ [ClampSessionMode]) else (eff2, cl2)) in
      \<lparr>effective = eff3, projection_level = projection,
       res_requested = in_requested input, clamped_by = cl3\<rparr>)"

definition selectable_max_level ::
    "AgentConfig \<Rightarrow> PermissionLevel option \<Rightarrow> SessionMode \<Rightarrow> PermissionLevel" where
  "selectable_max_level cfg role_max session_mode =
     (let ceiling = effective_ceiling (permission cfg);
          role_limit = unwrap_or role_max PermissionLevel.Unrestricted;
          mode_limit = (if requires_readonly_tools session_mode then PermissionLevel.Read
                        else PermissionLevel.Unrestricted) in
      min (min ceiling role_limit) mode_limit)"

definition selectable_levels ::
    "AgentConfig \<Rightarrow> PermissionLevel option \<Rightarrow> SessionMode \<Rightarrow> PermissionLevel list" where
  "selectable_levels cfg role_max session_mode =
     filter (\<lambda>level. level \<le> selectable_max_level cfg role_max session_mode) ALL_levels"

section \<open>Assembly of a turn\<close>

record TurnPermissionStages =
  role_max :: "PermissionLevel option"
  stage_session_mode :: SessionMode
  requested :: "PermissionLevel option"
  persisted :: "PermissionLevel option"

definition plan_turn_permission ::
    "AgentConfig \<Rightarrow> TurnPermissionStages \<Rightarrow> AgentConfig \<times> PermissionCaps" where
  "plan_turn_permission cfg stages =
     (let resolved = resolve_permission_level_for_turn
            \<lparr>in_cfg = cfg, in_requested = requested stages, in_persisted = persisted stages,
             in_role_max = role_max stages, in_session_mode = stage_session_mode stages\<rparr>;
          caps = project_caps (projection_level resolved) cfg in
      (if tool_visibility caps = NoTools
       then cfg\<lparr>final_plan_requirement := FinalPlanRequirementMode.Never\<rparr> else cfg,
       caps))"

definition prepare_turn_cfg_and_permission ::
    "AgentConfig \<Rightarrow> ustring \<Rightarrow> TurnPermissionStages \<Rightarrow> AgentConfig \<times> PermissionCaps" where
  "prepare_turn_cfg_and_permission cfg workspace_root stages =
     plan_turn_permission (cfg\<lparr>chat_workspace_root := Some workspace_root\<rparr>) stages"

section \<open>The policy port as an interface\<close>

text \<open>
  \<^verbatim>\<open>trait PolicyEngine\<close>: the trait object is a record of its methods.  The locale states the contract
  that the trait's documentation gives to implementors, and \<open>caps_engine\<close> is the one
  production implementation.
\<close>

record PolicyEngine =
  engine_level :: PermissionLevel
  engine_approval :: ApprovalPolicy
  engine_path_scope :: PathScope
  engine_outbound_denied :: bool
  engine_outbound_allows_any :: bool
  engine_outbound_prefixes :: "ustring list"
  engine_outbound_uses_prefixes :: bool
  engine_command_allowlist :: "ustring list option"
  engine_denied_axis :: "ustring \<Rightarrow> PermissionAxis option"
  engine_allows_tool :: "ustring \<Rightarrow> bool"
  engine_deny_message :: "ustring \<Rightarrow> ustring"

definition caps_engine :: "PermissionCaps \<Rightarrow> PolicyEngine" where
  "caps_engine caps =
     \<lparr>engine_level = caps_level caps,
      engine_approval = approval caps,
      engine_path_scope = path_scope caps,
      engine_outbound_denied = outbound_denied caps,
      engine_outbound_allows_any = outbound_allows_any caps,
      engine_outbound_prefixes = outbound_prefixes caps,
      engine_outbound_uses_prefixes = outbound_uses_prefixes caps,
      engine_command_allowlist = command_allowlist caps,
      engine_denied_axis = denied_axis caps,
      engine_allows_tool = allows_tool caps,
      engine_deny_message = deny_message caps\<rparr>"

text \<open>The wrappers of \<^verbatim>\<open>src/cm_agent/permission_audit.rs\<close> read level and approval off the port.\<close>

definition engine_record_allowed ::
    "audit_log \<Rightarrow> PolicyEngine \<Rightarrow> PermissionAxis \<Rightarrow> ustring option \<Rightarrow> ustring option \<Rightarrow> audit_log" where
  "engine_record_allowed log engine axis tool detail =
     record_allowed log (engine_level engine) (engine_approval engine) axis tool detail"

definition engine_record_denied ::
    "audit_log \<Rightarrow> PolicyEngine \<Rightarrow> PermissionAxis \<Rightarrow> ustring option \<Rightarrow> ustring option \<Rightarrow> audit_log" where
  "engine_record_denied log engine axis tool detail =
     record_denied log (engine_level engine) (engine_approval engine) axis tool detail"

locale policy_engine =
  fixes e :: PolicyEngine
  assumes outbound_three_way:
      "engine_outbound_uses_prefixes e \<longleftrightarrow>
         \<not> engine_outbound_denied e \<and> \<not> engine_outbound_allows_any e"
    and outbound_exclusive: "\<not> (engine_outbound_denied e \<and> engine_outbound_allows_any e)"
    and prefixes_only_when_used: "\<not> engine_outbound_uses_prefixes e \<Longrightarrow> engine_outbound_prefixes e = []"
    and allows_iff_no_axis: "engine_allows_tool e name \<longleftrightarrow> engine_denied_axis e name = None"
    and commands_hard_denied:
      "engine_command_allowlist e = None \<Longrightarrow> is_command_tool name \<Longrightarrow> \<not> engine_allows_tool e name"
begin

lemma denied_has_axis: "\<not> engine_allows_tool e name \<Longrightarrow> \<exists>axis. engine_denied_axis e name = Some axis"
  by (simp add: allows_iff_no_axis)

lemma exactly_one_outbound_mode:
  "(engine_outbound_denied e \<or> engine_outbound_allows_any e \<or> engine_outbound_uses_prefixes e) \<and>
   \<not> (engine_outbound_denied e \<and> engine_outbound_allows_any e) \<and>
   \<not> (engine_outbound_uses_prefixes e \<and> (engine_outbound_denied e \<or> engine_outbound_allows_any e))"
  using outbound_exclusive by (auto simp: outbound_three_way)

lemma filter_visible_iff:
  "name \<in> set (filter (engine_allows_tool e) names) \<longleftrightarrow>
     name \<in> set names \<and> engine_denied_axis e name = None"
  by (simp add: allows_iff_no_axis conj_commute)

end

section \<open>Lemmas\<close>

lemma allows_tool_eq: "allows_tool caps name = tool_allowed_by_caps caps name"
  by (simp add: allows_tool_def denied_axis_def tool_allowed_by_caps_def)

lemma command_tool_builtin: "is_command_tool name \<Longrightarrow> tool_origin name = ToolOrigin.Builtin"
  by (auto simp: is_command_tool_def COMMAND_TOOLS_def tool_origin_def is_mcp_proxy_tool_def
      is_dynamic_tool_name_def starts_with_def MCP_PROXY_PREFIX_def DYNAMIC_TOOL_PREFIX_def
      RUN_COMMAND_def TERMINAL_SESSION_def PYTHON_SNIPPET_RUN_def lit_def)

interpretation caps: policy_engine "caps_engine c" for c
proof (unfold_locales, goal_cases)
  case (5 name)
  then show ?case
    by (auto simp: caps_engine_def command_allowlist_def allows_tool_eq tool_allowed_by_caps_def
        split: CommandScope.splits)
qed (auto simp: caps_engine_def outbound_uses_prefixes_def outbound_denied_def
    outbound_allows_any_def outbound_prefixes_def allows_tool_def split: NetScope.splits)

abbreviation role_limit_of :: "PermissionLevel option \<Rightarrow> PermissionLevel" where
  "role_limit_of rm \<equiv> unwrap_or rm PermissionLevel.Unrestricted"

text \<open>The level the turn asks for, before any clamp.\<close>

definition chosen_level :: "PermissionTurnInput \<Rightarrow> PermissionLevel" where
  "chosen_level input =
     unwrap_or (or_option (in_requested input) (in_persisted input))
       (min (min (permission_level (permission (in_cfg input)))
                 (effective_ceiling (permission (in_cfg input))))
            (role_limit_of (in_role_max input)))"

abbreviation turn_ceiling :: "PermissionTurnInput \<Rightarrow> PermissionLevel" where
  "turn_ceiling input \<equiv> effective_ceiling (permission (in_cfg input))"

text \<open>The three clamps on plain levels: what is left of the min chain once its inputs are named.\<close>

definition clamp_chain ::
    "PermissionLevel \<Rightarrow> PermissionLevel \<Rightarrow> PermissionLevel \<Rightarrow> bool \<Rightarrow> PermissionLevel option \<Rightarrow>
     ResolvedPermission" where
  "clamp_chain chosen ceiling role_limit readonly req =
     (let (eff1, cl1) = (if ceiling < chosen then (ceiling, [ClampCeiling]) else (chosen, []));
          (eff2, cl2) = (if role_limit < eff1 then (role_limit, cl1 @ [ClampRole]) else (eff1, cl1));
          (eff3, cl3) =
            (if readonly \<and> PermissionLevel.Read < eff2
             then (PermissionLevel.Read, cl2 @ [ClampSessionMode]) else (eff2, cl2)) in
      \<lparr>effective = eff3, projection_level = eff2, res_requested = req, clamped_by = cl3\<rparr>)"

lemma resolve_clamp_chain:
  "resolve_permission_level_for_turn input =
     clamp_chain (chosen_level input) (turn_ceiling input) (role_limit_of (in_role_max input))
       (requires_readonly_tools (in_session_mode input)) (in_requested input)"
  unfolding resolve_permission_level_for_turn_def chosen_level_def clamp_chain_def Let_def ..

lemma clamp_step:
  "(if c < x then (c, y) else (x, z)) = (min x c, if c < (x::PermissionLevel) then y else z)"
  by (auto simp: min_def)

lemma clamp_step_guarded:
  "(if g \<and> c < x then (c, y) else (x, z)) =
     (if g then min c x else x, if g \<and> c < (x::PermissionLevel) then y else z)"
  by (auto simp: min_def)

lemma chain_projection: "projection_level (clamp_chain ch c r ro q) = min (min ch c) r"
  by (simp add: clamp_chain_def clamp_step clamp_step_guarded)

lemma chain_effective:
  "effective (clamp_chain ch c r ro q) =
     (if ro then min PermissionLevel.Read (min (min ch c) r) else min (min ch c) r)"
  by (simp add: clamp_chain_def clamp_step clamp_step_guarded)

lemma chain_clamped_by:
  "clamped_by (clamp_chain ch c r ro q) =
     (if c < ch then [ClampCeiling] else []) @
     (if r < min ch c then [ClampRole] else []) @
     (if ro \<and> PermissionLevel.Read < min (min ch c) r then [ClampSessionMode] else [])"
  by (simp add: clamp_chain_def clamp_step clamp_step_guarded)

lemma min3_eq_first:
  "min (min a b) c = a \<longleftrightarrow> a \<le> b \<and> a \<le> (c::PermissionLevel)"
proof
  assume "min (min a b) c = a"
  then show "a \<le> b \<and> a \<le> c"
    by (metis min.bounded_iff order_refl)
qed (simp add: min_absorb1)

lemma min4_eq_first:
  "min d (min (min a b) c) = a \<longleftrightarrow> a \<le> b \<and> a \<le> c \<and> a \<le> (d::PermissionLevel)"
proof -
  have "min d (min (min a b) c) = min (min a (min b c)) d"
    by (simp add: ac_simps)
  then show ?thesis by (simp add: min3_eq_first)
qed

lemma chain_unclamped:
  "clamped_by (clamp_chain ch c r ro q) = [] \<longleftrightarrow> effective (clamp_chain ch c r ro q) = ch"
proof (cases "ch \<le> c \<and> ch \<le> r")
  case True
  then have "min (min ch c) r = ch" by (simp add: min3_eq_first)
  with True show ?thesis
    by (auto simp: chain_clamped_by chain_effective min_def)
next
  case False
  then show ?thesis
    by (auto simp: chain_clamped_by chain_effective min3_eq_first min4_eq_first not_less not_le)
qed

lemmas chain_simps = chain_projection chain_effective chain_clamped_by

lemma effective_eq_min_selectable:
  "effective (resolve_permission_level_for_turn input) =
     min (chosen_level input)
       (selectable_max_level (in_cfg input) (in_role_max input) (in_session_mode input))"
proof -
  have "min a (min (min b d) PermissionLevel.Unrestricted) = min (min a b) d"
    and "min a (min (min b d) PermissionLevel.Read) = min PermissionLevel.Read (min (min a b) d)"
    for a b d :: PermissionLevel
    by (simp_all add: min_absorb1 min.assoc min.commute min.left_commute)
  then show ?thesis
    by (simp add: resolve_clamp_chain chain_simps selectable_max_level_def Let_def)
qed


lemma levels_le_cases:
  assumes "l \<le> l'"
  shows "l = l' \<or> (l, l') \<in>
    {(PermissionLevel.Chat, PermissionLevel.Read), (PermissionLevel.Chat, PermissionLevel.Workspace),
     (PermissionLevel.Chat, PermissionLevel.Approved), (PermissionLevel.Chat, PermissionLevel.Unrestricted),
     (PermissionLevel.Read, PermissionLevel.Workspace), (PermissionLevel.Read, PermissionLevel.Approved),
     (PermissionLevel.Read, PermissionLevel.Unrestricted),
     (PermissionLevel.Workspace, PermissionLevel.Approved),
     (PermissionLevel.Workspace, PermissionLevel.Unrestricted),
     (PermissionLevel.Approved, PermissionLevel.Unrestricted)}"
  using assms by (cases l; cases l') (simp_all add: level_order)

text \<open>
  How the axes of two snapshots compare: every axis of the first is at most as permissive as the same
  axis of the second.
\<close>

fun net_scope_le :: "NetScope \<Rightarrow> NetScope \<Rightarrow> bool" where
  "net_scope_le NetNone n = True"
| "net_scope_le (NetPrefixes ps) NetNone = False"
| "net_scope_le (NetPrefixes ps) (NetPrefixes qs) = (set ps \<subseteq> set qs)"
| "net_scope_le (NetPrefixes ps) NetAny = True"
| "net_scope_le NetAny n = (n = NetAny)"

fun command_scope_le :: "CommandScope \<Rightarrow> CommandScope \<Rightarrow> bool" where
  "command_scope_le CommandNone c = True"
| "command_scope_le (CommandAllowlist ps) CommandNone = False"
| "command_scope_le (CommandAllowlist ps) (CommandAllowlist qs) = (set ps \<subseteq> set qs)"
| "command_scope_le (CommandAllowlist ps) CommandAny = True"
| "command_scope_le CommandAny c = (c = CommandAny)"

definition caps_le :: "PermissionCaps \<Rightarrow> PermissionCaps \<Rightarrow> bool" where
  "caps_le a b \<longleftrightarrow>
     (\<forall>name. tool_allowed_by_caps a name \<longrightarrow> tool_allowed_by_caps b name) \<and>
     (path_scope a = AnyPath \<longrightarrow> path_scope b = AnyPath) \<and>
     command_scope_le (command_scope a) (command_scope b) \<and>
     net_scope_le (net_scope a) (net_scope b) \<and>
     (approval b = ApprovalPolicy.Deny \<longrightarrow> approval a = ApprovalPolicy.Deny)"

lemma caps_le_refl [simp]: "caps_le c c"
  by (cases "net_scope c"; cases "command_scope c") (simp_all add: caps_le_def)

lemma tool_allowed_Read:
  "tool_allowed_by_caps (project_caps PermissionLevel.Read cfg) name \<longleftrightarrow>
     is_builtin_tool name \<and> \<not> is_command_tool name \<and> allows (readonly_allow_from_cfg cfg) name"
  by (auto simp: tool_allowed_by_caps_def external_tools_allowed_by_caps_def is_builtin_tool_def)

lemma tool_allowed_Chat [simp]:
  "\<not> tool_allowed_by_caps (project_caps PermissionLevel.Chat cfg) name"
  by (simp add: tool_allowed_by_caps_def)

lemma tool_allowed_Workspace:
  "tool_allowed_by_caps (project_caps PermissionLevel.Workspace cfg) name \<longleftrightarrow> is_builtin_tool name"
  by (simp add: tool_allowed_by_caps_def external_tools_allowed_by_caps_def is_builtin_tool_def
      full_caps_def allowlist_from_cfg_def)

lemma tool_allowed_Approved [simp]:
  "tool_allowed_by_caps (project_caps PermissionLevel.Approved cfg) name"
  "tool_allowed_by_caps (project_caps PermissionLevel.Unrestricted cfg) name"
  by (simp_all add: tool_allowed_by_caps_def external_tools_allowed_by_caps_def full_caps_def
      allowlist_from_cfg_def)

lemmas tool_allowed_simps = tool_allowed_Read tool_allowed_Workspace

section \<open>What the levels guarantee\<close>

text \<open>
  C1: No escalation.  Whatever the request, the stored intent, the role and the session mode, the
  effective level of a turn is the smaller of the level asked for and the largest level the selector
  offers for the same ceiling, role and mode; the level used for the projection is the smaller of
  the level asked for, the ceiling and the role limit.
\<close>

theorem turn_level_no_escalation:
  "effective (resolve_permission_level_for_turn input) =
     min (chosen_level input)
       (selectable_max_level (in_cfg input) (in_role_max input) (in_session_mode input)) \<and>
   projection_level (resolve_permission_level_for_turn input) =
     min (min (chosen_level input) (turn_ceiling input)) (role_limit_of (in_role_max input)) \<and>
   effective (resolve_permission_level_for_turn input) \<le> turn_ceiling input"
proof -
  have "selectable_max_level (in_cfg input) (in_role_max input) (in_session_mode input)
      \<le> turn_ceiling input"
    by (simp add: selectable_max_level_def Let_def min.assoc)
  then have "effective (resolve_permission_level_for_turn input) \<le> turn_ceiling input"
    unfolding effective_eq_min_selectable by (rule min.coboundedI2)
  then show ?thesis
    by (intro conjI effective_eq_min_selectable)
      (simp_all only: resolve_clamp_chain chain_projection)
qed

text \<open>
  The level selector is exact.  The levels offered by \<^verbatim>\<open>GET /permission\<close> are in increasing order
  and are precisely the effective levels that some explicit request reaches under the same
  configuration, role and session mode.
\<close>

theorem selectable_levels_exact:
  "set (selectable_levels (in_cfg input) (in_role_max input) (in_session_mode input)) =
     range (\<lambda>l. effective (resolve_permission_level_for_turn (input\<lparr>in_requested := Some l\<rparr>))) \<and>
   sorted_wrt (<) (selectable_levels (in_cfg input) (in_role_max input) (in_session_mode input))"
proof -
  let ?m = "selectable_max_level (in_cfg input) (in_role_max input) (in_session_mode input)"
  have eff: "effective (resolve_permission_level_for_turn (input\<lparr>in_requested := Some l\<rparr>)) = min l ?m" for l
    by (simp add: effective_eq_min_selectable chosen_level_def or_option_def)
  have "{l. l \<le> ?m} = range (\<lambda>l. min l ?m)"
    by (auto simp: min_def image_iff)
  then show ?thesis
    by (simp add: eff selectable_levels_def sorted_wrt_filter sorted_ALL_levels)
qed

text \<open>
  The clamp report is truthful.  \<^verbatim>\<open>clamped_by\<close> is empty exactly when the turn gets the level it
  asked for, and the clamps that are reported appear in the order ceiling, role, session mode
  without repetition.
\<close>

theorem clamped_by_truthful:
  "(clamped_by (resolve_permission_level_for_turn input) = [] \<longleftrightarrow>
      effective (resolve_permission_level_for_turn input) = chosen_level input) \<and>
   (\<exists>P. clamped_by (resolve_permission_level_for_turn input) =
      filter P [ClampCeiling, ClampRole, ClampSessionMode])"
proof -
  let ?ch = "chosen_level input" and ?c = "turn_ceiling input"
    and ?r = "role_limit_of (in_role_max input)"
    and ?ro = "requires_readonly_tools (in_session_mode input)"
  have sub: "clamped_by (resolve_permission_level_for_turn input) =
      filter (\<lambda>x. (x = ClampCeiling \<and> ?c < ?ch) \<or> (x = ClampRole \<and> ?r < min ?ch ?c) \<or>
        (x = ClampSessionMode \<and> ?ro \<and> PermissionLevel.Read < min (min ?ch ?c) ?r))
        [ClampCeiling, ClampRole, ClampSessionMode]"
    by (simp add: resolve_clamp_chain chain_simps)
  have "clamped_by (resolve_permission_level_for_turn input) = [] \<longleftrightarrow>
      effective (resolve_permission_level_for_turn input) = ?ch"
    unfolding resolve_clamp_chain by (rule chain_unclamped)
  with sub show ?thesis by blast
qed



text \<open>
  Below \<^verbatim>\<open>workspace\<close> no tool can change anything.  At \<^verbatim>\<open>chat\<close> and \<^verbatim>\<open>read\<close> an allowed tool is a
  built-in one and not a command tool, even when the operator lists it explicitly; with the derived
  list it is also not one of the tools with write effects.
\<close>

theorem readonly_levels_are_safe:
  assumes "l \<le> PermissionLevel.Read" and "tool_allowed_by_caps (project_caps l cfg) name"
  shows "tool_origin name = ToolOrigin.Builtin \<and> \<not> is_command_tool name \<and>
    (permission_read_tools (permission cfg) = None \<longrightarrow> name \<notin> set builtin_write_effect_tools)"
proof -
  have "l = PermissionLevel.Chat \<or> l = PermissionLevel.Read"
    using assms(1) by (cases l) (simp_all add: level_order)
  with assms(2) show ?thesis
    by (auto simp: tool_allowed_Read is_builtin_tool_def readonly_allow_from_cfg_def
        is_readonly_tool_for_permission_def simp del: project_caps.simps split: option.splits)
qed

theorem readonly_levels_are_safe_witness:
  "tool_allowed_by_caps (project_caps PermissionLevel.Read sample_config) (lit ''read_file'') \<and>
   tool_origin (lit ''read_file'') = ToolOrigin.Builtin \<and>
   lit ''read_file'' \<notin> set builtin_write_effect_tools"
proof -
  have builtin: "is_builtin_tool (lit ''read_file'')"
    by (simp add: is_builtin_tool_def tool_origin_def is_mcp_proxy_tool_def is_dynamic_tool_name_def
        starts_with_def MCP_PROXY_PREFIX_def DYNAMIC_TOOL_PREFIX_def lit_def)
  have read: "permission_read_tools (permission sample_config) = None"
    by (simp add: sample_config_def sample_permission_def)
  have "tool_allowed_by_caps (project_caps PermissionLevel.Read sample_config) (lit ''read_file'')"
    using builtin by (simp add: tool_allowed_Read read readonly_allow_from_cfg_def
        is_readonly_tool_for_permission_def builtin_write_effect_tools_def is_command_tool_def
        COMMAND_TOOLS_def RUN_COMMAND_def TERMINAL_SESSION_def PYTHON_SNIPPET_RUN_def
        HTTP_REQUEST_def del: project_caps.simps)
  with readonly_levels_are_safe [OF order_refl this] read show ?thesis by blast
qed

text \<open>
  The leaf-layer table and the authoritative projection agree: \<^verbatim>\<open>PermissionLevel::caps_view\<close> and the
  view of \<^verbatim>\<open>project_caps\<close> give the same six strings at every level and for every configuration.
\<close>

theorem caps_view_matches_projection: "view (project_caps l cfg) = caps_view l"
  by (cases l) (simp_all add: view_def mk_view_def full_caps_def allowlist_from_cfg_def
      prefixes_from_cfg_def)

end
