(* ===== verification/Tool_Gate.thy ===== *)
theory Tool_Gate
  imports Permission Message
begin

text \<open>
  The gates a tool call passes before it is dispatched: the dispatch table
  (\<^verbatim>\<open>src/cm_tools/tool_dispatch.rs\<close>), the registry policy for read-only and parallel execution
  (\<^verbatim>\<open>src/cm_tools/registry_policy.rs\<close>), the tool table of the sub-agent roles
  (\<^verbatim>\<open>src/cm_agent/step_executor_policy.rs\<close>), the role's allow list
  (\<^verbatim>\<open>src/cm_internal/agent_role_turn.rs\<close>), the tools that are put into the model request
  (\<^verbatim>\<open>src/agent/agent_turn/turn_loop/outer_loop.rs\<close>) and the synchronous early denial on the
  execution side (\<^verbatim>\<open>src/agent/agent_turn/policy/tool_execution.rs\<close>).  \<^verbatim>\<open>u64\<close> seconds are natural
  numbers with the saturation of \<^verbatim>\<open>saturating_add\<close> written out.

  Shown here: the advertised tools are exactly the ones the execution side lets pass; a parallel
  batch only holds read-only tools of harmless handlers; the sub-agent roles never allow more
  than they list; the outer wall clocks exceed the inner ones; the hint in a denial is bounded.
\<close>

section \<open>Dispatch table\<close>

datatype ToolExecutionClass =
    WorkflowClass | CommandSpawnTimeout | WeatherSpawnTimeout | WebSearchSpawnTimeout
  | HttpFetchSpawnTimeout | BlockingSync

datatype HandlerId =
    WorkflowHandler | RunCommand | TerminalSession | GetWeather | WebSearch | HttpFetch
  | HttpRequest | SyncDefault

record ToolDispatchMeta =
  meta_name :: ustring
  requires_workspace :: bool
  meta_class :: ToolExecutionClass

definition tool_dispatch_registry :: "(ustring \<times> bool \<times> ToolExecutionClass \<times> HandlerId) list" where
  "tool_dispatch_registry =
     [(lit ''workflow_execute'', False, WorkflowClass, WorkflowHandler),
      (RUN_COMMAND, True, CommandSpawnTimeout, RunCommand),
      (TERMINAL_SESSION, True, CommandSpawnTimeout, TerminalSession),
      (lit ''get_weather'', False, WeatherSpawnTimeout, GetWeather),
      (lit ''web_search'', False, WebSearchSpawnTimeout, WebSearch),
      (lit ''http_fetch'', False, HttpFetchSpawnTimeout, HttpFetch),
      (HTTP_REQUEST, False, HttpFetchSpawnTimeout, HttpRequest)]"

definition all_dispatch_metadata :: "ToolDispatchMeta list" where
  "all_dispatch_metadata =
     map (\<lambda>(n, w, c, h). \<lparr>meta_name = n, requires_workspace = w, meta_class = c\<rparr>) tool_dispatch_registry"

definition handler_dispatch_map_build :: "ustring \<rightharpoonup> HandlerId" where
  "handler_dispatch_map_build =
     foldl (\<lambda>m (n, w, c, h). m(n \<mapsto> h)) Map.empty tool_dispatch_registry"

type_synonym HandlerLookupTable = "ustring \<rightharpoonup> HandlerId"

definition default_dispatch :: HandlerLookupTable where
  "default_dispatch = handler_dispatch_map_build"

definition id_for :: "HandlerLookupTable \<Rightarrow> ustring \<Rightarrow> HandlerId" where
  "id_for table name = (case table name of Some h \<Rightarrow> h | None \<Rightarrow> SyncDefault)"

definition try_dispatch_meta :: "ustring \<Rightarrow> ToolDispatchMeta option" where
  "try_dispatch_meta name = find (\<lambda>m. meta_name m = name) all_dispatch_metadata"

definition execution_class_for_tool :: "ustring \<Rightarrow> ToolExecutionClass" where
  "execution_class_for_tool name =
     (case try_dispatch_meta name of Some m \<Rightarrow> meta_class m | None \<Rightarrow> BlockingSync)"

section \<open>Registry policy\<close>

definition u64_max :: nat where
  "u64_max = 2 ^ 64 - 1"

definition saturating_add :: "nat \<Rightarrow> nat \<Rightarrow> nat" where
  "saturating_add a b = min (a + b) u64_max"

definition WEB_SEARCH_WORBROW_OUTER_GRACE_SECS :: nat where
  "WEB_SEARCH_WORBROW_OUTER_GRACE_SECS = 15"

definition WEB_SEARCH_API_OUTER_GRACE_SECS :: nat where
  "WEB_SEARCH_API_OUTER_GRACE_SECS = 2"

definition TERMINAL_SESSION_OUTER_GRACE_SECS :: nat where
  "TERMINAL_SESSION_OUTER_GRACE_SECS = 5"

fun execution_class_parallel_wall_key :: "ToolExecutionClass \<Rightarrow> ustring" where
  "execution_class_parallel_wall_key WorkflowClass = lit ''workflow''"
| "execution_class_parallel_wall_key CommandSpawnTimeout = lit ''command_spawn_timeout''"
| "execution_class_parallel_wall_key WeatherSpawnTimeout = lit ''weather_spawn_timeout''"
| "execution_class_parallel_wall_key WebSearchSpawnTimeout = lit ''web_search_spawn_timeout''"
| "execution_class_parallel_wall_key HttpFetchSpawnTimeout = lit ''http_fetch_spawn_timeout''"
| "execution_class_parallel_wall_key BlockingSync = lit ''blocking_sync''"

definition web_search_outer_wall_secs_for :: "WebSearchProvider \<Rightarrow> nat \<Rightarrow> nat" where
  "web_search_outer_wall_secs_for provider timeout_secs =
     (let inner = max timeout_secs 1;
          grace = (case provider of
              WebSearchProvider.Worbrow \<Rightarrow> WEB_SEARCH_WORBROW_OUTER_GRACE_SECS
            | WebSearchProvider.Brave \<Rightarrow> WEB_SEARCH_API_OUTER_GRACE_SECS
            | WebSearchProvider.Tavily \<Rightarrow> WEB_SEARCH_API_OUTER_GRACE_SECS)
      in saturating_add inner grace)"

definition web_search_outer_wall_secs :: "AgentConfig \<Rightarrow> nat" where
  "web_search_outer_wall_secs cfg =
     web_search_outer_wall_secs_for (web_search_provider cfg) (web_search_timeout_secs cfg)"

definition parallel_tool_wall_timeout_secs :: "AgentConfig \<Rightarrow> ustring \<Rightarrow> nat" where
  "parallel_tool_wall_timeout_secs cfg tool_name =
     (let class = execution_class_for_tool tool_name;
          key = execution_class_parallel_wall_key class in
      case tool_registry_parallel_wall_timeout_secs (tool_registry_policy cfg) key of
        Some secs \<Rightarrow> max secs 1
      | None \<Rightarrow>
          (case class of
             HttpFetchSpawnTimeout \<Rightarrow>
               max (max (http_fetch_timeout_secs cfg) 1) (max (command_timeout_secs cfg) 1)
           | WeatherSpawnTimeout \<Rightarrow> max (weather_timeout_secs cfg) 1
           | WebSearchSpawnTimeout \<Rightarrow> web_search_outer_wall_secs cfg
           | CommandSpawnTimeout \<Rightarrow> max (command_timeout_secs cfg) 1
           | WorkflowClass \<Rightarrow> max (command_timeout_secs cfg) 1
           | BlockingSync \<Rightarrow> max (command_timeout_secs cfg) 1))"

definition http_fetch_outer_wall_secs :: "AgentConfig \<Rightarrow> nat" where
  "http_fetch_outer_wall_secs cfg =
     (case tool_registry_http_fetch_wall_timeout_secs (tool_registry_policy cfg) of
        Some s \<Rightarrow> s
      | None \<Rightarrow> max (max (command_timeout_secs cfg) (http_fetch_timeout_secs cfg)) 1)"

definition http_request_outer_wall_secs :: "AgentConfig \<Rightarrow> nat" where
  "http_request_outer_wall_secs cfg =
     (case tool_registry_http_request_wall_timeout_secs (tool_registry_policy cfg) of
        Some s \<Rightarrow> s
      | None \<Rightarrow> http_fetch_outer_wall_secs cfg)"

definition terminal_session_outer_wall_secs :: "AgentConfig \<Rightarrow> nat" where
  "terminal_session_outer_wall_secs cfg =
     saturating_add (parallel_tool_wall_timeout_secs cfg TERMINAL_SESSION)
       TERMINAL_SESSION_OUTER_GRACE_SECS"

definition is_readonly_tool :: "AgentConfig \<Rightarrow> ustring \<Rightarrow> bool" where
  "is_readonly_tool cfg name =
     (if tool_origin name \<noteq> ToolOrigin.Builtin then False
      else (case tool_registry_write_effect_tools (tool_registry_policy cfg) of
              None \<Rightarrow> name \<notin> set builtin_write_effect_tools
            | Some writes \<Rightarrow> name \<notin> writes))"

definition builtin_dedup_cache_exempt_tools :: "ustring list" where
  "builtin_dedup_cache_exempt_tools = [lit ''background_job'', lit ''background_job_wait'']"

definition tool_output_dedup_cache_eligible :: "AgentConfig \<Rightarrow> ustring \<Rightarrow> bool" where
  "tool_output_dedup_cache_eligible cfg name \<longleftrightarrow>
     is_readonly_tool cfg name \<and> name \<notin> set builtin_dedup_cache_exempt_tools"

definition builtin_parallel_sync_denied_exact :: "ustring list" where
  "builtin_parallel_sync_denied_exact =
     [lit ''repo_overview_sweep'', lit ''crate_contract_map'', lit ''codebase_semantic_search'',
      lit ''docs_health_sweep'', lit ''background_job_wait'']"

definition builtin_parallel_sync_prefix_hit :: "ustring \<Rightarrow> bool" where
  "builtin_parallel_sync_prefix_hit name =
     list_ex (starts_with name)
       [lit ''cargo_'', lit ''npm_'', lit ''frontend_'', lit ''go_'', lit ''docker_'',
        lit ''podman_'', lit ''ruff_'', lit ''pytest'', lit ''mypy_'', lit ''uv_'',
        lit ''pre_commit'', lit ''python_'', lit ''gh_'']"

definition parallel_sync_batch_denied :: "AgentConfig \<Rightarrow> ustring \<Rightarrow> bool" where
  "parallel_sync_batch_denied cfg name =
     (let pol = tool_registry_policy cfg;
          exact = (case tool_registry_parallel_sync_denied_tools pol of
              None \<Rightarrow> name \<in> set builtin_parallel_sync_denied_exact
            | Some s \<Rightarrow> name \<in> s) in
      if exact then True
      else (case tool_registry_parallel_sync_denied_prefixes pol of
              None \<Rightarrow> builtin_parallel_sync_prefix_hit name
            | Some prefs \<Rightarrow> list_ex (starts_with name) prefs))"

definition parallel_batch_eligible_tool ::
    "HandlerLookupTable \<Rightarrow> AgentConfig \<Rightarrow> ustring \<Rightarrow> bool" where
  "parallel_batch_eligible_tool handler_lookup cfg name =
     (if parallel_sync_batch_denied cfg name then False
      else id_for handler_lookup name \<in> {SyncDefault, HttpFetch, GetWeather, WebSearch})"

definition tool_ok_for_parallel_readonly_batch_piece ::
    "HandlerLookupTable \<Rightarrow> AgentConfig \<Rightarrow> ustring \<Rightarrow> bool" where
  "tool_ok_for_parallel_readonly_batch_piece handler_lookup cfg name \<longleftrightarrow>
     tool_origin name \<noteq> ToolOrigin.Mcp \<and> is_readonly_tool cfg name \<and>
     parallel_batch_eligible_tool handler_lookup cfg name"

definition tool_calls_allow_parallel_sync_batch ::
    "HandlerLookupTable \<Rightarrow> AgentConfig \<Rightarrow> ToolCall list \<Rightarrow> bool" where
  "tool_calls_allow_parallel_sync_batch handler_lookup cfg tool_calls \<longleftrightarrow>
     length tool_calls > 1 \<and>
     list_all (\<lambda>tc. tool_ok_for_parallel_readonly_batch_piece handler_lookup cfg
       (fn_name (call_function tc))) tool_calls"

definition sync_default_runs_inline :: "AgentConfig \<Rightarrow> ustring \<Rightarrow> bool" where
  "sync_default_runs_inline cfg name =
     (case tool_registry_sync_default_inline_tools (tool_registry_policy cfg) of
        None \<Rightarrow> False
      | Some s \<Rightarrow> name \<in> s)"


section \<open>Sub-agent roles\<close>

datatype PlanStepExecutorKind = ReviewReadonly | PatchWrite | TestRunner

fun as_snake_case_str :: "PlanStepExecutorKind \<Rightarrow> ustring" where
  "as_snake_case_str ReviewReadonly = lit ''review_readonly''"
| "as_snake_case_str PatchWrite = lit ''patch_write''"
| "as_snake_case_str TestRunner = lit ''test_runner''"

record FunctionDef =
  def_name :: ustring
  def_description :: ustring
  def_parameters :: Value

record Tool =
  tool_typ :: ustring
  tool_function :: FunctionDef

abbreviation tool_def_name :: "Tool \<Rightarrow> ustring" where
  "tool_def_name t \<equiv> def_name (tool_function t)"

definition default_patch_write_tool_names :: "ustring list" where
  "default_patch_write_tool_names =
     [lit ''apply_patch'', lit ''search_replace'', lit ''structured'', lit ''create_file'',
      lit ''modify_file'', lit ''append_file'']"

definition default_test_runner_tool_names :: "ustring list" where
  "default_test_runner_tool_names = [lit ''cargo_test'', lit ''pytest_run'', RUN_COMMAND]"

definition patch_write_allowed_name :: "AgentConfig \<Rightarrow> ustring \<Rightarrow> bool" where
  "patch_write_allowed_name cfg name =
     (if name \<in> set default_patch_write_tool_names then True
      else (case tool_registry_sub_agent_patch_write_extra_tools (tool_registry_policy cfg) of
              Some s \<Rightarrow> name \<in> s | None \<Rightarrow> False))"

definition test_runner_allowed_name :: "AgentConfig \<Rightarrow> ustring \<Rightarrow> bool" where
  "test_runner_allowed_name cfg name =
     (if name \<in> set default_test_runner_tool_names then True
      else (case tool_registry_sub_agent_test_runner_extra_tools (tool_registry_policy cfg) of
              Some s \<Rightarrow> name \<in> s | None \<Rightarrow> False))"

definition tool_name_implies_readonly_probe :: "ustring \<Rightarrow> bool" where
  "tool_name_implies_readonly_probe name =
     (if tool_origin name = ToolOrigin.Mcp then False
      else name \<in> set [lit ''read_file'', lit ''read_dir'', lit ''search_in_files'', lit ''git'',
             lit ''code_nav'', lit ''archive_list'', lit ''http_fetch'', lit ''diagnostic_summary'',
             lit ''self_config_info''])"

definition tool_name_implies_patch_write_progress :: "ustring \<Rightarrow> bool" where
  "tool_name_implies_patch_write_progress name \<longleftrightarrow> name \<in> set default_patch_write_tool_names"

definition tool_allowed_for_step_executor_kind ::
    "AgentConfig \<Rightarrow> ustring \<Rightarrow> PlanStepExecutorKind \<Rightarrow> bool" where
  "tool_allowed_for_step_executor_kind cfg name kind =
     (if tool_origin name = ToolOrigin.Mcp then True
      else (case kind of
        ReviewReadonly \<Rightarrow>
          (if (case tool_registry_sub_agent_review_readonly_deny_tools (tool_registry_policy cfg) of
                 Some s \<Rightarrow> name \<in> s | None \<Rightarrow> False)
           then False else is_readonly_tool cfg name)
      | PatchWrite \<Rightarrow> is_readonly_tool cfg name \<or> patch_write_allowed_name cfg name
      | TestRunner \<Rightarrow> is_readonly_tool cfg name \<or> test_runner_allowed_name cfg name))"

definition filter_tool_defs_for_executor_kind ::
    "Tool list \<Rightarrow> AgentConfig \<Rightarrow> PlanStepExecutorKind \<Rightarrow> Tool list" where
  "filter_tool_defs_for_executor_kind all_tools cfg kind =
     filter (\<lambda>t. tool_allowed_for_step_executor_kind cfg (tool_def_name t) kind) all_tools"

fun executor_kind_user_label :: "PlanStepExecutorKind \<Rightarrow> ustring" where
  "executor_kind_user_label ReviewReadonly = (lit ''review_readonly'' @ [65288, 21482, 35835, 23457, 38405, 65289])"
| "executor_kind_user_label PatchWrite = (lit ''patch_write'' @ [65288, 21482, 35835] @ lit '' + '' @ [21463, 38480, 34917, 19969, 20889, 65289])"
| "executor_kind_user_label TestRunner =
     (lit ''test_runner'' @ [65288, 21482, 35835] @ lit '' + '' @ [27979, 35797] @ lit ''/'' @ [26500, 24314, 24037, 20855] @ lit '' + run_command '' @ [30333, 21517, 21333, 65289])"

definition MAX_CHARS :: nat where
  "MAX_CHARS = 900"

text \<open>The loop that shortens the list of names: \<open>first\<close> is the test \<^verbatim>\<open>i == 0\<close>.\<close>

fun truncated_csv :: "bool \<Rightarrow> ustring \<Rightarrow> ustring list \<Rightarrow> ustring" where
  "truncated_csv first out [] = out"
| "truncated_csv first out (n # ns) =
     (let sep = (if first then [] else lit '', '') in
      if length out + length sep + length n > MAX_CHARS then out @ [8230]
      else truncated_csv False (out @ sep @ n) ns)"

definition allowed_tools_csv :: "ustring list \<Rightarrow> ustring" where
  "allowed_tools_csv names =
     (let csv = join (lit '', '') names in
      if length csv > MAX_CHARS then truncated_csv True [] names else csv)"

definition allowed_tools_hint_csv ::
    "AgentConfig \<Rightarrow> PlanStepExecutorKind \<Rightarrow> Tool list \<Rightarrow> ustring" where
  "allowed_tools_hint_csv cfg kind tools_defs =
     (let names = sort (filter (\<lambda>n. tool_allowed_for_step_executor_kind cfg n kind)
                         (map tool_def_name tools_defs)) in
      if names = []
      then ([24403, 21069, 20250, 35805, 24037, 20855, 21015, 34920, 20013, 26080, 31526, 21512, 35813, 35282, 33394, 30340, 24037, 20855, 65307, 35831, 35753, 35268, 21010, 22120, 30465, 30053] @ lit '' executor_kind '' @ [25110, 35843, 25972, 27493, 39588, 12290])
      else [26412, 27493, 20801, 35768, 30340, 24037, 20855, 21517, 21253, 25324, 65306] @ allowed_tools_csv names @ [12290])"

definition executor_kind_tool_denied_body ::
    "AgentConfig \<Rightarrow> Tool list \<Rightarrow> ustring \<Rightarrow> PlanStepExecutorKind \<Rightarrow> ustring" where
  "executor_kind_tool_denied_body cfg tools_defs name kind =
     (let label = executor_kind_user_label kind;
          hint = allowed_tools_hint_csv cfg kind tools_defs in
      [24037, 20855, 12300] @ name @ ([12301, 19981, 22312, 26412, 27493, 23376, 20195, 29702, 35282, 33394] @ lit '' '') @ label @ (lit '' '' @ [30340, 20801, 35768, 33539, 22260, 20869, 12290]) @ hint)"

section \<open>The turn's role\<close>

definition effective_agent_role_id_for_turn :: "ustring option \<Rightarrow> ustring option \<Rightarrow> ustring option" where
  "effective_agent_role_id_for_turn persisted_active request_agent_role =
     (let req = trim_nonempty request_agent_role in
      if req \<noteq> None then req else trim_nonempty persisted_active)"

definition named_agent_role_for_tool_policy ::
    "AgentConfig \<Rightarrow> ustring option \<Rightarrow> ustring option \<Rightarrow> ustring option" where
  "named_agent_role_for_tool_policy cfg persisted_active request_agent_role =
     (case effective_agent_role_id_for_turn persisted_active request_agent_role of
        Some i \<Rightarrow> Some i
      | None \<Rightarrow> trim_nonempty (default_agent_role_id cfg))"

definition tool_allowed_for_turn :: "ustring \<Rightarrow> ustring set option \<Rightarrow> bool" where
  "tool_allowed_for_turn name allow = tool_name_allowed_by_turn_allowlist name allow"

definition turn_tool_denied_message :: "ustring \<Rightarrow> ustring" where
  "turn_tool_denied_message name =
     ([38169, 35823, 65306, 24403, 21069] @ lit '' Agent '' @ [35282, 33394, 19981, 20801, 35768, 35843, 29992, 24037, 20855] @ lit '' '' @ [96]) @ name @ ([96, 65288, 37197, 32622, 39033] @ lit '' '' @ [96] @ lit ''allowed_tools'' @ [96, 65289, 12290])"

definition filter_tools_for_agent_role :: "Tool list \<Rightarrow> ustring set option \<Rightarrow> Tool list" where
  "filter_tools_for_agent_role tools allowed =
     filter (\<lambda>t. tool_allowed_for_turn (tool_def_name t) allowed) tools"

definition turn_allowed_tool_names_for_role ::
    "AgentConfig \<Rightarrow> ustring option \<Rightarrow> ustring set option" where
  "turn_allowed_tool_names_for_role cfg role_id =
     and_then (trim_nonempty role_id) (\<lambda>i. and_then (agent_roles cfg i) allowed_tools)"

definition turn_allow_for_web_or_cli_job ::
    "AgentConfig \<Rightarrow> ustring option \<Rightarrow> ustring option \<Rightarrow> ustring set option" where
  "turn_allow_for_web_or_cli_job cfg persisted_active request_agent_role =
     turn_allowed_tool_names_for_role cfg
       (named_agent_role_for_tool_policy cfg persisted_active request_agent_role)"

definition turn_role_max_permission_level_for_web_or_cli_job ::
    "AgentConfig \<Rightarrow> ustring option \<Rightarrow> ustring option \<Rightarrow> PermissionLevel option" where
  "turn_role_max_permission_level_for_web_or_cli_job cfg persisted_active request_agent_role =
     and_then (named_agent_role_for_tool_policy cfg persisted_active request_agent_role)
       (\<lambda>i. and_then (agent_roles cfg i) max_permission_level)"

definition tool_calls_allow_parallel_for_role ::
    "HandlerLookupTable \<Rightarrow> AgentConfig \<Rightarrow> ToolCall list \<Rightarrow> ustring set option \<Rightarrow> bool" where
  "tool_calls_allow_parallel_for_role handler_lookup cfg tool_calls turn_allow =
     (if \<not> tool_calls_allow_parallel_sync_batch handler_lookup cfg tool_calls then False
      else (case turn_allow of
              Some a \<Rightarrow> list_all (\<lambda>tc. tool_allowed_for_turn (fn_name (call_function tc)) (Some a)) tool_calls
            | None \<Rightarrow> True))"

section \<open>Batches and early denial\<close>

datatype ToolBatchExecutionMode = ParallelReadonlyBatch | Serial

record ToolBatchModeParams =
  force_serial :: bool
  workspace_is_set :: bool
  batch_handler_lookup :: HandlerLookupTable
  batch_cfg :: AgentConfig
  batch_tool_calls :: "ToolCall list"
  batch_turn_allow :: "ustring set option"

definition resolve_tool_batch_execution_mode :: "ToolBatchModeParams \<Rightarrow> ToolBatchExecutionMode" where
  "resolve_tool_batch_execution_mode params =
     (if force_serial params \<or> \<not> workspace_is_set params then Serial
      else if tool_calls_allow_parallel_for_role (batch_handler_lookup params) (batch_cfg params)
                (batch_tool_calls params) (batch_turn_allow params)
      then ParallelReadonlyBatch
      else Serial)"

definition dedup_readonly_tool_calls_count :: "ToolCall list \<Rightarrow> nat" where
  "dedup_readonly_tool_calls_count tool_calls =
     length (remdups (map (\<lambda>tc. (fn_name (call_function tc), fn_arguments (call_function tc))) tool_calls))"

record ToolPolicyEarlyDenyParams =
  deny_cfg :: AgentConfig
  deny_name :: ustring
  step_executor_constraint :: "PlanStepExecutorKind option"
  deny_tools_defs :: "Tool list"
  turn_allow :: "ustring set option"
  deny_permission :: "PolicyEngine option"

definition role_or_step_deny_message :: "ToolPolicyEarlyDenyParams \<Rightarrow> ustring option" where
  "role_or_step_deny_message p =
     (case step_executor_constraint p of
        Some k \<Rightarrow>
          if \<not> tool_allowed_for_step_executor_kind (deny_cfg p) (deny_name p) k
          then Some (executor_kind_tool_denied_body (deny_cfg p) (deny_tools_defs p) (deny_name p) k)
          else if \<not> tool_allowed_for_turn (deny_name p) (turn_allow p)
          then Some (turn_tool_denied_message (deny_name p)) else None
      | None \<Rightarrow>
          if \<not> tool_allowed_for_turn (deny_name p) (turn_allow p)
          then Some (turn_tool_denied_message (deny_name p)) else None)"

definition tool_policy_early_deny_message ::
    "audit_log \<Rightarrow> ToolPolicyEarlyDenyParams \<Rightarrow> audit_log \<times> ustring option" where
  "tool_policy_early_deny_message log p =
     (case deny_permission p of
        Some caps \<Rightarrow>
          (case engine_denied_axis caps (deny_name p) of
             Some axis \<Rightarrow>
               (engine_record_denied log caps axis (Some (deny_name p)) None,
                Some (engine_deny_message caps (deny_name p)))
           | None \<Rightarrow> (log, role_or_step_deny_message p))
      | None \<Rightarrow> (log, role_or_step_deny_message p))"

text \<open>
  \<^verbatim>\<open>build_planner_round_tools\<close>: its parameters are the fields of \<^verbatim>\<open>RunLoopParams\<close> it reads.
\<close>

definition build_planner_round_tools ::
    "AgentConfig \<Rightarrow> Tool list \<Rightarrow> PlanStepExecutorKind option \<Rightarrow> ustring set option \<Rightarrow>
     PermissionCaps \<Rightarrow> Tool list" where
  "build_planner_round_tools cfg tools_defs constraint turn_allowed_tool_names caps =
     (let definitions =
        (case constraint of
           Some k \<Rightarrow>
             (let v = filter_tool_defs_for_executor_kind tools_defs cfg k in
              case turn_allowed_tool_names of
                Some allow \<Rightarrow> filter (\<lambda>t. tool_allowed_for_turn (tool_def_name t) (Some allow)) v
              | None \<Rightarrow> v)
         | None \<Rightarrow> tools_defs)
      in filter (\<lambda>t. engine_allows_tool (caps_engine caps) (tool_def_name t)) definitions)"


section \<open>Lemmas\<close>

lemma tool_allowed_for_turn_None [simp]: "tool_allowed_for_turn name None"
  by (simp add: tool_allowed_for_turn_def tool_name_allowed_by_turn_allowlist_def)

lemma readonly_is_builtin: "is_readonly_tool cfg name \<Longrightarrow> tool_origin name = ToolOrigin.Builtin"
  by (simp add: is_readonly_tool_def split: if_splits)

lemma default_dispatch_simps [simp]:
  "id_for default_dispatch RUN_COMMAND = RunCommand"
  "id_for default_dispatch TERMINAL_SESSION = TerminalSession"
  "id_for default_dispatch HTTP_REQUEST = HttpRequest"
  "id_for default_dispatch (lit ''workflow_execute'') = WorkflowHandler"
  by (simp_all add: id_for_def default_dispatch_def handler_dispatch_map_build_def
      tool_dispatch_registry_def RUN_COMMAND_def TERMINAL_SESSION_def HTTP_REQUEST_def)

lemma execution_class_terminal [simp]:
  "execution_class_for_tool TERMINAL_SESSION = CommandSpawnTimeout"
  by (simp add: execution_class_for_tool_def try_dispatch_meta_def all_dispatch_metadata_def
      tool_dispatch_registry_def RUN_COMMAND_def TERMINAL_SESSION_def HTTP_REQUEST_def)

lemma parallel_wall_pos: "0 < parallel_tool_wall_timeout_secs cfg name"
  by (auto simp: parallel_tool_wall_timeout_secs_def Let_def web_search_outer_wall_secs_def
      web_search_outer_wall_secs_for_def saturating_add_def u64_max_def
      split: option.splits ToolExecutionClass.splits)

lemma step_table_readonly:
  "tool_allowed_for_step_executor_kind cfg name ReviewReadonly \<Longrightarrow>
     tool_origin name = ToolOrigin.Mcp \<or> is_readonly_tool cfg name"
  by (auto simp: tool_allowed_for_step_executor_kind_def split: if_splits)

lemma step_table_review_least:
  "tool_allowed_for_step_executor_kind cfg name ReviewReadonly \<Longrightarrow>
     tool_allowed_for_step_executor_kind cfg name kind"
  by (cases kind) (auto simp: tool_allowed_for_step_executor_kind_def split: if_splits)

lemma truncated_csv_length:
  "length out \<le> MAX_CHARS \<Longrightarrow> length (truncated_csv first out ns) \<le> MAX_CHARS + 1"
  by (induction first out ns rule: truncated_csv.induct) (auto simp: Let_def)

lemma allowed_tools_csv_length: "length (allowed_tools_csv names) \<le> MAX_CHARS + 1"
  using truncated_csv_length [of "[]" True names] by (simp add: allowed_tools_csv_def Let_def)

lemma role_or_step_passes_iff:
  "role_or_step_deny_message p = None \<longleftrightarrow>
     (\<forall>k. step_executor_constraint p = Some k \<longrightarrow>
        tool_allowed_for_step_executor_kind (deny_cfg p) (deny_name p) k) \<and>
     tool_allowed_for_turn (deny_name p) (turn_allow p)"
  by (auto simp: role_or_step_deny_message_def split: option.splits)

lemma early_deny_passes_iff:
  "snd (tool_policy_early_deny_message log p) = None \<longleftrightarrow>
     (\<forall>e. deny_permission p = Some e \<longrightarrow> engine_denied_axis e (deny_name p) = None) \<and>
     role_or_step_deny_message p = None"
  by (auto simp: tool_policy_early_deny_message_def split: option.splits)

lemma early_deny_log_length:
  "deny_permission p = Some (caps_engine caps) \<Longrightarrow>
     length (fst (tool_policy_early_deny_message log p)) =
       length log + (if allows_tool caps (deny_name p) then 0 else 1)"
  by (auto simp: tool_policy_early_deny_message_def allows_tool_def caps_engine_def
      engine_record_denied_def record_denied_def record_event_def emit_def split: option.splits)

lemma planner_round_tools_iff:
  "t \<in> set (build_planner_round_tools cfg tools_defs constraint allow caps) \<longleftrightarrow>
     t \<in> set tools_defs \<and> engine_denied_axis (caps_engine caps) (tool_def_name t) = None \<and>
     (\<forall>k. constraint = Some k \<longrightarrow>
        tool_allowed_for_step_executor_kind cfg (tool_def_name t) k \<and>
        tool_allowed_for_turn (tool_def_name t) allow)"
  by (auto simp: build_planner_round_tools_def filter_tool_defs_for_executor_kind_def
      caps.allows_iff_no_axis Let_def split: option.splits)

section \<open>Properties\<close>

text \<open>
  C7: The tool list sent to the model and the execution gate agree.  With the job's tool list
  filtered by the turn's role allow list (as the chat workers build it), a tool definition is
  advertised in a planner round exactly when the early denial would let a call of it pass, for
  every role, sub-agent step kind and permission snapshot; and when it denies on the permission
  axis, exactly one audit line is written, none otherwise.
\<close>

theorem advertised_iff_not_denied:
  "let tools_defs = filter_tools_for_agent_role role_tools allow;
       denial = tool_policy_early_deny_message log
         \<lparr>deny_cfg = cfg, deny_name = tool_def_name t, step_executor_constraint = constraint,
          deny_tools_defs = tools_defs, turn_allow = allow, deny_permission = Some (caps_engine caps)\<rparr>
   in (t \<in> set (build_planner_round_tools cfg tools_defs constraint allow caps) \<longleftrightarrow>
         t \<in> set role_tools \<and> snd denial = None) \<and>
      length (fst denial) = length log + (if allows_tool caps (tool_def_name t) then 0 else 1)"
  by (auto simp: Let_def planner_round_tools_iff early_deny_passes_iff role_or_step_passes_iff
      filter_tools_for_agent_role_def early_deny_log_length)

text \<open>
  C30: A parallel batch is harmless.  When the batch mode resolves to the parallel read-only batch
  with the production dispatch table, the workspace is set, serial mode is not forced, there are
  at least two calls, and every call names a built-in tool without write effects under the active
  configuration, allowed by the role, that is none of \<^verbatim>\<open>run_command\<close>, \<^verbatim>\<open>terminal_session\<close>,
  \<^verbatim>\<open>http_request\<close> and \<^verbatim>\<open>workflow_execute\<close> even if the configured write list omits them.
\<close>

theorem parallel_batch_is_readonly:
  assumes "batch_handler_lookup params = default_dispatch"
    and "resolve_tool_batch_execution_mode params = ParallelReadonlyBatch"
  shows "\<not> force_serial params \<and> workspace_is_set params \<and> 2 \<le> length (batch_tool_calls params) \<and>
    (\<forall>tc \<in> set (batch_tool_calls params).
       let name = fn_name (call_function tc) in
       is_builtin_tool name \<and> is_readonly_tool (batch_cfg params) name \<and>
       tool_allowed_for_turn name (batch_turn_allow params) \<and>
       name \<notin> {RUN_COMMAND, TERMINAL_SESSION, HTTP_REQUEST, lit ''workflow_execute''})"
proof -
  have role: "tool_calls_allow_parallel_for_role default_dispatch (batch_cfg params)
      (batch_tool_calls params) (batch_turn_allow params)"
    and mode: "\<not> force_serial params" "workspace_is_set params"
    using assms by (auto simp: resolve_tool_batch_execution_mode_def split: if_splits)
  then have sync: "tool_calls_allow_parallel_sync_batch default_dispatch (batch_cfg params)
      (batch_tool_calls params)"
    and allow: "\<forall>tc \<in> set (batch_tool_calls params).
      tool_allowed_for_turn (fn_name (call_function tc)) (batch_turn_allow params)"
    by (auto simp: tool_calls_allow_parallel_for_role_def list_all_iff split: if_splits option.splits)
  have piece: "is_builtin_tool name \<and> is_readonly_tool (batch_cfg params) name \<and>
      name \<notin> {RUN_COMMAND, TERMINAL_SESSION, HTTP_REQUEST, lit ''workflow_execute''}"
    if "tool_ok_for_parallel_readonly_batch_piece default_dispatch (batch_cfg params) name" for name
    using that by (auto simp: tool_ok_for_parallel_readonly_batch_piece_def is_builtin_tool_def
        parallel_batch_eligible_tool_def dest: readonly_is_builtin split: if_splits)
  show ?thesis
    using mode sync allow piece
    by (auto simp: tool_calls_allow_parallel_sync_batch_def list_all_iff Let_def)
qed

definition sample_batch :: ToolBatchModeParams where
  "sample_batch =
     \<lparr>force_serial = False, workspace_is_set = True, batch_handler_lookup = default_dispatch,
      batch_cfg = sample_config,
      batch_tool_calls =
        [\<lparr>call_id = lit ''1'', call_typ = lit ''function'',
          call_function = \<lparr>fn_name = lit ''read_file'', fn_arguments = lit ''{}''\<rparr>\<rparr>,
         \<lparr>call_id = lit ''2'', call_typ = lit ''function'',
          call_function = \<lparr>fn_name = lit ''http_fetch'', fn_arguments = lit ''{}''\<rparr>\<rparr>],
      batch_turn_allow = None\<rparr>"

lemmas gate_eval =
  resolve_tool_batch_execution_mode_def tool_calls_allow_parallel_for_role_def
  tool_calls_allow_parallel_sync_batch_def tool_ok_for_parallel_readonly_batch_piece_def
  parallel_batch_eligible_tool_def parallel_sync_batch_denied_def is_readonly_tool_def
  builtin_parallel_sync_denied_exact_def builtin_parallel_sync_prefix_hit_def id_for_def
  default_dispatch_def handler_dispatch_map_build_def tool_dispatch_registry_def
  tool_origin_def is_mcp_proxy_tool_def is_dynamic_tool_name_def MCP_PROXY_PREFIX_def
  DYNAMIC_TOOL_PREFIX_def builtin_write_effect_tools_def RUN_COMMAND_def TERMINAL_SESSION_def
  PYTHON_SNIPPET_RUN_def HTTP_REQUEST_def starts_with_def sample_config_def default_registry_policy_def

theorem parallel_batch_is_readonly_witness:
  "resolve_tool_batch_execution_mode sample_batch = ParallelReadonlyBatch \<and>
   2 \<le> length (batch_tool_calls sample_batch)"
proof -
  have m: "resolve_tool_batch_execution_mode sample_batch = ParallelReadonlyBatch"
    by (simp add: sample_batch_def gate_eval take_map lit_def)
  have d: "batch_handler_lookup sample_batch = default_dispatch"
    by (simp add: sample_batch_def)
  show ?thesis using m parallel_batch_is_readonly [OF d m] by blast
qed

text \<open>
  The sub-agent roles are ordered and bounded by their tables.  A tool the read-only reviewer
  may call is allowed to every role; whatever a role allows is an MCP proxy, a read-only tool, or
  a name in that role's own write table (built-in or configured); and a tool in the reviewer's
  deny list is refused unless it is an MCP proxy.
\<close>

theorem executor_roles_bounded:
  "(tool_allowed_for_step_executor_kind cfg name ReviewReadonly \<longrightarrow>
      tool_allowed_for_step_executor_kind cfg name kind) \<and>
   (tool_allowed_for_step_executor_kind cfg name kind \<longrightarrow>
      tool_origin name = ToolOrigin.Mcp \<or> is_readonly_tool cfg name \<or>
      kind = PatchWrite \<and> patch_write_allowed_name cfg name \<or>
      kind = TestRunner \<and> test_runner_allowed_name cfg name) \<and>
   (tool_registry_sub_agent_review_readonly_deny_tools (tool_registry_policy cfg) = Some denied \<and>
      name \<in> denied \<and> tool_origin name \<noteq> ToolOrigin.Mcp \<longrightarrow>
      \<not> tool_allowed_for_step_executor_kind cfg name ReviewReadonly)"
proof (intro conjI impI)
  assume "tool_allowed_for_step_executor_kind cfg name ReviewReadonly"
  then show "tool_allowed_for_step_executor_kind cfg name kind" by (rule step_table_review_least)
next
  assume "tool_allowed_for_step_executor_kind cfg name kind"
  then show "tool_origin name = ToolOrigin.Mcp \<or> is_readonly_tool cfg name \<or>
      kind = PatchWrite \<and> patch_write_allowed_name cfg name \<or>
      kind = TestRunner \<and> test_runner_allowed_name cfg name"
    by (auto simp: tool_allowed_for_step_executor_kind_def
        split: if_splits PlanStepExecutorKind.splits)
next
  assume "tool_registry_sub_agent_review_readonly_deny_tools (tool_registry_policy cfg) = Some denied \<and>
      name \<in> denied \<and> tool_origin name \<noteq> ToolOrigin.Mcp"
  then show "\<not> tool_allowed_for_step_executor_kind cfg name ReviewReadonly"
    by (simp add: tool_allowed_for_step_executor_kind_def)
qed

theorem executor_roles_bounded_witness:
  "tool_allowed_for_step_executor_kind sample_config (lit ''read_file'') ReviewReadonly \<and>
   tool_allowed_for_step_executor_kind sample_config (lit ''read_file'') TestRunner"
proof -
  have "tool_allowed_for_step_executor_kind sample_config (lit ''read_file'') ReviewReadonly"
    by (simp add: tool_allowed_for_step_executor_kind_def gate_eval take_map lit_def)
  then show ?thesis using executor_roles_bounded by blast
qed

text \<open>
  The outer wall clocks leave the inner timeouts room.  Unless the sum overflows 64 bits, the
  terminal session's outer timeout is at least five seconds longer than the inner one it wraps and
  the web search's at least two seconds longer than the request timeout; no wall clock of a tool
  class is zero.
\<close>

theorem outer_walls_exceed_inner:
  "(parallel_tool_wall_timeout_secs cfg TERMINAL_SESSION + 5 \<le> u64_max \<longrightarrow>
      terminal_session_outer_wall_secs cfg = parallel_tool_wall_timeout_secs cfg TERMINAL_SESSION + 5) \<and>
   (web_search_timeout_secs cfg + 16 \<le> u64_max \<longrightarrow>
      web_search_timeout_secs cfg + 2 \<le> web_search_outer_wall_secs cfg) \<and>
   0 < parallel_tool_wall_timeout_secs cfg name"
proof (intro conjI impI)
  show "0 < parallel_tool_wall_timeout_secs cfg name" by (rule parallel_wall_pos)
qed (auto simp: terminal_session_outer_wall_secs_def TERMINAL_SESSION_OUTER_GRACE_SECS_def
    saturating_add_def web_search_outer_wall_secs_def web_search_outer_wall_secs_for_def Let_def
    WEB_SEARCH_WORBROW_OUTER_GRACE_SECS_def WEB_SEARCH_API_OUTER_GRACE_SECS_def
    split: WebSearchProvider.splits)

theorem outer_walls_exceed_inner_witness:
  "web_search_timeout_secs sample_config + 16 \<le> u64_max \<and>
   web_search_timeout_secs sample_config + 2 \<le> web_search_outer_wall_secs sample_config"
proof -
  have "web_search_timeout_secs sample_config + 16 \<le> u64_max"
    by (simp add: sample_config_def u64_max_def)
  then show ?thesis using outer_walls_exceed_inner by blast
qed

end
