(* ===== verification/Workflow_Model.thy ===== *)
theory Workflow_Model
  imports Tool_Gate
begin

text \<open>
  The data of the workflow engine: the parsed specification (\<^verbatim>\<open>src/cm_workflow/model.rs\<close>), the node
  roles (\<^verbatim>\<open>node_tool_role.rs\<close>), the results of node runs (\<^verbatim>\<open>types.rs\<close>) and the retry table
  (\<^verbatim>\<open>execute/retry.rs\<close>).  Record fields carry a prefix because several Rust structs share field names.
\<close>

datatype WorkflowNodeToolRole = RoleReviewReadonly | RolePatchWrite | RoleTestRunner

fun as_plan_step_executor_kind :: "WorkflowNodeToolRole \<Rightarrow> PlanStepExecutorKind" where
  "as_plan_step_executor_kind RoleReviewReadonly = ReviewReadonly"
| "as_plan_step_executor_kind RolePatchWrite = PatchWrite"
| "as_plan_step_executor_kind RoleTestRunner = TestRunner"

datatype WorkflowBranch = BranchSuccess | BranchFailure

datatype WorkflowRunIf =
    RunIfBranch ustring WorkflowBranch
  | RunIfMatch ustring ustring "Value option" "Value list option"

record WorkflowNodeSpec =
  node_id :: ustring
  node_tool_name :: ustring
  node_tool_args :: Value
  node_deps :: "ustring list"
  node_requires_approval :: bool
  node_timeout_secs :: "nat option"
  node_compensate_with :: "ustring list"
  node_max_retries :: nat
  node_tool_role :: "WorkflowNodeToolRole option"
  node_run_if :: "WorkflowRunIf option"

record ForEachPendingSpec =
  fe_base_id :: ustring
  fe_from :: ustring
  fe_json_path :: "ustring option"
  fe_static_items :: "ustring list option"
  fe_item_var :: ustring
  fe_max_items :: nat
  fe_parallel :: bool
  fe_tool_name :: ustring
  fe_tool_args_template :: Value
  fe_requires_approval :: bool
  fe_timeout_secs :: "nat option"
  fe_compensate_with :: "ustring list"
  fe_max_retries :: nat
  fe_node_tool_role :: "WorkflowNodeToolRole option"
  fe_extra_deps :: "ustring list"

record WorkflowSpec =
  max_parallelism :: nat
  fail_fast :: bool
  compensate_on_failure :: bool
  output_inject_max_chars :: nat
  summary_preview_max_chars :: nat
  compensation_preview_max_chars :: nat
  spec_nodes :: "WorkflowNodeSpec list"
  cached_layer_count :: nat
  for_each_pending :: "ForEachPendingSpec list"

datatype NodeRunStatus = Passed | Failed | Skipped

record NodeRunResult =
  res_id :: ustring
  res_status :: NodeRunStatus
  res_output :: ustring
  res_workspace_changed :: bool
  res_exit_code :: "int option"
  res_error_code :: "ustring option"
  res_attempt :: nat

text \<open>The map \<^verbatim>\<open>completed: HashMap<String, NodeRunResult>\<close>.\<close>

type_synonym completed_map = "ustring \<rightharpoonup> NodeRunResult"

definition workflow_node_failure_retryable :: "ustring option \<Rightarrow> bool" where
  "workflow_node_failure_retryable error_code \<longleftrightarrow>
     error_code \<in> {Some (lit ''timeout''), Some (lit ''workflow_tool_join_error''),
                   Some (lit ''workflow_semaphore_closed'')}"

text \<open>
  Every node list that the engine walks keeps the ids of the nodes; \<open>ids\<close> names them.
\<close>

abbreviation ids :: "WorkflowNodeSpec list \<Rightarrow> ustring list" where
  "ids nodes \<equiv> map node_id nodes"

definition mk_node :: "ustring \<Rightarrow> ustring \<Rightarrow> ustring list \<Rightarrow> WorkflowNodeSpec" where
  "mk_node i tool ds =
     \<lparr>node_id = i, node_tool_name = tool, node_tool_args = Object [], node_deps = ds,
      node_requires_approval = False, node_timeout_secs = None, node_compensate_with = [],
      node_max_retries = 0, node_tool_role = None, node_run_if = None\<rparr>"

lemma mk_node_simps [simp]:
  "node_id (mk_node i tool ds) = i" "node_deps (mk_node i tool ds) = ds"
  "node_tool_name (mk_node i tool ds) = tool" "node_run_if (mk_node i tool ds) = None"
  by (simp_all add: mk_node_def)

end
