(* ===== verification/Workflow_Expr.thy ===== *)
theory Workflow_Expr
  imports Workflow_Model
begin

text \<open>
  What a workflow node sees of the nodes before it: JSON paths into an output
  (\<^verbatim>\<open>src/cm_workflow/resolve_json_path.rs\<close>), conditions (\<^verbatim>\<open>run_if.rs\<close>), placeholders
  (\<^verbatim>\<open>placeholders.rs\<close>) and the run-time expansion of \<^verbatim>\<open>for_each\<close> (\<^verbatim>\<open>for_each_expand.rs\<close>).

  \<^verbatim>\<open>serde_json::from_str\<close> and the printing of a value are parameters (\<open>from_str\<close>, \<open>to_string\<close>).
  Error texts of a path are the constructors of \<open>JsonPathResolveError\<close>, without the
  explanatory part that no code inspects.

  Shown here: a JSON Pointer built from a list of keys resolves by looking the keys up one after
  the other; the two branches of a condition exclude each other and a skipped node enables
  neither; placeholder injection is a single pass (an injected output is never expanded again),
  never reads outside the text and injects a bounded number of characters; an expansion yields
  at most \<^verbatim>\<open>max_items\<close> nodes with distinct ids, chained one after the other unless parallel, and
  removes a pending entry exactly when its source node has finished.
\<close>

section \<open>Text operations\<close>

text \<open>\<^verbatim>\<open>str::parse::<usize>()\<close> on a 64-bit target: an optional \<^verbatim>\<open>+\<close>, then digits only.\<close>

definition parse_usize :: "ustring \<Rightarrow> nat option" where
  "parse_usize s =
     (let ds = (case strip_prefix s (lit ''+'') of Some t \<Rightarrow> t | None \<Rightarrow> s) in
      if ds \<noteq> [] \<and> list_all (\<lambda>c. 48 \<le> c \<and> c \<le> 57) ds \<and> read_nat ds < 2 ^ 64
      then Some (read_nat ds) else None)"

text \<open>\<^verbatim>\<open>str::replace\<close> with a non-empty pattern.\<close>

function replace_all :: "ustring \<Rightarrow> ustring \<Rightarrow> ustring \<Rightarrow> ustring" where
  "replace_all p r s =
     (case s of
        [] \<Rightarrow> []
      | c # s' \<Rightarrow>
          if p \<noteq> [] \<and> starts_with s p then r @ replace_all p r (drop (length p) s)
          else c # replace_all p r s')"
  by pat_completeness auto
termination
  by (relation "measure (\<lambda>(p, r, s). length s)") auto

declare replace_all.simps [simp del]

section \<open>JSON paths\<close>

datatype JsonPathResolveError = JsonParse ustring | PathSyntax | PathNotFound

type_synonym json_reader = "ustring \<Rightarrow> (ustring, Value) result"

fun decode_json_pointer_token :: "ustring \<Rightarrow> (JsonPathResolveError, ustring) result" where
  "decode_json_pointer_token [] = Inr []"
| "decode_json_pointer_token (c # rest) =
     (if c \<noteq> 126 then bind_result (decode_json_pointer_token rest) (\<lambda>out. Inr (c # out))
      else (case rest of
              [] \<Rightarrow> Inl PathSyntax
            | d # rest' \<Rightarrow>
                if d = 48 then bind_result (decode_json_pointer_token rest') (\<lambda>out. Inr (126 # out))
                else if d = 49 then bind_result (decode_json_pointer_token rest') (\<lambda>out. Inr (47 # out))
                else Inl PathSyntax))"

definition navigate_pointer_token :: "Value \<Rightarrow> ustring \<Rightarrow> (JsonPathResolveError, Value) result" where
  "navigate_pointer_token current token =
     (case (as_array current, parse_usize token) of
        (Some arr, Some i) \<Rightarrow> if i < length arr then Inr (arr ! i) else Inl PathNotFound
      | _ \<Rightarrow> ok_or PathNotFound (get_key current token))"

fun walk_pointer :: "Value \<Rightarrow> ustring list \<Rightarrow> (JsonPathResolveError, Value) result" where
  "walk_pointer cur [] = Inr cur"
| "walk_pointer cur (raw_token # rest) =
     bind_result (decode_json_pointer_token raw_token) (\<lambda>token.
       bind_result (navigate_pointer_token cur token) (\<lambda>v. walk_pointer v rest))"

definition resolve_json_pointer_ref :: "Value \<Rightarrow> ustring \<Rightarrow> (JsonPathResolveError, Value) result" where
  "resolve_json_pointer_ref root pointer0 =
     (let pointer = trim pointer0 in
      if \<not> starts_with pointer (lit ''/'') then Inl PathSyntax
      else walk_pointer root (tl (split_char 47 pointer)))"

definition strip_legacy_root_dollar :: "ustring \<Rightarrow> bool \<Rightarrow> ustring" where
  "strip_legacy_root_dollar seg is_first =
     (if is_first \<and> starts_with seg (lit ''$'') then drop 1 seg else seg)"

definition split_field_and_brackets :: "ustring \<Rightarrow> ustring \<times> ustring" where
  "split_field_and_brackets s =
     (case find_sub s (lit ''['') of
        Some pos \<Rightarrow> (trim (take pos s), drop pos s)
      | None \<Rightarrow> (trim s, []))"

text \<open>Every round of the loop drops at least the opening bracket.\<close>

function bracket_loop :: "nat list \<Rightarrow> ustring \<Rightarrow> (JsonPathResolveError, nat list) result" where
  "bracket_loop indices rest =
     (case rest of
        [] \<Rightarrow> Inr indices
      | c # inner_rest \<Rightarrow>
          if c \<noteq> 91 then Inl PathSyntax
          else (case find_sub inner_rest (lit '']'') of
                  None \<Rightarrow> Inl PathSyntax
                | Some close \<Rightarrow>
                    (let num = trim (take close inner_rest) in
                     if num = [] then Inl PathSyntax
                     else (case parse_usize num of
                             None \<Rightarrow> Inl PathSyntax
                           | Some idx \<Rightarrow>
                               bracket_loop (indices @ [idx]) (drop (close + 1) inner_rest)))))"
  by pat_completeness auto
termination
  by (relation "measure (\<lambda>(indices, rest). length rest)") auto

declare bracket_loop.simps [simp del]

definition parse_bracket_suffix :: "ustring \<Rightarrow> (JsonPathResolveError, nat list) result" where
  "parse_bracket_suffix bracket_tail =
     (if bracket_tail = [] then Inr [] else bracket_loop [] bracket_tail)"

fun walk_indices :: "Value \<Rightarrow> nat list \<Rightarrow> (JsonPathResolveError, Value) result" where
  "walk_indices v [] = Inr v"
| "walk_indices v (i # is) =
     bind_result (ok_or PathNotFound (get_index v i)) (\<lambda>w. walk_indices w is)"

definition apply_bracket_indices :: "Value \<Rightarrow> ustring \<Rightarrow> (JsonPathResolveError, Value) result" where
  "apply_bracket_indices v bracket_tail =
     bind_result (parse_bracket_suffix bracket_tail) (walk_indices v)"

definition apply_legacy_segment :: "Value \<Rightarrow> ustring \<Rightarrow> bool \<Rightarrow> (JsonPathResolveError, Value) result" where
  "apply_legacy_segment cur seg is_first =
     (let s = strip_legacy_root_dollar seg is_first;
          (field, bracket_tail) = split_field_and_brackets s in
      bind_result (if field = [] then Inr cur else ok_or PathNotFound (get_key cur field))
        (\<lambda>v. apply_bracket_indices v bracket_tail))"

fun walk_segments :: "Value \<Rightarrow> bool \<Rightarrow> ustring list \<Rightarrow> (JsonPathResolveError, Value) result" where
  "walk_segments cur is_first [] = Inr cur"
| "walk_segments cur is_first (seg # segs) =
     bind_result (apply_legacy_segment cur seg is_first) (\<lambda>v. walk_segments v False segs)"

definition resolve_legacy_dot_path_ref :: "Value \<Rightarrow> ustring \<Rightarrow> (JsonPathResolveError, Value) result" where
  "resolve_legacy_dot_path_ref root path =
     (let segments = filter (\<lambda>s. s \<noteq> []) (map trim (split_char 46 path)) in
      if segments = [] then Inl PathSyntax else walk_segments root True segments)"

definition resolve_json_path_value ::
    "json_reader \<Rightarrow> ustring \<Rightarrow> ustring \<Rightarrow> (JsonPathResolveError, Value) result" where
  "resolve_json_path_value from_str json_str path0 =
     (let path = trim path0 in
      case from_str (trim json_str) of
        Inl e \<Rightarrow> Inl (JsonParse e)
      | Inr root \<Rightarrow>
          if path = [] then Inr root
          else if starts_with path (lit ''/'') then resolve_json_pointer_ref root path
          else resolve_legacy_dot_path_ref root path)"

section \<open>Conditions\<close>

definition node_deps_resolved :: "ustring list \<Rightarrow> completed_map \<Rightarrow> bool" where
  "node_deps_resolved ds completed = list_all (\<lambda>d. completed d \<noteq> None) ds"

definition extract_match_value :: "json_reader \<Rightarrow> NodeRunResult \<Rightarrow> ustring \<Rightarrow> Value option" where
  "extract_match_value from_str r field0 =
     (let field = trim field0 in
      if starts_with field (lit ''/'') \<or> starts_with field (lit ''$'')
      then (case resolve_json_path_value from_str (res_output r) field of
              Inr v \<Rightarrow> Some v | Inl _ \<Rightarrow> None)
      else (case from_str (trim (res_output r)) of
              Inl _ \<Rightarrow> None
            | Inr root \<Rightarrow> and_then (as_object root) (\<lambda>obj. map_of obj field)))"

definition json_values_equal :: "Value \<Rightarrow> Value \<Rightarrow> bool" where
  "json_values_equal a b = (case (a, b) of (String x, String y) \<Rightarrow> x = y | _ \<Rightarrow> a = b)"

definition node_run_if_satisfied ::
    "json_reader \<Rightarrow> WorkflowRunIf option \<Rightarrow> completed_map \<Rightarrow> bool" where
  "node_run_if_satisfied from_str run_if completed =
     (case run_if of
        None \<Rightarrow> True
      | Some (RunIfBranch from branch) \<Rightarrow>
          (case completed from of
             None \<Rightarrow> False
           | Some r \<Rightarrow>
               (case res_status r of
                  Passed \<Rightarrow> branch = BranchSuccess
                | Failed \<Rightarrow> branch = BranchFailure
                | Skipped \<Rightarrow> False))
      | Some (RunIfMatch from field equals in_list) \<Rightarrow>
          (case completed from of
             None \<Rightarrow> False
           | Some r \<Rightarrow>
               (case extract_match_value from_str r field of
                  None \<Rightarrow> False
                | Some actual \<Rightarrow>
                    (case equals of
                       Some expected \<Rightarrow> json_values_equal actual expected
                     | None \<Rightarrow>
                         (case in_list of
                            Some vs \<Rightarrow> list_ex (json_values_equal actual) vs
                          | None \<Rightarrow> False)))))"

section \<open>Placeholders\<close>

definition truncate_for_injection :: "ustring \<Rightarrow> nat \<Rightarrow> ustring" where
  "truncate_for_injection s max_chars =
     (let prefix = take max_chars s in
      if length prefix = length s then prefix else prefix @ (lit ''... ('' @ [25130, 26029] @ lit '')''))"

fun status_text :: "NodeRunStatus \<Rightarrow> ustring" where
  "status_text Passed = lit ''passed''"
| "status_text Failed = lit ''failed''"
| "status_text Skipped = lit ''skipped''"

definition first_line_or_empty :: "ustring \<Rightarrow> ustring" where
  "first_line_or_empty s = (case first_line s of Some l \<Rightarrow> l | None \<Rightarrow> [])"

definition resolve_placeholder :: "ustring \<Rightarrow> completed_map \<Rightarrow> nat \<Rightarrow> ustring" where
  "resolve_placeholder inner completed max_chars =
     (let parts = split_char 46 inner in
      if length parts \<noteq> 2 \<and> length parts \<noteq> 3 then []
      else (case completed (parts ! 0) of
              None \<Rightarrow> []
            | Some r \<Rightarrow>
                (let field = (if length parts = 2 then parts ! 1 else parts ! 2) in
                 if field = lit ''output'' then truncate_for_injection (res_output r) max_chars
                 else if field = lit ''status'' then status_text (res_status r)
                 else if field = lit ''stdout_first_line''
                 then take max_chars (trim (first_line_or_empty (res_output r)))
                 else if field = lit ''stdout_first_token''
                 then take max_chars (case first_token (first_line_or_empty (res_output r)) of
                        Some t \<Rightarrow> t | None \<Rightarrow> [])
                 else [])))"

text \<open>
  The loop of \<^verbatim>\<open>inject_string\<close>; \<open>tail\<close> starts with the opening braces, so the slice from 2 to the
  closing braces is in range (\<open>closing_after_opening\<close> below).
\<close>

function inject_string :: "ustring \<Rightarrow> completed_map \<Rightarrow> nat \<Rightarrow> ustring" where
  "inject_string rest completed max_chars =
     (case find_sub rest (lit ''{{'') of
        None \<Rightarrow> rest
      | Some start \<Rightarrow>
          (let prefix = take start rest; tail = drop start rest in
           case find_sub tail (lit ''}}'') of
             None \<Rightarrow> prefix @ tail
           | Some end_ix \<Rightarrow>
               (let inner = trim (take (end_ix - 2) (drop 2 tail)) in
                prefix @ resolve_placeholder inner completed max_chars @
                inject_string (drop (end_ix + 2) tail) completed max_chars)))"
  by pat_completeness auto
termination
  by (relation "measure (\<lambda>(rest, completed, max_chars). length rest)")
    (auto dest!: find_sub_Some)

declare inject_string.simps [simp del]

definition inject_placeholders :: "Value \<Rightarrow> completed_map \<Rightarrow> nat \<Rightarrow> Value" where
  "inject_placeholders v completed max_chars =
     map_strings (\<lambda>s. inject_string s completed max_chars) v"

section \<open>Expansion of for-each\<close>

definition item_to_string :: "(Value \<Rightarrow> ustring) \<Rightarrow> Value \<Rightarrow> ustring" where
  "item_to_string to_string item = (case item of String s \<Rightarrow> s | _ \<Rightarrow> to_string item)"

definition resolve_for_each_items ::
    "json_reader \<Rightarrow> (Value \<Rightarrow> ustring) \<Rightarrow> ForEachPendingSpec \<Rightarrow> NodeRunResult \<Rightarrow> ustring list option" where
  "resolve_for_each_items from_str to_string spec from_res =
     (case fe_static_items spec of
        Some static_items \<Rightarrow> Some (take (min (fe_max_items spec) (length static_items)) static_items)
      | None \<Rightarrow>
          (case filter_option (\<lambda>s. s \<noteq> []) (fe_json_path spec) of
             None \<Rightarrow> None
           | Some json_path \<Rightarrow>
               (case resolve_json_path_value from_str (res_output from_res) json_path of
                  Inl _ \<Rightarrow> None
                | Inr v \<Rightarrow>
                    (case as_array v of
                       None \<Rightarrow> None
                     | Some arr \<Rightarrow> Some (map (item_to_string to_string) (take (fe_max_items spec) arr))))))"

definition substitute_item_in_value :: "Value \<Rightarrow> ustring \<Rightarrow> ustring \<Rightarrow> Value" where
  "substitute_item_in_value template item_var item =
     map_strings (replace_all (lit ''{{'' @ item_var @ lit ''}}'') item) template"

definition for_each_node :: "ForEachPendingSpec \<Rightarrow> nat \<Rightarrow> ustring option \<Rightarrow> ustring \<Rightarrow> WorkflowNodeSpec" where
  "for_each_node spec i prev_id item =
     \<lparr>node_id = fe_base_id spec @ lit ''_'' @ show_nat i,
      node_tool_name = fe_tool_name spec,
      node_tool_args = substitute_item_in_value (fe_tool_args_template spec) (fe_item_var spec) item,
      node_deps = fe_extra_deps spec @
        (if fe_parallel spec then [] else (case prev_id of Some p \<Rightarrow> [p] | None \<Rightarrow> [])),
      node_requires_approval = fe_requires_approval spec,
      node_timeout_secs = fe_timeout_secs spec,
      node_compensate_with = fe_compensate_with spec,
      node_max_retries = fe_max_retries spec,
      node_tool_role = fe_node_tool_role spec,
      node_run_if = None\<rparr>"

fun for_each_loop ::
    "ForEachPendingSpec \<Rightarrow> nat \<Rightarrow> ustring option \<Rightarrow> ustring list \<Rightarrow> WorkflowNodeSpec list" where
  "for_each_loop spec i prev_id [] = []"
| "for_each_loop spec i prev_id (item # items) =
     (let n = for_each_node spec i prev_id item in
      n # for_each_loop spec (Suc i) (Some (node_id n)) items)"

definition build_for_each_nodes :: "ForEachPendingSpec \<Rightarrow> ustring list \<Rightarrow> WorkflowNodeSpec list" where
  "build_for_each_nodes spec items = for_each_loop spec 0 None items"

text \<open>
  The \<^verbatim>\<open>while\<close> loop over \<^verbatim>\<open>pending\<close>: an entry is either kept (its source has not finished) or removed.
  The result is the kept entries, the node list and the ids that were added.
\<close>

fun expand_pending_for_each ::
    "json_reader \<Rightarrow> (Value \<Rightarrow> ustring) \<Rightarrow> ForEachPendingSpec list \<Rightarrow> WorkflowNodeSpec list \<Rightarrow>
     completed_map \<Rightarrow> ForEachPendingSpec list \<times> WorkflowNodeSpec list \<times> ustring list" where
  "expand_pending_for_each from_str to_string [] nodes completed = ([], nodes, [])"
| "expand_pending_for_each from_str to_string (spec # rest) nodes completed =
     (case completed (fe_from spec) of
        None \<Rightarrow>
          (case expand_pending_for_each from_str to_string rest nodes completed of
             (kept, nodes', expanded) \<Rightarrow> (spec # kept, nodes', expanded))
      | Some from_res \<Rightarrow>
          if res_status from_res = Skipped
          then expand_pending_for_each from_str to_string rest nodes completed
          else (case resolve_for_each_items from_str to_string spec from_res of
                  None \<Rightarrow> expand_pending_for_each from_str to_string rest nodes completed
                | Some items \<Rightarrow>
                    if items = [] then expand_pending_for_each from_str to_string rest nodes completed
                    else
                      (let new_nodes = build_for_each_nodes spec items in
                       case expand_pending_for_each from_str to_string rest (nodes @ new_nodes) completed of
                         (kept, nodes', expanded) \<Rightarrow> (kept, nodes', ids new_nodes @ expanded))))"


section \<open>Lemmas on paths\<close>

text \<open>The escaping of RFC 6901, as a reference for the decoder.\<close>

fun encode_pointer_token :: "ustring \<Rightarrow> ustring" where
  "encode_pointer_token [] = []"
| "encode_pointer_token (c # s) =
     (if c = 126 then [126, 48] else if c = 47 then [126, 49] else [c]) @ encode_pointer_token s"

definition pointer_of :: "ustring list \<Rightarrow> ustring" where
  "pointer_of ks = concat (map (\<lambda>k. 47 # encode_pointer_token k) ks)"

lemma decode_encode [simp]: "decode_json_pointer_token (encode_pointer_token k) = Inr k"
  by (induction k) auto

lemma slash_notin_encode: "47 \<notin> set (encode_pointer_token k)"
  by (induction k) auto

lemma split_char_no_sep: "d \<notin> set s \<Longrightarrow> split_char d s = [s]"
  by (induction s) auto

lemma split_char_app: "d \<notin> set s \<Longrightarrow> split_char d (s @ d # t) = s # split_char d t"
  by (induction s) auto

lemma split_token: "split_char 47 (encode_pointer_token k @ pointer_of ks) =
    encode_pointer_token k # tl (split_char 47 (pointer_of ks))"
  by (cases ks) (simp_all add: pointer_of_def split_char_no_sep split_char_app slash_notin_encode)

lemma tokens_of_pointer: "tl (split_char 47 (pointer_of ks)) = map encode_pointer_token ks"
proof (induction ks)
  case Nil
  then show ?case by (simp add: pointer_of_def)
next
  case (Cons k ks)
  have "pointer_of (k # ks) = 47 # encode_pointer_token k @ pointer_of ks"
    by (simp add: pointer_of_def)
  then show ?case using Cons by (simp add: split_token)
qed

text \<open>Reference navigation: one lookup per key.\<close>

fun lookup_path :: "Value \<Rightarrow> ustring list \<Rightarrow> (JsonPathResolveError, Value) result" where
  "lookup_path v [] = Inr v"
| "lookup_path v (k # ks) = bind_result (navigate_pointer_token v k) (\<lambda>w. lookup_path w ks)"

lemma walk_pointer_lookup: "walk_pointer v (map encode_pointer_token ks) = lookup_path v ks"
  by (induction ks arbitrary: v) (simp_all add: bind_result_def split: sum.splits)

lemma navigate_object [simp]:
  "navigate_pointer_token (Object m) k = ok_or PathNotFound (map_of m k)"
  by (simp add: navigate_pointer_token_def split: option.splits)

lemma parse_usize_show [simp]: "n < 2 ^ 64 \<Longrightarrow> parse_usize (show_nat n) = Some n"
proof -
  assume n: "n < 2 ^ 64"
  have digits: "\<forall>c \<in> set (show_nat n). 48 \<le> c \<and> c \<le> 57" using show_nat_digits by blast
  have "strip_prefix (show_nat n) (lit ''+'') = None"
    using digits by (cases "show_nat n") (auto simp: strip_prefix_def starts_with_def lit_def)
  then show ?thesis using digits n by (simp add: parse_usize_def list_all_iff Let_def)
qed

lemma navigate_array [simp]:
  "n < 2 ^ 64 \<Longrightarrow> navigate_pointer_token (Array xs) (show_nat n) =
     (if n < length xs then Inr (xs ! n) else Inl PathNotFound)"
  by (simp add: navigate_pointer_token_def)

section \<open>Lemmas on placeholders\<close>

lemma truncate_length: "length (truncate_for_injection s n) \<le> n + 8"
  by (auto simp: truncate_for_injection_def Let_def min_def)

lemma status_text_length: "length (status_text s) \<le> 7"
  by (cases s) simp_all

lemma resolve_placeholder_length: "length (resolve_placeholder inner completed n) \<le> n + 8"
proof (cases "completed (split_char 46 inner ! 0)")
  case None
  then show ?thesis by (simp add: resolve_placeholder_def Let_def)
next
  case (Some r)
  then show ?thesis
    using truncate_length [of "res_output r" n] status_text_length [of "res_status r"]
    by (auto simp: resolve_placeholder_def Let_def split: option.splits)
qed

lemma closing_ge_2:
  assumes "take 2 t = lit ''{{''" "j + 2 \<le> length t" "take 2 (drop j t) = lit ''}}''"
  shows "2 \<le> j"
proof (rule ccontr)
  assume "\<not> 2 \<le> j"
  then have j: "j = 0 \<or> j = 1" by auto
  have "t ! j = take 2 (drop j t) ! 0" using assms(2) by simp
  moreover have "t ! j = take 2 t ! j" using j by auto
  ultimately show False using j assms(1,3) by (auto simp: lit_def)
qed

lemma closing_after_opening:
  assumes "find_sub rest (lit ''{{'') = Some i" "find_sub (drop i rest) (lit ''}}'') = Some j"
  shows "2 \<le> j \<and> j + 2 \<le> length (drop i rest)"
  using find_sub_Some [OF assms(1)] find_sub_Some [OF assms(2)] closing_ge_2 [of "drop i rest" j]
  by (simp add: numeral_2_eq_2)

lemma inject_no_braces: "find_sub s (lit ''{{'') = None \<Longrightarrow> inject_string s completed n = s"
  by (simp add: inject_string.simps [of s])

lemma inject_length:
  "length (inject_string s completed n) \<le> length s + (length s div 4) * (n + 8)"
proof (induction s completed n rule: inject_string.induct)
  case (1 rest completed n)
  show ?case
  proof (cases "find_sub rest (lit ''{{'')")
    case None
    then show ?thesis by (simp add: inject_no_braces)
  next
    case (Some i)
    show ?thesis
    proof (cases "find_sub (drop i rest) (lit ''}}'')")
      case None
      then show ?thesis using Some by (simp add: inject_string.simps [of rest])
    next
      case close: (Some j)
      let ?t = "drop (j + 2) (drop i rest)"
      let ?r = "resolve_placeholder (trim (take (j - 2) (drop 2 (drop i rest)))) completed n"
      have j: "2 \<le> j" "j + 2 \<le> length (drop i rest)"
        using closing_after_opening [OF Some close] by auto
      have "length ?t + 4 \<le> length rest" using j by simp
      then have d: "length ?t div 4 + 1 \<le> length rest div 4" by (metis add.commute div_add_self2 div_le_mono zero_neq_numeral)
      have ih: "length (inject_string ?t completed n) \<le> length ?t + (length ?t div 4) * (n + 8)"
        using 1 [OF Some refl refl close refl] by simp
      have parts: "length (take i rest) + length ?t \<le> length rest" using j by simp
      have "length (inject_string rest completed n) =
          length (take i rest) + length ?r + length (inject_string ?t completed n)"
        by (simp add: inject_string.simps [of rest] Some close Let_def)
      also have "\<dots> \<le> length rest + (length ?t div 4 + 1) * (n + 8)"
        using ih parts resolve_placeholder_length [of "trim (take (j - 2) (drop 2 (drop i rest)))" completed n]
        unfolding distrib_right mult_1 by linarith
      also have "\<dots> \<le> length rest + (length rest div 4) * (n + 8)"
        using d by (intro add_left_mono mult_right_mono) simp_all
      finally show ?thesis .
    qed
  qed
qed

section \<open>Lemmas on expansion\<close>

lemma for_each_loop_length [simp]: "length (for_each_loop spec i prev items) = length items"
  by (induction items arbitrary: i prev) (simp_all add: Let_def)

lemma for_each_loop_ids:
  "ids (for_each_loop spec i prev items) =
     map (\<lambda>k. fe_base_id spec @ lit ''_'' @ show_nat k) [i..<i + length items]"
  by (induction items arbitrary: i prev)
    (simp_all add: Let_def for_each_node_def upt_conv_Cons del: upt_Suc)

lemma for_each_ids_distinct: "distinct (ids (build_for_each_nodes spec items))"
  by (simp add: build_for_each_nodes_def for_each_loop_ids distinct_map inj_on_def)

lemma for_each_loop_deps:
  "k < length items \<Longrightarrow>
     node_deps (for_each_loop spec i prev items ! k) = fe_extra_deps spec @
       (if fe_parallel spec then []
        else if k = 0 then (case prev of Some p \<Rightarrow> [p] | None \<Rightarrow> [])
        else [node_id (for_each_loop spec i prev items ! (k - 1))])"
proof (induction items arbitrary: i prev k)
  case (Cons item items)
  show ?case
  proof (cases k)
    case 0
    then show ?thesis by (simp add: Let_def for_each_node_def)
  next
    case (Suc k')
    then show ?thesis
      using Cons.IH [of k' "Suc i" "Some (node_id (for_each_node spec i prev item))"] Cons.prems
      by (cases k') (auto simp: Let_def)
  qed
qed simp

lemma build_for_each_deps:
  "k < length (build_for_each_nodes spec items) \<Longrightarrow>
     node_deps (build_for_each_nodes spec items ! k) = fe_extra_deps spec @
       (if fe_parallel spec \<or> k = 0 then [] else [node_id (build_for_each_nodes spec items ! (k - 1))])"
  by (auto simp: build_for_each_nodes_def for_each_loop_deps)

lemma build_for_each_length [simp]: "length (build_for_each_nodes spec items) = length items"
  by (simp add: build_for_each_nodes_def)

lemma resolve_items_bound:
  "resolve_for_each_items from_str to_string spec r = Some items \<Longrightarrow> length items \<le> fe_max_items spec"
  by (auto simp: resolve_for_each_items_def split: option.splits sum.splits)

text \<open>The nodes one pending entry contributes.\<close>

definition expansion_of ::
    "json_reader \<Rightarrow> (Value \<Rightarrow> ustring) \<Rightarrow> completed_map \<Rightarrow> ForEachPendingSpec \<Rightarrow> WorkflowNodeSpec list" where
  "expansion_of from_str to_string completed spec =
     (case completed (fe_from spec) of
        None \<Rightarrow> []
      | Some r \<Rightarrow>
          if res_status r = Skipped then []
          else (case resolve_for_each_items from_str to_string spec r of
                  None \<Rightarrow> [] | Some items \<Rightarrow> build_for_each_nodes spec items))"

lemma build_nil [simp]: "build_for_each_nodes spec [] = []"
  by (simp add: build_for_each_nodes_def)

lemma expansion_of_cases:
  "expansion_of from_str to_string completed p = [] \<or>
   (\<exists>items. expansion_of from_str to_string completed p = build_for_each_nodes p items \<and>
      length items \<le> fe_max_items p)"
  by (auto simp: expansion_of_def resolve_items_bound split: option.splits)

lemma expand_pending_eq:
  "expand_pending_for_each from_str to_string pending nodes completed =
     (let new = concat (map (expansion_of from_str to_string completed) pending) in
      (filter (\<lambda>p. completed (fe_from p) = None) pending, nodes @ new, ids new))"
  by (induction pending arbitrary: nodes)
    (auto simp: expansion_of_def Let_def split: option.splits)

section \<open>Properties\<close>

text \<open>
  A JSON Pointer resolves by its keys.  Escaping a list of keys as RFC 6901 says and joining
  them gives a pointer whose resolution is the lookup of the keys one after the other, objects by
  member name and arrays by index; escaping and decoding a key is the identity.  The pointer must
  be unchanged by trimming, because the source trims the path first.
\<close>

theorem pointer_roundtrip:
  assumes "trim (pointer_of ks) = pointer_of ks" and "ks \<noteq> []"
  shows "resolve_json_pointer_ref root (pointer_of ks) = lookup_path root ks"
proof -
  obtain k ks' where ks: "ks = k # ks'" using assms(2) by (cases ks) auto
  have "starts_with (pointer_of ks) (lit ''/'')"
    by (simp add: ks pointer_of_def starts_with_def lit_def)
  then show ?thesis
    by (simp add: resolve_json_pointer_ref_def assms(1) tokens_of_pointer walk_pointer_lookup)
qed

theorem pointer_roundtrip_witness:
  "resolve_json_pointer_ref (Object [(lit ''a/b'', Array [Null, Bool True])])
     (pointer_of [lit ''a/b'', lit ''1'']) = Inr (Bool True)"
proof -
  have "trim (pointer_of [lit ''a/b'', lit ''1'']) = pointer_of [lit ''a/b'', lit ''1'']"
    by (rule trim_id) (simp add: pointer_of_def lit_def is_whitespace_def)
  moreover have "show_nat 1 = lit ''1''" by (simp add: lit_def)
  then have "navigate_pointer_token (Array [Null, Bool True]) (lit ''1'') = Inr (Bool True)"
    using navigate_array [of 1 "[Null, Bool True]"] by simp
  ultimately show ?thesis
    using pointer_roundtrip [of "[lit ''a/b'', lit ''1'']" "Object [(lit ''a/b'', Array [Null, Bool True])]"]
    by simp
qed

text \<open>
  Branch conditions exclude each other.  For two nodes that wait on the success and on the
  failure branch of the same node, at most one condition holds; exactly one holds once that node
  passed or failed; none holds while it has no result or when it was skipped.
\<close>

theorem branches_exclusive:
  "\<not> (node_run_if_satisfied from_str (Some (RunIfBranch from BranchSuccess)) completed \<and>
      node_run_if_satisfied from_str (Some (RunIfBranch from BranchFailure)) completed) \<and>
   (node_run_if_satisfied from_str (Some (RunIfBranch from BranchSuccess)) completed \<or>
    node_run_if_satisfied from_str (Some (RunIfBranch from BranchFailure)) completed \<longleftrightarrow>
      (\<exists>r. completed from = Some r \<and> res_status r \<noteq> Skipped))"
  by (auto simp: node_run_if_satisfied_def split: option.splits NodeRunStatus.splits)

text \<open>
  Injection is a single pass.  In a text that starts with a part without opening braces
  followed by a well-formed placeholder, the placeholder is replaced by what it resolves to and
  only the rest of the template is scanned again: braces inside an injected output are never
  expanded.
\<close>

theorem injection_single_pass:
  assumes "find_sub (a @ lit ''{{'' @ inner @ lit ''}}'' @ rest) (lit ''{{'') = Some (length a)"
    and "find_sub (lit ''{{'' @ inner @ lit ''}}'' @ rest) (lit ''}}'') = Some (length inner + 2)"
  shows "inject_string (a @ lit ''{{'' @ inner @ lit ''}}'' @ rest) completed n =
           a @ resolve_placeholder (trim inner) completed n @ inject_string rest completed n"
proof -
  let ?s = "a @ lit ''{{'' @ inner @ lit ''}}'' @ rest"
  have "drop (length a) ?s = lit ''{{'' @ inner @ lit ''}}'' @ rest" by simp
  moreover have "take (length inner + 2 - 2) (drop 2 (lit ''{{'' @ inner @ lit ''}}'' @ rest)) = inner"
    by (simp add: lit_def)
  moreover have "drop (length inner + 2 + 2) (lit ''{{'' @ inner @ lit ''}}'' @ rest) = rest"
    by (simp add: lit_def)
  ultimately show ?thesis
    using assms by (simp add: inject_string.simps [of ?s] Let_def)
qed

definition sample_result :: "ustring \<Rightarrow> NodeRunStatus \<Rightarrow> ustring \<Rightarrow> NodeRunResult" where
  "sample_result i st out =
     \<lparr>res_id = i, res_status = st, res_output = out, res_workspace_changed = False,
      res_exit_code = None, res_error_code = None, res_attempt = 1\<rparr>"

theorem injection_single_pass_witness:
  "inject_string (lit ''run {{a.output}}!'')
     [lit ''a'' \<mapsto> sample_result (lit ''a'') Passed (lit ''{{a.status}}'')] 100 =
     lit ''run {{a.status}}!''"
proof -
  let ?c = "[lit ''a'' \<mapsto> sample_result (lit ''a'') Passed (lit ''{{a.status}}'')]"
  have eq: "lit ''run {{a.output}}!'' = lit ''run '' @ lit ''{{'' @ lit ''a.output'' @ lit ''}}'' @ lit ''!''"
    by simp
  have "resolve_placeholder (trim (lit ''a.output'')) ?c 100 = lit ''{{a.status}}''"
  proof -
    have "trim (lit ''a.output'') = lit ''a.output''"
      by (rule trim_id) (simp add: lit_def is_whitespace_def)
    moreover have "split_char 46 (lit ''a.output'') = [lit ''a'', lit ''output'']" by (simp add: lit_def)
    ultimately show ?thesis
      by (simp add: resolve_placeholder_def sample_result_def truncate_for_injection_def Let_def)
  qed
  moreover have "inject_string (lit ''!'') ?c 100 = lit ''!''"
    by (rule inject_no_braces) (simp add: lit_def starts_with_def)
  moreover have "find_sub (lit ''run '' @ lit ''{{'' @ lit ''a.output'' @ lit ''}}'' @ lit ''!'') (lit ''{{'') =
      Some (length (lit ''run ''))"
    by (simp add: lit_def starts_with_def)
  moreover have "find_sub (lit ''{{'' @ lit ''a.output'' @ lit ''}}'' @ lit ''!'') (lit ''}}'') =
      Some (length (lit ''a.output'') + 2)"
    by (simp add: lit_def starts_with_def)
  ultimately show ?thesis
    unfolding eq using injection_single_pass [of "lit ''run ''" "lit ''a.output''" "lit ''!''" ?c 100] by simp
qed

text \<open>
  Injection is bounded: one placeholder contributes at most the configured number of
  characters and the truncation mark, so an injected text of length l has at most
  l + l/4 * (max + 8) characters, whatever the outputs of the earlier nodes are.
\<close>

theorem injection_bounded:
  "length (resolve_placeholder inner completed n) \<le> n + 8 \<and>
   length (inject_string s completed n) \<le> length s + (length s div 4) * (n + 8)"
  by (simp add: resolve_placeholder_length inject_length)

text \<open>
  Expansion of \<^verbatim>\<open>for_each\<close>.  Exactly the entries whose source node has no result yet stay
  pending; the existing nodes are kept in front; each expanded entry adds at most \<^verbatim>\<open>max_items\<close>
  nodes with distinct ids, which depend on the entry's dependencies only (parallel) or also on
  the node before (sequential); the reported ids are those of the added nodes.
\<close>

theorem for_each_expansion:
  "\<exists>new. expand_pending_for_each from_str to_string pending nodes completed =
       (filter (\<lambda>p. completed (fe_from p) = None) pending, nodes @ concat new, ids (concat new)) \<and>
     length new = length pending \<and>
     (\<forall>i < length pending.
        length (new ! i) \<le> fe_max_items (pending ! i) \<and> distinct (ids (new ! i)) \<and>
        (\<forall>k < length (new ! i).
           node_deps (new ! i ! k) = fe_extra_deps (pending ! i) @
             (if fe_parallel (pending ! i) \<or> k = 0 then [] else [node_id (new ! i ! (k - 1))])))"
proof -
  have bound: "length (expansion_of from_str to_string completed p) \<le> fe_max_items p \<and>
      distinct (ids (expansion_of from_str to_string completed p)) \<and>
      (\<forall>k < length (expansion_of from_str to_string completed p).
        node_deps (expansion_of from_str to_string completed p ! k) = fe_extra_deps p @
          (if fe_parallel p \<or> k = 0 then []
           else [node_id (expansion_of from_str to_string completed p ! (k - 1))]))" for p
    using expansion_of_cases [of from_str to_string completed p]
    by (elim disjE exE conjE) (simp_all add: for_each_ids_distinct build_for_each_deps)
  show ?thesis
    using bound by (intro exI [of _ "map (expansion_of from_str to_string completed) pending"])
      (simp add: expand_pending_eq Let_def)
qed

definition sample_for_each :: ForEachPendingSpec where
  "sample_for_each =
     \<lparr>fe_base_id = lit ''b'', fe_from = lit ''a'', fe_json_path = None,
      fe_static_items = Some [lit ''x'', lit ''y''], fe_item_var = lit ''item'', fe_max_items = 32,
      fe_parallel = False, fe_tool_name = lit ''t'', fe_tool_args_template = String (lit ''{{item}}''),
      fe_requires_approval = False, fe_timeout_secs = None, fe_compensate_with = [],
      fe_max_retries = 0, fe_node_tool_role = None, fe_extra_deps = [lit ''a'']\<rparr>"

theorem for_each_expansion_witness:
  "\<exists>n. expand_pending_for_each Inl (\<lambda>v. []) [sample_for_each] []
       [lit ''a'' \<mapsto> sample_result (lit ''a'') Passed []] = ([], n, [lit ''b_0'', lit ''b_1'']) \<and>
     length n = 2 \<and> node_deps (n ! 1) = [lit ''a'', lit ''b_0'']"
proof -
  let ?c = "[lit ''a'' \<mapsto> sample_result (lit ''a'') Passed []]"
  have b: "ids (expansion_of Inl (\<lambda>v. []) ?c sample_for_each) = [lit ''b_0'', lit ''b_1'']"
    by (simp add: expansion_of_def sample_for_each_def sample_result_def resolve_for_each_items_def
        build_for_each_nodes_def for_each_node_def Let_def lit_def)
  obtain new where e: "expand_pending_for_each Inl (\<lambda>v. []) [sample_for_each] [] ?c =
        (filter (\<lambda>p. ?c (fe_from p) = None) [sample_for_each], [] @ concat new, ids (concat new))"
    and one: "length new = 1"
    and deps: "\<forall>k < length (new ! 0). node_deps (new ! 0 ! k) = fe_extra_deps sample_for_each @
             (if fe_parallel sample_for_each \<or> k = 0 then [] else [node_id (new ! 0 ! (k - 1))])"
    using for_each_expansion [of Inl "\<lambda>v. []" "[sample_for_each]" "[]" ?c] by auto
  obtain n where n: "new = [n]" using one by (cases new) auto
  have idn: "ids n = [lit ''b_0'', lit ''b_1'']" using e b n by (simp add: expand_pending_eq)
  then have len: "length n = 2" by (metis length_map length_Cons list.size(3) numeral_2_eq_2)
  then have "node_id (n ! 0) = lit ''b_0''" using idn by (metis nth_Cons_0 nth_map zero_less_numeral)
  then have "node_deps (n ! 1) = [lit ''a'', lit ''b_0'']"
    using deps n len by (simp add: sample_for_each_def)
  then show ?thesis using e n idn len by (auto simp: sample_for_each_def)
qed

end
