(* ===== verification/Workflow_Node.thy ===== *)
theory Workflow_Node
  imports Tool_Result Workflow_Expr
begin

text \<open>
  Execution of one workflow node (\<^verbatim>\<open>src/cm_workflow/execute/node.rs\<close>, \<^verbatim>\<open>execute/trace.rs\<close> and the
  approval types of \<^verbatim>\<open>execute/mod.rs\<close>): placeholder injection, the workspace guard, the approval
  gates, the timeout, the tool call with retries, and the trace and audit events on the way.

  \<open>node_env\<close> holds what lies outside the engine: printing JSON, Unicode lower-casing, the file
  system test for workspace scripts, the answers of the human approver, and the tool runs with
  their timers.  Answers and tool runs are indexed by the number of requests made so far, so they
  may differ from call to call.  \<open>node_world\<close> is the shared mutable state: the session's
  persistent allow list, the audit log, the trace (without its clock fields), and, as ghost
  fields, the approval requests, the back-off sleeps and the ids of the nodes whose tool was run.

  Shown here: a node returns a result under its own id; a tool is tried at most once more than
  its retries, again only after a retryable failure, with bounded back-off; no human is asked
  when the level denies or waives approval; and a command outside the allow list is only run
  with an explicit ground.
\<close>

section \<open>Environment and state\<close>

datatype CommandApprovalDecision = DenyCommand | AllowOnce | AllowAlways

text \<open>The end of the \<^verbatim>\<open>spawn_blocking\<close> task: its result, or a join error.\<close>

datatype join_outcome = Joined ToolResult | JoinFailed

datatype WorkflowApprovalMode =
    NoApproval
  | Interactive "PermissionLevel option" "ApprovalPolicy option"

datatype ApprovalDisposition = Proceed | DenyNode | AskHuman

record WorkflowToolExecCtx =
  cfg_command_timeout_secs :: nat
  cfg_weather_timeout_secs :: nat
  cfg_web_search_timeout_secs :: nat
  cfg_web_search_provider :: ustring
  cfg_http_fetch_timeout_secs :: nat
  cfg_http_fetch_allowed_prefixes :: "ustring list"
  cfg_allowed_commands :: "ustring list"
  ctx_path_scope :: PathScope
  ctx_workspace_is_set :: bool
  ctx_workflow_run_id :: nat

text \<open>
  The arguments of a tool run: tool name, argument text, allow list and command timeout.
\<close>

type_synonym tool_invocation = "ustring \<times> ustring \<times> ustring list \<times> nat"

record node_env =
  env_to_string :: "Value \<Rightarrow> ustring"
  env_to_lowercase :: "ustring \<Rightarrow> ustring"
  env_targets_workspace_script :: "ustring \<Rightarrow> bool"
  env_ask :: "nat \<Rightarrow> ustring \<Rightarrow> ustring \<Rightarrow> CommandApprovalDecision"
  env_run_async :: "nat \<Rightarrow> tool_invocation \<Rightarrow> ToolResult"
  env_run_blocking :: "nat \<Rightarrow> tool_invocation \<Rightarrow> join_outcome"
  env_timer_first :: "nat \<Rightarrow> nat \<Rightarrow> bool"
  env_is_compile_success :: "ustring \<Rightarrow> ustring \<Rightarrow> bool"

record WorkflowTraceEvent =
  ev_workflow_run_id :: nat
  ev_event :: ustring
  ev_node_id :: "ustring option"
  ev_detail :: "ustring option"
  ev_attempt :: "nat option"
  ev_status :: "ustring option"
  ev_error_code :: "ustring option"
  ev_tool_name :: "ustring option"
  ev_phase :: "ustring option"

record node_world =
  w_allowlist :: "ustring set"
  w_audit :: audit_log
  w_trace :: "WorkflowTraceEvent list"
  w_asked :: "(ustring \<times> ustring) list"
  w_sleeps :: "nat list"
  w_runs :: "ustring list"

definition workflow_trace_push :: "node_world \<Rightarrow> WorkflowTraceEvent \<Rightarrow> node_world" where
  "workflow_trace_push w ev = w\<lparr>w_trace := w_trace w @ [ev]\<rparr>"

definition node_event ::
    "WorkflowToolExecCtx \<Rightarrow> ustring \<Rightarrow> WorkflowNodeSpec \<Rightarrow> ustring option \<Rightarrow> nat option \<Rightarrow>
     ustring option \<Rightarrow> ustring option \<Rightarrow> ustring \<Rightarrow> WorkflowTraceEvent" where
  "node_event ctx event node detail attempt status error_code phase =
     \<lparr>ev_workflow_run_id = ctx_workflow_run_id ctx, ev_event = event, ev_node_id = Some (node_id node),
      ev_detail = detail, ev_attempt = attempt, ev_status = status, ev_error_code = error_code,
      ev_tool_name = Some (node_tool_name node), ev_phase = Some phase\<rparr>"

section \<open>Approval\<close>

text \<open>\<^verbatim>\<open>record\<close> of the audit module, on the world.\<close>

definition audit_workflow_node_gate ::
    "node_world \<Rightarrow> WorkflowApprovalMode \<Rightarrow> PermissionAxis \<Rightarrow> ustring \<Rightarrow> ustring \<Rightarrow>
     ApprovalDisposition \<Rightarrow> node_world" where
  "audit_workflow_node_gate w mode axis tool nid disposition =
     (case mode of
        Interactive (Some level) appr \<Rightarrow>
          (let policy = unwrap_or appr ApprovalPolicy.Gate in
           case disposition of
             Proceed \<Rightarrow> w\<lparr>w_audit := record_event (w_audit w) level policy axis AllowedDecision (Some tool) (Some nid)\<rparr>
           | DenyNode \<Rightarrow> w\<lparr>w_audit := record_event (w_audit w) level policy axis DeniedDecision (Some tool) (Some nid)\<rparr>
           | AskHuman \<Rightarrow> w)
      | _ \<Rightarrow> w)"

fun approval_disposition :: "WorkflowApprovalMode \<Rightarrow> ApprovalDisposition" where
  "approval_disposition NoApproval = DenyNode"
| "approval_disposition (Interactive level appr) =
     (case unwrap_or appr ApprovalPolicy.Gate of
        ApprovalPolicy.Deny \<Rightarrow> DenyNode
      | ApprovalPolicy.AuditOnly \<Rightarrow> Proceed
      | ApprovalPolicy.Gate \<Rightarrow> AskHuman)"

definition allowlist_allows_all :: "ustring list \<Rightarrow> bool" where
  "allowlist_allows_all allowed = list_ex (\<lambda>c. trim c = lit ''*'') allowed"

definition command_node_disallowed :: "ustring list \<Rightarrow> ustring \<Rightarrow> bool" where
  "command_node_disallowed allowed cmd_lower \<longleftrightarrow>
     \<not> allowlist_allows_all allowed \<and> \<not> list_ex (\<lambda>c. eq_ignore_ascii_case c cmd_lower) allowed"

definition extend_allowlist_with_cmd :: "ustring list \<Rightarrow> ustring \<Rightarrow> ustring list" where
  "extend_allowlist_with_cmd base cmd_lower = base @ [cmd_lower]"

definition failed_result :: "ustring \<Rightarrow> ustring \<Rightarrow> ustring \<Rightarrow> nat \<Rightarrow> NodeRunResult" where
  "failed_result i output error_code attempt =
     \<lparr>res_id = i, res_status = Failed, res_output = output, res_workspace_changed = False,
      res_exit_code = None, res_error_code = Some error_code, res_attempt = attempt\<rparr>"

definition command_failure_result ::
    "WorkflowNodeSpec \<Rightarrow> ustring \<Rightarrow> ustring \<Rightarrow> ustring \<Rightarrow> NodeRunResult" where
  "command_failure_result node cmd_lower reason error_code =
     failed_result (node_id node)
       ((lit ''workflow '' @ [25191, 34892, 22833, 36133, 65306]) @ reason @ [65306] @ cmd_lower) error_code 1"

definition command_not_allowed_result :: "WorkflowNodeSpec \<Rightarrow> ustring \<Rightarrow> NodeRunResult" where
  "command_not_allowed_result node cmd_lower =
     command_failure_result node cmd_lower
       (lit ''run_command '' @ [21629, 20196, 19981, 22312, 20801, 35768, 21015, 34920, 19988, 26080, 27861, 20154, 24037, 23457, 25209]) (lit ''command_not_allowed'')"

definition command_denied_result :: "WorkflowNodeSpec \<Rightarrow> ustring \<Rightarrow> NodeRunResult" where
  "command_denied_result node cmd_lower =
     command_failure_result node cmd_lower
       ([29992, 25143, 25298, 32477, 25191, 34892, 21629, 20196, 65288] @ lit ''run_command'' @ [65289]) (lit ''command_denied'')"

definition args_preview_from_node :: "WorkflowNodeSpec \<Rightarrow> ustring" where
  "args_preview_from_node node =
     (case and_then (get_key (node_tool_args node) (lit ''args'')) as_array of
        None \<Rightarrow> []
      | Some arr \<Rightarrow> join (lit '' '') (List.map_filter as_str arr))"

definition command_already_in_persistent_allowlist ::
    "node_world \<Rightarrow> WorkflowApprovalMode \<Rightarrow> ustring \<Rightarrow> bool" where
  "command_already_in_persistent_allowlist w mode cmd_lower =
     (case mode of
        Interactive level appr \<Rightarrow> scoped_allowlist_key level cmd_lower \<in> w_allowlist w
      | NoApproval \<Rightarrow> False)"

text \<open>
  \<^verbatim>\<open>request_approval\<close>: the request is sent and the answer awaited; a broken channel, a timeout or a
  cancelled turn is a denial (\<^verbatim>\<open>unwrap_or(Deny)\<close>), which is one of the answers of \<open>env_ask\<close>.
\<close>

definition request_approval ::
    "node_env \<Rightarrow> node_world \<Rightarrow> ustring \<Rightarrow> ustring \<Rightarrow> node_world \<times> CommandApprovalDecision" where
  "request_approval env w command args =
     (w\<lparr>w_asked := w_asked w @ [(command, args)]\<rparr>,
      env_ask env (length (w_asked w)) command args)"

definition request_disallowed_command_approval ::
    "node_env \<Rightarrow> node_world \<Rightarrow> WorkflowNodeSpec \<Rightarrow> WorkflowApprovalMode \<Rightarrow> ustring \<Rightarrow>
     node_world \<times> (NodeRunResult, CommandApprovalDecision) result" where
  "request_disallowed_command_approval env w node mode cmd_lower =
     (case mode of
        Interactive level appr \<Rightarrow>
          (case request_approval env w cmd_lower (args_preview_from_node node) of
             (w', d) \<Rightarrow> (w', Inr d))
      | NoApproval \<Rightarrow> (w, Inl (command_not_allowed_result node cmd_lower)))"

definition remember_allowed :: "node_world \<Rightarrow> WorkflowApprovalMode \<Rightarrow> ustring \<Rightarrow> node_world" where
  "remember_allowed w mode key =
     (case mode of
        Interactive level appr \<Rightarrow> w\<lparr>w_allowlist := insert (scoped_allowlist_key level key) (w_allowlist w)\<rparr>
      | NoApproval \<Rightarrow> w)"

definition apply_interactive_allow_decision ::
    "node_env \<Rightarrow> node_world \<Rightarrow> WorkflowNodeSpec \<Rightarrow> WorkflowApprovalMode \<Rightarrow> WorkflowToolExecCtx \<Rightarrow>
     ustring \<Rightarrow> node_world \<times> (NodeRunResult, ustring list) result" where
  "apply_interactive_allow_decision env w node mode ctx cmd_lower =
     (case request_disallowed_command_approval env w node mode cmd_lower of
        (w', Inl r) \<Rightarrow> (w', Inl r)
      | (w', Inr DenyCommand) \<Rightarrow> (w', Inl (command_denied_result node cmd_lower))
      | (w', Inr AllowOnce) \<Rightarrow>
          (w', Inr (extend_allowlist_with_cmd (cfg_allowed_commands ctx) cmd_lower))
      | (w', Inr AllowAlways) \<Rightarrow>
          (remember_allowed w' mode cmd_lower,
           Inr (extend_allowlist_with_cmd (cfg_allowed_commands ctx) cmd_lower)))"

definition extend_for_new_disallowed_command ::
    "node_env \<Rightarrow> node_world \<Rightarrow> WorkflowNodeSpec \<Rightarrow> WorkflowApprovalMode \<Rightarrow> WorkflowToolExecCtx \<Rightarrow>
     ustring \<Rightarrow> ustring \<Rightarrow> node_world \<times> (NodeRunResult, ustring list) result" where
  "extend_for_new_disallowed_command env w node mode ctx cmd cmd_lower =
     (if ctx_workspace_is_set ctx \<and> env_targets_workspace_script env (trim cmd)
      then (w, Inr (extend_allowlist_with_cmd (cfg_allowed_commands ctx) cmd_lower))
      else apply_interactive_allow_decision env w node mode ctx cmd_lower)"

definition apply_run_command_allowlist_approvals ::
    "node_env \<Rightarrow> node_world \<Rightarrow> WorkflowNodeSpec \<Rightarrow> WorkflowApprovalMode \<Rightarrow> WorkflowToolExecCtx \<Rightarrow>
     node_world \<times> (NodeRunResult, ustring list) result" where
  "apply_run_command_allowlist_approvals env w node mode ctx =
     (if node_tool_name node \<noteq> RUN_COMMAND then (w, Inr (cfg_allowed_commands ctx))
      else (case and_then (get_key (node_tool_args node) (lit ''command'')) as_str of
        None \<Rightarrow> (w, Inr (cfg_allowed_commands ctx))
      | Some cmd \<Rightarrow>
          (let cmd_lower = env_to_lowercase env (trim cmd) in
           if \<not> command_node_disallowed (cfg_allowed_commands ctx) cmd_lower \<or> cmd_lower = []
           then (w, Inr (cfg_allowed_commands ctx))
           else if command_already_in_persistent_allowlist w mode cmd_lower
           then (w, Inr (extend_allowlist_with_cmd (cfg_allowed_commands ctx) cmd_lower))
           else
             (let disposition = approval_disposition mode;
                  w' = audit_workflow_node_gate w mode CommandAxis RUN_COMMAND (node_id node) disposition in
              case disposition of
                AskHuman \<Rightarrow> extend_for_new_disallowed_command env w' node mode ctx cmd cmd_lower
              | DenyNode \<Rightarrow> (w', Inl (command_not_allowed_result node cmd_lower))
              | Proceed \<Rightarrow>
                  (w', Inr (extend_allowlist_with_cmd (cfg_allowed_commands ctx) cmd_lower))))))"

definition approval_required_result :: "WorkflowNodeSpec \<Rightarrow> WorkflowApprovalMode \<Rightarrow> ustring \<Rightarrow> NodeRunResult" where
  "approval_required_result node mode approval_key =
     (let reason = (case mode of
          NoApproval \<Rightarrow> [24403, 21069, 26410, 21551, 29992, 23457, 25209, 36890, 36947]
        | Interactive level appr \<Rightarrow> [24403, 21069, 26435, 38480, 31561, 32423, 19981, 25552, 20379, 20154, 24037, 23457, 25209, 65288, 24037, 20316, 21306, 30828, 36793, 30028, 65289]) in
      failed_result (node_id node)
        ((lit ''workflow '' @ [25191, 34892, 22833, 36133, 65306, 35813, 33410, 28857, 38656, 35201, 20154, 24037, 23457, 25209, 65292, 20294]) @ reason @ [65306] @ approval_key)
        (lit ''approval_required'') 1)"

definition apply_generic_workflow_node_approval ::
    "node_env \<Rightarrow> node_world \<Rightarrow> WorkflowNodeSpec \<Rightarrow> WorkflowApprovalMode \<Rightarrow>
     node_world \<times> (NodeRunResult, unit) result" where
  "apply_generic_workflow_node_approval env w node mode =
     (if \<not> node_requires_approval node \<or> node_tool_name node = RUN_COMMAND then (w, Inr ())
      else
        (let approval_key = env_to_lowercase env (lit ''workflow_node:'' @ node_id node);
             disposition = approval_disposition mode;
             w' = audit_workflow_node_gate w mode ToolAxis (node_tool_name node) (node_id node) disposition in
         case disposition of
           Proceed \<Rightarrow> (w', Inr ())
         | DenyNode \<Rightarrow> (w', Inl (approval_required_result node mode approval_key))
         | AskHuman \<Rightarrow>
             (case mode of
                NoApproval \<Rightarrow> (w', Inr ())
              | Interactive level appr \<Rightarrow>
                  if scoped_allowlist_key level approval_key \<in> w_allowlist w' then (w', Inr ())
                  else
                    (case request_approval env w' approval_key
                            ([24037, 20855, 65306] @ node_tool_name node @ ([65288] @ lit ''requires_approval=true'' @ [65289])) of
                       (w'', DenyCommand) \<Rightarrow>
                         (w'', Inl (failed_result (node_id node)
                            ((lit ''workflow '' @ [25191, 34892, 22833, 36133, 65306, 29992, 25143, 25298, 32477, 20154, 24037, 23457, 25209, 33410, 28857, 65306]) @ approval_key)
                            (lit ''approval_denied'') 1))
                     | (w'', AllowOnce) \<Rightarrow> (w'', Inr ())
                     | (w'', AllowAlways) \<Rightarrow> (remember_allowed w'' mode approval_key, Inr ())))))"

section \<open>Timeouts\<close>

definition parse_web_search_provider :: "ustring \<Rightarrow> WebSearchProvider option" where
  "parse_web_search_provider s =
     (let k = to_ascii_lowercase (trim s) in
      if k = lit ''worbrow'' \<or> k = lit ''browser'' then Some WebSearchProvider.Worbrow
      else if k = lit ''brave'' then Some WebSearchProvider.Brave
      else if k = lit ''tavily'' then Some WebSearchProvider.Tavily
      else None)"

definition resolve_workflow_node_timeout_secs ::
    "WorkflowNodeSpec \<Rightarrow> WorkflowToolExecCtx \<Rightarrow> nat option" where
  "resolve_workflow_node_timeout_secs node ctx =
     or_option (node_timeout_secs node)
       (let name = node_tool_name node in
        if name = RUN_COMMAND \<or> name = PYTHON_SNIPPET_RUN then Some (cfg_command_timeout_secs ctx)
        else if name = lit ''get_weather'' then Some (cfg_weather_timeout_secs ctx)
        else if name = lit ''web_search''
        then Some (web_search_outer_wall_secs_for
               (unwrap_or (parse_web_search_provider (cfg_web_search_provider ctx)) WebSearchProvider.Worbrow)
               (cfg_web_search_timeout_secs ctx))
        else if name = lit ''http_fetch'' \<or> name = HTTP_REQUEST
        then Some (max (cfg_http_fetch_timeout_secs ctx) (cfg_command_timeout_secs ctx))
        else None)"


section \<open>Tool runs\<close>

text \<open>
  One tool run.  \<^verbatim>\<open>run_command\<close> goes through the asynchronous path, which has its own wall clock; any
  other tool runs in a blocking task that a timer may overtake (the timer only stops the waiting).
\<close>

definition execute_node_tool_phase ::
    "node_env \<Rightarrow> node_world \<Rightarrow> ustring \<Rightarrow> ustring \<Rightarrow> ustring \<Rightarrow> WorkflowToolExecCtx \<Rightarrow>
     ustring list \<Rightarrow> nat option \<Rightarrow> node_world \<times> NodeRunResult" where
  "execute_node_tool_phase env w nid tool_name args_json ctx allowed timeout_secs =
     (let n = length (w_runs w);
          w' = w\<lparr>w_runs := w_runs w @ [nid]\<rparr>;
          command_timeout =
            (if tool_name = RUN_COMMAND
             then max (unwrap_or timeout_secs (cfg_command_timeout_secs ctx)) 1
             else cfg_command_timeout_secs ctx);
          inv = (tool_name, args_json, allowed, command_timeout);
          tool_result =
            (if tool_name = RUN_COMMAND then Some (env_run_async env n inv)
             else if (case timeout_secs of Some ts \<Rightarrow> env_timer_first env n ts | None \<Rightarrow> False) then None
             else Some (case env_run_blocking env n inv of
                  Joined r \<Rightarrow> r
                | JoinFailed \<Rightarrow>
                    \<lparr>tr_ok = False, tr_exit_code = None, tr_message = [24037, 20855, 25191, 34892, 24322, 24120], tr_stdout = [],
                     tr_stderr = [], tr_error_code = Some (lit ''workflow_tool_join_error'')\<rparr>)) in
      case tool_result of
        None \<Rightarrow>
          (w', failed_result nid
             ((lit ''workflow '' @ [33410, 28857, 36229, 26102, 65288]) @ show_nat (unwrap_or timeout_secs 0) @ (lit '' '' @ [31186, 65289, 65306] @ lit ''tool='') @ tool_name)
             (lit ''timeout'') 0)
      | Some tr \<Rightarrow>
          (w', \<lparr>res_id = nid,
                res_status = (if tr_ok tr then Passed else Failed),
                res_output = tr_message tr,
                res_workspace_changed =
                  (tool_name = RUN_COMMAND \<and> env_is_compile_success env args_json (tr_message tr)),
                res_exit_code = tr_exit_code tr,
                res_error_code = tr_error_code tr,
                res_attempt = 0\<rparr>))"

definition backoff_secs :: "nat \<Rightarrow> nat" where
  "backoff_secs attempt = min (min (2 ^ (attempt - 1)) u64_max) 8"

text \<open>
  The body of the loop \<^verbatim>\<open>for attempt in 1..=max_attempts\<close>: \<open>attempts\<close> is what is left of the range,
  \<open>agg\<close> is \<^verbatim>\<open>aggregate_workspace_changed\<close>.  A passed attempt returns at once, without the aggregate; the
  result after the loop carries it.
\<close>

fun retry_loop ::
    "node_env \<Rightarrow> node_world \<Rightarrow> WorkflowNodeSpec \<Rightarrow> ustring \<Rightarrow> WorkflowToolExecCtx \<Rightarrow> ustring list \<Rightarrow>
     nat option \<Rightarrow> ustring \<Rightarrow> nat \<Rightarrow> NodeRunResult option \<Rightarrow> bool \<Rightarrow> nat list \<Rightarrow>
     node_world \<times> NodeRunResult option" where
  "retry_loop env w node args_json ctx allowed timeout_secs phase max_attempts prev agg [] =
     (w, map_option (\<lambda>r. r\<lparr>res_workspace_changed := agg\<rparr>) prev)"
| "retry_loop env w node args_json ctx allowed timeout_secs phase max_attempts prev agg (attempt # attempts) =
     (let w1 = workflow_trace_push w (node_event ctx (lit ''node_attempt_start'') node
                 (Some (lit ''tool='' @ node_tool_name node)) (Some attempt) None None phase);
          (w2, res0) = execute_node_tool_phase env w1 (node_id node) (node_tool_name node) args_json ctx
                 allowed timeout_secs;
          res = res0\<lparr>res_attempt := attempt\<rparr>;
          agg' = (agg \<or> res_workspace_changed res);
          w3 = workflow_trace_push w2 (node_event ctx (lit ''node_attempt_end'') node None (Some attempt)
                 (Some (status_text (res_status res))) (res_error_code res) phase) in
      if res_status res = Passed then (w3, Some res)
      else if attempt < max_attempts \<and> workflow_node_failure_retryable (res_error_code res) \<and>
              node_max_retries node > 0
      then
        (let delay = backoff_secs attempt;
             w4 = workflow_trace_push w3 (node_event ctx (lit ''node_retry_backoff'') node
                    (Some (lit ''sleep_secs='' @ show_nat delay @ lit '' next_attempt='' @ show_nat (attempt + 1)))
                    (Some attempt) None (res_error_code res) phase);
             w5 = w4\<lparr>w_sleeps := w_sleeps w4 @ [delay]\<rparr> in
         retry_loop env w5 node args_json ctx allowed timeout_secs phase max_attempts (Some res) agg' attempts)
      else (w3, Some (res\<lparr>res_workspace_changed := agg'\<rparr>)))"

definition u32_max :: nat where
  "u32_max = 2 ^ 32 - 1"

definition max_attempts_of :: "WorkflowNodeSpec \<Rightarrow> nat" where
  "max_attempts_of node = max (min (node_max_retries node + 1) u32_max) 1"

text \<open>\<^verbatim>\<open>last.expect(...)\<close>: \<open>None\<close> would be the panic; \<open>retries_no_panic\<close> below rules it out.\<close>

definition run_workflow_node_tool_with_retries ::
    "node_env \<Rightarrow> node_world \<Rightarrow> WorkflowNodeSpec \<Rightarrow> ustring \<Rightarrow> WorkflowToolExecCtx \<Rightarrow> ustring list \<Rightarrow>
     nat option \<Rightarrow> ustring \<Rightarrow> node_world \<times> NodeRunResult option" where
  "run_workflow_node_tool_with_retries env w node args_json ctx allowed timeout_secs phase =
     retry_loop env w node args_json ctx allowed timeout_secs phase (max_attempts_of node) None False
       [1..<Suc (max_attempts_of node)]"

section \<open>A node\<close>

definition workflow_node_workspace_failure_if_unset ::
    "WorkflowNodeSpec \<Rightarrow> WorkflowToolExecCtx \<Rightarrow> NodeRunResult option" where
  "workflow_node_workspace_failure_if_unset node ctx =
     (if ctx_workspace_is_set ctx then None
      else if node_tool_name node \<noteq> RUN_COMMAND then None
      else Some (failed_result (node_id node)
             ([38169, 35823, 65306, 26410, 35774, 32622, 24037, 20316, 21306, 65292, 31105, 27490, 22312, 24037, 20316, 27969, 20013, 25191, 34892, 35813, 24037, 20855, 65288, 38656, 35201, 20808, 22312] @ lit '' CLI/Web '' @ [35774, 32622] @ lit '' workspace'' @ [65289, 12290])
             (lit ''workspace_not_set'') 1))"

definition run_node_inner ::
    "node_env \<Rightarrow> node_world \<Rightarrow> WorkflowNodeSpec \<Rightarrow> WorkflowApprovalMode \<Rightarrow> WorkflowToolExecCtx \<Rightarrow>
     completed_map \<Rightarrow> nat \<Rightarrow> ustring \<Rightarrow> node_world \<times> NodeRunResult option" where
  "run_node_inner env w node mode ctx completed inject_max_chars phase =
     (let injected = inject_placeholders (node_tool_args node) completed inject_max_chars;
          args_json = (if is_null injected then lit ''{}'' else env_to_string env injected) in
      case workflow_node_workspace_failure_if_unset node ctx of
        Some fail \<Rightarrow> (w, Some fail)
      | None \<Rightarrow>
          (case apply_run_command_allowlist_approvals env w node mode ctx of
             (w1, Inl res) \<Rightarrow> (w1, Some res)
           | (w1, Inr allowed) \<Rightarrow>
               (case apply_generic_workflow_node_approval env w1 node mode of
                  (w2, Inl res) \<Rightarrow> (w2, Some res)
                | (w2, Inr _) \<Rightarrow>
                    (let timeout_secs = resolve_workflow_node_timeout_secs node ctx;
                         w3 = workflow_trace_push w2 (node_event ctx (lit ''node_ready_execute'') node
                                (Some (lit ''tool='' @ node_tool_name node)) None None None phase) in
                     run_workflow_node_tool_with_retries env w3 node args_json ctx allowed
                       timeout_secs phase))))"

definition run_node ::
    "node_env \<Rightarrow> node_world \<Rightarrow> WorkflowNodeSpec \<Rightarrow> WorkflowApprovalMode \<Rightarrow> WorkflowToolExecCtx \<Rightarrow>
     completed_map \<Rightarrow> nat \<Rightarrow> ustring \<Rightarrow> node_world \<times> NodeRunResult option" where
  "run_node env w node mode ctx completed inject_max_chars phase =
     (let w1 = workflow_trace_push w (node_event ctx (lit ''node_run_start'') node
                 (Some (lit ''tool='' @ node_tool_name node @ lit '' phase='' @ phase)) None None None phase) in
      case run_node_inner env w1 node mode ctx completed inject_max_chars phase of
        (w2, None) \<Rightarrow> (w2, None)
      | (w2, Some res) \<Rightarrow>
          (workflow_trace_push w2 (node_event ctx (lit ''node_run_end'') node None (Some (res_attempt res))
             (Some (status_text (res_status res))) (res_error_code res) phase),
           Some res))"

section \<open>Lemmas\<close>

lemma trace_push_simps [simp]:
  "w_allowlist (workflow_trace_push w ev) = w_allowlist w"
  "w_asked (workflow_trace_push w ev) = w_asked w"
  "w_sleeps (workflow_trace_push w ev) = w_sleeps w"
  "w_runs (workflow_trace_push w ev) = w_runs w"
  "w_audit (workflow_trace_push w ev) = w_audit w"
  by (simp_all add: workflow_trace_push_def)

lemma audit_gate_simps [simp]:
  "w_allowlist (audit_workflow_node_gate w mode axis tool nid d) = w_allowlist w"
  "w_asked (audit_workflow_node_gate w mode axis tool nid d) = w_asked w"
  "w_sleeps (audit_workflow_node_gate w mode axis tool nid d) = w_sleeps w"
  "w_runs (audit_workflow_node_gate w mode axis tool nid d) = w_runs w"
  by (simp_all add: audit_workflow_node_gate_def Let_def
      split: WorkflowApprovalMode.splits option.splits ApprovalDisposition.splits)

lemma failed_result_simps [simp]:
  "res_id (failed_result i out code a) = i" "res_status (failed_result i out code a) = Failed"
  "res_error_code (failed_result i out code a) = Some code" "res_attempt (failed_result i out code a) = a"
  by (simp_all add: failed_result_def)

lemma tool_phase_simps:
  "res_id (snd (execute_node_tool_phase env w nid tool args ctx allowed ts)) = nid"
  "res_status (snd (execute_node_tool_phase env w nid tool args ctx allowed ts)) \<noteq> Skipped"
  "w_runs (fst (execute_node_tool_phase env w nid tool args ctx allowed ts)) = w_runs w @ [nid]"
  "w_sleeps (fst (execute_node_tool_phase env w nid tool args ctx allowed ts)) = w_sleeps w"
  "w_asked (fst (execute_node_tool_phase env w nid tool args ctx allowed ts)) = w_asked w"
  "w_allowlist (fst (execute_node_tool_phase env w nid tool args ctx allowed ts)) = w_allowlist w"
  by (simp_all add: execute_node_tool_phase_def Let_def split: option.splits)

text \<open>One round of the loop: it either ends with the attempt's result or sleeps and goes on.\<close>

definition retry_ends :: "WorkflowNodeSpec \<Rightarrow> nat \<Rightarrow> nat \<Rightarrow> NodeRunResult \<Rightarrow> bool" where
  "retry_ends node a m r \<longleftrightarrow>
     res_status r = Passed \<or>
     \<not> (a < m \<and> workflow_node_failure_retryable (res_error_code r) \<and> node_max_retries node > 0)"

definition attempt_outcome ::
    "node_env \<Rightarrow> node_world \<Rightarrow> WorkflowNodeSpec \<Rightarrow> ustring \<Rightarrow> WorkflowToolExecCtx \<Rightarrow> ustring list \<Rightarrow>
     nat option \<Rightarrow> ustring \<Rightarrow> nat \<Rightarrow> node_world \<times> NodeRunResult" where
  "attempt_outcome env w node args ctx allowed ts phase a =
     execute_node_tool_phase env
       (workflow_trace_push w (node_event ctx (lit ''node_attempt_start'') node
          (Some (lit ''tool='' @ node_tool_name node)) (Some a) None None phase))
       (node_id node) (node_tool_name node) args ctx allowed ts"

lemma attempt_outcome_simps:
  assumes "attempt_outcome env w node args ctx allowed ts phase a = (w2, r)"
  shows "res_id r = node_id node" "res_status r \<noteq> Skipped" "w_runs w2 = w_runs w @ [node_id node]"
    "w_sleeps w2 = w_sleeps w" "w_asked w2 = w_asked w" "w_allowlist w2 = w_allowlist w"
  using assms tool_phase_simps unfolding attempt_outcome_def
  by (metis fst_conv snd_conv trace_push_simps)+

lemma retry_stop:
  assumes "attempt_outcome env w node args ctx allowed ts phase a = (w2, r0)" "retry_ends node a m r0"
  shows "\<exists>w' r. retry_loop env w node args ctx allowed ts phase m prev agg (a # attempts) = (w', Some r) \<and>
     res_attempt r = a \<and> res_id r = res_id r0 \<and> res_status r = res_status r0 \<and>
     res_error_code r = res_error_code r0 \<and> w_runs w' = w_runs w2 \<and> w_sleeps w' = w_sleeps w2 \<and>
     w_asked w' = w_asked w2 \<and> w_allowlist w' = w_allowlist w2"
  using assms by (cases "res_status r0 = Passed") (auto simp: attempt_outcome_def retry_ends_def Let_def)

lemma retry_again:
  assumes "attempt_outcome env w node args ctx allowed ts phase a = (w2, r0)" "\<not> retry_ends node a m r0"
  shows "\<exists>w5 agg' prev'. retry_loop env w node args ctx allowed ts phase m prev agg (a # attempts) =
       retry_loop env w5 node args ctx allowed ts phase m prev' agg' attempts \<and>
     w_runs w5 = w_runs w2 \<and> w_sleeps w5 = w_sleeps w2 @ [backoff_secs a] \<and>
     w_asked w5 = w_asked w2 \<and> w_allowlist w5 = w_allowlist w2"
proof -
  define res where "res = r0\<lparr>res_attempt := a\<rparr>"
  define w3 where "w3 = workflow_trace_push w2 (node_event ctx (lit ''node_attempt_end'') node None (Some a)
    (Some (status_text (res_status res))) (res_error_code res) phase)"
  define w4 where "w4 = workflow_trace_push w3 (node_event ctx (lit ''node_retry_backoff'') node
    (Some (lit ''sleep_secs='' @ show_nat (backoff_secs a) @ lit '' next_attempt='' @ show_nat (a + 1)))
    (Some a) None (res_error_code res) phase)"
  have "retry_loop env w node args ctx allowed ts phase m prev agg (a # attempts) =
      retry_loop env (w4\<lparr>w_sleeps := w_sleeps w4 @ [backoff_secs a]\<rparr>) node args ctx allowed ts phase m
        (Some res) (agg \<or> res_workspace_changed res) attempts"
    using assms by (simp add: attempt_outcome_def retry_ends_def Let_def res_def w3_def w4_def)
  then show ?thesis
    by (intro exI conjI) (assumption | simp add: w3_def w4_def)+
qed

text \<open>
  What a run of the loop from attempt \<open>a\<close> on does: it makes \<open>k\<close> tool runs, sleeps between
  them, and ends with the result of the last one.
\<close>

definition retry_result ::
    "node_world \<Rightarrow> WorkflowNodeSpec \<Rightarrow> nat \<Rightarrow> nat \<Rightarrow> nat \<Rightarrow> node_world \<Rightarrow> NodeRunResult \<Rightarrow> bool" where
  "retry_result w node a m k w' r \<longleftrightarrow>
     1 \<le> k \<and> a + k \<le> Suc m \<and> res_attempt r = a + k - 1 \<and> res_id r = node_id node \<and>
     res_status r \<noteq> Skipped \<and>
     w_runs w' = w_runs w @ replicate k (node_id node) \<and>
     w_sleeps w' = w_sleeps w @ map backoff_secs [a..<a + k - 1] \<and>
     w_asked w' = w_asked w \<and> w_allowlist w' = w_allowlist w \<and>
     (a + k \<le> m \<and> node_max_retries node > 0 \<longrightarrow>
        res_status r = Passed \<or> \<not> workflow_node_failure_retryable (res_error_code r))"

lemma retry_result_stop:
  assumes "attempt_outcome env w node args ctx allowed ts phase a = (w2, r0)" "retry_ends node a m r0"
    "1 \<le> a" "a \<le> m"
    "res_attempt r = a" "res_id r = res_id r0" "res_status r = res_status r0"
    "res_error_code r = res_error_code r0" "w_runs w' = w_runs w2" "w_sleeps w' = w_sleeps w2"
    "w_asked w' = w_asked w2" "w_allowlist w' = w_allowlist w2"
  shows "retry_result w node a m 1 w' r"
  using assms attempt_outcome_simps [OF assms(1)] by (auto simp: retry_result_def retry_ends_def)

lemma retry_result_again:
  assumes "attempt_outcome env w node args ctx allowed ts phase a = (w2, r0)"
    "w_runs w5 = w_runs w2" "w_sleeps w5 = w_sleeps w2 @ [backoff_secs a]"
    "w_asked w5 = w_asked w2" "w_allowlist w5 = w_allowlist w2"
    "retry_result w5 node (Suc a) m k w' r"
  shows "retry_result w node a m (Suc k) w' r"
proof -
  have "1 \<le> k" using assms(6) by (simp add: retry_result_def)
  then have "[a..<a + Suc k - 1] = a # [Suc a..<Suc a + k - 1]"
    by (simp add: upt_conv_Cons del: upt_Suc)
  then show ?thesis
    using assms attempt_outcome_simps [OF assms(1)] by (auto simp: retry_result_def)
qed

lemma retry_loop_spec:
  assumes "1 \<le> a" "a \<le> m"
  shows "\<exists>w' r k. retry_loop env w node args ctx allowed ts phase m prev agg [a..<Suc m] = (w', Some r) \<and>
     retry_result w node a m k w' r"
  using assms
proof (induction "m - a" arbitrary: w prev agg a rule: less_induct)
  case less
  have list: "[a..<Suc m] = a # [Suc a..<Suc m]" using less.prems by (simp add: upt_conv_Cons del: upt_Suc)
  obtain w2 r0 where at: "attempt_outcome env w node args ctx allowed ts phase a = (w2, r0)" by fastforce
  show ?case
  proof (cases "retry_ends node a m r0")
    case True
    show ?thesis
      using retry_stop [OF at True, of prev agg "[Suc a..<Suc m]"] retry_result_stop [OF at True less.prems]
      unfolding list by blast
  next
    case False
    then have le: "Suc a \<le> m" "m - Suc a < m - a" "1 \<le> Suc a" using less.prems by (auto simp: retry_ends_def)
    obtain w5 agg' prev' where
      step: "retry_loop env w node args ctx allowed ts phase m prev agg [a..<Suc m] =
        retry_loop env w5 node args ctx allowed ts phase m prev' agg' [Suc a..<Suc m]"
      and w5: "w_runs w5 = w_runs w2" "w_sleeps w5 = w_sleeps w2 @ [backoff_secs a]"
        "w_asked w5 = w_asked w2" "w_allowlist w5 = w_allowlist w2"
      using retry_again [OF at False] unfolding list by blast
    obtain w' r k where
      "retry_loop env w5 node args ctx allowed ts phase m prev' agg' [Suc a..<Suc m] = (w', Some r)"
      "retry_result w5 node (Suc a) m k w' r"
      using less.hyps [OF le(2,3,1), of w5 prev' agg'] by blast
    then show ?thesis using step retry_result_again [OF at w5] by metis
  qed
qed

lemma max_attempts_pos: "1 \<le> max_attempts_of node"
  by (simp add: max_attempts_of_def)

lemma retries_spec:
  "\<exists>w' r k. run_workflow_node_tool_with_retries env w node args ctx allowed ts phase = (w', Some r) \<and>
     retry_result w node 1 (max_attempts_of node) k w' r"
  unfolding run_workflow_node_tool_with_retries_def
  by (rule retry_loop_spec [OF order_refl max_attempts_pos])

text \<open>The approval gates only touch the allow list, the audit log and the list of requests.\<close>

lemma request_approval_simps:
  "w_runs (fst (request_approval env w cmd args)) = w_runs w"
  "w_sleeps (fst (request_approval env w cmd args)) = w_sleeps w"
  "w_allowlist (fst (request_approval env w cmd args)) = w_allowlist w"
  by (simp_all add: request_approval_def)

lemma remember_allowed_simps [simp]:
  "w_runs (remember_allowed w mode key) = w_runs w" "w_sleeps (remember_allowed w mode key) = w_sleeps w"
  "w_asked (remember_allowed w mode key) = w_asked w"
  by (simp_all add: remember_allowed_def split: WorkflowApprovalMode.splits)

lemma command_results_simps [simp]:
  "res_id (command_not_allowed_result node c) = node_id node"
  "res_id (command_denied_result node c) = node_id node"
  "res_status (command_not_allowed_result node c) = Failed"
  "res_status (command_denied_result node c) = Failed"
  "res_id (approval_required_result node mode k) = node_id node"
  "res_status (approval_required_result node mode k) = Failed"
  by (simp_all add: command_not_allowed_result_def command_denied_result_def
      command_failure_result_def approval_required_result_def Let_def)

lemma interactive_decision_cases:
  assumes "apply_interactive_allow_decision env w node mode ctx c = (w', r)"
  shows "w_runs w' = w_runs w \<and> w_sleeps w' = w_sleeps w \<and>
    (\<forall>x. r = Inl x \<longrightarrow> res_id x = node_id node \<and> res_status x = Failed) \<and>
    (\<forall>al. r = Inr al \<longrightarrow> al = cfg_allowed_commands ctx @ [c] \<and>
       env_ask env (length (w_asked w)) c (args_preview_from_node node) \<noteq> DenyCommand \<and>
       w_asked w' = w_asked w @ [(c, args_preview_from_node node)])"
  using assms
  by (auto simp: apply_interactive_allow_decision_def request_disallowed_command_approval_def
      request_approval_def extend_allowlist_with_cmd_def
      split: WorkflowApprovalMode.splits CommandApprovalDecision.splits)

lemma command_gate_cases:
  assumes "apply_run_command_allowlist_approvals env w node mode ctx = (w', r)"
  shows "w_runs w' = w_runs w \<and> w_sleeps w' = w_sleeps w \<and>
    (\<forall>x. r = Inl x \<longrightarrow> res_id x = node_id node \<and> res_status x = Failed) \<and>
    (approval_disposition mode \<noteq> AskHuman \<longrightarrow> w_asked w' = w_asked w)"
proof -
  have ext: "w_runs w' = w_runs w \<and> w_sleeps w' = w_sleeps w \<and>
      (\<forall>x. r = Inl x \<longrightarrow> res_id x = node_id node \<and> res_status x = Failed)"
    if "extend_for_new_disallowed_command env w0 node mode ctx cmd c = (w', r)"
      "w_runs w0 = w_runs w" "w_sleeps w0 = w_sleeps w" for w0 cmd c
    using that interactive_decision_cases [of env w0 node mode ctx c w' r]
    by (auto simp: extend_for_new_disallowed_command_def split: if_splits)
  show ?thesis
    using assms ext
    by (auto simp: apply_run_command_allowlist_approvals_def Let_def
        split: if_splits option.splits ApprovalDisposition.splits)
qed

lemma generic_gate_cases:
  assumes "apply_generic_workflow_node_approval env w node mode = (w', r)"
  shows "w_runs w' = w_runs w \<and> w_sleeps w' = w_sleeps w \<and>
    (\<forall>x. r = Inl x \<longrightarrow> res_id x = node_id node \<and> res_status x = Failed) \<and>
    (approval_disposition mode \<noteq> AskHuman \<longrightarrow> w_asked w' = w_asked w)"
  using assms
  by (auto simp: apply_generic_workflow_node_approval_def Let_def request_approval_def
      split: if_splits ApprovalDisposition.splits WorkflowApprovalMode.splits
        CommandApprovalDecision.splits)

text \<open>The possible ends of a node: it fails before its tool runs, or the retry loop ends.\<close>

lemma run_node_inner_cases:
  "\<exists>w' r. run_node_inner env w node mode ctx completed n phase = (w', Some r) \<and>
     res_id r = node_id node \<and> res_status r \<noteq> Skipped \<and>
     (approval_disposition mode \<noteq> AskHuman \<longrightarrow> w_asked w' = w_asked w) \<and>
     (\<exists>k \<le> max_attempts_of node. w_runs w' = w_runs w @ replicate k (node_id node) \<and>
        w_sleeps w' = w_sleeps w @ map backoff_secs [1..<k] \<and>
        (k = 0 \<longrightarrow> res_status r = Failed) \<and> (k > 0 \<longrightarrow> res_attempt r = k))"
proof (cases "workflow_node_workspace_failure_if_unset node ctx")
  case (Some fail)
  then show ?thesis
    by (intro exI [of _ w] exI [of _ fail])
      (auto simp: run_node_inner_def workflow_node_workspace_failure_if_unset_def split: if_splits)
next
  case unset: None
  obtain w1 r1 where g1: "apply_run_command_allowlist_approvals env w node mode ctx = (w1, r1)" by fastforce
  note c1 = command_gate_cases [OF g1]
  show ?thesis
  proof (cases r1)
    case (Inl x)
    then show ?thesis using unset g1 c1
      by (intro exI [of _ w1] exI [of _ x] conjI exI [of _ 0]) (auto simp: run_node_inner_def Let_def)
  next
    case allowed: (Inr allowed)
    obtain w2 r2 where g2: "apply_generic_workflow_node_approval env w1 node mode = (w2, r2)" by fastforce
    note c2 = generic_gate_cases [OF g2]
    show ?thesis
    proof (cases r2)
      case (Inl x)
      then show ?thesis using unset g1 c1 allowed g2 c2
        by (intro exI [of _ w2] exI [of _ x] conjI exI [of _ 0]) (auto simp: run_node_inner_def Let_def)
    next
      case (Inr u)
      define w3 where "w3 = workflow_trace_push w2 (node_event ctx (lit ''node_ready_execute'') node
        (Some (lit ''tool='' @ node_tool_name node)) None None None phase)"
      define args where "args = (let injected = inject_placeholders (node_tool_args node) completed n in
        if is_null injected then lit ''{}'' else env_to_string env injected)"
      obtain w' r k where
        run: "run_workflow_node_tool_with_retries env w3 node args ctx allowed
           (resolve_workflow_node_timeout_secs node ctx) phase = (w', Some r)"
        and res: "retry_result w3 node 1 (max_attempts_of node) k w' r"
        using retries_spec by blast
      have "run_node_inner env w node mode ctx completed n phase = (w', Some r)"
        using unset g1 allowed g2 Inr run by (simp add: run_node_inner_def Let_def w3_def args_def)
      then show ?thesis
        using res c1 c2
        by (intro exI [of _ w'] exI [of _ r] conjI exI [of _ k]) (auto simp: retry_result_def w3_def)
    qed
  qed
qed

lemma run_node_eq:
  "run_node env w node mode ctx completed n phase =
     (let w1 = workflow_trace_push w (node_event ctx (lit ''node_run_start'') node
         (Some (lit ''tool='' @ node_tool_name node @ lit '' phase='' @ phase)) None None None phase);
          (w2, r) = run_node_inner env w1 node mode ctx completed n phase in
      (case r of None \<Rightarrow> w2 | Some res \<Rightarrow>
         workflow_trace_push w2 (node_event ctx (lit ''node_run_end'') node None (Some (res_attempt res))
           (Some (status_text (res_status res))) (res_error_code res) phase), r))"
  by (simp add: run_node_def Let_def split: prod.splits option.splits)

lemma run_node_cases:
  "\<exists>w' r. run_node env w node mode ctx completed n phase = (w', Some r) \<and>
     res_id r = node_id node \<and> res_status r \<noteq> Skipped \<and>
     (approval_disposition mode \<noteq> AskHuman \<longrightarrow> w_asked w' = w_asked w) \<and>
     (\<exists>k \<le> max_attempts_of node. w_runs w' = w_runs w @ replicate k (node_id node) \<and>
        w_sleeps w' = w_sleeps w @ map backoff_secs [1..<k] \<and>
        (k = 0 \<longrightarrow> res_status r = Failed) \<and> (k > 0 \<longrightarrow> res_attempt r = k))"
proof -
  define w1 where "w1 = workflow_trace_push w (node_event ctx (lit ''node_run_start'') node
    (Some (lit ''tool='' @ node_tool_name node @ lit '' phase='' @ phase)) None None None phase)"
  obtain w' r where "run_node_inner env w1 node mode ctx completed n phase = (w', Some r) \<and>
     res_id r = node_id node \<and> res_status r \<noteq> Skipped \<and>
     (approval_disposition mode \<noteq> AskHuman \<longrightarrow> w_asked w' = w_asked w1) \<and>
     (\<exists>k \<le> max_attempts_of node. w_runs w' = w_runs w1 @ replicate k (node_id node) \<and>
        w_sleeps w' = w_sleeps w1 @ map backoff_secs [1..<k] \<and>
        (k = 0 \<longrightarrow> res_status r = Failed) \<and> (k > 0 \<longrightarrow> res_attempt r = k))"
    using run_node_inner_cases [of env w1 node mode ctx completed n phase] by (elim exE) (rule that)
  then show ?thesis by (simp add: run_node_eq Let_def w1_def)
qed

text \<open>The grounds on which a command outside the allow list may run.\<close>

definition command_grounded ::
    "node_env \<Rightarrow> node_world \<Rightarrow> WorkflowNodeSpec \<Rightarrow> WorkflowApprovalMode \<Rightarrow> WorkflowToolExecCtx \<Rightarrow>
     ustring \<Rightarrow> bool" where
  "command_grounded env w node mode ctx cmd \<longleftrightarrow>
     (let c = env_to_lowercase env (trim cmd) in
      c = [] \<or> \<not> command_node_disallowed (cfg_allowed_commands ctx) c \<or>
      command_already_in_persistent_allowlist w mode c \<or>
      approval_disposition mode = Proceed \<or>
      approval_disposition mode = AskHuman \<and>
        (ctx_workspace_is_set ctx \<and> env_targets_workspace_script env (trim cmd) \<or>
         env_ask env (length (w_asked w)) c (args_preview_from_node node) \<noteq> DenyCommand))"

lemma command_gate_grounds:
  assumes "apply_run_command_allowlist_approvals env w node mode ctx = (w', Inr al)"
    "node_tool_name node = RUN_COMMAND"
    "and_then (get_key (node_tool_args node) (lit ''command'')) as_str = Some cmd"
  shows "command_grounded env w node mode ctx cmd"
proof (rule ccontr)
  assume ng: "\<not> command_grounded env w node mode ctx cmd"
  define c where "c = env_to_lowercase env (trim cmd)"
  define w0 where "w0 = audit_workflow_node_gate w mode CommandAxis RUN_COMMAND (node_id node)
    (approval_disposition mode)"
  have disp: "approval_disposition mode = AskHuman"
  proof (cases "approval_disposition mode")
    case DenyNode
    then show ?thesis using ng assms
      by (auto simp: command_grounded_def apply_run_command_allowlist_approvals_def Let_def)
  qed (use ng in \<open>auto simp: command_grounded_def\<close>)
  then have "extend_for_new_disallowed_command env w0 node mode ctx cmd c = (w', Inr al)"
    using ng assms by (auto simp: command_grounded_def apply_run_command_allowlist_approvals_def
        Let_def c_def w0_def)
  then have "apply_interactive_allow_decision env w0 node mode ctx c = (w', Inr al)"
    using ng disp by (auto simp: command_grounded_def extend_for_new_disallowed_command_def Let_def
        split: if_splits)
  from interactive_decision_cases [OF this] show False
    using ng disp by (auto simp: command_grounded_def w0_def c_def Let_def)
qed

lemma gate_denied_no_run:
  assumes "apply_run_command_allowlist_approvals env w node mode ctx = (w', Inl x)"
  shows "w_runs (fst (run_node_inner env w node mode ctx completed n phase)) = w_runs w"
  using assms command_gate_cases [OF assms]
  by (auto simp: run_node_inner_def Let_def split: option.splits)

lemma command_grounded_trace [simp]:
  "command_grounded env (workflow_trace_push w ev) node mode ctx cmd = command_grounded env w node mode ctx cmd"
  by (simp add: command_grounded_def command_already_in_persistent_allowlist_def Let_def
      split: WorkflowApprovalMode.splits)

lemma run_needs_grounds:
  assumes "w_runs (fst (run_node_inner env w node mode ctx completed n phase)) \<noteq> w_runs w"
    "node_tool_name node = RUN_COMMAND"
    "and_then (get_key (node_tool_args node) (lit ''command'')) as_str = Some cmd"
  shows "command_grounded env w node mode ctx cmd"
proof (cases "apply_run_command_allowlist_approvals env w node mode ctx")
  case (Pair w' r)
  then show ?thesis using assms command_gate_grounds gate_denied_no_run by (cases r) blast+
qed

lemma run_node_runs:
  "w_runs (fst (run_node env w node mode ctx completed n phase)) =
     w_runs (fst (run_node_inner env (workflow_trace_push w (node_event ctx (lit ''node_run_start'') node
       (Some (lit ''tool='' @ node_tool_name node @ lit '' phase='' @ phase)) None None None phase))
       node mode ctx completed n phase))"
  by (simp add: run_node_def Let_def split: prod.splits option.splits)

section \<open>Properties\<close>

text \<open>
  C24: A node's tool is retried within bounds.  The engine's \<^verbatim>\<open>expect\<close> never panics; the tool is run
  at least once and at most \<^verbatim>\<open>max_retries + 1\<close> times; the reported attempt is the number of runs; the
  sleeps between runs are 1, 2, 4, 8, 8, ... seconds; and when fewer runs were made than allowed, the
  last one passed or failed with a code that is not retryable.
\<close>

theorem retries_bounded:
  "\<exists>w' r k. run_workflow_node_tool_with_retries env w node args ctx allowed ts phase = (w', Some r) \<and>
     1 \<le> k \<and> k \<le> node_max_retries node + 1 \<and> res_attempt r = k \<and>
     w_runs w' = w_runs w @ replicate k (node_id node) \<and>
     w_sleeps w' = w_sleeps w @ map (\<lambda>i. min (2 ^ (i - 1)) 8) [1..<k] \<and>
     (k \<le> node_max_retries node \<and> node_max_retries node < u32_max \<longrightarrow>
        res_status r = Passed \<or> \<not> workflow_node_failure_retryable (res_error_code r))"
proof -
  have backoff: "backoff_secs i = min (2 ^ (i - 1)) 8" for i
    by (simp add: backoff_secs_def u64_max_def)
  obtain w' r k where run: "run_workflow_node_tool_with_retries env w node args ctx allowed ts phase = (w', Some r)"
    and res: "retry_result w node 1 (max_attempts_of node) k w' r"
    using retries_spec by blast
  have "max_attempts_of node \<le> node_max_retries node + 1" by (simp add: max_attempts_of_def u32_max_def)
  moreover have "max_attempts_of node = node_max_retries node + 1" if "node_max_retries node < u32_max"
    using that by (simp add: max_attempts_of_def)
  ultimately show ?thesis using run res
    by (intro exI [of _ w'] exI [of _ r] exI [of _ k]) (auto simp: retry_result_def backoff)
qed

definition sample_env :: node_env where
  "sample_env =
     \<lparr>env_to_string = (\<lambda>v. []), env_to_lowercase = (\<lambda>s. s), env_targets_workspace_script = (\<lambda>s. False),
      env_ask = (\<lambda>n c a. DenyCommand),
      env_run_async = (\<lambda>n inv. \<lparr>tr_ok = False, tr_exit_code = None, tr_message = [], tr_stdout = [],
        tr_stderr = [], tr_error_code = Some (lit ''timeout'')\<rparr>),
      env_run_blocking = (\<lambda>n inv. JoinFailed), env_timer_first = (\<lambda>n ts. False),
      env_is_compile_success = (\<lambda>a m. False)\<rparr>"

definition sample_world :: node_world where
  "sample_world = \<lparr>w_allowlist = {}, w_audit = [], w_trace = [], w_asked = [], w_sleeps = [], w_runs = []\<rparr>"

definition sample_ctx :: WorkflowToolExecCtx where
  "sample_ctx =
     \<lparr>cfg_command_timeout_secs = 30, cfg_weather_timeout_secs = 15, cfg_web_search_timeout_secs = 30,
      cfg_web_search_provider = lit ''brave'', cfg_http_fetch_timeout_secs = 30,
      cfg_http_fetch_allowed_prefixes = [], cfg_allowed_commands = [lit ''ls''],
      ctx_path_scope = PathScope.SessionRoot, ctx_workspace_is_set = True, ctx_workflow_run_id = 1\<rparr>"

theorem retries_bounded_witness:
  "\<exists>w' r k. run_workflow_node_tool_with_retries sample_env sample_world
       ((mk_node (lit ''a'') (lit ''t'') [])\<lparr>node_max_retries := 2\<rparr>) [] sample_ctx [] None (lit ''main'') = (w', Some r) \<and>
     1 \<le> k \<and> k \<le> 3 \<and> length (w_runs w') = k"
  using retries_bounded [of sample_env sample_world
      "(mk_node (lit ''a'') (lit ''t'') [])\<lparr>node_max_retries := 2\<rparr>" "[]" sample_ctx "[]" None "lit ''main''"]
  by (auto simp: sample_world_def mk_node_def)

text \<open>
  The permission level decides before any human is asked.  When the level's policy denies (or
  there is no approval channel) or waives approval, running a node sends no approval request; and
  when it denies, a \<^verbatim>\<open>run_command\<close> node whose command is outside the allow list and was not approved for
  good at this very level fails with \<^verbatim>\<open>command_not_allowed\<close> and no tool is run.
\<close>

theorem level_decides_before_prompt:
  assumes "approval_disposition mode \<noteq> AskHuman"
  shows "w_asked (fst (run_node env w node mode ctx completed n phase)) = w_asked w \<and>
    (approval_disposition mode = DenyNode \<and> ctx_workspace_is_set ctx \<and> node_tool_name node = RUN_COMMAND \<and>
     and_then (get_key (node_tool_args node) (lit ''command'')) as_str = Some cmd \<and>
     env_to_lowercase env (trim cmd) = c \<and> c \<noteq> [] \<and>
     command_node_disallowed (cfg_allowed_commands ctx) c \<and>
     \<not> command_already_in_persistent_allowlist w mode c \<longrightarrow>
       w_runs (fst (run_node env w node mode ctx completed n phase)) = w_runs w \<and>
       snd (run_node env w node mode ctx completed n phase) = Some (command_not_allowed_result node c))"
proof (intro conjI impI)
  show "w_asked (fst (run_node env w node mode ctx completed n phase)) = w_asked w"
    using run_node_cases [of env w node mode ctx completed n phase] assms by auto
next
  assume a: "approval_disposition mode = DenyNode \<and> ctx_workspace_is_set ctx \<and> node_tool_name node = RUN_COMMAND \<and>
     and_then (get_key (node_tool_args node) (lit ''command'')) as_str = Some cmd \<and>
     env_to_lowercase env (trim cmd) = c \<and> c \<noteq> [] \<and>
     command_node_disallowed (cfg_allowed_commands ctx) c \<and>
     \<not> command_already_in_persistent_allowlist w mode c"
  have mem: "\<not> command_already_in_persistent_allowlist (workflow_trace_push w ev) mode c" for ev
    using a by (auto simp: command_already_in_persistent_allowlist_def split: WorkflowApprovalMode.splits)
  have run: "run_node_inner env (workflow_trace_push w ev) node mode ctx completed n phase =
      (audit_workflow_node_gate (workflow_trace_push w ev) mode CommandAxis RUN_COMMAND (node_id node) DenyNode,
       Some (command_not_allowed_result node c))" for ev
    using a mem by (simp add: run_node_inner_def workflow_node_workspace_failure_if_unset_def
        apply_run_command_allowlist_approvals_def Let_def)
  show "w_runs (fst (run_node env w node mode ctx completed n phase)) = w_runs w"
    "snd (run_node env w node mode ctx completed n phase) = Some (command_not_allowed_result node c)"
    by (simp_all add: run_node_eq run Let_def)
qed

theorem level_decides_before_prompt_witness:
  "w_asked (fst (run_node sample_env sample_world (mk_node (lit ''a'') RUN_COMMAND [])
     (Interactive (Some PermissionLevel.Workspace) (Some ApprovalPolicy.Deny)) sample_ctx Map.empty 10 (lit ''main''))) = []"
  using level_decides_before_prompt [of
      "Interactive (Some PermissionLevel.Workspace) (Some ApprovalPolicy.Deny)" sample_env sample_world
      "mk_node (lit ''a'') RUN_COMMAND []" sample_ctx Map.empty 10 "lit ''main''"]
  by (simp add: sample_world_def)



text \<open>
  A node's tool role has no effect on its execution: for every role the run, its result, its
  trace and its approvals are the same as with no role at all.  (The workflow guide describes the
  role as a restriction of the tools a node may call.)
\<close>

theorem node_role_not_enforced:
  "run_node env w (node\<lparr>node_tool_role := role\<rparr>) mode ctx completed n phase =
   run_node env w (node\<lparr>node_tool_role := None\<rparr>) mode ctx completed n phase"
proof -
  have parts: "args_preview_from_node (node\<lparr>node_tool_role := x\<rparr>) = args_preview_from_node node"
    "command_not_allowed_result (node\<lparr>node_tool_role := x\<rparr>) c = command_not_allowed_result node c"
    "command_denied_result (node\<lparr>node_tool_role := x\<rparr>) c = command_denied_result node c"
    "approval_required_result (node\<lparr>node_tool_role := x\<rparr>) mode c = approval_required_result node mode c"
    for x c
    by (simp_all add: args_preview_from_node_def command_not_allowed_result_def command_denied_result_def
        command_failure_result_def approval_required_result_def)
  have ext: "extend_for_new_disallowed_command env w (node\<lparr>node_tool_role := x\<rparr>) mode ctx cmd c =
      extend_for_new_disallowed_command env w node mode ctx cmd c" for w x cmd c
    by (simp add: extend_for_new_disallowed_command_def apply_interactive_allow_decision_def
        request_disallowed_command_approval_def parts split: WorkflowApprovalMode.splits prod.splits
        CommandApprovalDecision.splits)
  have gates: "apply_run_command_allowlist_approvals env w (node\<lparr>node_tool_role := role\<rparr>) mode ctx =
      apply_run_command_allowlist_approvals env w (node\<lparr>node_tool_role := None\<rparr>) mode ctx"
    "apply_generic_workflow_node_approval env w (node\<lparr>node_tool_role := role\<rparr>) mode =
      apply_generic_workflow_node_approval env w (node\<lparr>node_tool_role := None\<rparr>) mode" for w
    by (auto simp: apply_run_command_allowlist_approvals_def apply_generic_workflow_node_approval_def
        parts ext Let_def split: option.splits ApprovalDisposition.splits WorkflowApprovalMode.splits
        prod.splits CommandApprovalDecision.splits)
  have loop: "retry_loop env w (node\<lparr>node_tool_role := role\<rparr>) args ctx allowed ts phase m prev agg as =
      retry_loop env w (node\<lparr>node_tool_role := None\<rparr>) args ctx allowed ts phase m prev agg as"
    for w args allowed ts m prev agg as
    by (induction as arbitrary: w prev agg) (simp_all add: node_event_def Let_def split: prod.splits)
  show ?thesis
    by (simp add: run_node_def run_node_inner_def gates run_workflow_node_tool_with_retries_def loop
        max_attempts_of_def node_event_def workflow_node_workspace_failure_if_unset_def
        resolve_workflow_node_timeout_secs_def)
qed

end
