(* ===== verification/Workflow_Dag.thy ===== *)
theory Workflow_Dag
  imports Workflow_Model
begin

text \<open>
  Dependency checking and layering of a workflow (\<^verbatim>\<open>src/cm_workflow/dag.rs\<close>, Kahn's algorithm).

  The source keeps the indegrees in a \<^verbatim>\<open>HashMap\<close> whose iteration order is unspecified.  The model
  takes a rank of the keys and iterates in rank order: every permutation of the keys comes from
  some rank, and all theorems hold for every rank.  \<^verbatim>\<open>*entry -= 1\<close> on a zero \<^verbatim>\<open>usize\<close> (a panic in a
  debug build, a wrap-around in a release build) is the error \<open>IndegreeUnderflow\<close>.  The two
  loops take fuel; \<open>None\<close> is "did not return", and the theorems show that the fuel given,
  one more than the number of nodes, always suffices.

  The locale \<open>kahn_graph\<close> holds what the loops rely on (the adjacency map lists the targets of
  the edges), with the loop invariant and the lemmas on both loops; it is interpreted on the
  graph that \<^verbatim>\<open>kahn_graph_from_nodes\<close> builds.  Shown here: the check succeeds exactly on the node
  lists with distinct ids, known dependencies and an acyclic dependency relation; it always
  returns and never underflows; the layers are a partition of the nodes in which every
  dependency lies in an earlier layer.
\<close>

datatype dag_error =
    MissingIndegree
  | IndegreeUnderflow
  | UnknownDependency ustring ustring
  | LayerCycle
  | DagCycle

type_synonym indegree_map = "ustring \<rightharpoonup> nat"
type_synonym adjacency = "ustring \<rightharpoonup> ustring list"
type_synonym KahnGraph = "indegree_map \<times> adjacency"

fun add_dependency_edges ::
    "ustring \<Rightarrow> ustring list \<Rightarrow> KahnGraph \<Rightarrow> (dag_error, KahnGraph) result" where
  "add_dependency_edges n [] g = Inr g"
| "add_dependency_edges n (d # ds) (indegree, adj) =
     (let adj' = adj(d \<mapsto> (case adj d of Some ns \<Rightarrow> ns | None \<Rightarrow> []) @ [n]) in
      case indegree n of
        None \<Rightarrow> Inl MissingIndegree
      | Some k \<Rightarrow> add_dependency_edges n ds (indegree(n \<mapsto> k + 1), adj'))"

fun add_all_edges ::
    "WorkflowNodeSpec list \<Rightarrow> KahnGraph \<Rightarrow> (dag_error, KahnGraph) result" where
  "add_all_edges [] g = Inr g"
| "add_all_edges (n # ns) g =
     bind_result (add_dependency_edges (node_id n) (node_deps n) g) (add_all_edges ns)"

definition kahn_graph_from_nodes :: "WorkflowNodeSpec list \<Rightarrow> (dag_error, KahnGraph) result" where
  "kahn_graph_from_nodes nodes =
     add_all_edges nodes (map_of (map (\<lambda>n. (node_id n, 0)) nodes), Map.empty)"

text \<open>The iteration order of a hash map with the given keys.\<close>

definition hash_iter :: "(ustring \<Rightarrow> nat) \<Rightarrow> ustring list \<Rightarrow> ustring list" where
  "hash_iter rank ks = sort_key rank (remdups ks)"

definition kahn_zero_indegree ::
    "(ustring \<Rightarrow> nat) \<Rightarrow> ustring list \<Rightarrow> indegree_map \<Rightarrow> ustring list" where
  "kahn_zero_indegree rank ks indegree = filter (\<lambda>k. indegree k = Some 0) (hash_iter rank ks)"

fun consume_list ::
    "ustring list \<Rightarrow> indegree_map \<Rightarrow> ustring list \<Rightarrow>
     (dag_error, indegree_map \<times> ustring list) result" where
  "consume_list [] indegree queue = Inr (indegree, queue)"
| "consume_list (y # ys) indegree queue =
     (case indegree y of
        None \<Rightarrow> Inl MissingIndegree
      | Some 0 \<Rightarrow> Inl IndegreeUnderflow
      | Some (Suc k) \<Rightarrow>
          consume_list ys (indegree(y \<mapsto> k)) (if k = 0 then queue @ [y] else queue))"

definition kahn_consume_successors ::
    "ustring \<Rightarrow> adjacency \<Rightarrow> indegree_map \<Rightarrow> ustring list \<Rightarrow>
     (dag_error, indegree_map \<times> ustring list) result" where
  "kahn_consume_successors x adj indegree queue =
     (case adj x of None \<Rightarrow> Inr (indegree, queue) | Some ns \<Rightarrow> consume_list ns indegree queue)"

fun kahn_visit_loop ::
    "nat \<Rightarrow> adjacency \<Rightarrow> indegree_map \<Rightarrow> ustring list \<Rightarrow> nat \<Rightarrow> (dag_error, nat) result option" where
  "kahn_visit_loop fuel adj indegree [] visited = Some (Inr visited)"
| "kahn_visit_loop 0 adj indegree (x # q) visited = None"
| "kahn_visit_loop (Suc fuel) adj indegree (x # q) visited =
     (case kahn_consume_successors x adj indegree q of
        Inl e \<Rightarrow> Some (Inl e)
      | Inr (indegree', q') \<Rightarrow> kahn_visit_loop fuel adj indegree' q' (visited + 1))"

definition kahn_visit_count ::
    "(ustring \<Rightarrow> nat) \<Rightarrow> WorkflowNodeSpec list \<Rightarrow> (dag_error, nat) result option" where
  "kahn_visit_count rank nodes =
     (case kahn_graph_from_nodes nodes of
        Inl e \<Rightarrow> Some (Inl e)
      | Inr (indegree, adj) \<Rightarrow>
          kahn_visit_loop (Suc (length nodes)) adj indegree
            (kahn_zero_indegree rank (ids nodes) indegree) 0)"

definition unknown_dependency_error :: "WorkflowNodeSpec list \<Rightarrow> (dag_error, unit) result" where
  "unknown_dependency_error nodes =
     (case find (\<lambda>(i, d). d \<notin> set (ids nodes))
             (concat (map (\<lambda>n. map (Pair (node_id n)) (node_deps n)) nodes)) of
        Some (i, d) \<Rightarrow> Inl (UnknownDependency i d)
      | None \<Rightarrow> Inr ())"

definition validate_dag ::
    "(ustring \<Rightarrow> nat) \<Rightarrow> WorkflowNodeSpec list \<Rightarrow> (dag_error, unit) result option" where
  "validate_dag rank nodes =
     (case unknown_dependency_error nodes of
        Inl e \<Rightarrow> Some (Inl e)
      | Inr _ \<Rightarrow>
          map_option (\<lambda>r. bind_result r (\<lambda>visited.
              if visited \<noteq> length nodes then Inl DagCycle else Inr ()))
            (kahn_visit_count rank nodes))"

text \<open>One pass over a layer: its nodes are consumed in order, the freed nodes are collected.\<close>

fun consume_layer ::
    "adjacency \<Rightarrow> ustring list \<Rightarrow> indegree_map \<Rightarrow> ustring list \<Rightarrow> nat \<Rightarrow>
     (dag_error, indegree_map \<times> ustring list \<times> nat) result" where
  "consume_layer adj [] indegree nxt visited = Inr (indegree, nxt, visited)"
| "consume_layer adj (x # xs) indegree nxt visited =
     bind_result (kahn_consume_successors x adj indegree nxt) (\<lambda>(indegree', nxt').
       consume_layer adj xs indegree' nxt' (visited + 1))"

fun topo_loop ::
    "nat \<Rightarrow> adjacency \<Rightarrow> indegree_map \<Rightarrow> ustring list \<Rightarrow> ustring list list \<Rightarrow> nat \<Rightarrow>
     (dag_error, ustring list list \<times> nat) result option" where
  "topo_loop fuel adj indegree [] layers visited = Some (Inr (layers, visited))"
| "topo_loop 0 adj indegree (x # xs) layers visited = None"
| "topo_loop (Suc fuel) adj indegree (x # xs) layers visited =
     (case consume_layer adj (x # xs) indegree [] visited of
        Inl e \<Rightarrow> Some (Inl e)
      | Inr (indegree', nxt, visited') \<Rightarrow>
          topo_loop fuel adj indegree' nxt (layers @ [x # xs]) visited')"

definition topo_layers ::
    "(ustring \<Rightarrow> nat) \<Rightarrow> WorkflowNodeSpec list \<Rightarrow> (dag_error, ustring list list) result option" where
  "topo_layers rank nodes =
     (case kahn_graph_from_nodes nodes of
        Inl e \<Rightarrow> Some (Inl e)
      | Inr (indegree, adj) \<Rightarrow>
          map_option (\<lambda>r. bind_result r (\<lambda>(layers, visited).
              if visited \<noteq> length nodes then Inl LayerCycle else Inr layers))
            (topo_loop (Suc (length nodes)) adj indegree
              (kahn_zero_indegree rank (ids nodes) indegree) [] 0))"


section \<open>The graph a node list denotes\<close>

definition edges_of :: "WorkflowNodeSpec list \<Rightarrow> (ustring \<times> ustring) list" where
  "edges_of nodes = concat (map (\<lambda>n. map (\<lambda>d. (d, node_id n)) (node_deps n)) nodes)"

text \<open>\<open>dep_rel nodes\<close> holds \<open>(d, i)\<close> when node \<open>i\<close> depends on \<open>d\<close>.\<close>

abbreviation dep_rel :: "WorkflowNodeSpec list \<Rightarrow> (ustring \<times> ustring) set" where
  "dep_rel nodes \<equiv> set (edges_of nodes)"

lemma in_dep_rel: "(d, i) \<in> dep_rel nodes \<longleftrightarrow> (\<exists>n \<in> set nodes. node_id n = i \<and> d \<in> set (node_deps n))"
  by (auto simp: edges_of_def)

definition succs :: "adjacency \<Rightarrow> ustring \<Rightarrow> ustring list" where
  "succs adj d = (case adj d of Some ns \<Rightarrow> ns | None \<Rightarrow> [])"

definition targets_from :: "(ustring \<times> ustring) list \<Rightarrow> ustring \<Rightarrow> ustring list" where
  "targets_from E d = map snd (filter (\<lambda>e. fst e = d) E)"

definition pending_edges :: "(ustring \<times> ustring) list \<Rightarrow> ustring set \<Rightarrow> ustring \<Rightarrow> nat" where
  "pending_edges E done v = length (filter (\<lambda>e. snd e = v \<and> fst e \<notin> done) E)"

lemma pending_0_iff: "pending_edges E done v = 0 \<longleftrightarrow> (\<forall>d. (d, v) \<in> set E \<longrightarrow> d \<in> done)"
  by (auto simp: pending_edges_def filter_empty_conv)

lemma pending_split:
  "x \<notin> done \<Longrightarrow> pending_edges E done v = pending_edges E (insert x done) v + count_list (targets_from E x) v"
  by (induction E) (auto simp: pending_edges_def targets_from_def)

lemma kahn_consume_eq: "kahn_consume_successors x adj ind q = consume_list (succs adj x) ind q"
  by (simp add: kahn_consume_successors_def succs_def split: option.splits)

text \<open>
  Consuming a list of targets subtracts their multiplicities and appends the ones that reach zero.
\<close>

lemma consume_list_ok:
  assumes "\<And>y. y \<in> set ys \<Longrightarrow> y \<in> V"
    and "\<And>y. y \<in> V \<Longrightarrow> ind y = Some (c y + count_list ys y)"
    and "\<And>y. y \<notin> V \<Longrightarrow> ind y = None"
  shows "\<exists>ind' freed. consume_list ys ind queue = Inr (ind', queue @ freed) \<and>
           (\<forall>y \<in> V. ind' y = Some (c y)) \<and> (\<forall>y. y \<notin> V \<longrightarrow> ind' y = None) \<and>
           distinct freed \<and> set freed = {y \<in> set ys. c y = 0}"
  using assms
proof (induction ys arbitrary: ind queue)
  case Nil
  then show ?case by auto
next
  case (Cons y ys)
  let ?k = "c y + count_list ys y"
  have y: "y \<in> V" and ind: "ind y = Some (Suc ?k)" using Cons.prems by auto
  have "\<exists>ind' freed. consume_list ys (ind(y \<mapsto> ?k)) (if ?k = 0 then queue @ [y] else queue) =
            Inr (ind', (if ?k = 0 then queue @ [y] else queue) @ freed) \<and>
          (\<forall>y \<in> V. ind' y = Some (c y)) \<and> (\<forall>y. y \<notin> V \<longrightarrow> ind' y = None) \<and>
          distinct freed \<and> set freed = {y \<in> set ys. c y = 0}"
    using Cons.prems y by (intro Cons.IH) auto
  then obtain ind' freed where
    run: "consume_list ys (ind(y \<mapsto> ?k)) (if ?k = 0 then queue @ [y] else queue) =
            Inr (ind', (if ?k = 0 then queue @ [y] else queue) @ freed)"
    and inds: "\<forall>y \<in> V. ind' y = Some (c y)" "\<forall>y. y \<notin> V \<longrightarrow> ind' y = None"
    and freed: "distinct freed" "set freed = {y \<in> set ys. c y = 0}"
    by blast
  let ?freed = "if ?k = 0 then y # freed else freed"
  have "consume_list (y # ys) ind queue = Inr (ind', queue @ ?freed)"
    using run ind by (simp split: if_splits)
  moreover have "distinct ?freed \<and> set ?freed = {z \<in> set (y # ys). c z = 0}"
    using freed by (auto simp: count_list_0_iff)
  ultimately show ?case using inds by blast
qed

section \<open>Kahn's loops over a graph\<close>

locale kahn_graph =
  fixes V :: "ustring set" and E :: "(ustring \<times> ustring) list" and adj :: adjacency
  assumes finite_V: "finite V"
    and targets_V: "(d, v) \<in> set E \<Longrightarrow> v \<in> V"
    and succs_adj: "succs adj d = targets_from E d"
begin

text \<open>
  \<open>vs\<close> lists the visited nodes, \<open>q\<close> the queued ones: both are exactly the nodes whose
  dependencies are all visited, and visited nodes come after their dependencies.
\<close>

definition kahn_inv :: "indegree_map \<Rightarrow> ustring list \<Rightarrow> ustring list \<Rightarrow> bool" where
  "kahn_inv ind vs q \<longleftrightarrow>
     distinct (vs @ q) \<and> set (vs @ q) \<subseteq> V \<and> (\<forall>v. v \<notin> V \<longrightarrow> ind v = None) \<and>
     (\<forall>v \<in> V. ind v = Some (pending_edges E (set vs) v)) \<and>
     (\<forall>v \<in> V. v \<in> set (vs @ q) \<longleftrightarrow> pending_edges E (set vs) v = 0) \<and>
     (\<forall>i < length vs. \<forall>d. (d, vs ! i) \<in> set E \<longrightarrow> d \<in> set (take i vs))"

lemma kahn_inv_length: "kahn_inv ind vs q \<Longrightarrow> length vs + length q \<le> card V"
  by (metis card_mono distinct_card finite_V kahn_inv_def length_append)

lemma queued_ready:
  assumes "kahn_inv ind vs q" "v \<in> set q" "(d, v) \<in> set E"
  shows "d \<in> set vs"
proof -
  have "pending_edges E (set vs) v = 0" using assms targets_V by (auto simp: kahn_inv_def)
  then show ?thesis using assms(3) by (simp add: pending_0_iff)
qed

lemma topo_order_snoc:
  assumes "\<forall>i < length vs. \<forall>d. (d, vs ! i) \<in> set E \<longrightarrow> d \<in> set (take i vs)"
    and "\<forall>d. (d, x) \<in> set E \<longrightarrow> d \<in> set vs"
  shows "\<forall>i < length (vs @ [x]). \<forall>d. (d, (vs @ [x]) ! i) \<in> set E \<longrightarrow> d \<in> set (take i (vs @ [x]))"
  using assms by (auto simp: nth_append less_Suc_eq)

lemma consume_step:
  assumes inv: "kahn_inv ind vs (x # q)"
  shows "\<exists>ind' freed. kahn_consume_successors x adj ind queue = Inr (ind', queue @ freed) \<and>
           kahn_inv ind' (vs @ [x]) (q @ freed) \<and>
           set freed = {v \<in> V. pending_edges E (insert x (set vs)) v = 0 \<and> v \<notin> set (vs @ x # q)}"
proof -
  let ?c = "pending_edges E (insert x (set vs))"
  have x: "x \<notin> set vs" "x \<in> V" using inv by (auto simp: kahn_inv_def)
  have split: "pending_edges E (set vs) v = ?c v + count_list (succs adj x) v" for v
    using pending_split [OF x(1)] by (simp add: succs_adj)
  have succV: "y \<in> V" if "y \<in> set (succs adj x)" for y
    using that targets_V by (auto simp: succs_adj targets_from_def)
  have "\<exists>ind' freed. consume_list (succs adj x) ind queue = Inr (ind', queue @ freed) \<and>
      (\<forall>y \<in> V. ind' y = Some (?c y)) \<and> (\<forall>y. y \<notin> V \<longrightarrow> ind' y = None) \<and>
      distinct freed \<and> set freed = {y \<in> set (succs adj x). ?c y = 0}"
    using inv split succV by (intro consume_list_ok) (auto simp: kahn_inv_def)
  then obtain ind' freed where run: "consume_list (succs adj x) ind queue = Inr (ind', queue @ freed)"
    and inds: "\<forall>y \<in> V. ind' y = Some (?c y)" "\<forall>y. y \<notin> V \<longrightarrow> ind' y = None"
    and freed: "distinct freed" "set freed = {y \<in> set (succs adj x). ?c y = 0}"
    by blast
  have old: "v \<in> set (vs @ x # q) \<longleftrightarrow> ?c v = 0 \<and> count_list (succs adj x) v = 0" if "v \<in> V" for v
    using inv split that by (simp add: kahn_inv_def)
  have new: "set freed = {v \<in> V. ?c v = 0 \<and> v \<notin> set (vs @ x # q)}"
    using freed(2) old succV by (auto simp: count_list_0_iff)
  have front: "\<forall>d. (d, x) \<in> set E \<longrightarrow> d \<in> set vs"
    using queued_ready [OF inv] by auto
  have "\<forall>v \<in> V. v \<in> set ((vs @ [x]) @ q @ freed) \<longleftrightarrow> pending_edges E (set (vs @ [x])) v = 0"
    using old new by auto
  moreover have "distinct ((vs @ [x]) @ q @ freed)" "set ((vs @ [x]) @ q @ freed) \<subseteq> V"
    using inv freed(1) new by (auto simp: kahn_inv_def)
  moreover have "\<forall>i < length (vs @ [x]). \<forall>d. (d, (vs @ [x]) ! i) \<in> set E \<longrightarrow> d \<in> set (take i (vs @ [x]))"
    using topo_order_snoc front inv by (simp add: kahn_inv_def)
  ultimately have "kahn_inv ind' (vs @ [x]) (q @ freed)"
    using inds by (simp add: kahn_inv_def)
  then show ?thesis using run new by (auto simp: kahn_consume_eq)
qed

lemma visit_loop_returns:
  assumes "kahn_inv ind vs q" and "card V < fuel + length vs"
  shows "\<exists>ind' vs'. kahn_visit_loop fuel adj ind q (length vs) = Some (Inr (length vs')) \<and>
           kahn_inv ind' vs' []"
  using assms
proof (induction fuel arbitrary: ind vs q)
  case 0
  then show ?case using kahn_inv_length [OF 0(1)] by simp
next
  case (Suc fuel)
  show ?case
  proof (cases q)
    case Nil
    then show ?thesis using Suc.prems by auto
  next
    case (Cons x q')
    obtain ind' freed where "kahn_consume_successors x adj ind q' = Inr (ind', q' @ freed)"
      "kahn_inv ind' (vs @ [x]) (q' @ freed)"
      using consume_step Suc.prems(1) Cons by blast
    then show ?thesis using Suc.IH [of ind' "vs @ [x]" "q' @ freed"] Suc.prems(2) Cons by simp
  qed
qed

text \<open>At the end of a loop the visited nodes are closed under having all dependencies visited.\<close>

lemma final_visited_iff:
  assumes "kahn_inv ind vs []" "v \<in> V"
  shows "v \<in> set vs \<longleftrightarrow> (\<forall>d. (d, v) \<in> set E \<longrightarrow> d \<in> set vs)"
  using assms by (simp add: kahn_inv_def pending_0_iff)

lemma visited_acyclic:
  assumes "kahn_inv ind vs q" "V \<subseteq> set vs"
  shows "acyclic (set E)"
proof (rule wf_acyclic, rule wf_subset [OF wf_measure])
  let ?pos = "\<lambda>v. LEAST i. i < length vs \<and> vs ! i = v"
  show "set E \<subseteq> measure ?pos"
  proof clarify
    fix d v assume e: "(d, v) \<in> set E"
    then have "v \<in> set vs" using targets_V assms(2) by blast
    then have "\<exists>i. i < length vs \<and> vs ! i = v" by (auto simp: in_set_conv_nth)
    then have i: "?pos v < length vs \<and> vs ! ?pos v = v" by (rule LeastI_ex)
    then have "d \<in> set (take (?pos v) vs)" using assms(1) e by (simp add: kahn_inv_def)
    then obtain j where "j < ?pos v" "vs ! j = d" "j < length vs" by (auto simp: in_set_conv_nth)
    then have "?pos d \<le> j" by (simp add: Least_le)
    then show "(d, v) \<in> measure ?pos" using \<open>j < ?pos v\<close> by simp
  qed
qed

lemma acyclic_visits_all:
  assumes inv: "kahn_inv ind vs []" and acyc: "acyclic (set E)" and known: "fst ` set E \<subseteq> V"
  shows "set vs = V"
proof -
  have wf: "wf (set E)" using acyc by (simp add: finite_acyclic_wf)
  have "v \<in> V \<longrightarrow> v \<in> set vs" for v
    using wf
  proof (induction v rule: wf_induct_rule)
    case (less v)
    then show ?case using final_visited_iff [OF inv] known by force
  qed
  then show ?thesis using inv by (auto simp: kahn_inv_def)
qed

end


section \<open>Layers\<close>

context kahn_graph
begin

lemma consume_layer_ok:
  assumes "kahn_inv ind vs (xs @ nxt)"
  shows "\<exists>ind' freed. consume_layer adj xs ind nxt visited = Inr (ind', nxt @ freed, visited + length xs) \<and>
           kahn_inv ind' (vs @ xs) (nxt @ freed)"
  using assms
proof (induction xs arbitrary: ind vs nxt visited)
  case Nil
  then show ?case by auto
next
  case (Cons x xs)
  obtain ind' freed where step: "kahn_consume_successors x adj ind nxt = Inr (ind', nxt @ freed)"
    "kahn_inv ind' (vs @ [x]) (xs @ nxt @ freed)"
    using consume_step [of ind vs x "xs @ nxt" nxt] Cons.prems by auto
  obtain ind'' freed' where
    "consume_layer adj xs ind' (nxt @ freed) (visited + 1) =
       Inr (ind'', (nxt @ freed) @ freed', visited + 1 + length xs)"
    "kahn_inv ind'' ((vs @ [x]) @ xs) ((nxt @ freed) @ freed')"
    using Cons.IH [OF step(2)] by blast
  then show ?case using step(1) by auto
qed

text \<open>
  \<open>layers_inv\<close>: dependencies of a layer lie in earlier layers, and a node is not delayed: one
  of its dependencies lies in the layer just before it.
\<close>

definition layers_inv :: "indegree_map \<Rightarrow> ustring list list \<Rightarrow> ustring list \<Rightarrow> bool" where
  "layers_inv ind layers q \<longleftrightarrow>
     kahn_inv ind (concat layers) q \<and> [] \<notin> set layers \<and>
     (\<forall>i < length layers. \<forall>v \<in> set (layers ! i). \<forall>d. (d, v) \<in> set E \<longrightarrow> d \<in> set (concat (take i layers))) \<and>
     (\<forall>i < length layers. \<forall>v \<in> set ((layers @ [q]) ! Suc i). \<exists>d \<in> set (layers ! i). (d, v) \<in> set E)"

lemma freed_not_delayed:
  assumes "kahn_inv ind vs xs" "kahn_inv ind' (vs @ xs) freed" "v \<in> set freed"
  shows "\<exists>d \<in> set xs. (d, v) \<in> set E"
proof -
  have "v \<in> V" "v \<notin> set (vs @ xs)" using assms by (auto simp: kahn_inv_def)
  then have "pending_edges E (set vs) v \<noteq> 0" using assms(1) unfolding kahn_inv_def by blast
  moreover have "pending_edges E (set (vs @ xs)) v = 0" using assms \<open>v \<in> V\<close> by (auto simp: kahn_inv_def)
  ultimately show ?thesis by (auto simp: pending_0_iff)
qed

lemma layers_step:
  assumes inv: "layers_inv ind layers (x # xs)"
  shows "\<exists>ind' freed. consume_layer adj (x # xs) ind [] (length (concat layers)) =
            Inr (ind', freed, length (concat (layers @ [x # xs]))) \<and>
          layers_inv ind' (layers @ [x # xs]) freed"
proof -
  have k: "kahn_inv ind (concat layers) (x # xs)" using inv by (simp add: layers_inv_def)
  obtain ind' freed where
    run: "consume_layer adj (x # xs) ind [] (length (concat layers)) =
      Inr (ind', freed, length (concat layers) + length (x # xs))"
    and k': "kahn_inv ind' (concat layers @ x # xs) freed"
    using consume_layer_ok [of ind "concat layers" "x # xs" "[]" "length (concat layers)"] k
    by (simp del: consume_layer.simps) blast
  have deps: "d \<in> set (concat layers)" if "v \<in> set (x # xs)" "(d, v) \<in> set E" for d v
    using queued_ready [OF k that] .
  have delayed: "\<exists>d \<in> set (x # xs). (d, v) \<in> set E" if "v \<in> set freed" for v
    using freed_not_delayed [OF k k' that] .
  have "layers_inv ind' (layers @ [x # xs]) freed"
    using inv k' deps delayed
    by (auto simp: layers_inv_def nth_append less_Suc_eq Suc_lessI dest: Suc_lessI)
  then show ?thesis using run by simp
qed

lemma topo_loop_returns:
  assumes "layers_inv ind layers q" and "card V < fuel + length (concat layers)"
  shows "\<exists>ind' layers'. topo_loop fuel adj ind q layers (length (concat layers)) =
            Some (Inr (layers', length (concat layers'))) \<and> layers_inv ind' layers' []"
  using assms
proof (induction fuel arbitrary: ind layers q)
  case 0
  then show ?case using kahn_inv_length [of ind "concat layers" q] by (simp add: layers_inv_def)
next
  case (Suc fuel)
  show ?case
  proof (cases q)
    case Nil
    then show ?thesis using Suc.prems by auto
  next
    case (Cons x xs)
    then obtain ind' freed where
      run: "consume_layer adj (x # xs) ind [] (length (concat layers)) =
         Inr (ind', freed, length (concat (layers @ [x # xs])))"
      and inv: "layers_inv ind' (layers @ [x # xs]) freed"
      using layers_step Suc.prems(1) by blast
    have "card V < fuel + length (concat (layers @ [x # xs]))" using Suc.prems(2) by simp
    from Suc.IH [OF inv this] show ?thesis using run Cons by simp
  qed
qed

end

section \<open>The graph built from the nodes\<close>

lemma edges_of_simps [simp]:
  "edges_of [] = []"
  "edges_of (n # ns) = map (\<lambda>d. (d, node_id n)) (node_deps n) @ edges_of ns"
  by (simp_all add: edges_of_def)

lemma pending_append [simp]: "pending_edges (E @ F) done v = pending_edges E done v + pending_edges F done v"
  by (simp add: pending_edges_def)

lemma pending_Cons: "pending_edges (e # F) done v = pending_edges [e] done v + pending_edges F done v"
  by (simp add: pending_edges_def)

lemma targets_from_append [simp]: "targets_from (E @ F) d = targets_from E d @ targets_from F d"
  by (simp add: targets_from_def)

lemma add_dependency_edges_ok:
  assumes "ind0 n \<noteq> None"
  shows "\<exists>ind adj. add_dependency_edges n ds (ind0, adj0) = Inr (ind, adj) \<and>
           (\<forall>v. ind v = map_option (\<lambda>k. k + pending_edges (map (\<lambda>d. (d, n)) ds) {} v) (ind0 v)) \<and>
           (\<forall>d. succs adj d = succs adj0 d @ targets_from (map (\<lambda>d. (d, n)) ds) d)"
  using assms
proof (induction ds arbitrary: ind0 adj0)
  case Nil
  then show ?case by (simp add: pending_edges_def targets_from_def option.map_id0 [unfolded id_def])
next
  case (Cons d ds)
  then obtain k where k: "ind0 n = Some k" by auto
  let ?adj = "adj0(d \<mapsto> (case adj0 d of Some ns \<Rightarrow> ns | None \<Rightarrow> []) @ [n])"
  have some: "(ind0(n \<mapsto> k + 1)) n \<noteq> None" by simp
  obtain ind adj where run: "add_dependency_edges n ds (ind0(n \<mapsto> k + 1), ?adj) = Inr (ind, adj)"
    and ind: "\<forall>v. ind v = map_option (\<lambda>k. k + pending_edges (map (\<lambda>d. (d, n)) ds) {} v) ((ind0(n \<mapsto> k + 1)) v)"
    and adj: "\<forall>e. succs adj e = succs ?adj e @ targets_from (map (\<lambda>d. (d, n)) ds) e"
    using Cons.IH [of "ind0(n \<mapsto> k + 1)" ?adj] some by blast
  have "\<forall>v. ind v = map_option (\<lambda>k. k + pending_edges (map (\<lambda>d. (d, n)) (d # ds)) {} v) (ind0 v)"
    using ind k by (simp add: pending_edges_def)
  moreover have "\<forall>e. succs adj e = succs adj0 e @ targets_from (map (\<lambda>d. (d, n)) (d # ds)) e"
    using adj by (simp add: succs_def targets_from_def)
  ultimately show ?case using run k by auto
qed

lemma add_all_edges_ok:
  assumes "\<And>n. n \<in> set ns \<Longrightarrow> ind0 (node_id n) \<noteq> None"
  shows "\<exists>ind adj. add_all_edges ns (ind0, adj0) = Inr (ind, adj) \<and>
           (\<forall>v. ind v = map_option (\<lambda>k. k + pending_edges (edges_of ns) {} v) (ind0 v)) \<and>
           (\<forall>d. succs adj d = succs adj0 d @ targets_from (edges_of ns) d)"
  using assms
proof (induction ns arbitrary: ind0 adj0)
  case Nil
  then show ?case by (simp add: pending_edges_def targets_from_def option.map_id0 [unfolded id_def])
next
  case (Cons n ns)
  obtain ind1 adj1 where one: "add_dependency_edges (node_id n) (node_deps n) (ind0, adj0) = Inr (ind1, adj1)"
    "\<forall>v. ind1 v = map_option (\<lambda>k. k + pending_edges (map (\<lambda>d. (d, node_id n)) (node_deps n)) {} v) (ind0 v)"
    "\<forall>d. succs adj1 d = succs adj0 d @ targets_from (map (\<lambda>d. (d, node_id n)) (node_deps n)) d"
    using add_dependency_edges_ok Cons.prems by (metis list.set_intros(1))
  have nodes: "ind1 (node_id m) \<noteq> None" if "m \<in> set ns" for m
    using Cons.prems that one(2) by auto
  obtain ind2 adj2 where two: "add_all_edges ns (ind1, adj1) = Inr (ind2, adj2)"
    "\<forall>v. ind2 v = map_option (\<lambda>k. k + pending_edges (edges_of ns) {} v) (ind1 v)"
    "\<forall>d. succs adj2 d = succs adj1 d @ targets_from (edges_of ns) d"
    using Cons.IH [of ind1 adj1] nodes by blast
  show ?case
    using one two by (auto simp: option.map_comp comp_def add.assoc)
qed


definition graph_adj :: "WorkflowNodeSpec list \<Rightarrow> adjacency" where
  "graph_adj nodes = (case kahn_graph_from_nodes nodes of Inr (ind, adj) \<Rightarrow> adj | Inl e \<Rightarrow> Map.empty)"

definition graph_ind :: "WorkflowNodeSpec list \<Rightarrow> indegree_map" where
  "graph_ind nodes = (case kahn_graph_from_nodes nodes of Inr (ind, adj) \<Rightarrow> ind | Inl e \<Rightarrow> Map.empty)"

lemma map_of_zero: "map_of (map (\<lambda>n. (node_id n, 0)) nodes) v = (if v \<in> node_id ` set nodes then Some 0 else None)"
  by (induction nodes) auto

lemma kahn_graph_from_nodes_ok:
  shows "kahn_graph_from_nodes nodes = Inr (graph_ind nodes, graph_adj nodes)"
    and "graph_ind nodes v = (if v \<in> node_id ` set nodes then Some (pending_edges (edges_of nodes) {} v) else None)"
    and "succs (graph_adj nodes) d = targets_from (edges_of nodes) d"
proof -
  obtain ind adj where g: "kahn_graph_from_nodes nodes = Inr (ind, adj)"
    "\<forall>v. ind v = map_option (\<lambda>k. k + pending_edges (edges_of nodes) {} v)
       (map_of (map (\<lambda>n. (node_id n, 0)) nodes) v)"
    "\<forall>d. succs adj d = succs Map.empty d @ targets_from (edges_of nodes) d"
    using add_all_edges_ok [of nodes "map_of (map (\<lambda>n. (node_id n, 0)) nodes)" Map.empty]
    by (auto simp: kahn_graph_from_nodes_def map_of_zero)
  then show "kahn_graph_from_nodes nodes = Inr (graph_ind nodes, graph_adj nodes)"
    and "graph_ind nodes v = (if v \<in> node_id ` set nodes then Some (pending_edges (edges_of nodes) {} v) else None)"
    and "succs (graph_adj nodes) d = targets_from (edges_of nodes) d"
    by (auto simp: graph_ind_def graph_adj_def map_of_zero succs_def)
qed

interpretation dag: kahn_graph "node_id ` set nodes" "edges_of nodes" "graph_adj nodes" for nodes
  by unfold_locales (auto simp: kahn_graph_from_nodes_ok in_dep_rel)

lemma set_zero_indegree:
  "set (kahn_zero_indegree rank ks ind) = {k \<in> set ks. ind k = Some 0}"
  by (auto simp: kahn_zero_indegree_def hash_iter_def)

lemma initial_inv: "dag.kahn_inv nodes (graph_ind nodes) [] (kahn_zero_indegree rank (ids nodes) (graph_ind nodes))"
proof -
  have "distinct (kahn_zero_indegree rank (ids nodes) (graph_ind nodes))"
    by (simp add: kahn_zero_indegree_def hash_iter_def distinct_sort)
  then show ?thesis
    by (auto simp: dag.kahn_inv_def set_zero_indegree kahn_graph_from_nodes_ok)
qed

lemma initial_layers_inv:
  "dag.layers_inv nodes (graph_ind nodes) [] (kahn_zero_indegree rank (ids nodes) (graph_ind nodes))"
  by (simp add: dag.layers_inv_def initial_inv)

text \<open>A well-formed workflow graph: what the checks are for.\<close>

definition dag_ok :: "WorkflowNodeSpec list \<Rightarrow> bool" where
  "dag_ok nodes \<longleftrightarrow>
     distinct (ids nodes) \<and> (\<forall>n \<in> set nodes. set (node_deps n) \<subseteq> node_id ` set nodes) \<and>
     acyclic (dep_rel nodes)"

lemma known_deps_iff:
  "(\<forall>n \<in> set nodes. set (node_deps n) \<subseteq> node_id ` set nodes) \<longleftrightarrow> fst ` dep_rel nodes \<subseteq> node_id ` set nodes"
  by (force simp: edges_of_def)

lemma card_ids_le: "card (node_id ` set nodes) \<le> length nodes"
  by (metis card_length length_map set_map)

lemma all_visited_iff:
  assumes inv: "dag.kahn_inv nodes ind vs []"
  shows "length vs = length nodes \<longleftrightarrow> dag_ok nodes"
proof
  have vs: "distinct vs" "set vs \<subseteq> node_id ` set nodes" using inv by (auto simp: dag.kahn_inv_def)
  {
    assume len: "length vs = length nodes"
    have "card (set vs) = length nodes" using vs(1) len by (simp add: distinct_card)
    moreover have "card (set vs) \<le> card (node_id ` set nodes)" using vs(2) by (simp add: card_mono)
    ultimately have card: "card (set (ids nodes)) = length (ids nodes)"
      using card_ids_le [of nodes] by simp
    then have all: "set vs = node_id ` set nodes"
      using \<open>card (set vs) = length nodes\<close> vs(2) by (simp add: card_subset_eq)
    have "fst ` dep_rel nodes \<subseteq> node_id ` set nodes"
      using dag.final_visited_iff [OF inv] dag.targets_V all by fastforce
    moreover have "acyclic (dep_rel nodes)" using dag.visited_acyclic [OF inv] all by simp
    ultimately show "dag_ok nodes"
      using card_distinct [OF card] by (simp add: dag_ok_def known_deps_iff)
  next
    assume "dag_ok nodes"
    then have "set vs = node_id ` set nodes" "distinct (ids nodes)"
      using dag.acyclic_visits_all [OF inv] by (auto simp: dag_ok_def known_deps_iff)
    then show "length vs = length nodes" by (metis distinct_card length_map set_map vs(1))
  }
qed

lemma visit_count_returns:
  "\<exists>ind vs. kahn_visit_count rank nodes = Some (Inr (length vs)) \<and> dag.kahn_inv nodes ind vs []"
  using dag.visit_loop_returns [OF initial_inv, of nodes "Suc (length nodes)" rank] card_ids_le [of nodes]
  by (auto simp: kahn_visit_count_def kahn_graph_from_nodes_ok(1) le_imp_less_Suc)

lemma topo_returns:
  "\<exists>ind layers. topo_layers rank nodes =
      Some (if length (concat layers) = length nodes then Inr layers else Inl LayerCycle) \<and>
     dag.layers_inv nodes ind layers []"
proof -
  obtain ind layers where "topo_loop (Suc (length nodes)) (graph_adj nodes) (graph_ind nodes)
      (kahn_zero_indegree rank (ids nodes) (graph_ind nodes)) [] 0 =
      Some (Inr (layers, length (concat layers)))" "dag.layers_inv nodes ind layers []"
    using dag.topo_loop_returns [OF initial_layers_inv, of nodes "Suc (length nodes)" rank] card_ids_le [of nodes]
    by (auto simp: le_imp_less_Suc)
  then show ?thesis by (auto simp: topo_layers_def kahn_graph_from_nodes_ok(1))
qed

lemma find_SomeD: "find P xs = Some x \<Longrightarrow> x \<in> set xs \<and> P x"
  by (induction xs) (auto split: if_splits)

lemma dep_pairs_iff:
  "(i, d) \<in> set (concat (map (\<lambda>n. map (Pair (node_id n)) (node_deps n)) nodes)) \<longleftrightarrow>
     (d, i) \<in> dep_rel nodes"
  by (auto simp: edges_of_def)

lemma unknown_dependency_error_sound:
  "unknown_dependency_error nodes = Inl err \<Longrightarrow>
     \<exists>i d. err = UnknownDependency i d \<and> (d, i) \<in> dep_rel nodes \<and> d \<notin> node_id ` set nodes"
  by (auto simp: unknown_dependency_error_def simp del: set_concat dest!: find_SomeD
      split: option.splits simp flip: dep_pairs_iff)

lemma unknown_dependency_error_complete:
  "unknown_dependency_error nodes = Inr () \<Longrightarrow> (d, i) \<in> dep_rel nodes \<Longrightarrow> d \<in> node_id ` set nodes"
  unfolding dep_pairs_iff [symmetric]
  by (auto simp: unknown_dependency_error_def find_None_iff simp del: set_concat split: option.splits)

lemma unknown_dependency_ok_iff:
  "unknown_dependency_error nodes = Inr () \<longleftrightarrow>
     (\<forall>n \<in> set nodes. set (node_deps n) \<subseteq> node_id ` set nodes)"
proof
  assume "unknown_dependency_error nodes = Inr ()"
  then show "\<forall>n \<in> set nodes. set (node_deps n) \<subseteq> node_id ` set nodes"
    unfolding known_deps_iff using unknown_dependency_error_complete by auto
next
  assume known: "\<forall>n \<in> set nodes. set (node_deps n) \<subseteq> node_id ` set nodes"
  show "unknown_dependency_error nodes = Inr ()"
  proof (cases "unknown_dependency_error nodes")
    case (Inl err)
    then show ?thesis using unknown_dependency_error_sound [OF Inl] known by (force simp: in_dep_rel)
  qed simp
qed

lemma validate_dag_eq:
  "validate_dag rank nodes = Some (case unknown_dependency_error nodes of
     Inl e \<Rightarrow> Inl e | Inr _ \<Rightarrow> if dag_ok nodes then Inr () else Inl DagCycle)"
proof (cases "unknown_dependency_error nodes")
  case (Inr u)
  then have known: "\<forall>n \<in> set nodes. set (node_deps n) \<subseteq> node_id ` set nodes"
    using unknown_dependency_ok_iff by auto
  obtain ind vs where run: "kahn_visit_count rank nodes = Some (Inr (length vs))"
    and inv: "dag.kahn_inv nodes ind vs []"
    using visit_count_returns by blast
  show ?thesis
    using run all_visited_iff [OF inv] Inr known by (auto simp: validate_dag_def dag_ok_def)
qed (simp add: validate_dag_def)

lemma validate_dag_ok_iff: "validate_dag rank nodes = Some (Inr ()) \<longleftrightarrow> dag_ok nodes"
  using unknown_dependency_ok_iff [of nodes]
  by (auto simp: validate_dag_eq dag_ok_def split: sum.splits)

section \<open>Properties\<close>

text \<open>
  C5: \<^verbatim>\<open>validate_dag\<close> decides well-formedness.  For every node list and every hash order the check
  returns; it succeeds exactly when the node ids are distinct, every dependency names a node and
  the dependency relation is acyclic; otherwise the error names an edge from an unknown node when
  there is one, and is the cycle error (which also reports duplicate ids) when all dependencies
  are known.  No indegree is missing or underflows.
\<close>

theorem validate_dag_decides:
  "(validate_dag rank nodes = Some (Inr ()) \<longleftrightarrow> dag_ok nodes) \<and>
   (\<exists>r. validate_dag rank nodes = Some r \<and>
     (case r of
        Inr _ \<Rightarrow> True
      | Inl (UnknownDependency i d) \<Rightarrow> (d, i) \<in> dep_rel nodes \<and> d \<notin> node_id ` set nodes
      | Inl err \<Rightarrow> err = DagCycle \<and> fst ` dep_rel nodes \<subseteq> node_id ` set nodes \<and>
          (\<not> distinct (ids nodes) \<or> \<not> acyclic (dep_rel nodes))))"
proof (cases "unknown_dependency_error nodes")
  case (Inl err)
  then have "\<not> dag_ok nodes" using unknown_dependency_ok_iff [of nodes] by (auto simp: dag_ok_def)
  then show ?thesis
    using Inl unknown_dependency_error_sound [OF Inl] by (auto simp: validate_dag_eq)
next
  case (Inr u)
  then show ?thesis
    using unknown_dependency_ok_iff [of nodes] validate_dag_ok_iff
    by (auto simp: validate_dag_eq dag_ok_def simp flip: known_deps_iff)
qed

theorem validate_dag_decides_witness:
  "dag_ok [mk_node (lit ''b'') (lit ''t'') [lit ''a''], mk_node (lit ''a'') (lit ''t'') []]"
proof -
  have "validate_dag (\<lambda>k. 0) [mk_node (lit ''b'') (lit ''t'') [lit ''a''], mk_node (lit ''a'') (lit ''t'') []]
     = Some (Inr ())"
    by (simp add: validate_dag_def kahn_graph_from_nodes_def kahn_zero_indegree_def hash_iter_def
        kahn_visit_count_def kahn_consume_successors_def sort_key_def unknown_dependency_error_def)
  then show ?thesis using validate_dag_decides by blast
qed

text \<open>
  C6: \<^verbatim>\<open>topo_layers\<close> returns for every node list and hash order, succeeds exactly on the well-formed
  graphs, and its layers are then a partition of the node ids into non-empty layers in which every
  dependency of a node lies in an earlier layer and every node after the first layer has a
  dependency in the layer right before its own (no node is later than it must be).
\<close>

theorem topo_layers_correct:
  "\<exists>r. topo_layers rank nodes = Some r \<and> (isl r \<longleftrightarrow> \<not> dag_ok nodes) \<and>
     (case r of
        Inl err \<Rightarrow> err = LayerCycle
      | Inr layers \<Rightarrow>
          distinct (concat layers) \<and> set (concat layers) = node_id ` set nodes \<and> [] \<notin> set layers \<and>
          (\<forall>i < length layers. \<forall>n \<in> set nodes. node_id n \<in> set (layers ! i) \<longrightarrow>
             (\<forall>d \<in> set (node_deps n). \<exists>j < i. d \<in> set (layers ! j))) \<and>
          (\<forall>i. Suc i < length layers \<longrightarrow>
             (\<forall>v \<in> set (layers ! Suc i). \<exists>d \<in> set (layers ! i). (d, v) \<in> dep_rel nodes)))"
proof -
  obtain ind layers where run: "topo_layers rank nodes =
      Some (if length (concat layers) = length nodes then Inr layers else Inl LayerCycle)"
    and inv: "dag.layers_inv nodes ind layers []"
    using topo_returns by blast
  then have k: "dag.kahn_inv nodes ind (concat layers) []" by (simp add: dag.layers_inv_def)
  note all = all_visited_iff [OF k]
  have "distinct (concat layers)" using k by (simp add: dag.kahn_inv_def)
  moreover have "set (concat layers) = node_id ` set nodes" if "dag_ok nodes"
    using that dag.acyclic_visits_all [OF k] by (simp add: dag_ok_def known_deps_iff)
  moreover have "\<exists>j < i. d \<in> set (layers ! j)"
    if "i < length layers" "n \<in> set nodes" "node_id n \<in> set (layers ! i)" "d \<in> set (node_deps n)" for i n d
  proof -
    have "d \<in> set (concat (take i layers))"
      using inv that in_dep_rel [of d "node_id n" nodes] by (auto simp: dag.layers_inv_def)
    then obtain l where l: "l \<in> set (take i layers)" "d \<in> set l" by auto
    then obtain j where "j < i" "l = layers ! j" by (auto simp: in_set_conv_nth)
    then show ?thesis using l(2) by blast
  qed
  moreover have "\<exists>d \<in> set (layers ! i). (d, v) \<in> dep_rel nodes"
    if "Suc i < length layers" "v \<in> set (layers ! Suc i)" for i v
    using inv that unfolding dag.layers_inv_def by (simp add: nth_append)
  moreover have "[] \<notin> set layers" using inv by (simp add: dag.layers_inv_def)
  ultimately show ?thesis using run all by (cases "dag_ok nodes") auto
qed

theorem topo_layers_correct_witness:
  "\<exists>layers. topo_layers (\<lambda>k. 0) [mk_node (lit ''b'') (lit ''t'') [lit ''a''], mk_node (lit ''a'') (lit ''t'') []]
     = Some (Inr layers) \<and> layers = [[lit ''a''], [lit ''b'']] \<and> distinct (concat layers)"
proof -
  have run: "topo_layers (\<lambda>k. 0) [mk_node (lit ''b'') (lit ''t'') [lit ''a''], mk_node (lit ''a'') (lit ''t'') []]
     = Some (Inr [[lit ''a''], [lit ''b'']])"
    by (simp add: topo_layers_def kahn_graph_from_nodes_def kahn_zero_indegree_def hash_iter_def
        kahn_consume_successors_def sort_key_def)
  then show ?thesis
    using topo_layers_correct [of "\<lambda>k. 0"
      "[mk_node (lit ''b'') (lit ''t'') [lit ''a''], mk_node (lit ''a'') (lit ''t'') []]"] by auto
qed

end
