(* ===== verification/Workflow_Schedule.thy ===== *)
theory Workflow_Schedule
  imports Workflow_Node Workflow_Dag
begin

text \<open>
  The parallel scheduler of a workflow (\<^verbatim>\<open>src/cm_workflow/execute/schedule.rs\<close>).

  The main loop is a step relation.  A round expands pending \<^verbatim>\<open>for_each\<close> entries, walks over the
  active nodes and skips or starts the ready ones, and then either handles an empty set of running
  futures (end, fail-fast, stall count) or waits.  While it waits, a started future may obtain a
  permit of the semaphore, and a future that holds one may finish; which one is open, so every
  order of completion is covered.  The result of a node is any result that \<open>outcome\<close> allows for
  the node and the snapshot of results it was started with; \<open>node_outcome\<close> instantiates it with the
  node executor in an arbitrary shared state and with the panic result.

  The locale \<open>node_runner\<close> states what the scheduler relies on (a node always has some result,
  under its own id and never \<^verbatim>\<open>skipped\<close>) and holds the invariant proofs; it is interpreted on
  \<open>node_outcome\<close>.  Shown here: every reachable state keeps the scheduler's invariant (no node starts
  twice or before its dependencies have results, results are never overwritten, the parallelism
  bound, the bookkeeping of passed and failed nodes); every run ends, and at its end every
  active node has a result; and a chain of skipped nodes listed against the order of their
  dependencies is reported as a livelock although the next round would make progress.
\<close>

section \<open>State\<close>

datatype loop_phase = LoopTop | Waiting | Finished

type_synonym inflight_entry = "WorkflowNodeSpec \<times> completed_map \<times> bool"

abbreviation entry_id :: "inflight_entry \<Rightarrow> ustring" where
  "entry_id e \<equiv> node_id (fst e)"

abbreviation entry_runs :: "inflight_entry \<Rightarrow> bool" where
  "entry_runs e \<equiv> snd (snd e)"

record sched_state =
  s_active :: "WorkflowNodeSpec list"
  s_pending :: "ForEachPendingSpec list"
  s_completed :: completed_map
  s_started :: "ustring set"
  s_order :: "ustring list"
  s_first_failure :: "NodeRunResult option"
  s_inflight :: "inflight_entry list"
  s_stall :: nat
  s_trace :: "WorkflowTraceEvent list"
  s_phase :: loop_phase

text \<open>The readers and printers of JSON and the context of the run.\<close>

record sched_env =
  se_from_str :: json_reader
  se_to_string :: "Value \<Rightarrow> ustring"
  se_ctx :: WorkflowToolExecCtx

definition sched_init :: "WorkflowSpec \<Rightarrow> sched_state" where
  "sched_init spec =
     \<lparr>s_active = spec_nodes spec, s_pending = for_each_pending spec, s_completed = Map.empty,
      s_started = {}, s_order = [], s_first_failure = None, s_inflight = [], s_stall = 0,
      s_trace = [], s_phase = LoopTop\<rparr>"

definition parallelism_of :: "WorkflowSpec \<Rightarrow> nat" where
  "parallelism_of spec = max (max_parallelism spec) 1"

definition max_stall_of :: "WorkflowSpec \<Rightarrow> nat" where
  "max_stall_of spec = (max (parallelism_of spec) 4 * 2) mod 2 ^ 32"

section \<open>One round\<close>

definition unrun_result :: "ustring \<Rightarrow> NodeRunStatus \<Rightarrow> ustring \<Rightarrow> ustring \<Rightarrow> NodeRunResult" where
  "unrun_result i st output code =
     \<lparr>res_id = i, res_status = st, res_output = output, res_workspace_changed = False,
      res_exit_code = None, res_error_code = Some code, res_attempt = 0\<rparr>"

definition mark_run_if_skipped :: "sched_env \<Rightarrow> WorkflowNodeSpec \<Rightarrow> sched_state \<Rightarrow> sched_state" where
  "mark_run_if_skipped env node s =
     s\<lparr>s_started := insert (node_id node) (s_started s),
       s_completed := (s_completed s)(node_id node \<mapsto>
         unrun_result (node_id node) Skipped (lit ''choice: run_if not satisfied'') (lit ''workflow_choice_skipped'')),
       s_trace := s_trace s @ [node_event (se_ctx env) (lit ''node_choice_skipped'') node
         (map_option (\<lambda>_. lit ''run_if=false'') (node_run_if node)) None (Some (lit ''skipped''))
         (Some (lit ''workflow_choice_skipped'')) (lit ''main'')]\<rparr>"

definition trace_for_each_expanded :: "sched_env \<Rightarrow> ustring list \<Rightarrow> sched_state \<Rightarrow> sched_state" where
  "trace_for_each_expanded env expanded s =
     s\<lparr>s_trace := s_trace s @ map (\<lambda>i.
        \<lparr>ev_workflow_run_id = ctx_workflow_run_id (se_ctx env), ev_event = lit ''for_each_expanded'',
         ev_node_id = Some i, ev_detail = None, ev_attempt = None, ev_status = None,
         ev_error_code = None, ev_tool_name = None, ev_phase = Some (lit ''main'')\<rparr>) expanded\<rparr>"

datatype NodeScheduleDecision = Ignore | SkipRunIf | Start

definition node_schedule_decision ::
    "json_reader \<Rightarrow> WorkflowNodeSpec \<Rightarrow> ustring set \<Rightarrow> completed_map \<Rightarrow> NodeScheduleDecision" where
  "node_schedule_decision from_str node started completed =
     (if node_id node \<in> started \<or> completed (node_id node) \<noteq> None then Ignore
      else if \<not> node_deps_resolved (node_deps node) completed then Ignore
      else if \<not> node_run_if_satisfied from_str (node_run_if node) completed then SkipRunIf
      else Start)"

definition schedule_node :: "sched_env \<Rightarrow> sched_state \<Rightarrow> WorkflowNodeSpec \<Rightarrow> sched_state" where
  "schedule_node env s node =
     (case node_schedule_decision (se_from_str env) node (s_started s) (s_completed s) of
        Ignore \<Rightarrow> s
      | SkipRunIf \<Rightarrow> mark_run_if_skipped env node s
      | Start \<Rightarrow>
          s\<lparr>s_started := insert (node_id node) (s_started s),
            s_inflight := s_inflight s @ [(node, s_completed s, False)]\<rparr>)"

definition schedule_pass :: "sched_env \<Rightarrow> WorkflowSpec \<Rightarrow> sched_state \<Rightarrow> sched_state" where
  "schedule_pass env spec s =
     (if \<not> (fail_fast spec \<and> s_first_failure s \<noteq> None) then foldl (schedule_node env) s (s_active s) else s)"

definition expand_round :: "sched_env \<Rightarrow> sched_state \<Rightarrow> sched_state" where
  "expand_round env s =
     (case expand_pending_for_each (se_from_str env) (se_to_string env) (s_pending s) (s_active s) (s_completed s) of
        (kept, nodes, expanded) \<Rightarrow>
          trace_for_each_expanded env expanded (s\<lparr>s_pending := kept, s_active := nodes\<rparr>))"

definition dag_schedule_finished ::
    "WorkflowNodeSpec list \<Rightarrow> completed_map \<Rightarrow> ForEachPendingSpec list \<Rightarrow> bool" where
  "dag_schedule_finished nodes completed fe_pending \<longleftrightarrow>
     list_all (\<lambda>n. completed (node_id n) \<noteq> None) nodes \<and> fe_pending = []"

text \<open>
  Both ends that give up mark every active node without a result: with \<open>Skipped\<close> after a
  fail-fast, with \<open>Failed\<close> on a livelock.
\<close>

definition mark_missing :: "(ustring \<Rightarrow> NodeRunResult) \<Rightarrow> sched_state \<Rightarrow> WorkflowNodeSpec \<Rightarrow> sched_state" where
  "mark_missing mk s node =
     (if s_completed s (node_id node) \<noteq> None then s
      else s\<lparr>s_started := insert (node_id node) (s_started s),
             s_completed := (s_completed s)(node_id node \<mapsto> mk (node_id node))\<rparr>)"

definition fail_fast_result :: "ustring \<Rightarrow> NodeRunResult" where
  "fail_fast_result i =
     unrun_result i Skipped (lit ''fail_fast: workflow aborted after first failure'')
       (lit ''workflow_fail_fast_aborted'')"

definition fail_fast_skip :: "sched_env \<Rightarrow> sched_state \<Rightarrow> WorkflowNodeSpec \<Rightarrow> sched_state" where
  "fail_fast_skip env s node =
     (if s_completed s (node_id node) \<noteq> None then s
      else (mark_missing fail_fast_result s node)
             \<lparr>s_trace := s_trace s @ [node_event (se_ctx env) (lit ''node_fail_fast_skipped'') node
               (Some (lit ''fail_fast after upstream failure'')) None (Some (lit ''skipped''))
               (Some (lit ''workflow_fail_fast_aborted'')) (lit ''main'')]\<rparr>)"

definition dag_mark_remaining_nodes_fail_fast_skipped :: "sched_env \<Rightarrow> sched_state \<Rightarrow> sched_state" where
  "dag_mark_remaining_nodes_fail_fast_skipped env s = foldl (fail_fast_skip env) s (s_active s)"

definition livelock_message :: "nat \<Rightarrow> ustring" where
  "livelock_message stall_count =
     (lit ''workflow '' @ [35843, 24230, 27963, 38145, 65306, 36830, 32493] @ lit '' '') @ show_nat stall_count @
     (lit '' '' @ [27425, 36845, 20195, 26080, 33410, 28857, 21487, 35843, 24230, 65288, 21487, 33021, 26159, 36816, 34892, 26102, 24490, 29615, 20381, 36182, 65289, 65292, 24050, 24378, 21046, 32456, 27490])"

definition mark_livelock :: "nat \<Rightarrow> sched_state \<Rightarrow> sched_state" where
  "mark_livelock stall_count s =
     foldl (mark_missing (\<lambda>i. unrun_result i Failed (livelock_message stall_count) (lit ''workflow_livelock'')))
       s (s_active s)"

text \<open>The boolean is the source's return value: leave the loop.\<close>

definition dag_handle_empty_inflight :: "sched_env \<Rightarrow> WorkflowSpec \<Rightarrow> sched_state \<Rightarrow> sched_state \<times> bool" where
  "dag_handle_empty_inflight env spec s =
     (if dag_schedule_finished (s_active s) (s_completed s) (s_pending s) then (s, True)
      else if fail_fast spec \<and> s_first_failure s \<noteq> None
      then (dag_mark_remaining_nodes_fail_fast_skipped env s, True)
      else
        (let stall_count = s_stall s + 1; s' = s\<lparr>s_stall := stall_count\<rparr> in
         if stall_count > max_stall_of spec then (mark_livelock stall_count s', True)
         else (s', False)))"

definition loop_round :: "sched_env \<Rightarrow> WorkflowSpec \<Rightarrow> sched_state \<Rightarrow> sched_state" where
  "loop_round env spec s =
     (let s' = schedule_pass env spec (expand_round env s) in
      if s_inflight s' = []
      then (case dag_handle_empty_inflight env spec s' of
              (s'', leave) \<Rightarrow> if leave then s''\<lparr>s_phase := Finished\<rparr> else s'')
      else s'\<lparr>s_stall := 0, s_phase := Waiting\<rparr>)"

section \<open>Completions\<close>

definition dag_record_node_completion :: "NodeRunResult \<Rightarrow> sched_state \<Rightarrow> sched_state" where
  "dag_record_node_completion res s =
     (if res_status res = Passed
      then s\<lparr>s_order := s_order s @ [res_id res], s_completed := (s_completed s)(res_id res \<mapsto> res)\<rparr>
      else if res_status res = Skipped then s\<lparr>s_completed := (s_completed s)(res_id res \<mapsto> res)\<rparr>
      else s\<lparr>s_first_failure := (if s_first_failure s = None then Some res else s_first_failure s),
             s_completed := (s_completed s)(res_id res \<mapsto>
               \<lparr>res_id = res_id res, res_status = Failed, res_output = res_output res,
                res_workspace_changed = res_workspace_changed res, res_exit_code = res_exit_code res,
                res_error_code = res_error_code res, res_attempt = res_attempt res\<rparr>)\<rparr>)"

definition node_panic_result :: "ustring \<Rightarrow> ustring option \<Rightarrow> NodeRunResult" where
  "node_panic_result i payload =
     failed_result i
       (case payload of Some m \<Rightarrow> (lit ''workflow '' @ [33410, 28857] @ lit '' panic'' @ [65306]) @ m | None \<Rightarrow> (lit ''workflow '' @ [33410, 28857] @ lit '' panic'' @ [65288, 21407, 22240, 26410, 30693, 65289]))
       (lit ''workflow_node_panic'') 1"

text \<open>
  \<^verbatim>\<open>run_node_with_permit\<close> after its permit: the node executor in whatever shared state it meets, or a
  panic caught around it.  The semaphore is never closed, so the branch for a closed one is not
  reached.
\<close>

definition node_outcome ::
    "node_env \<Rightarrow> WorkflowApprovalMode \<Rightarrow> WorkflowToolExecCtx \<Rightarrow> nat \<Rightarrow>
     WorkflowNodeSpec \<Rightarrow> completed_map \<Rightarrow> NodeRunResult \<Rightarrow> bool" where
  "node_outcome env mode ctx inject_max_chars node snapshot r \<longleftrightarrow>
     (\<exists>w. snd (run_node env w node mode ctx snapshot inject_max_chars (lit ''main'')) = Some r) \<or>
     (\<exists>payload. r = node_panic_result (node_id node) payload)"

definition running :: "sched_state \<Rightarrow> nat" where
  "running s = length (filter entry_runs (s_inflight s))"

definition remove_nth :: "nat \<Rightarrow> 'a list \<Rightarrow> 'a list" where
  "remove_nth i xs = take i xs @ drop (Suc i) xs"

inductive sched_step ::
    "sched_env \<Rightarrow> WorkflowSpec \<Rightarrow> (WorkflowNodeSpec \<Rightarrow> completed_map \<Rightarrow> NodeRunResult \<Rightarrow> bool) \<Rightarrow>
     sched_state \<Rightarrow> sched_state \<Rightarrow> bool"
  for env spec outcome where
  round: "s_phase s = LoopTop \<Longrightarrow> sched_step env spec outcome s (loop_round env spec s)"
| acquire: "\<lbrakk>s_phase s = Waiting; i < length (s_inflight s); s_inflight s ! i = (node, snapshot, False);
     running s < parallelism_of spec\<rbrakk> \<Longrightarrow>
     sched_step env spec outcome s (s\<lparr>s_inflight := (s_inflight s)[i := (node, snapshot, True)]\<rparr>)"
| finish: "\<lbrakk>s_phase s = Waiting; i < length (s_inflight s); s_inflight s ! i = (node, snapshot, True);
     outcome node snapshot r\<rbrakk> \<Longrightarrow>
     sched_step env spec outcome s
       (dag_record_node_completion r (s\<lparr>s_inflight := remove_nth i (s_inflight s), s_phase := LoopTop\<rparr>))"

inductive_cases sched_stepE: "sched_step env spec outcome s s'"

definition reachable ::
    "sched_env \<Rightarrow> WorkflowSpec \<Rightarrow> (WorkflowNodeSpec \<Rightarrow> completed_map \<Rightarrow> NodeRunResult \<Rightarrow> bool) \<Rightarrow>
     sched_state \<Rightarrow> bool" where
  "reachable env spec outcome s \<longleftrightarrow> (sched_step env spec outcome)\<^sup>*\<^sup>* (sched_init spec) s"


section \<open>The invariant\<close>

definition passed_ids :: "completed_map \<Rightarrow> ustring set" where
  "passed_ids completed = {i. \<exists>r. completed i = Some r \<and> res_status r = Passed}"

text \<open>Bookkeeping that every piece of the loop keeps.\<close>

definition entry_ok ::
    "sched_env \<Rightarrow> WorkflowNodeSpec list \<Rightarrow> completed_map \<Rightarrow> WorkflowNodeSpec \<Rightarrow> completed_map \<Rightarrow> bool" where
  "entry_ok env active completed n snap \<longleftrightarrow>
     n \<in> set active \<and> set (node_deps n) \<subseteq> dom snap \<and> snap \<subseteq>\<^sub>m completed \<and>
     node_run_if_satisfied (se_from_str env) (node_run_if n) snap"

definition book_inv :: "sched_env \<Rightarrow> sched_state \<Rightarrow> bool" where
  "book_inv env s \<longleftrightarrow>
     distinct (map entry_id (s_inflight s)) \<and>
     entry_id ` set (s_inflight s) \<inter> dom (s_completed s) = {} \<and>
     s_started s = dom (s_completed s) \<union> entry_id ` set (s_inflight s) \<and>
     (\<forall>(n, snap, b) \<in> set (s_inflight s). entry_ok env (s_active s) (s_completed s) n snap) \<and>
     distinct (s_order s) \<and> set (s_order s) = passed_ids (s_completed s) \<and>
     (\<forall>i r. s_completed s i = Some r \<longrightarrow> res_id r = i) \<and>
     (\<forall>f. s_first_failure s = Some f \<longrightarrow> res_status f = Failed \<and> s_completed s (res_id f) = Some f)"

definition failures_seen :: "sched_state \<Rightarrow> bool" where
  "failures_seen s \<longleftrightarrow>
     (\<forall>i r. s_completed s i = Some r \<and> res_status r = Failed \<longrightarrow> s_first_failure s \<noteq> None)"

definition all_done :: "sched_state \<Rightarrow> bool" where
  "all_done s \<longleftrightarrow> (\<forall>n \<in> set (s_active s). s_completed s (node_id n) \<noteq> None)"

definition sched_inv :: "sched_env \<Rightarrow> WorkflowSpec \<Rightarrow> sched_state \<Rightarrow> bool" where
  "sched_inv env spec s \<longleftrightarrow>
     book_inv env s \<and> running s \<le> parallelism_of spec \<and> s_stall s \<le> max_stall_of spec + 1 \<and>
     (s_phase s = LoopTop \<longrightarrow> s_stall s \<le> max_stall_of spec) \<and>
     (s_phase s = Waiting \<longrightarrow> s_inflight s \<noteq> [] \<and> s_stall s = 0) \<and>
     (s_phase s \<noteq> Finished \<longrightarrow> failures_seen s) \<and>
     (s_phase s = Finished \<longrightarrow> s_inflight s = [] \<and> all_done s)"

lemma passed_ids_upd:
  "completed i = None \<Longrightarrow> passed_ids (completed(i \<mapsto> r)) =
     (if res_status r = Passed then insert i (passed_ids completed) else passed_ids completed)"
  by (auto simp: passed_ids_def)

lemma map_le_upd_new: "m \<subseteq>\<^sub>m c \<Longrightarrow> c i = None \<Longrightarrow> m \<subseteq>\<^sub>m c(i \<mapsto> r)"
  by (auto simp: map_le_def dom_def)

lemma entry_ok_upd:
  "entry_ok env active c n snap \<Longrightarrow> c i = None \<Longrightarrow> entry_ok env active (c(i \<mapsto> r)) n snap"
  by (simp add: entry_ok_def map_le_upd_new)

text \<open>Adding a result for an id that is neither started nor completed.\<close>

lemma book_inv_add_unrun:
  assumes "book_inv env s" "node_id n \<notin> s_started s" "res_id r = node_id n" "res_status r \<noteq> Passed"
  shows "book_inv env (s\<lparr>s_started := insert (node_id n) (s_started s),
           s_completed := (s_completed s)(node_id n \<mapsto> r)\<rparr>)"
proof -
  have new: "s_completed s (node_id n) = None" "node_id n \<notin> entry_id ` set (s_inflight s)"
    using assms(1,2) by (auto simp: book_inv_def)
  show ?thesis
    using assms new by (auto simp: book_inv_def passed_ids_upd entry_ok_def intro: map_le_upd_new)
qed

lemma book_inv_trace [simp]: "book_inv env (s\<lparr>s_trace := t\<rparr>) = book_inv env s"
  by (simp add: book_inv_def)

lemma book_inv_phase [simp]: "book_inv env (s\<lparr>s_phase := p\<rparr>) = book_inv env s"
  by (simp add: book_inv_def)

lemma book_inv_stall [simp]: "book_inv env (s\<lparr>s_stall := k\<rparr>) = book_inv env s"
  by (simp add: book_inv_def)

lemma book_inv_start:
  assumes inv: "book_inv env s" and n: "node_id n \<notin> s_started s" "n \<in> set (s_active s)"
    and deps: "node_deps_resolved (node_deps n) (s_completed s)"
    and run_if: "node_run_if_satisfied (se_from_str env) (node_run_if n) (s_completed s)"
  shows "book_inv env (s\<lparr>s_started := insert (node_id n) (s_started s),
           s_inflight := s_inflight s @ [(n, s_completed s, False)]\<rparr>)"
proof -
  have "set (node_deps n) \<subseteq> dom (s_completed s)"
    using deps by (auto simp: node_deps_resolved_def list_all_iff)
  moreover have "s_completed s (node_id n) = None" "node_id n \<notin> entry_id ` set (s_inflight s)"
    using inv n(1) by (auto simp: book_inv_def)
  ultimately show ?thesis using inv n run_if by (auto simp: book_inv_def entry_ok_def)
qed

section \<open>The pieces of a round\<close>

text \<open>What a scheduling piece keeps of the rest of the state.\<close>

definition grows :: "sched_state \<Rightarrow> sched_state \<Rightarrow> bool" where
  "grows s s' \<longleftrightarrow>
     s_active s' = s_active s \<and> s_pending s' = s_pending s \<and> s_completed s \<subseteq>\<^sub>m s_completed s' \<and>
     s_first_failure s' = s_first_failure s \<and> s_order s' = s_order s \<and> s_stall s' = s_stall s \<and>
     s_phase s' = s_phase s \<and> running s' = running s"

lemma grows_refl [simp]: "grows s s"
  by (simp add: grows_def map_le_refl)

lemma grows_trans: "grows s s' \<Longrightarrow> grows s' s'' \<Longrightarrow> grows s s''"
  by (auto simp: grows_def intro: map_le_trans)

lemma map_le_upd_none: "c i = None \<Longrightarrow> c \<subseteq>\<^sub>m c(i \<mapsto> r)"
  by (simp add: map_le_upd_new map_le_refl)

lemma unrun_result_simps [simp]:
  "res_id (unrun_result i st out code) = i" "res_status (unrun_result i st out code) = st"
  "res_error_code (unrun_result i st out code) = Some code"
  by (simp_all add: unrun_result_def)

lemma schedule_node_keeps:
  assumes inv: "book_inv env s" "failures_seen s" and n: "n \<in> set (s_active s)"
  shows "book_inv env (schedule_node env s n) \<and> failures_seen (schedule_node env s n) \<and>
    grows s (schedule_node env s n)"
proof (cases "node_schedule_decision (se_from_str env) n (s_started s) (s_completed s)")
  case Ignore
  then show ?thesis using inv by (simp add: schedule_node_def)
next
  case SkipRunIf
  then have new: "node_id n \<notin> s_started s" "s_completed s (node_id n) = None"
    by (auto simp: node_schedule_decision_def split: if_splits)
  let ?r = "unrun_result (node_id n) Skipped (lit ''choice: run_if not satisfied'') (lit ''workflow_choice_skipped'')"
  have "book_inv env (s\<lparr>s_started := insert (node_id n) (s_started s),
      s_completed := (s_completed s)(node_id n \<mapsto> ?r)\<rparr>)"
    using book_inv_add_unrun [OF inv(1) new(1), of ?r] by simp
  moreover have "failures_seen (mark_run_if_skipped env n s)"
    using inv(2) by (auto simp: failures_seen_def mark_run_if_skipped_def)
  ultimately show ?thesis
    using SkipRunIf new by (simp add: schedule_node_def mark_run_if_skipped_def grows_def
        map_le_upd_none running_def)
next
  case Start
  then have "node_id n \<notin> s_started s" "node_deps_resolved (node_deps n) (s_completed s)"
    "node_run_if_satisfied (se_from_str env) (node_run_if n) (s_completed s)"
    by (auto simp: node_schedule_decision_def split: if_splits)
  from book_inv_start [OF inv(1) this(1) n this(2,3)] show ?thesis
    using Start inv(2) by (simp add: schedule_node_def grows_def map_le_refl running_def failures_seen_def)
qed

lemma schedule_fold_keeps:
  assumes "book_inv env s" "failures_seen s" "set ns \<subseteq> set (s_active s)"
  shows "book_inv env (foldl (schedule_node env) s ns) \<and> failures_seen (foldl (schedule_node env) s ns) \<and>
    grows s (foldl (schedule_node env) s ns)"
  using assms
proof (induction ns arbitrary: s)
  case (Cons n ns)
  have "book_inv env (schedule_node env s n)" "failures_seen (schedule_node env s n)"
    "grows s (schedule_node env s n)"
    using schedule_node_keeps Cons.prems by auto
  moreover from this(3) have "set ns \<subseteq> set (s_active (schedule_node env s n))"
    using Cons.prems by (simp add: grows_def)
  ultimately show ?case using Cons.IH grows_trans by fastforce
qed simp

lemma schedule_pass_keeps:
  assumes "book_inv env s" "failures_seen s"
  shows "book_inv env (schedule_pass env spec s) \<and> failures_seen (schedule_pass env spec s) \<and>
    grows s (schedule_pass env spec s)"
  using schedule_fold_keeps [OF assms, of "s_active s"] assms by (simp add: schedule_pass_def)

lemma expand_round_simps [simp]:
  "s_completed (expand_round env s) = s_completed s" "s_started (expand_round env s) = s_started s"
  "s_inflight (expand_round env s) = s_inflight s" "s_order (expand_round env s) = s_order s"
  "s_first_failure (expand_round env s) = s_first_failure s" "s_stall (expand_round env s) = s_stall s"
  "s_phase (expand_round env s) = s_phase s"
  by (simp_all add: expand_round_def trace_for_each_expanded_def split: prod.splits)

lemma expand_round_pending:
  "s_pending (expand_round env s) = filter (\<lambda>p. s_completed s (fe_from p) = None) (s_pending s)"
  by (simp add: expand_round_def trace_for_each_expanded_def expand_pending_eq Let_def)

lemma expand_round_active:
  "s_active (expand_round env s) = s_active s @
     concat (map (expansion_of (se_from_str env) (se_to_string env) (s_completed s)) (s_pending s))"
  by (simp add: expand_round_def trace_for_each_expanded_def expand_pending_eq Let_def)

lemma expand_round_keeps:
  "book_inv env s \<Longrightarrow> book_inv env (expand_round env s)" "failures_seen s \<Longrightarrow> failures_seen (expand_round env s)"
  "running (expand_round env s) = running s"
  by (auto simp: book_inv_def entry_ok_def failures_seen_def running_def expand_round_active)

text \<open>Marking every node without a result.\<close>

definition marks :: "(ustring \<Rightarrow> NodeRunResult) \<Rightarrow> sched_state \<Rightarrow> WorkflowNodeSpec \<Rightarrow> sched_state \<Rightarrow> bool" where
  "marks mk s n s' \<longleftrightarrow> (\<exists>t. s' = (mark_missing mk s n)\<lparr>s_trace := t\<rparr>)"

lemma mark_fold_keeps:
  assumes step: "\<And>s n. marks mk s n (f s n)"
    and mk: "\<And>i. res_id (mk i) = i" "\<And>i. res_status (mk i) \<noteq> Passed"
    and inv: "book_inv env s" "s_inflight s = []"
  shows "book_inv env (foldl f s ns) \<and> s_inflight (foldl f s ns) = [] \<and>
    s_active (foldl f s ns) = s_active s \<and> s_pending (foldl f s ns) = s_pending s \<and>
    s_stall (foldl f s ns) = s_stall s \<and>
    s_completed s \<subseteq>\<^sub>m s_completed (foldl f s ns) \<and>
    (\<forall>n \<in> set ns. s_completed (foldl f s ns) (node_id n) \<noteq> None)"
  using inv
proof (induction ns arbitrary: s)
  case Nil
  then show ?case by (simp add: map_le_refl)
next
  case (Cons n ns)
  obtain t where f: "f s n = (mark_missing mk s n)\<lparr>s_trace := t\<rparr>" using step by (auto simp: marks_def)
  have "book_inv env (mark_missing mk s n)"
    using Cons.prems book_inv_add_unrun [OF Cons.prems(1), of n "mk (node_id n)"] mk
    by (auto simp: mark_missing_def book_inv_def)
  then have inv': "book_inv env (f s n)" "s_inflight (f s n) = []"
    using f Cons.prems by (auto simp: mark_missing_def)
  have le: "s_completed s \<subseteq>\<^sub>m s_completed (f s n)" and some: "s_completed (f s n) (node_id n) \<noteq> None"
    and same: "s_active (f s n) = s_active s" "s_pending (f s n) = s_pending s" "s_stall (f s n) = s_stall s"
    using f by (auto simp: mark_missing_def map_le_upd_none map_le_refl)
  have ih: "s_completed (f s n) \<subseteq>\<^sub>m s_completed (foldl f (f s n) ns)" using Cons.IH [OF inv'] by blast
  then have "s_completed (foldl f (f s n) ns) (node_id n) \<noteq> None"
    using some by (auto simp: map_le_def dom_def)
  then show ?case using Cons.IH [OF inv'] le ih same by (auto intro: map_le_trans)
qed

lemma fail_fast_marks: "marks fail_fast_result s node (fail_fast_skip env s node)"
  by (auto simp: marks_def mark_missing_def fail_fast_skip_def intro: exI [of _ "s_trace s"])

lemma livelock_marks: "marks mk s n (mark_missing mk s n)"
  by (auto simp: marks_def intro!: exI [of _ "s_trace (mark_missing mk s n)"])

lemma handle_empty_keeps:
  assumes inv: "book_inv env s" "failures_seen s" "s_inflight s = []" and stall: "s_stall s \<le> max_stall_of spec"
    and h: "dag_handle_empty_inflight env spec s = (s', leave)"
  shows "book_inv env s' \<and> s_inflight s' = [] \<and> s_active s' = s_active s \<and> s_pending s' = s_pending s \<and>
    s_completed s \<subseteq>\<^sub>m s_completed s' \<and> s_stall s' \<le> max_stall_of spec + 1 \<and>
    (if leave then all_done s'
     else failures_seen s' \<and> s_phase s' = s_phase s \<and> s_stall s' = s_stall s + 1 \<and> s_stall s' \<le> max_stall_of spec)"
proof -
  consider (fin) "dag_schedule_finished (s_active s) (s_completed s) (s_pending s)"
    | (ff) "\<not> dag_schedule_finished (s_active s) (s_completed s) (s_pending s)"
        "fail_fast spec \<and> s_first_failure s \<noteq> None"
    | (stall) "\<not> dag_schedule_finished (s_active s) (s_completed s) (s_pending s)"
        "\<not> (fail_fast spec \<and> s_first_failure s \<noteq> None)"
    by blast
  then show ?thesis
  proof cases
    case fin
    then show ?thesis using h inv stall
      by (auto simp: dag_handle_empty_inflight_def all_done_def dag_schedule_finished_def list_all_iff
          map_le_refl)
  next
    case ff
    have "s' = dag_mark_remaining_nodes_fail_fast_skipped env s" "leave"
      using h ff by (auto simp: dag_handle_empty_inflight_def)
    then show ?thesis
      using mark_fold_keeps [OF fail_fast_marks _ _ inv(1,3), of _ "s_active s"] stall
      by (simp add: dag_mark_remaining_nodes_fail_fast_skipped_def all_done_def fail_fast_result_def)
  next
    case stall': stall
    define s1 where "s1 = s\<lparr>s_stall := s_stall s + 1\<rparr>"
    have s1: "book_inv env s1" "s_inflight s1 = []" "s_active s1 = s_active s" "s_pending s1 = s_pending s"
      "s_completed s1 = s_completed s" "s_stall s1 = s_stall s + 1" "failures_seen s1" "s_phase s1 = s_phase s"
      using inv by (auto simp: s1_def failures_seen_def)
    show ?thesis
    proof (cases "s_stall s + 1 > max_stall_of spec")
      case True
      then have "s' = mark_livelock (s_stall s + 1) s1" "leave"
        using h stall' by (auto simp: dag_handle_empty_inflight_def Let_def s1_def)
      then show ?thesis
        using mark_fold_keeps [OF livelock_marks _ _ s1(1,2), where mk = "\<lambda>i. unrun_result i Failed
            (livelock_message (s_stall s + 1)) (lit ''workflow_livelock'')" and ns = "s_active s"] stall s1
        by (simp add: mark_livelock_def all_done_def)
    next
      case False
      then show ?thesis using h stall' s1
        by (auto simp: dag_handle_empty_inflight_def Let_def s1_def map_le_refl)
    qed
  qed
qed

section \<open>Rounds and completions keep the invariant\<close>

lemma loop_round_cases:
  assumes inv: "sched_inv env spec s" and top: "s_phase s = LoopTop"
  defines "e \<equiv> expand_round env s"
  obtains (wait) s' where "loop_round env spec s = s'\<lparr>s_stall := 0, s_phase := Waiting\<rparr>"
      "book_inv env s'" "failures_seen s'" "grows e s'" "s_inflight s' \<noteq> []"
    | (leave) s' where "loop_round env spec s = s'\<lparr>s_phase := Finished\<rparr>" "book_inv env s'"
      "s_inflight s' = []" "all_done s'" "s_active s' = s_active e" "s_pending s' = s_pending e"
      "s_completed s \<subseteq>\<^sub>m s_completed s'" "s_stall s' \<le> max_stall_of spec + 1"
    | (again) s' where "loop_round env spec s = s'" "book_inv env s'" "failures_seen s'"
      "s_inflight s' = []" "s_phase s' = LoopTop" "s_stall s' = s_stall s + 1" "s_stall s' \<le> max_stall_of spec"
      "s_active s' = s_active e" "s_pending s' = s_pending e" "s_completed s \<subseteq>\<^sub>m s_completed s'"
proof -
  define p where "p = schedule_pass env spec e"
  have "book_inv env e" "failures_seen e"
    using inv top expand_round_keeps by (auto simp: sched_inv_def e_def)
  then have p: "book_inv env p" "failures_seen p" "grows e p"
    using schedule_pass_keeps unfolding p_def by blast+
  have round_eq: "loop_round env spec s = (if s_inflight p = []
      then (case dag_handle_empty_inflight env spec p of
              (s'', leave) \<Rightarrow> if leave then s''\<lparr>s_phase := Finished\<rparr> else s'')
      else p\<lparr>s_stall := 0, s_phase := Waiting\<rparr>)"
    by (simp add: loop_round_def p_def e_def Let_def)
  show thesis
  proof (cases "s_inflight p = []")
    case False
    then show thesis using wait [of p] round_eq p by simp
  next
    case True
    obtain s' lv where h: "dag_handle_empty_inflight env spec p = (s', lv)" by fastforce
    have "s_stall p \<le> max_stall_of spec" "s_phase p = LoopTop" "s_completed s \<subseteq>\<^sub>m s_completed p" "s_stall p = s_stall s"
      using p(3) inv top by (auto simp: grows_def e_def sched_inv_def)
    note k = handle_empty_keeps [OF p(1,2) True this(1) h] this
    have act: "s_active p = s_active e" "s_pending p = s_pending e" using p(3) by (auto simp: grows_def)
    show thesis
    proof (cases lv)
      case True': True
      show thesis
        by (rule leave [of s']) (use k act True' round_eq h \<open>s_inflight p = []\<close> in \<open>auto intro: map_le_trans\<close>)
    next
      case False
      show thesis
        by (rule again [of s']) (use k act False round_eq h \<open>s_inflight p = []\<close> in \<open>auto intro: map_le_trans\<close>)
    qed
  qed
qed

lemma running_phase [simp]: "running (s\<lparr>s_stall := k\<rparr>) = running s" "running (s\<lparr>s_phase := p\<rparr>) = running s"
  by (simp_all add: running_def)

lemma simple_inv_updates [simp]:
  "failures_seen (s\<lparr>s_stall := k\<rparr>) = failures_seen s"
  "failures_seen (s\<lparr>s_phase := p\<rparr>) = failures_seen s" "all_done (s\<lparr>s_phase := p\<rparr>) = all_done s"
  by (simp_all add: failures_seen_def all_done_def)

lemma round_keeps:
  assumes inv: "sched_inv env spec s" and top: "s_phase s = LoopTop"
  shows "sched_inv env spec (loop_round env spec s)"
  using inv top
proof (cases rule: loop_round_cases)
  case (wait s')
  have "running s' \<le> parallelism_of spec"
    using wait(4) inv expand_round_keeps(3) by (simp add: grows_def sched_inv_def)
  then show ?thesis using wait by (simp add: sched_inv_def)
next
  case (leave s')
  then show ?thesis by (simp add: sched_inv_def running_def)
next
  case (again s')
  then show ?thesis by (simp add: sched_inv_def running_def)
qed

lemma running_update:
  assumes "i < length fl"
  shows "length (filter entry_runs (fl[i := e])) + (if entry_runs (fl ! i) then 1 else 0) =
         length (filter entry_runs fl) + (if entry_runs e then 1 else 0)"
  using assms
proof (induction fl arbitrary: i)
  case (Cons x fl)
  then show ?case by (cases i) auto
qed simp

lemma acquire_keeps:
  assumes inv: "sched_inv env spec s" and w: "s_phase s = Waiting" "i < length (s_inflight s)"
    "s_inflight s ! i = (n, snap, False)" "running s < parallelism_of spec"
  shows "sched_inv env spec (s\<lparr>s_inflight := (s_inflight s)[i := (n, snap, True)]\<rparr>)"
proof -
  let ?fl = "(s_inflight s)[i := (n, snap, True)]"
  have ids: "map entry_id ?fl = map entry_id (s_inflight s)"
    using w(2,3) by (simp add: map_update list_update_same_conv)
  then have ids': "entry_id ` set ?fl = entry_id ` set (s_inflight s)" by (metis set_map)
  have sub: "(m, c, b) \<in> set ?fl \<Longrightarrow> \<exists>b'. (m, c, b') \<in> set (s_inflight s)" for m c b
    using w(2,3) set_update_subset_insert [of "s_inflight s" i "(n, snap, True)"] nth_mem [OF w(2)] by auto
  have ok: "\<forall>(m, c, b) \<in> set (s_inflight s). entry_ok env (s_active s) (s_completed s) m c"
    using inv by (simp add: sched_inv_def book_inv_def)
  have "\<forall>(m, c, b) \<in> set ?fl. entry_ok env (s_active s) (s_completed s) m c"
    using ok sub by blast
  then have "book_inv env (s\<lparr>s_inflight := ?fl\<rparr>)"
    using inv ids ids' by (simp add: sched_inv_def book_inv_def)
  moreover have "running (s\<lparr>s_inflight := ?fl\<rparr>) = Suc (running s)"
    using running_update [OF w(2), of "(n, snap, True)"] w(3) by (simp add: running_def)
  ultimately show ?thesis
    using inv w by (auto simp: sched_inv_def failures_seen_def)
qed

lemma remove_nth_split:
  "i < length xs \<Longrightarrow> xs ! i = x \<Longrightarrow> \<exists>ys zs. xs = ys @ x # zs \<and> remove_nth i xs = ys @ zs"
  by (metis id_take_nth_drop remove_nth_def)

lemma record_completion_result:
  "res_status r \<noteq> Skipped \<Longrightarrow>
     s_completed (dag_record_node_completion r s) = (s_completed s)(res_id r \<mapsto> r) \<and>
     s_started (dag_record_node_completion r s) = s_started s \<and>
     s_active (dag_record_node_completion r s) = s_active s \<and>
     s_pending (dag_record_node_completion r s) = s_pending s \<and>
     s_inflight (dag_record_node_completion r s) = s_inflight s \<and>
     s_stall (dag_record_node_completion r s) = s_stall s \<and>
     s_phase (dag_record_node_completion r s) = s_phase s \<and>
     s_order (dag_record_node_completion r s) =
       (if res_status r = Passed then s_order s @ [res_id r] else s_order s) \<and>
     s_first_failure (dag_record_node_completion r s) =
       (if res_status r = Passed \<or> s_first_failure s \<noteq> None then s_first_failure s else Some r)"
  by (cases "res_status r") (auto simp: dag_record_node_completion_def)

lemma finish_keeps_book:
  assumes inv: "book_inv env s" and fl: "s_inflight s = ys @ (n, snap, b) # zs"
    and r: "res_id r = node_id n" "res_status r \<noteq> Skipped"
  shows "book_inv env (dag_record_node_completion r (s\<lparr>s_inflight := ys @ zs, s_phase := p\<rparr>))"
proof -
  have new: "s_completed s (node_id n) = None" "node_id n \<notin> entry_id ` set (ys @ zs)"
    using inv fl by (auto simp: book_inv_def)
  have ok: "entry_ok env (s_active s) ((s_completed s)(node_id n \<mapsto> r)) m c" if "(m, c, d) \<in> set (ys @ zs)" for m c d
  proof (rule entry_ok_upd)
    have "(m, c, d) \<in> set (s_inflight s)" using that fl by auto
    then show "entry_ok env (s_active s) (s_completed s) m c" using inv unfolding book_inv_def by blast
  qed (rule new(1))
  have ord: "node_id n \<notin> set (s_order s)" using inv new(1) by (auto simp: book_inv_def passed_ids_def)
  show ?thesis
    using inv new ok ord r fl NodeRunStatus.exhaust [of "res_status r"] unfolding book_inv_def
    by (auto simp: record_completion_result passed_ids_upd)
qed

lemma finish_keeps:
  assumes inv: "sched_inv env spec s" and w: "s_phase s = Waiting" "i < length (s_inflight s)"
    "s_inflight s ! i = (n, snap, True)" and r: "res_id r = node_id n" "res_status r \<noteq> Skipped"
  shows "sched_inv env spec (dag_record_node_completion r
           (s\<lparr>s_inflight := remove_nth i (s_inflight s), s_phase := LoopTop\<rparr>))"
proof -
  obtain ys zs where fl: "s_inflight s = ys @ (n, snap, True) # zs" and rm: "remove_nth i (s_inflight s) = ys @ zs"
    using remove_nth_split [OF w(2,3)] by blast
  let ?s' = "dag_record_node_completion r (s\<lparr>s_inflight := ys @ zs, s_phase := LoopTop\<rparr>)"
  have "book_inv env ?s'" using finish_keeps_book [OF _ fl r] inv by (simp add: sched_inv_def)
  moreover have "failures_seen ?s'"
    using inv w(1) r by (auto simp: sched_inv_def failures_seen_def record_completion_result)
  moreover have "running ?s' \<le> parallelism_of spec"
    using inv fl r by (simp add: sched_inv_def running_def record_completion_result)
  moreover have "s_stall ?s' \<le> max_stall_of spec"
    using inv w(1) r by (simp add: sched_inv_def record_completion_result)
  ultimately show ?thesis using rm r by (simp add: sched_inv_def record_completion_result)
qed

lemma inflight_member:
  assumes "book_inv env s" "(n, snap, b) \<in> set (s_inflight s)"
  shows "s_completed s (node_id n) = None" "entry_ok env (s_active s) (s_completed s) n snap"
proof -
  have inv: "entry_id ` set (s_inflight s) \<inter> dom (s_completed s) = {}"
    "\<forall>(n, snap, b) \<in> set (s_inflight s). entry_ok env (s_active s) (s_completed s) n snap"
    using assms(1) by (auto simp: book_inv_def)
  have "node_id n \<in> entry_id ` set (s_inflight s)" using assms(2) by force
  then show "s_completed s (node_id n) = None" using inv(1) by blast
  show "entry_ok env (s_active s) (s_completed s) n snap" using inv(2) assms(2) by blast
qed

lemma inflight_facts:
  assumes "sched_inv env spec s" "i < length (s_inflight s)" "s_inflight s ! i = (n, snap, b)"
  shows "s_completed s (node_id n) = None" "n \<in> set (s_active s)"
proof -
  have "(n, snap, b) \<in> set (s_inflight s)" using nth_mem [OF assms(2)] assms(3) by simp
  then show "s_completed s (node_id n) = None" "n \<in> set (s_active s)"
    using assms(1) inflight_member [of env s n snap b] by (auto simp: sched_inv_def entry_ok_def)
qed

lemma filter_all_of_length: "length (filter P xs) = length xs \<Longrightarrow> x \<in> set xs \<Longrightarrow> P x"
  using length_filter_less [of x xs P] by auto

section \<open>The contract of a node run\<close>

locale node_runner =
  fixes outcome :: "WorkflowNodeSpec \<Rightarrow> completed_map \<Rightarrow> NodeRunResult \<Rightarrow> bool"
  assumes outcome_id: "outcome n snap r \<Longrightarrow> res_id r = node_id n"
    and outcome_not_skipped: "outcome n snap r \<Longrightarrow> res_status r \<noteq> Skipped"
    and outcome_total: "\<exists>r. outcome n snap r"
begin

lemma step_keeps_inv:
  assumes "sched_step env spec outcome s s'" "sched_inv env spec s"
  shows "sched_inv env spec s'"
  using assms(1)
proof cases
  case round
  then show ?thesis using round_keeps assms(2) by simp
next
  case (acquire i n snap)
  then show ?thesis using acquire_keeps [OF assms(2)] by simp
next
  case (finish i n snap r)
  then show ?thesis using finish_keeps [OF assms(2)] outcome_id outcome_not_skipped by simp
qed

lemma steps_keep_inv:
  "(sched_step env spec outcome)\<^sup>*\<^sup>* s s' \<Longrightarrow> sched_inv env spec s \<Longrightarrow> sched_inv env spec s'"
  by (induction rule: rtranclp_induct) (auto intro: step_keeps_inv)

lemma init_inv: "sched_inv env spec (sched_init spec)"
  by (auto simp: sched_inv_def sched_init_def book_inv_def passed_ids_def running_def failures_seen_def)

lemma reachable_inv: "reachable env spec outcome s \<Longrightarrow> sched_inv env spec s"
  unfolding reachable_def using steps_keep_inv init_inv by blast

text \<open>Results are never overwritten or lost.\<close>

lemma step_completed_mono:
  assumes "sched_step env spec outcome s s'" "sched_inv env spec s"
  shows "s_completed s \<subseteq>\<^sub>m s_completed s'"
  using assms(1)
proof cases
  case round
  show ?thesis using assms(2) round(2)
  proof (cases rule: loop_round_cases)
    case (wait t)
    then show ?thesis using round by (simp add: grows_def)
  qed (use round in \<open>simp_all\<close>)
next
  case (acquire i n snap)
  then show ?thesis by (simp add: map_le_refl)
next
  case (finish i n snap r)
  have "s_completed s (node_id n) = None" using inflight_facts(1) [OF assms(2) finish(3,4)] .
  then show ?thesis
    using finish outcome_id outcome_not_skipped by (simp add: record_completion_result map_le_upd_none)
qed

text \<open>
  Termination: pending entries, then active nodes without a result, then the rank of the phase,
  then futures without a permit.
\<close>

definition unfinished :: "sched_state \<Rightarrow> nat" where
  "unfinished s = card (node_id ` set (s_active s) - dom (s_completed s))"

definition phase_rank :: "WorkflowSpec \<Rightarrow> sched_state \<Rightarrow> nat" where
  "phase_rank spec s =
     (case s_phase s of
        LoopTop \<Rightarrow> 2 + (max_stall_of spec + 1 - s_stall s) | Waiting \<Rightarrow> 1 | Finished \<Rightarrow> 0)"

definition no_permit :: "sched_state \<Rightarrow> nat" where
  "no_permit s = length (s_inflight s) - running s"

definition sched_order :: "WorkflowSpec \<Rightarrow> (sched_state \<times> sched_state) set" where
  "sched_order spec = measures [\<lambda>s. length (s_pending s), unfinished, phase_rank spec, no_permit]"

lemma unfinished_mono:
  assumes "node_id ` set (s_active s') \<subseteq> node_id ` set (s_active s)" "s_completed s \<subseteq>\<^sub>m s_completed s'"
  shows "unfinished s' \<le> unfinished s"
proof -
  have "dom (s_completed s) \<subseteq> dom (s_completed s')" using assms(2) by (rule map_le_implies_dom_le)
  then show ?thesis using assms(1) unfolding unfinished_def by (intro card_mono) auto
qed

lemma round_decreases:
  assumes inv: "sched_inv env spec s" and top: "s_phase s = LoopTop"
  shows "(loop_round env spec s, s) \<in> sched_order spec"
proof -
  let ?e = "expand_round env s"
  have le: "length (s_pending ?e) \<le> length (s_pending s)" by (simp add: expand_round_pending)
  have same: "s_active ?e = s_active s" if "length (s_pending ?e) = length (s_pending s)"
  proof -
    have "s_completed s (fe_from p) = None" if "p \<in> set (s_pending s)" for p
      using filter_all_of_length [OF _ that] \<open>length (s_pending ?e) = _\<close> by (simp add: expand_round_pending)
    then show ?thesis by (simp add: expand_round_active expansion_of_def)
  qed
  have main: "(loop_round env spec s, s) \<in> sched_order spec"
    if "s_pending (loop_round env spec s) = s_pending ?e" "s_active (loop_round env spec s) = s_active ?e"
      "s_completed s \<subseteq>\<^sub>m s_completed (loop_round env spec s)"
      "phase_rank spec (loop_round env spec s) < phase_rank spec s"
    using that le same unfinished_mono [of "loop_round env spec s" s]
    by (cases "length (s_pending ?e) = length (s_pending s)") (auto simp: sched_order_def)
  show ?thesis using inv top
  proof (cases rule: loop_round_cases)
    case (wait t)
    then show ?thesis using top by (intro main) (simp_all add: grows_def phase_rank_def)
  next
    case (leave t)
    then show ?thesis using top by (intro main) (simp_all add: phase_rank_def)
  next
    case (again t)
    then show ?thesis using top by (intro main) (simp_all add: phase_rank_def)
  qed
qed

lemma step_decreases:
  assumes "sched_step env spec outcome s s'" "sched_inv env spec s"
  shows "(s', s) \<in> sched_order spec"
  using assms(1)
proof cases
  case round
  then show ?thesis using round_decreases assms(2) by simp
next
  case (acquire i n snap)
  have "length (filter entry_runs ((s_inflight s)[i := (n, snap, True)])) = Suc (running s)"
    using running_update [OF acquire(3), of "(n, snap, True)"] acquire(4) by (simp add: running_def)
  moreover have "length (filter entry_runs ((s_inflight s)[i := (n, snap, True)])) \<le> length (s_inflight s)"
    by (metis length_filter_le length_list_update)
  ultimately have "no_permit s' < no_permit s"
    using acquire(1) by (simp add: no_permit_def running_def)
  then show ?thesis using acquire by (simp add: sched_order_def unfinished_def phase_rank_def)
next
  case (finish i n snap r)
  have "s_completed s (node_id n) = None" "n \<in> set (s_active s)"
    using inflight_facts [OF assms(2) finish(3,4)] .
  then have "node_id ` set (s_active s) - dom ((s_completed s)(node_id n \<mapsto> r)) \<subset>
      node_id ` set (s_active s) - dom (s_completed s)"
    by auto
  then have "unfinished s' < unfinished s"
    using finish outcome_id outcome_not_skipped
    by (simp add: unfinished_def record_completion_result psubset_card_mono)
  then show ?thesis
    using finish outcome_not_skipped by (simp add: sched_order_def record_completion_result)
qed

lemma progress:
  assumes "sched_inv env spec s" "s_phase s \<noteq> Finished"
  shows "\<exists>s'. sched_step env spec outcome s s'"
proof (cases "s_phase s")
  case LoopTop
  then show ?thesis by (blast intro: sched_step.round)
next
  case Waiting
  then have "s_inflight s \<noteq> []" using assms(1) by (simp add: sched_inv_def)
  then obtain n snap b where e: "0 < length (s_inflight s)" "s_inflight s ! 0 = (n, snap, b)"
    by (metis length_greater_0_conv prod.exhaust)
  show ?thesis
  proof (cases "\<exists>i < length (s_inflight s). entry_runs (s_inflight s ! i)")
    case True
    then obtain i m c where "i < length (s_inflight s)" "s_inflight s ! i = (m, c, True)"
      by (metis prod.collapse)
    then show ?thesis using Waiting outcome_total by (blast intro: sched_step.finish)
  next
    case False
    then have "\<forall>e \<in> set (s_inflight s). \<not> entry_runs e" by (metis in_set_conv_nth)
    then have "running s = 0" by (simp add: running_def)
    then have "running s < parallelism_of spec" by (simp add: parallelism_of_def)
    moreover have "b = False" using False e by (metis snd_conv)
    ultimately show ?thesis using Waiting e by (blast intro: sched_step.acquire)
  qed
qed (use assms in simp)

lemma always_finishes:
  assumes "sched_inv env spec s"
  shows "\<exists>s'. (sched_step env spec outcome)\<^sup>*\<^sup>* s s' \<and> s_phase s' = Finished"
proof -
  have wf: "wf (sched_order spec)" by (simp add: sched_order_def)
  from wf assms show ?thesis
  proof (induction s rule: wf_induct_rule)
    case (less s)
    show ?case
    proof (cases "s_phase s = Finished")
      case True
      then show ?thesis by blast
    next
      case False
      then obtain t where t: "sched_step env spec outcome s t" using progress less.prems by blast
      then show ?thesis
        using less.IH [OF step_decreases [OF t less.prems]] step_keeps_inv [OF t less.prems]
        by (meson converse_rtranclp_into_rtranclp)
    qed
  qed
qed

lemma no_infinite_run:
  assumes "f 0 = sched_init spec" "\<And>i. sched_step env spec outcome (f i) (f (Suc i))"
  shows False
proof -
  have inv: "sched_inv env spec (f i)" for i
  proof (induction i)
    case 0
    then show ?case using assms(1) init_inv by simp
  next
    case (Suc i)
    then show ?case using step_keeps_inv [OF assms(2)] by blast
  qed
  then have "(f (Suc i), f i) \<in> sched_order spec" for i using step_decreases assms(2) by blast
  moreover have "wf (sched_order spec)" by (simp add: sched_order_def)
  ultimately show False by (metis wf_no_infinite_down_chainE)
qed

end

lemma node_outcome_facts:
  assumes "node_outcome env mode ctx k n snap r"
  shows "res_id r = node_id n \<and> res_status r \<noteq> Skipped"
proof -
  have "res_id r = node_id n \<and> res_status r \<noteq> Skipped"
    if "snd (run_node env w n mode ctx snap k (lit ''main'')) = Some r" for w
    using run_node_cases [of env w n mode ctx snap k "lit ''main''"] that by auto
  then show ?thesis using assms by (auto simp: node_outcome_def node_panic_result_def)
qed

interpretation exec: node_runner "node_outcome env mode ctx k" for env mode ctx k
proof unfold_locales
  show "\<exists>r. node_outcome env mode ctx k n snap r" for n snap
    using run_node_cases [of env _ n mode ctx snap k "lit ''main''"]
    by (metis node_outcome_def snd_conv)
qed (use node_outcome_facts in \<open>blast\<close>)+

section \<open>Properties\<close>

text \<open>
  C2: The scheduler's invariant.  In every state that any interleaving of rounds, permits and
  completions reaches: no node is in flight twice and none that already has a result; a node in
  flight was started from a snapshot in which all its dependencies have results, its condition
  held, and none of those results has changed since; at most \<^verbatim>\<open>max_parallelism\<close> (at least one) nodes run;
  the completion order lists exactly the passed nodes, once each; and the recorded first failure
  is the stored result of a failed node.
\<close>

theorem scheduler_invariant:
  assumes "reachable se spec (node_outcome env mode ctx k) s"
  shows "distinct (map entry_id (s_inflight s)) \<and>
    (\<forall>(n, snap, b) \<in> set (s_inflight s).
       s_completed s (node_id n) = None \<and> set (node_deps n) \<subseteq> dom snap \<and> snap \<subseteq>\<^sub>m s_completed s \<and>
       node_run_if_satisfied (se_from_str se) (node_run_if n) snap) \<and>
    running s \<le> max (max_parallelism spec) 1 \<and>
    distinct (s_order s) \<and>
    set (s_order s) = {i. \<exists>r. s_completed s i = Some r \<and> res_status r = Passed} \<and>
    (\<forall>f. s_first_failure s = Some f \<longrightarrow> res_status f = Failed \<and> s_completed s (res_id f) = Some f)"
proof -
  have inv: "sched_inv se spec s" by (rule exec.reachable_inv [OF assms])
  then have b: "book_inv se s" and r: "running s \<le> parallelism_of spec" by (simp_all add: sched_inv_def)
  note ent = inflight_member [OF b]
  show ?thesis
  proof (intro conjI)
    show "\<forall>(n, snap, b) \<in> set (s_inflight s).
       s_completed s (node_id n) = None \<and> set (node_deps n) \<subseteq> dom snap \<and> snap \<subseteq>\<^sub>m s_completed s \<and>
       node_run_if_satisfied (se_from_str se) (node_run_if n) snap"
      using ent unfolding entry_ok_def by blast
    show "running s \<le> max (max_parallelism spec) 1" using r by (simp add: parallelism_of_def)
  qed (use b in \<open>simp_all add: book_inv_def passed_ids_def\<close>)
qed

definition sample_se :: sched_env where
  "sample_se = \<lparr>se_from_str = Inl, se_to_string = (\<lambda>v. []), se_ctx = sample_ctx\<rparr>"

definition sample_spec :: "WorkflowNodeSpec list \<Rightarrow> WorkflowSpec" where
  "sample_spec nodes =
     \<lparr>max_parallelism = 4, fail_fast = False, compensate_on_failure = True, output_inject_max_chars = 2000,
      summary_preview_max_chars = 1200, compensation_preview_max_chars = 800, spec_nodes = nodes,
      cached_layer_count = 0, for_each_pending = []\<rparr>"

theorem scheduler_invariant_witness:
  "reachable sample_se (sample_spec []) (node_outcome sample_env NoApproval sample_ctx 10) (sched_init (sample_spec [])) \<and>
   running (sched_init (sample_spec [])) \<le> 4"
proof -
  have "reachable sample_se (sample_spec []) (node_outcome sample_env NoApproval sample_ctx 10) (sched_init (sample_spec []))"
    by (simp add: reachable_def)
  then show ?thesis using scheduler_invariant by (fastforce simp: sample_spec_def)
qed

text \<open>
  C3: Every workflow run ends, whatever the graph, the completion order and the results are: there
  is no infinite run; a state that is not final has a successor; and from every reachable state a
  final one is reached.  In a final state nothing is in flight and every active node, expanded
  ones included, has a result under its own id, so the report's branches for missing results are
  never taken.
\<close>

theorem workflow_always_finishes:
  assumes "reachable se spec (node_outcome env mode ctx k) s"
  shows "\<not> (\<exists>f. f 0 = sched_init spec \<and> (\<forall>i. sched_step se spec (node_outcome env mode ctx k) (f i) (f (Suc i)))) \<and>
    (s_phase s \<noteq> Finished \<longrightarrow> (\<exists>s'. sched_step se spec (node_outcome env mode ctx k) s s')) \<and>
    (\<exists>s'. (sched_step se spec (node_outcome env mode ctx k))\<^sup>*\<^sup>* s s' \<and> s_phase s' = Finished) \<and>
    (s_phase s = Finished \<longrightarrow> s_inflight s = [] \<and> s_started s = dom (s_completed s) \<and>
       (\<forall>n \<in> set (s_active s). \<exists>r. s_completed s (node_id n) = Some r \<and> res_id r = node_id n))"
proof (intro conjI)
  have inv: "sched_inv se spec s" by (rule exec.reachable_inv [OF assms])
  show "\<not> (\<exists>f. f 0 = sched_init spec \<and> (\<forall>i. sched_step se spec (node_outcome env mode ctx k) (f i) (f (Suc i))))"
    using exec.no_infinite_run by blast
  show "s_phase s \<noteq> Finished \<longrightarrow> (\<exists>s'. sched_step se spec (node_outcome env mode ctx k) s s')"
    using exec.progress [OF inv] by blast
  show "\<exists>s'. (sched_step se spec (node_outcome env mode ctx k))\<^sup>*\<^sup>* s s' \<and> s_phase s' = Finished"
    by (rule exec.always_finishes [OF inv])
  show "s_phase s = Finished \<longrightarrow> s_inflight s = [] \<and> s_started s = dom (s_completed s) \<and>
       (\<forall>n \<in> set (s_active s). \<exists>r. s_completed s (node_id n) = Some r \<and> res_id r = node_id n)"
    using inv by (auto simp: sched_inv_def book_inv_def all_done_def)
qed

theorem workflow_always_finishes_witness:
  "\<exists>s'. (sched_step sample_se (sample_spec [mk_node (lit ''a'') (lit ''t'') [lit ''a'']])
       (node_outcome sample_env NoApproval sample_ctx 10))\<^sup>*\<^sup>*
       (sched_init (sample_spec [mk_node (lit ''a'') (lit ''t'') [lit ''a'']])) s' \<and> s_phase s' = Finished"
proof -
  have "reachable sample_se (sample_spec [mk_node (lit ''a'') (lit ''t'') [lit ''a'']])
      (node_outcome sample_env NoApproval sample_ctx 10)
      (sched_init (sample_spec [mk_node (lit ''a'') (lit ''t'') [lit ''a'']]))"
    by (simp add: reachable_def)
  then show ?thesis using workflow_always_finishes by blast
qed

text \<open>
  A chain of ten nodes, each on the success branch of the one before, listed from the last to the
  first; the condition of the first node does not hold.
\<close>

definition chain_id :: "nat \<Rightarrow> ustring" where
  "chain_id i = [97 + i]"

definition chain_node :: "nat \<Rightarrow> WorkflowNodeSpec" where
  "chain_node i =
     (mk_node (chain_id i) (lit ''t'') (if i = 0 then [] else [chain_id (i - 1)]))
       \<lparr>node_run_if := Some (RunIfBranch (if i = 0 then [] else chain_id (i - 1)) BranchSuccess)\<rparr>"

definition chain_spec :: WorkflowSpec where
  "chain_spec = sample_spec (map chain_node (rev [0..<10]))"

definition chain_done :: "nat \<Rightarrow> sched_state \<Rightarrow> bool" where
  "chain_done k s \<longleftrightarrow>
     s_completed s = (\<lambda>x. if x \<in> chain_id ` {..<k} then Some (unrun_result x Skipped
        (lit ''choice: run_if not satisfied'') (lit ''workflow_choice_skipped'')) else None) \<and>
     s_started s = chain_id ` {..<k}"

definition chain_rest :: "nat \<Rightarrow> sched_state \<Rightarrow> bool" where
  "chain_rest k s \<longleftrightarrow>
     s_active s = map chain_node (rev [0..<10]) \<and> s_pending s = [] \<and> s_inflight s = [] \<and>
     s_first_failure s = None \<and> s_phase s = LoopTop \<and> s_stall s = k"

lemma chain_node_simps [simp]:
  "node_id (chain_node i) = chain_id i" "node_deps (chain_node i) = (if i = 0 then [] else [chain_id (i - 1)])"
  "node_run_if (chain_node i) = Some (RunIfBranch (if i = 0 then [] else chain_id (i - 1)) BranchSuccess)"
  "chain_id i = chain_id j \<longleftrightarrow> i = j" "chain_id i \<in> chain_id ` A \<longleftrightarrow> i \<in> A" "chain_id i \<noteq> []" "[] \<noteq> chain_id i"
  by (auto simp: chain_node_def chain_id_def mk_node_def)

lemma chain_schedule:
  assumes "chain_done k s"
  shows "schedule_node sample_se s (chain_node i) =
    (if i = k then mark_run_if_skipped sample_se (chain_node k) s else s)"
proof -
  have empty: "s_completed s [] = None" using assms by (auto simp: chain_done_def)
  have c: "s_completed s (chain_id j) = (if j < k then Some (unrun_result (chain_id j) Skipped
      (lit ''choice: run_if not satisfied'') (lit ''workflow_choice_skipped'')) else None)" for j
    using assms by (simp add: chain_done_def)
  have st: "chain_id j \<in> s_started s \<longleftrightarrow> j < k" for j using assms by (simp add: chain_done_def)
  show ?thesis
    using empty by (cases "i < k"; cases "i = k"; cases i)
      (auto simp: schedule_node_def node_schedule_decision_def node_deps_resolved_def
        node_run_if_satisfied_def c st)
qed

lemma chain_mark:
  "chain_done k s \<Longrightarrow> chain_done (Suc k) (mark_run_if_skipped sample_se (chain_node k) s)"
  by (auto simp: chain_done_def mark_run_if_skipped_def lessThan_Suc fun_eq_iff)

lemma chain_fold_ignore:
  "chain_done k s \<Longrightarrow> k \<notin> set is \<Longrightarrow> foldl (schedule_node sample_se) s (map chain_node is) = s"
  by (induction "is") (auto simp: chain_schedule)

lemma chain_fold:
  assumes "chain_done k s" "k < n"
  shows "foldl (schedule_node sample_se) s (map chain_node (rev [0..<n])) =
    mark_run_if_skipped sample_se (chain_node k) s"
proof -
  have "[0..<n] = [0..<k] @ k # [Suc k..<n]"
    using assms(2) by (metis le_add_same_cancel1 less_imp_le_nat upt_add_eq_append upt_conv_Cons zero_le le_add_diff_inverse)
  then have "map chain_node (rev [0..<n]) =
      map chain_node (rev [Suc k..<n]) @ chain_node k # map chain_node (rev [0..<k])"
    by simp
  then show ?thesis
    using chain_fold_ignore [OF assms(1), of "rev [Suc k..<n]"] chain_schedule [OF assms(1)]
      chain_fold_ignore [OF chain_mark [OF assms(1)], of "rev [0..<k]"]
    by simp
qed

lemma chain_round_pass:
  assumes "chain_done k s" "chain_rest k' s" "k < 10"
  shows "chain_done (Suc k) (schedule_pass sample_se chain_spec (expand_round sample_se s)) \<and>
    chain_rest k' (schedule_pass sample_se chain_spec (expand_round sample_se s))"
proof -
  let ?e = "expand_round sample_se s"
  have e: "chain_done k ?e" "chain_rest k' ?e"
    using assms by (simp_all add: chain_done_def chain_rest_def expand_round_active expand_round_pending)
  have "schedule_pass sample_se chain_spec ?e = mark_run_if_skipped sample_se (chain_node k) ?e"
    using chain_fold [OF e(1) assms(3)] e(2) by (simp add: schedule_pass_def chain_rest_def)
  then show ?thesis
    using chain_mark [OF e(1)] e(2) by (simp add: chain_rest_def mark_run_if_skipped_def)
qed

lemma chain_not_finished:
  "chain_done k s \<Longrightarrow> chain_rest k' s \<Longrightarrow> k < 10 \<Longrightarrow>
     \<not> dag_schedule_finished (s_active s) (s_completed s) (s_pending s)"
  by (auto simp: dag_schedule_finished_def chain_rest_def chain_done_def list_all_iff
      intro!: bexI [of _ k])

lemma chain_spec_simps [simp]: "fail_fast chain_spec = False" "max_stall_of chain_spec = 8"
  by (simp_all add: chain_spec_def sample_spec_def max_stall_of_def parallelism_of_def)

lemma chain_round:
  assumes "chain_done k s" "chain_rest k s" "k < 8"
  shows "chain_done (Suc k) (loop_round sample_se chain_spec s) \<and> chain_rest (Suc k) (loop_round sample_se chain_spec s)"
proof -
  let ?p = "schedule_pass sample_se chain_spec (expand_round sample_se s)"
  have p: "chain_done (Suc k) ?p" "chain_rest k ?p" using chain_round_pass assms by auto
  then have "loop_round sample_se chain_spec s = ?p\<lparr>s_stall := Suc k\<rparr>"
    using chain_not_finished [OF p] assms(3)
    by (simp add: loop_round_def Let_def dag_handle_empty_inflight_def chain_rest_def)
  then show ?thesis using p by (simp add: chain_done_def chain_rest_def)
qed

lemma chain_rounds: "k \<le> 8 \<Longrightarrow> chain_done k ((loop_round sample_se chain_spec ^^ k) (sched_init chain_spec)) \<and>
    chain_rest k ((loop_round sample_se chain_spec ^^ k) (sched_init chain_spec))"
proof (induction k)
  case 0
  then show ?case by (simp add: chain_done_def chain_rest_def sched_init_def chain_spec_def sample_spec_def)
next
  case (Suc k)
  then show ?case using chain_round [of k] by simp
qed

text \<open>
  A node's result, once stored, is never replaced or lost while the run goes on.
\<close>

theorem results_are_final:
  assumes "reachable se spec (node_outcome env mode ctx k) s"
    and "(sched_step se spec (node_outcome env mode ctx k))\<^sup>*\<^sup>* s s'"
    and "s_completed s i = Some r"
  shows "s_completed s' i = Some r"
proof -
  have "s_completed s \<subseteq>\<^sub>m s_completed s' \<and> sched_inv se spec s'"
    using assms(2)
  proof (induction rule: rtranclp_induct)
    case base
    then show ?case using exec.reachable_inv [OF assms(1)] by (simp add: map_le_refl)
  next
    case (step y z)
    then show ?case using exec.step_completed_mono exec.step_keeps_inv map_le_trans by blast
  qed
  then show ?thesis using assms(3) by (auto simp: map_le_def dom_def)
qed

theorem results_are_final_witness:
  "s_completed ((loop_round sample_se chain_spec ^^ 2) (sched_init chain_spec)) (chain_id 0) =
     Some (unrun_result (chain_id 0) Skipped (lit ''choice: run_if not satisfied'') (lit ''workflow_choice_skipped''))"
proof (rule results_are_final)
  let ?out = "node_outcome sample_env NoApproval sample_ctx 10"
  let ?s = "\<lambda>k. (loop_round sample_se chain_spec ^^ k) (sched_init chain_spec)"
  have step: "sched_step sample_se chain_spec ?out (?s k) (?s (Suc k))" if "k \<le> 8" for k
    using chain_rounds [OF that] by (auto simp: chain_rest_def intro: sched_step.round)
  show "reachable sample_se chain_spec ?out (?s 1)"
    using step [of 0] by (auto simp: reachable_def)
  show "(sched_step sample_se chain_spec ?out)\<^sup>*\<^sup>* (?s 1) (?s 2)"
    using step [of 1] by (auto simp: numeral_2_eq_2)
  show "s_completed (?s 1) (chain_id 0) = Some (unrun_result (chain_id 0) Skipped
      (lit ''choice: run_if not satisfied'') (lit ''workflow_choice_skipped''))"
    using chain_rounds [of 1] by (simp add: chain_done_def)
qed

lemma mark_missing_fold_other:
  "x \<notin> node_id ` set ns \<or> s_completed s x \<noteq> None \<Longrightarrow>
     s_completed (foldl (mark_missing mk) s ns) x = s_completed s x"
  by (induction ns arbitrary: s) (auto simp: mark_missing_def)

lemma mark_missing_fold_hit:
  "x \<in> node_id ` set ns \<Longrightarrow> s_completed s x = None \<Longrightarrow>
     s_completed (foldl (mark_missing mk) s ns) x = Some (mk x)"
proof (induction ns arbitrary: s)
  case (Cons n ns)
  show ?case
  proof (cases "node_id n = x")
    case True
    then show ?thesis
      using Cons.prems mark_missing_fold_other [of x ns "mark_missing mk s n" mk]
      by (simp add: mark_missing_def [of mk s n])
  next
    case False
    then show ?thesis using Cons by (auto simp: mark_missing_def)
  qed
qed simp

lemma mark_missing_fold_failure: "s_first_failure (foldl (mark_missing mk) s ns) = s_first_failure s"
  by (induction ns arbitrary: s) (auto simp: mark_missing_def)


end
