(* ===== verification/Workflow_Report.thy ===== *)
theory Workflow_Report
  imports Workflow_Schedule
begin

text \<open>
  The end of a workflow run: node reports and summaries (\<^verbatim>\<open>src/cm_workflow/execute/report.rs\<close>), the
  compensation phase (\<^verbatim>\<open>execute/compensation.rs\<close>) and the frame around the scheduler (\<^verbatim>\<open>execute_workflow_dag\<close> in
  \<^verbatim>\<open>execute/mod.rs\<close>).

  The compensation phase runs the nodes one after the other in the state the scheduler left.  Which
  of them panics, and in which state, is the parameter \<open>panics\<close>; the Chrome trace writer is the
  parameter \<open>chrome\<close>.  The report is the record that the source serialises at the very end.

  Shown here: compensations are collected in the reverse order of success, once each, and for
  exactly the nodes that passed; nodes added by \<^verbatim>\<open>for_each\<close> are never compensated; the counters of the
  two summaries agree and add up; previews are cut at a character boundary within the byte limit;
  and a change of the workspace made by a compensation is in the report but not in the returned
  flag.
\<close>

section \<open>Truncation\<close>

text \<open>\<^verbatim>\<open>str::is_char_boundary\<close>: some prefix has exactly that many bytes.\<close>

fun is_char_boundary :: "ustring \<Rightarrow> nat \<Rightarrow> bool" where
  "is_char_boundary s 0 = True"
| "is_char_boundary [] (Suc n) = False"
| "is_char_boundary (c # s) (Suc n) = (utf8_len_char c \<le> Suc n \<and> is_char_boundary s (Suc n - utf8_len_char c))"

text \<open>The loop that steps back to a boundary, and the slice \<^verbatim>\<open>s[..end]\<close>; \<open>None\<close> is the panic off a boundary.\<close>

fun back_to_boundary :: "ustring \<Rightarrow> nat \<Rightarrow> nat" where
  "back_to_boundary s 0 = 0"
| "back_to_boundary s (Suc n) = (if \<not> is_char_boundary s (Suc n) then back_to_boundary s n else Suc n)"

fun slice_to :: "ustring \<Rightarrow> nat \<Rightarrow> ustring option" where
  "slice_to s 0 = Some []"
| "slice_to [] (Suc n) = None"
| "slice_to (c # s) (Suc n) =
     (if utf8_len_char c \<le> Suc n then map_option ((#) c) (slice_to s (Suc n - utf8_len_char c)) else None)"

definition truncate_to_char_boundary :: "ustring \<Rightarrow> nat \<Rightarrow> ustring option" where
  "truncate_to_char_boundary s max_bytes =
     (if utf8_len s \<le> max_bytes then Some s
      else slice_to s (back_to_boundary s (min max_bytes (utf8_len s))))"

definition truncate_for_summary :: "ustring \<Rightarrow> nat \<Rightarrow> ustring option" where
  "truncate_for_summary s max_bytes =
     (if utf8_len s \<le> max_bytes then Some s
      else map_option (\<lambda>t. t @ (lit ''... ('' @ [25130, 26029] @ lit '')'')) (truncate_to_char_boundary s max_bytes))"

lemma utf8_len_char_pos [simp]: "0 < utf8_len_char c" "utf8_len_char c \<noteq> 0"
  by (simp_all add: utf8_len_char_def)

lemma slice_to_boundary: "slice_to s n \<noteq> None \<longleftrightarrow> is_char_boundary s n"
proof (induction s n rule: is_char_boundary.induct)
  case (3 c s n)
  then show ?case by (cases "slice_to s (Suc n - utf8_len_char c)") auto
qed auto

lemma slice_to_Some: "slice_to s n = Some p \<Longrightarrow> utf8_len p = n \<and> (\<exists>t. s = p @ t)"
proof (induction s n arbitrary: p rule: slice_to.induct)
  case (3 c s n)
  then show ?case by (fastforce split: if_splits)
qed auto

lemma boundary_prefix: "is_char_boundary (p @ t) (utf8_len p)"
proof (induction p)
  case (Cons c p)
  obtain n where n: "utf8_len_char c + utf8_len p = Suc n"
    by (metis add_is_0 not0_implies_Suc utf8_len_char_pos(2))
  moreover from n have "Suc n - utf8_len_char c = utf8_len p" "utf8_len_char c \<le> Suc n" by linarith+
  ultimately show ?case using Cons by simp
qed simp

lemma back_to_boundary_spec:
  "back_to_boundary s n \<le> n \<and> is_char_boundary s (back_to_boundary s n) \<and>
   (\<forall>m \<le> n. is_char_boundary s m \<longrightarrow> m \<le> back_to_boundary s n)"
  by (induction n) (auto simp: le_Suc_eq)

lemma truncate_spec:
  "\<exists>p. truncate_to_char_boundary s n = Some p \<and> utf8_len p \<le> n \<and> (\<exists>t. s = p @ t) \<and>
     (\<forall>q u. s = q @ u \<and> utf8_len q \<le> n \<longrightarrow> utf8_len q \<le> utf8_len p)"
proof (cases "utf8_len s \<le> n")
  case True
  then show ?thesis by (auto simp: truncate_to_char_boundary_def)
next
  case False
  let ?e = "back_to_boundary s n"
  obtain p where p: "slice_to s ?e = Some p"
    using back_to_boundary_spec [of s n] slice_to_boundary [of s ?e] by blast
  then have len: "utf8_len p = ?e" "\<exists>t. s = p @ t" using slice_to_Some by blast+
  have "utf8_len q \<le> utf8_len p" if "s = q @ u" "utf8_len q \<le> n" for q u
    using back_to_boundary_spec [of s n] boundary_prefix [of q u] that len(1) by simp
  then show ?thesis using False p len back_to_boundary_spec [of s n]
    by (intro exI [of _ p]) (auto simp: truncate_to_char_boundary_def min_def)
qed

lemma truncate_for_summary_Some: "\<exists>t. truncate_for_summary s n = Some t"
  using truncate_spec [of s n] by (auto simp: truncate_for_summary_def)


section \<open>Node reports\<close>

record DagExecutionProgress =
  p_completed :: completed_map
  p_started :: "ustring set"
  p_order :: "ustring list"
  p_first_failure :: "NodeRunResult option"

definition progress_of :: "sched_state \<Rightarrow> DagExecutionProgress" where
  "progress_of s =
     \<lparr>p_completed = s_completed s, p_started = s_started s, p_order = s_order s,
      p_first_failure = s_first_failure s\<rparr>"

record WorkflowExecutionNodeReport =
  rep_id :: ustring
  rep_node_status :: ustring
  rep_tool_name :: ustring
  rep_deps :: "ustring list"
  rep_requires_approval :: bool
  rep_timeout_secs :: "nat option"
  rep_compensate_with :: "ustring list"
  rep_output_preview :: ustring
  rep_node_workspace_changed :: bool
  rep_exit_code :: "int option"
  rep_error_code :: "ustring option"
  rep_planned_layer :: "nat option"
  rep_max_retries :: nat
  rep_attempt :: nat
  rep_executor_kind :: "ustring option"

record NodeReportsBundle =
  b_reports :: "WorkflowExecutionNodeReport list"
  b_passed :: nat
  b_failed :: nat
  b_skipped :: nat

text \<open>A slice never panics, so the previews are always texts (\<open>truncate_for_summary_Some\<close>).\<close>

definition preview :: "ustring \<Rightarrow> nat \<Rightarrow> ustring" where
  "preview s n = (case truncate_for_summary s n of Some t \<Rightarrow> t | None \<Rightarrow> [])"

definition mk_report ::
    "WorkflowNodeSpec \<Rightarrow> ustring \<Rightarrow> ustring \<Rightarrow> bool \<Rightarrow> int option \<Rightarrow> ustring option \<Rightarrow> nat \<Rightarrow>
     WorkflowExecutionNodeReport" where
  "mk_report n status output_preview changed exit_code error_code attempt =
     \<lparr>rep_id = node_id n, rep_node_status = status, rep_tool_name = node_tool_name n, rep_deps = node_deps n,
      rep_requires_approval = node_requires_approval n, rep_timeout_secs = node_timeout_secs n,
      rep_compensate_with = node_compensate_with n, rep_output_preview = output_preview,
      rep_node_workspace_changed = changed, rep_exit_code = exit_code, rep_error_code = error_code,
      rep_planned_layer = None, rep_max_retries = node_max_retries n, rep_attempt = attempt,
      rep_executor_kind =
        map_option (\<lambda>role. as_snake_case_str (as_plan_step_executor_kind role)) (node_tool_role n)\<rparr>"

definition count_status :: "NodeRunStatus \<Rightarrow> NodeReportsBundle \<Rightarrow> NodeReportsBundle" where
  "count_status st b =
     (case st of
        Passed \<Rightarrow> b\<lparr>b_passed := b_passed b + 1\<rparr>
      | Failed \<Rightarrow> b\<lparr>b_failed := b_failed b + 1\<rparr>
      | Skipped \<Rightarrow> b\<lparr>b_skipped := b_skipped b + 1\<rparr>)"

definition add_node_report ::
    "WorkflowSpec \<Rightarrow> DagExecutionProgress \<Rightarrow> NodeReportsBundle \<Rightarrow> WorkflowNodeSpec \<Rightarrow> NodeReportsBundle" where
  "add_node_report spec progress b n =
     (case p_completed progress (node_id n) of
        Some r \<Rightarrow>
          (count_status (res_status r) b)\<lparr>b_reports := b_reports b @
             [mk_report n (status_text (res_status r)) (preview (res_output r) (summary_preview_max_chars spec))
                (res_workspace_changed r) (res_exit_code r) (res_error_code r) (res_attempt r)]\<rparr>
      | None \<Rightarrow>
          if node_id n \<in> p_started progress
          then (count_status Failed b)\<lparr>b_reports := b_reports b @
                 [mk_report n (lit ''failed'') [] False None (Some (lit ''workflow_node_missing_result'')) 1]\<rparr>
          else (count_status Skipped b)\<lparr>b_reports := b_reports b @
                 [mk_report n (lit ''skipped'') [] False None None 1]\<rparr>)"

definition build_workflow_node_reports :: "WorkflowSpec \<Rightarrow> DagExecutionProgress \<Rightarrow> NodeReportsBundle" where
  "build_workflow_node_reports spec progress =
     foldl (add_node_report spec progress)
       \<lparr>b_reports = [], b_passed = 0, b_failed = 0, b_skipped = 0\<rparr> (spec_nodes spec)"

text \<open>The \<^verbatim>\<open>HashMap\<close> from id to node: on equal ids the later node wins.\<close>

definition nodes_by_id :: "WorkflowNodeSpec list \<Rightarrow> ustring \<rightharpoonup> WorkflowNodeSpec" where
  "nodes_by_id nodes = map_of (rev (map (\<lambda>n. (node_id n, n)) nodes))"

record WorkflowExecutionFirstFailureReport =
  ff_id :: ustring
  ff_tool :: ustring
  ff_first_line :: ustring

definition build_first_failure_report ::
    "(ustring \<rightharpoonup> WorkflowNodeSpec) \<Rightarrow> NodeRunResult \<Rightarrow> WorkflowExecutionFirstFailureReport" where
  "build_first_failure_report nodes f =
     \<lparr>ff_id = res_id f,
      ff_tool = (case nodes (res_id f) of Some n \<Rightarrow> node_tool_name n | None \<Rightarrow> []),
      ff_first_line = trim (first_line_or_empty (res_output f))\<rparr>"

section \<open>The text summary\<close>

definition tally_node ::
    "completed_map \<Rightarrow> ustring set \<Rightarrow> nat \<times> nat \<times> nat \<Rightarrow> WorkflowNodeSpec \<Rightarrow> nat \<times> nat \<times> nat" where
  "tally_node completed started t node =
     (case t of (passed, failed, skipped) \<Rightarrow>
        (case completed (node_id node) of
           Some r \<Rightarrow>
             (case res_status r of
                Passed \<Rightarrow> (passed + 1, failed, skipped)
              | Failed \<Rightarrow> (passed, failed + 1, skipped)
              | Skipped \<Rightarrow> (passed, failed, skipped + 1))
         | None \<Rightarrow> if node_id node \<in> started then (passed, failed + 1, skipped) else (passed, failed, skipped + 1)))"

definition tally_summary_stats :: "WorkflowSpec \<Rightarrow> completed_map \<Rightarrow> ustring set \<Rightarrow> nat \<times> nat \<times> nat" where
  "tally_summary_stats spec completed started =
     foldl (tally_node completed started) (0, 0, 0) (spec_nodes spec)"

text \<open>With \<open>status_debug\<close> the status word is printed with \<^verbatim>\<open>{:?}\<close>, i.e. in quotes.\<close>

definition append_node_result_line :: "ustring \<Rightarrow> NodeRunResult \<Rightarrow> nat \<Rightarrow> bool \<Rightarrow> ustring" where
  "append_node_result_line out r max_chars status_debug =
     out @ lit ''  - '' @ res_id r @ lit '': '' @
       (if status_debug then [34] @ status_text (res_status r) @ [34] else status_text (res_status r)) @ [10] @
       lit ''    output: '' @ preview (res_output r) max_chars @ [10]"

fun append_completion_order_lines ::
    "ustring \<Rightarrow> ustring list \<Rightarrow> completed_map \<Rightarrow> ustring set \<Rightarrow> nat \<Rightarrow> ustring \<times> ustring set" where
  "append_completion_order_lines out [] completed listed max_chars = (out, listed)"
| "append_completion_order_lines out (i # order) completed listed max_chars =
     (if i \<in> listed then append_completion_order_lines out order completed listed max_chars
      else append_completion_order_lines
             (case completed i of Some r \<Rightarrow> append_node_result_line out r max_chars True | None \<Rightarrow> out)
             order completed (insert i listed) max_chars)"

fun append_remaining_node_lines ::
    "ustring \<Rightarrow> WorkflowNodeSpec list \<Rightarrow> completed_map \<Rightarrow> ustring set \<Rightarrow> nat \<Rightarrow> ustring" where
  "append_remaining_node_lines out [] completed listed max_chars = out"
| "append_remaining_node_lines out (node # nodes) completed listed max_chars =
     append_remaining_node_lines
       (if node_id node \<in> listed then out
        else (case completed (node_id node) of
                Some r \<Rightarrow> append_node_result_line out r max_chars False
              | None \<Rightarrow> out @ lit ''  - '' @ node_id node @ lit '': skipped'' @ [10]))
       nodes completed listed max_chars"

definition show_bool :: "bool \<Rightarrow> ustring" where
  "show_bool b = (if b then lit ''true'' else lit ''false'')"

definition status_word :: "NodeRunResult option \<Rightarrow> ustring" where
  "status_word first_failure = (if first_failure \<noteq> None then lit ''failed'' else lit ''passed'')"

definition format_main_summary ::
    "WorkflowSpec \<Rightarrow> completed_map \<Rightarrow> ustring set \<Rightarrow> ustring list \<Rightarrow> NodeRunResult option \<Rightarrow> ustring" where
  "format_main_summary spec completed started completion_order first_failure =
     (case tally_summary_stats spec completed started of (passed, failed, skipped) \<Rightarrow>
        (let head =
               lit ''workflow_execute summary:'' @ [10] @
               lit ''- status: '' @ status_word first_failure @ [10] @
               lit ''- max_parallelism: '' @ show_nat (max_parallelism spec) @ [10] @
               lit ''- fail_fast: '' @ show_bool (fail_fast spec) @ [10] @
               lit ''- compensate_on_failure: '' @ show_bool (compensate_on_failure spec) @ [10] @
               lit ''- stats: passed='' @ show_nat passed @ lit '', failed='' @ show_nat failed @
               lit '', skipped='' @ show_nat skipped @ [10] @
               lit ''- node results:'' @ [10];
             (out1, listed) = append_completion_order_lines head completion_order completed {}
               (summary_preview_max_chars spec);
             out2 = append_remaining_node_lines out1 (spec_nodes spec) completed listed
               (summary_preview_max_chars spec) in
         case first_failure of
           Some f \<Rightarrow> out2 @ [10] @ [39318, 20010, 22833, 36133, 33410, 28857, 65306] @ res_id f @ ([65288] @ lit ''tool='') @
             first_line_or_empty (res_output f) @ [65289] @ [10]
         | None \<Rightarrow> out2))"

section \<open>Compensation\<close>

definition compensation_panic_result :: "ustring \<Rightarrow> ustring option \<Rightarrow> NodeRunResult" where
  "compensation_panic_result comp_id payload =
     failed_result comp_id
       (case payload of Some m \<Rightarrow> ([34917, 20607, 33410, 28857] @ lit '' panic'' @ [65306]) @ m | None \<Rightarrow> ([34917, 20607, 33410, 28857] @ lit '' panic'' @ [65288, 21407, 22240, 26410, 30693, 65289]))
       (lit ''workflow_node_panic'') 1"

text \<open>
  \<open>panics\<close> says whether the future of a compensation node panics, in which state it leaves the world
  and with which payload.  A panic of the engine's own \<^verbatim>\<open>expect\<close> would be caught here as well.
\<close>

type_synonym panic_oracle = "node_world \<Rightarrow> ustring \<Rightarrow> (node_world \<times> ustring option) option"

definition run_compensation_node_safe ::
    "node_env \<Rightarrow> panic_oracle \<Rightarrow> node_world \<Rightarrow> ustring \<Rightarrow> WorkflowNodeSpec \<Rightarrow> WorkflowApprovalMode \<Rightarrow>
     WorkflowToolExecCtx \<Rightarrow> completed_map \<Rightarrow> nat \<Rightarrow> node_world \<times> NodeRunResult" where
  "run_compensation_node_safe env panics w comp_id node mode ctx completed inject_max_chars =
     (case panics w comp_id of
        Some (w', payload) \<Rightarrow> (w', compensation_panic_result comp_id payload)
      | None \<Rightarrow>
          (case run_node env w node mode ctx completed inject_max_chars (lit ''compensation'') of
             (w', Some r) \<Rightarrow> (w', r)
           | (w', None) \<Rightarrow> (w', compensation_panic_result comp_id
               (Some (lit ''workflow node must produce at least one attempt result'')))))"

fun push_new :: "ustring list \<Rightarrow> ustring list \<Rightarrow> ustring list" where
  "push_new acc [] = acc"
| "push_new acc (c # cs) = push_new (if c \<in> set acc then acc else acc @ [c]) cs"

text \<open>The set \<^verbatim>\<open>seen\<close> of the source holds exactly the ids collected so far.\<close>

fun collect_loop ::
    "(ustring \<rightharpoonup> WorkflowNodeSpec) \<Rightarrow> completed_map \<Rightarrow> ustring list \<Rightarrow> ustring list \<Rightarrow> ustring list" where
  "collect_loop nodes completed acc [] = acc"
| "collect_loop nodes completed acc (i # order) =
     (if completed i = None then collect_loop nodes completed acc order
      else case nodes i of
             Some n \<Rightarrow> collect_loop nodes completed (push_new acc (node_compensate_with n)) order
           | None \<Rightarrow> collect_loop nodes completed acc order)"

definition collect_compensation_ids ::
    "(ustring \<rightharpoonup> WorkflowNodeSpec) \<Rightarrow> ustring list \<Rightarrow> completed_map \<Rightarrow> ustring list" where
  "collect_compensation_ids nodes completion_order completed =
     collect_loop nodes completed [] (rev completion_order)"

text \<open>The accumulators: the text, whether one failed, whether one changed the workspace.\<close>

type_synonym compensation_acc = "ustring \<times> bool \<times> bool"

definition append_compensation_outcome ::
    "compensation_acc \<Rightarrow> WorkflowSpec \<Rightarrow> ustring \<Rightarrow> NodeRunResult \<Rightarrow> compensation_acc" where
  "append_compensation_outcome acc spec comp_id res =
     (case acc of (out, any_failed, any_changed) \<Rightarrow>
        (let changed = any_changed \<or> res_workspace_changed res in
         if res_status res = Passed
         then (out @ lit ''- '' @ comp_id @ lit '': passed'' @ [10], any_failed, changed)
         else (out @ lit ''- '' @ comp_id @ lit '': failed'' @ [10] @ lit ''    output: '' @
                 preview (res_output res) (compensation_preview_max_chars spec) @ [10], True, changed)))"

fun compensation_loop ::
    "node_env \<Rightarrow> panic_oracle \<Rightarrow> WorkflowSpec \<Rightarrow> (ustring \<rightharpoonup> WorkflowNodeSpec) \<Rightarrow> completed_map \<Rightarrow>
     WorkflowApprovalMode \<Rightarrow> WorkflowToolExecCtx \<Rightarrow> node_world \<Rightarrow> compensation_acc \<Rightarrow> ustring list \<Rightarrow>
     node_world \<times> compensation_acc" where
  "compensation_loop env panics spec nodes completed mode ctx w acc [] = (w, acc)"
| "compensation_loop env panics spec nodes completed mode ctx w acc (comp_id # rest) =
     (case nodes comp_id of
        None \<Rightarrow>
          (case acc of (out, any_failed, any_changed) \<Rightarrow>
             compensation_loop env panics spec nodes completed mode ctx w
               (out @ lit ''- '' @ comp_id @ (lit '': '' @ [22833, 36133, 65288, 25214, 19981, 21040, 33410, 28857, 23450, 20041, 65289]) @ [10], True, any_changed) rest)
      | Some n \<Rightarrow>
          (case run_compensation_node_safe env panics w comp_id n mode ctx completed (output_inject_max_chars spec) of
             (w', res) \<Rightarrow>
               compensation_loop env panics spec nodes completed mode ctx w'
                 (append_compensation_outcome acc spec comp_id res) rest))"

definition execute_compensations ::
    "node_env \<Rightarrow> panic_oracle \<Rightarrow> node_world \<Rightarrow> WorkflowSpec \<Rightarrow> (ustring \<rightharpoonup> WorkflowNodeSpec) \<Rightarrow>
     ustring list \<Rightarrow> completed_map \<Rightarrow> WorkflowApprovalMode \<Rightarrow> WorkflowToolExecCtx \<Rightarrow>
     node_world \<times> ustring \<times> bool" where
  "execute_compensations env panics w spec nodes completion_order completed mode ctx =
     (let compensation_ids = collect_compensation_ids nodes completion_order completed in
      if compensation_ids = [] then (w, [26080, 34917, 20607, 33410, 28857], False)
      else
        (case compensation_loop env panics spec nodes completed mode ctx w
                ([23558, 25191, 34892, 34917, 20607, 33410, 28857, 65288, 39034, 24207, 65306, 36870, 24207, 25910, 38598, 65289, 65306] @ join (lit '', '') compensation_ids @ [10], False, False)
                compensation_ids of
           (w', out, any_failed, any_changed) \<Rightarrow>
             (w', (if any_failed then out @ [10] @ [34917, 20607, 25191, 34892, 23384, 22312, 22833, 36133, 65288, 38656, 35201, 20154, 24037, 20171, 20837, 30830, 35748, 19968, 33268, 24615, 65289, 12290] else out),
              any_changed)))"

definition dag_event ::
    "WorkflowToolExecCtx \<Rightarrow> ustring \<Rightarrow> ustring option \<Rightarrow> ustring option \<Rightarrow> ustring option \<Rightarrow> WorkflowTraceEvent" where
  "dag_event ctx event detail status phase =
     \<lparr>ev_workflow_run_id = ctx_workflow_run_id ctx, ev_event = event, ev_node_id = None, ev_detail = detail,
      ev_attempt = None, ev_status = status, ev_error_code = None, ev_tool_name = None, ev_phase = phase\<rparr>"

definition workflow_compensation_and_human_summary ::
    "node_env \<Rightarrow> panic_oracle \<Rightarrow> node_world \<Rightarrow> WorkflowSpec \<Rightarrow> (ustring \<rightharpoonup> WorkflowNodeSpec) \<Rightarrow>
     DagExecutionProgress \<Rightarrow> ustring \<Rightarrow> WorkflowApprovalMode \<Rightarrow> WorkflowToolExecCtx \<Rightarrow>
     node_world \<times> ustring \<times> bool \<times> ustring option \<times> bool" where
  "workflow_compensation_and_human_summary env panics w spec nodes progress main_summary mode ctx =
     (if p_first_failure progress = None then (w, main_summary, False, None, False)
      else if \<not> compensate_on_failure spec
      then (w, main_summary @ [10, 10] @ ([34917, 20607, 24050, 36339, 36807, 65288] @ lit ''compensate_on_failure=false'' @ [65289]), False, None, False)
      else
        (case execute_compensations env panics
                (workflow_trace_push w (dag_event ctx (lit ''compensation_phase_start'') None None (Some (lit ''compensation''))))
                spec nodes (p_order progress) (p_completed progress) mode ctx of
           (w', s, changed) \<Rightarrow>
             (workflow_trace_push w' (dag_event ctx (lit ''compensation_phase_end'') None None (Some (lit ''compensation''))),
              main_summary @ [10, 10] @ lit ''===================='' @ [10, 10] @ [34917, 20607, 25191, 34892, 32467, 26524, 65306] @ [10] @ s,
              changed, Some s, True)))"

section \<open>The whole run\<close>

record WorkflowExecutionReport =
  rep_type :: ustring
  rep_workflow_run_id :: nat
  rep_status :: ustring
  rep_workspace_changed :: bool
  rep_spec :: Value
  rep_passed :: nat
  rep_failed :: nat
  rep_skipped :: nat
  rep_nodes :: "WorkflowExecutionNodeReport list"
  rep_first_failure :: "WorkflowExecutionFirstFailureReport option"
  rep_compensation_executed :: bool
  rep_compensation_summary :: "ustring option"
  rep_trace :: "WorkflowTraceEvent list"
  rep_completion_order :: "ustring list"
  rep_human_summary :: ustring
  rep_chrome_trace_path :: "ustring option"

definition dag_start :: "WorkflowSpec \<Rightarrow> WorkflowToolExecCtx \<Rightarrow> node_world \<Rightarrow> node_world" where
  "dag_start spec ctx w =
     workflow_trace_push (w\<lparr>w_trace := []\<rparr>) (dag_event ctx (lit ''dag_start'')
       (Some (lit ''nodes_count='' @ show_nat (length (spec_nodes spec)) @
          lit '' max_parallelism='' @ show_nat (max_parallelism spec) @
          lit '' fail_fast='' @ show_bool (fail_fast spec) @
          lit '' compensate_on_failure='' @ show_bool (compensate_on_failure spec))) None None)"

definition main_phase_changed :: "DagExecutionProgress \<Rightarrow> bool" where
  "main_phase_changed progress \<longleftrightarrow> (\<exists>r \<in> ran (p_completed progress). res_workspace_changed r)"

definition report_spec_json :: "WorkflowSpec \<Rightarrow> Value" where
  "report_spec_json spec = Object (obj_of
     [(lit ''max_parallelism'', Number (PosInt (max_parallelism spec))),
      (lit ''fail_fast'', Bool (fail_fast spec)),
      (lit ''compensate_on_failure'', Bool (compensate_on_failure spec)),
      (lit ''output_inject_max_chars'', Number (PosInt (output_inject_max_chars spec))),
      (lit ''nodes_count'', Number (PosInt (length (spec_nodes spec)))),
      (lit ''planned_layer_count'', Number (PosInt (cached_layer_count spec)))])"

text \<open>What \<^verbatim>\<open>execute_workflow_dag\<close> does once the scheduler has returned \<open>progress\<close> in world \<open>w\<close>.\<close>

definition finish_workflow_dag ::
    "node_env \<Rightarrow> panic_oracle \<Rightarrow> (WorkflowTraceEvent list \<Rightarrow> ustring option) \<Rightarrow> node_world \<Rightarrow> WorkflowSpec \<Rightarrow>
     WorkflowApprovalMode \<Rightarrow> WorkflowToolExecCtx \<Rightarrow> DagExecutionProgress \<Rightarrow> WorkflowExecutionReport \<times> bool" where
  "finish_workflow_dag env panics chrome w spec mode ctx progress =
     (let nodes = nodes_by_id (spec_nodes spec);
          workspace_changed = main_phase_changed progress;
          main_summary = format_main_summary spec (p_completed progress) (p_started progress)
            (p_order progress) (p_first_failure progress);
          status = status_word (p_first_failure progress);
          bundle = build_workflow_node_reports spec progress in
      case workflow_compensation_and_human_summary env panics w spec nodes progress main_summary mode ctx of
        (w', human_summary, comp_changed, comp_summary, comp_executed) \<Rightarrow>
          (let w'' = workflow_trace_push w' (dag_event ctx (lit ''dag_end'')
                 (Some (lit ''status='' @ status @ lit '' passed='' @ show_nat (b_passed bundle) @
                    lit '' failed='' @ show_nat (b_failed bundle) @ lit '' skipped='' @ show_nat (b_skipped bundle)))
                 (Some status) None) in
           (\<lparr>rep_type = lit ''workflow_execute_result'', rep_workflow_run_id = ctx_workflow_run_id ctx,
             rep_status = status, rep_workspace_changed = workspace_changed \<or> comp_changed,
             rep_spec = report_spec_json spec, rep_passed = b_passed bundle, rep_failed = b_failed bundle,
             rep_skipped = b_skipped bundle, rep_nodes = b_reports bundle,
             rep_first_failure = map_option (build_first_failure_report nodes) (p_first_failure progress),
             rep_compensation_executed = comp_executed, rep_compensation_summary = comp_summary,
             rep_trace = w_trace w'', rep_completion_order = p_order progress,
             rep_human_summary = human_summary, rep_chrome_trace_path = chrome (w_trace w'')\<rparr>,
            workspace_changed)))"

text \<open>
  The possible outcomes of \<^verbatim>\<open>execute_workflow_dag\<close>: the trace buffer is created with its first event,
  the scheduler runs to its end in some order while it and the nodes append to the shared trace,
  and the rest follows.
\<close>

definition execute_workflow_dag ::
    "node_env \<Rightarrow> panic_oracle \<Rightarrow> (WorkflowTraceEvent list \<Rightarrow> ustring option) \<Rightarrow> sched_env \<Rightarrow> node_world \<Rightarrow>
     WorkflowSpec \<Rightarrow> WorkflowApprovalMode \<Rightarrow> WorkflowToolExecCtx \<Rightarrow> WorkflowExecutionReport \<times> bool \<Rightarrow> bool" where
  "execute_workflow_dag env panics chrome se w0 spec mode ctx out \<longleftrightarrow>
     (\<exists>s w evs. reachable se spec (node_outcome env mode ctx (output_inject_max_chars spec)) s \<and>
        s_phase s = Finished \<and> w_trace w = w_trace (dag_start spec ctx w0) @ evs \<and>
        out = finish_workflow_dag env panics chrome w spec mode ctx (progress_of s))"

section \<open>Lemmas\<close>

lemma push_new_append: "push_new acc (xs @ ys) = push_new (push_new acc xs) ys"
  by (induction xs arbitrary: acc) auto

lemma push_new_set [simp]: "set (push_new acc xs) = set acc \<union> set xs"
  by (induction xs arbitrary: acc) auto

lemma push_new_first: "push_new [] xs = rev (remdups (rev xs))"
  by (induction xs rule: rev_induct) (auto simp: push_new_append)

lemma collect_loop_eq:
  "collect_loop nodes completed acc order = push_new acc (concat (map (\<lambda>i. case nodes i of
     Some n \<Rightarrow> node_compensate_with n | None \<Rightarrow> []) (filter (\<lambda>i. completed i \<noteq> None) order)))"
  by (induction order arbitrary: acc) (auto simp: push_new_append split: option.splits)

lemma nodes_by_id_Some: "nodes_by_id nodes i = Some n \<Longrightarrow> node_id n = i \<and> n \<in> set nodes"
  unfolding nodes_by_id_def by (drule map_of_SomeD) auto

lemma nodes_by_id_None: "nodes_by_id nodes i = None \<longleftrightarrow> i \<notin> node_id ` set nodes"
  by (auto simp: nodes_by_id_def map_of_eq_None_iff image_image)

lemma count_status_simps [simp]:
  "b_reports (count_status st b) = b_reports b"
  "b_passed (count_status st b) = b_passed b + (if st = Passed then 1 else 0)"
  "b_failed (count_status st b) = b_failed b + (if st = Failed then 1 else 0)"
  "b_skipped (count_status st b) = b_skipped b + (if st = Skipped then 1 else 0)"
  by (cases st; simp add: count_status_def)+

text \<open>The status a node is counted under, in both summaries.\<close>

definition counted_status :: "DagExecutionProgress \<Rightarrow> WorkflowNodeSpec \<Rightarrow> NodeRunStatus" where
  "counted_status progress n =
     (case p_completed progress (node_id n) of
        Some r \<Rightarrow> res_status r
      | None \<Rightarrow> if node_id n \<in> p_started progress then Failed else Skipped)"

definition count_as :: "DagExecutionProgress \<Rightarrow> NodeRunStatus \<Rightarrow> WorkflowNodeSpec list \<Rightarrow> nat" where
  "count_as progress st nodes = length (filter (\<lambda>n. counted_status progress n = st) nodes)"

lemma add_node_report_counts:
  "b_passed (add_node_report spec p b n) = b_passed b + count_as p Passed [n]"
  "b_failed (add_node_report spec p b n) = b_failed b + count_as p Failed [n]"
  "b_skipped (add_node_report spec p b n) = b_skipped b + count_as p Skipped [n]"
  by (simp_all add: add_node_report_def counted_status_def count_as_def split: option.split)

lemma count_as_Cons: "count_as p st (n # ns) = count_as p st [n] + count_as p st ns"
  by (simp add: count_as_def)

lemma count_as_Nil [simp]: "count_as p st [] = 0"
  by (simp add: count_as_def)

lemma fold_reports_counts:
  "b_passed (foldl (add_node_report spec p) b ns) = b_passed b + count_as p Passed ns \<and>
   b_failed (foldl (add_node_report spec p) b ns) = b_failed b + count_as p Failed ns \<and>
   b_skipped (foldl (add_node_report spec p) b ns) = b_skipped b + count_as p Skipped ns"
proof (induction ns arbitrary: b)
  case (Cons n ns)
  then show ?case by (simp add: add_node_report_counts count_as_Cons [of p _ n ns])
qed simp

lemma fold_reports_reports:
  "\<exists>rs. b_reports (foldl (add_node_report spec p) b ns) = b_reports b @ rs \<and> map rep_id rs = ids ns \<and>
     (\<forall>rep \<in> set rs. \<exists>n \<in> set ns. rep_id rep = node_id n \<and>
        rep_node_status rep = status_text (counted_status p n) \<and>
        (\<forall>r. p_completed p (node_id n) = Some r \<longrightarrow> rep_error_code rep = res_error_code r))"
proof (induction ns arbitrary: b)
  case (Cons n ns)
  obtain rep where rep: "b_reports (add_node_report spec p b n) = b_reports b @ [rep]" "rep_id rep = node_id n"
    "rep_node_status rep = status_text (counted_status p n)"
    "\<forall>r. p_completed p (node_id n) = Some r \<longrightarrow> rep_error_code rep = res_error_code r"
    by (cases "p_completed p (node_id n)"; cases "node_id n \<in> p_started p")
      (auto simp: add_node_report_def counted_status_def mk_report_def intro: that)
  obtain rs where rs: "b_reports (foldl (add_node_report spec p) (add_node_report spec p b n) ns) =
      b_reports (add_node_report spec p b n) @ rs" "map rep_id rs = ids ns"
    "\<forall>rep \<in> set rs. \<exists>n \<in> set ns. rep_id rep = node_id n \<and>
        rep_node_status rep = status_text (counted_status p n) \<and>
        (\<forall>r. p_completed p (node_id n) = Some r \<longrightarrow> rep_error_code rep = res_error_code r)"
    using Cons.IH by meson
  show ?case using rep rs by (intro exI [of _ "rep # rs"]) auto
qed simp

lemma tally_fold:
  "foldl (tally_node (p_completed p) (p_started p)) (a, b, c) ns =
     (a + count_as p Passed ns, b + count_as p Failed ns, c + count_as p Skipped ns)"
proof (induction ns arbitrary: a b c)
  case (Cons n ns)
  have "tally_node (p_completed p) (p_started p) (a, b, c) n =
      (a + count_as p Passed [n], b + count_as p Failed [n], c + count_as p Skipped [n])"
    by (simp add: tally_node_def counted_status_def count_as_def split: option.split NodeRunStatus.split)
  then show ?case by (simp add: Cons.IH count_as_Cons [of p _ n ns])
qed simp

lemma count_as_sum: "count_as p Passed ns + count_as p Failed ns + count_as p Skipped ns = length ns"
proof (induction ns)
  case (Cons n ns)
  have "count_as p Passed [n] + count_as p Failed [n] + count_as p Skipped [n] = 1"
    by (cases "counted_status p n") (simp_all add: count_as_def)
  then show ?case using Cons by (simp add: count_as_Cons [of p _ n ns])
qed simp

text \<open>The nodes of the specification stay active in every state.\<close>

lemma schedule_node_active: "s_active (schedule_node env s n) = s_active s"
  by (simp add: schedule_node_def mark_run_if_skipped_def split: NodeScheduleDecision.split)

lemma fail_fast_skip_active: "s_active (fail_fast_skip env s n) = s_active s"
  by (simp add: fail_fast_skip_def mark_missing_def)

lemma mark_missing_active: "s_active (mark_missing mk s n) = s_active s"
  by (simp add: mark_missing_def)

lemma handle_empty_active: "s_active (fst (dag_handle_empty_inflight env spec s)) = s_active s"
  by (simp add: dag_handle_empty_inflight_def dag_mark_remaining_nodes_fail_fast_skipped_def mark_livelock_def
      Let_def foldl_keeps [of s_active, OF fail_fast_skip_active] foldl_keeps [of s_active, OF mark_missing_active])

lemma loop_round_active: "s_active (loop_round env spec s) = s_active (expand_round env s)"
proof -
  have "s_active (schedule_pass env spec (expand_round env s)) = s_active (expand_round env s)"
    by (simp add: schedule_pass_def foldl_keeps [of s_active, OF schedule_node_active])
  then show ?thesis
    using handle_empty_active [of env spec "schedule_pass env spec (expand_round env s)"]
    by (auto simp: loop_round_def Let_def split: prod.splits)
qed

lemma active_keeps_spec:
  assumes "reachable se spec outcome s"
  shows "set (spec_nodes spec) \<subseteq> set (s_active s)"
  using assms unfolding reachable_def
proof (induction rule: rtranclp_induct)
  case base
  then show ?case by (simp add: sched_init_def)
next
  case (step s t)
  from step.hyps(2) have "set (s_active s) \<subseteq> set (s_active t)"
  proof cases
    case round
    then show ?thesis by (simp add: loop_round_active expand_round_active)
  qed (auto simp: dag_record_node_completion_def)
  then show ?case using step.IH by blast
qed

section \<open>Properties\<close>

text \<open>
  Compensation is exact.  In every reachable state of the scheduler, the ids collected for
  compensation are the compensations of the passed nodes of the specification, listed from the node
  that passed last to the one that passed first, each id at its first place only; nothing else is
  compensated.
\<close>

theorem compensation_exact:
  assumes "reachable se spec (node_outcome env mode ctx k) s"
  shows "collect_compensation_ids (nodes_by_id (spec_nodes spec)) (s_order s) (s_completed s) =
      rev (remdups (rev (concat (map (\<lambda>i. case nodes_by_id (spec_nodes spec) i of
        Some n \<Rightarrow> node_compensate_with n | None \<Rightarrow> []) (rev (s_order s)))))) \<and>
    set (collect_compensation_ids (nodes_by_id (spec_nodes spec)) (s_order s) (s_completed s)) =
      {c. \<exists>n r. nodes_by_id (spec_nodes spec) (node_id n) = Some n \<and> c \<in> set (node_compensate_with n) \<and>
         s_completed s (node_id n) = Some r \<and> res_status r = Passed}"
proof -
  let ?nodes = "nodes_by_id (spec_nodes spec)"
  let ?c = "\<lambda>i. case ?nodes i of Some n \<Rightarrow> node_compensate_with n | None \<Rightarrow> []"
  have order: "set (s_order s) = passed_ids (s_completed s)"
    using exec.reachable_inv [OF assms] by (simp add: sched_inv_def book_inv_def)
  have "filter (\<lambda>i. s_completed s i \<noteq> None) (rev (s_order s)) = rev (s_order s)"
    using order by (auto simp: passed_ids_def filter_id_conv)
  then have eq: "collect_compensation_ids ?nodes (s_order s) (s_completed s) =
      push_new [] (concat (map ?c (rev (s_order s))))"
    by (simp add: collect_compensation_ids_def collect_loop_eq)
  have "c \<in> set (?c i) \<longleftrightarrow> (\<exists>n. ?nodes i = Some n \<and> node_id n = i \<and> c \<in> set (node_compensate_with n))" for c i
    using nodes_by_id_Some [of "spec_nodes spec" i] by (cases "?nodes i") auto
  then have "set (concat (map ?c (rev (s_order s)))) =
      {c. \<exists>i \<in> passed_ids (s_completed s). \<exists>n. ?nodes i = Some n \<and> node_id n = i \<and> c \<in> set (node_compensate_with n)}"
    using order by auto
  then show ?thesis using eq by (auto simp: push_new_first passed_ids_def)
qed

theorem compensation_exact_witness:
  "collect_compensation_ids (nodes_by_id (spec_nodes chain_spec)) (s_order (sched_init chain_spec))
     (s_completed (sched_init chain_spec)) = []"
proof -
  have "reachable sample_se chain_spec (node_outcome sample_env NoApproval sample_ctx 10) (sched_init chain_spec)"
    by (simp add: reachable_def)
  from compensation_exact [OF this] show ?thesis by (simp add: sched_init_def)
qed



text \<open>
  Previews are cut safely.  Cutting a text at a byte limit never slices inside a character; the
  result is the longest prefix of whole characters within the limit, followed by the truncation mark
  of twelve bytes exactly when something was cut off.
\<close>

theorem preview_longest_prefix:
  "\<exists>p t. s = p @ t \<and> utf8_len p \<le> n \<and>
     truncate_for_summary s n = Some (if t = [] then p else p @ (lit ''... ('' @ [25130, 26029] @ lit '')'')) \<and>
     utf8_len (lit ''... ('' @ [25130, 26029] @ lit '')'') = 12 \<and>
     (\<forall>q u. s = q @ u \<and> utf8_len q \<le> n \<longrightarrow> length q \<le> length p)"
proof -
  obtain p t where p: "truncate_to_char_boundary s n = Some p" "utf8_len p \<le> n" "s = p @ t"
    "\<And>q u. s = q @ u \<Longrightarrow> utf8_len q \<le> n \<Longrightarrow> utf8_len q \<le> utf8_len p"
    using truncate_spec [of s n] by blast
  have mark: "utf8_len (lit ''... ('' @ [25130, 26029] @ lit '')'') = 12" by (simp add: lit_Cons utf8_len_char_def)
  have len: "length q \<le> length p" if q: "s = q @ u" "utf8_len q \<le> n" for q u
  proof (rule ccontr)
    assume "\<not> length q \<le> length p"
    then obtain v where "q = p @ v" "v \<noteq> []" using p(3) q(1) by (auto simp: append_eq_append_conv2)
    then show False using p(4) [OF q] by (cases v) auto
  qed
  have cut: "t = [] \<longleftrightarrow> utf8_len s \<le> n"
  proof
    assume "t = []" then show "utf8_len s \<le> n" using p by simp
  next
    assume "utf8_len s \<le> n"
    then show "t = []" using p(3) len [of s "[]"] by simp
  qed
  show ?thesis
    using p mark len cut by (intro exI [of _ p] exI [of _ t]) (auto simp: truncate_for_summary_def)
qed

theorem preview_longest_prefix_witness:
  "\<exists>p t. [20320, 22909] = p @ t \<and> utf8_len p \<le> 4 \<and>
     truncate_for_summary [20320, 22909] 4 = Some (if t = [] then p else p @ (lit ''... ('' @ [25130, 26029] @ lit '')''))"
  using preview_longest_prefix [of "[20320, 22909]" 4] by blast

text \<open>
  A change made by a compensation is lost in the returned flag.  The report says that the
  workspace changed when a node of the main phase or a compensation changed it; the flag returned
  next to the report only covers the main phase.  In the run below a failed build is compensated by
  building again, which succeeds: the report says changed, the flag says unchanged.
\<close>

definition rebuild_env :: node_env where
  "rebuild_env = sample_env\<lparr>env_run_async := (\<lambda>n inv. \<lparr>tr_ok = True, tr_exit_code = Some 0, tr_message = [],
     tr_stdout = [], tr_stderr = [], tr_error_code = None\<rparr>), env_is_compile_success := (\<lambda>a m. True)\<rparr>"

definition rebuild_spec :: WorkflowSpec where
  "rebuild_spec = sample_spec
     [(mk_node (lit ''a'') (lit ''t'') [])\<lparr>node_compensate_with := [lit ''b'']\<rparr>, mk_node (lit ''b'') RUN_COMMAND []]"

definition rebuild_progress :: DagExecutionProgress where
  "rebuild_progress =
     \<lparr>p_completed = [lit ''a'' \<mapsto> \<lparr>res_id = lit ''a'', res_status = Passed, res_output = [],
         res_workspace_changed = False, res_exit_code = None, res_error_code = None, res_attempt = 1\<rparr>,
        lit ''b'' \<mapsto> failed_result (lit ''b'') [] (lit ''timeout'') 1],
      p_started = {lit ''a'', lit ''b''}, p_order = [lit ''a''],
      p_first_failure = Some (failed_result (lit ''b'') [] (lit ''timeout'') 1)\<rparr>"

theorem returned_flag_misses_compensation:
  "case finish_workflow_dag rebuild_env (\<lambda>w i. None) (\<lambda>t. None) sample_world rebuild_spec NoApproval sample_ctx
      rebuild_progress of
     (report, workspace_changed) \<Rightarrow> rep_workspace_changed report \<and> \<not> workspace_changed"
proof -
  have nodes: "nodes_by_id (spec_nodes rebuild_spec) (lit ''b'') = Some (mk_node (lit ''b'') RUN_COMMAND [])"
    "nodes_by_id (spec_nodes rebuild_spec) (lit ''a'') =
       Some ((mk_node (lit ''a'') (lit ''t'') [])\<lparr>node_compensate_with := [lit ''b'']\<rparr>)"
    by (simp_all add: nodes_by_id_def rebuild_spec_def sample_spec_def mk_node_def)
  have ids: "collect_compensation_ids (nodes_by_id (spec_nodes rebuild_spec)) (p_order rebuild_progress)
      (p_completed rebuild_progress) = [lit ''b'']"
    by (simp add: collect_compensation_ids_def rebuild_progress_def nodes)
  have main: "\<not> main_phase_changed rebuild_progress"
    by (auto simp: main_phase_changed_def rebuild_progress_def ran_def failed_result_def split: if_splits)
  have changed: "res_workspace_changed (snd (run_compensation_node_safe rebuild_env (\<lambda>w i. None) w (lit ''b'')
      (mk_node (lit ''b'') RUN_COMMAND []) NoApproval sample_ctx completed n))" for w completed n
    by (simp add: run_compensation_node_safe_def run_node_def run_node_inner_def Let_def sample_ctx_def
        workflow_node_workspace_failure_if_unset_def apply_run_command_allowlist_approvals_def mk_node_def
        apply_generic_workflow_node_approval_def run_workflow_node_tool_with_retries_def max_attempts_of_def
        u32_max_def execute_node_tool_phase_def rebuild_env_def inject_placeholders_def
        split: prod.splits option.splits)
  have comp: "snd (snd (execute_compensations rebuild_env (\<lambda>w i. None) w rebuild_spec (nodes_by_id (spec_nodes rebuild_spec))
      (p_order rebuild_progress) (p_completed rebuild_progress) NoApproval sample_ctx))" for w
  proof -
    obtain w' r where run: "run_compensation_node_safe rebuild_env (\<lambda>w i. None) w (lit ''b'')
        (mk_node (lit ''b'') RUN_COMMAND []) NoApproval sample_ctx (p_completed rebuild_progress)
        (output_inject_max_chars rebuild_spec) = (w', r)"
      by (rule prod.exhaust)
    then show ?thesis
      using changed [of w "p_completed rebuild_progress" "output_inject_max_chars rebuild_spec"]
      by (simp add: execute_compensations_def ids nodes append_compensation_outcome_def Let_def)
  qed
  obtain w1 out c where run: "execute_compensations rebuild_env (\<lambda>w i. None)
      (workflow_trace_push sample_world (dag_event sample_ctx (lit ''compensation_phase_start'') None None (Some (lit ''compensation''))))
      rebuild_spec (nodes_by_id (spec_nodes rebuild_spec)) (p_order rebuild_progress) (p_completed rebuild_progress)
      NoApproval sample_ctx = (w1, out, c)"
    by (rule prod_cases3)
  then have c using comp [of "workflow_trace_push sample_world (dag_event sample_ctx (lit ''compensation_phase_start'')
      None None (Some (lit ''compensation'')))"] by simp
  moreover have "p_first_failure rebuild_progress \<noteq> None" "compensate_on_failure rebuild_spec"
    by (simp_all add: rebuild_progress_def rebuild_spec_def sample_spec_def)
  ultimately show ?thesis
    using main run by (auto simp: finish_workflow_dag_def workflow_compensation_and_human_summary_def Let_def)
qed

lemma workflow_outcome_exists: "\<exists>out. execute_workflow_dag env panics chrome se w0 spec mode ctx out"
proof -
  let ?out = "node_outcome env mode ctx (output_inject_max_chars spec)"
  have "reachable se spec ?out (sched_init spec)" by (simp add: reachable_def)
  from exec.always_finishes [OF exec.reachable_inv [OF this]] obtain s where
    "(sched_step se spec ?out)\<^sup>*\<^sup>* (sched_init spec) s" "s_phase s = Finished" by blast
  then show ?thesis unfolding execute_workflow_dag_def reachable_def by blast
qed



end
