(* ===== verification/Workflow_Parse.thy ===== *)
theory Workflow_Parse
  imports Workflow_Dag Workflow_Expr
begin

text \<open>
  From the JSON arguments of \<^verbatim>\<open>workflow_execute\<close> to a specification: \<^verbatim>\<open>src/cm_workflow/parse.rs\<close>, the parser
  of conditions (\<^verbatim>\<open>run_if.rs\<close>), the built-in templates (\<^verbatim>\<open>workflow_templates.rs\<close>) and the check of tool
  names (\<^verbatim>\<open>tool_name_check.rs\<close>).  The error texts of the source are constructors of \<open>workflow_error\<close> with the
  values that the texts show.  The table of registered tools is a parameter.

  Shown here: a parsed node has the fields its JSON object says, retries are capped, templates
  parse to well-formed graphs, an overlay replaces the template's keys and nothing else, and the
  check of tool names covers the nodes that \<^verbatim>\<open>for_each\<close> adds later.
\<close>

section \<open>Errors\<close>

datatype run_if_error =
    RunIfNotObject
  | RunIfNeitherBranchNorMatch
  | RunIfBranchFromMissing
  | RunIfBranchUnknown ustring
  | RunIfMatchNotObject
  | RunIfMatchFromMissing
  | RunIfMatchFieldMissing
  | RunIfMatchValueMissing

datatype template_error =
    UnknownTemplate ustring
  | MissingRefactorSymbol
  | EmptyRefactorSymbol
  | NodesArrayMissing
  | ToolArgsMissing ustring
  | EmptySearchPattern
  | SearchNodeMissing

text \<open>Errors of one author step; the index of the step is added around them.\<close>

datatype step_error =
    StepNotObject
  | ChoiceBranchesMissing
  | BranchNotObject nat
  | BranchStepsMissing nat
  | StepIdMissing
  | StepToolMissing
  | ForEachAndRepeat
  | RepeatCountMissing
  | RepeatCountRange
  | RepeatStopUnknown ustring
  | ForEachNotObject
  | ForEachFromMissing
  | ForEachMaxItemsZero
  | ForEachNoItems
  | AfterNotArray
  | AfterItemInvalid

datatype author_error =
    VersionMissing
  | VersionNotNumber
  | VersionUnsupported nat
  | StepsAndNodes
  | NoStepsNoNodes
  | SchemaError ustring
  | WorkflowNotObject
  | StepsNotArray
  | StepsEmpty
  | StepsTooMany
  | StepDuplicateId ustring
  | WhenInvalid
  | DepsInvalid ustring
  | AfterUnknown ustring ustring

datatype workflow_error =
    JsonText ustring
  | RunIfError run_if_error
  | TemplateError template_error
  | StepError nat step_error
  | AuthorError author_error
  | NodesFieldMissing
  | NodesNotListOrObject
  | NodesEmpty
  | NodeIdMissing
  | NodeToolMissing ustring
  | PendingNotObject nat
  | PendingFieldMissing nat ustring
  | ToolNotRegistered ustring ustring

section \<open>Conditions\<close>

definition trimmed_str_field :: "json_object \<Rightarrow> ustring \<Rightarrow> ustring option" where
  "trimmed_str_field obj key = trim_nonempty (and_then (map_of obj key) as_str)"

definition parse_run_if_branch :: "json_object \<Rightarrow> ustring \<Rightarrow> (workflow_error, WorkflowRunIf) result" where
  "parse_run_if_branch obj branch =
     bind_result (ok_or (RunIfError RunIfBranchFromMissing) (trimmed_str_field obj (lit ''from''))) (\<lambda>from.
       if branch = lit ''success'' then Inr (RunIfBranch from BranchSuccess)
       else if branch = lit ''failure'' then Inr (RunIfBranch from BranchFailure)
       else Inl (RunIfError (RunIfBranchUnknown branch)))"

definition parse_run_if_match :: "json_object \<Rightarrow> (workflow_error, WorkflowRunIf) result" where
  "parse_run_if_match obj =
     bind_result (ok_or (RunIfError RunIfNeitherBranchNorMatch) (map_of obj (lit ''match''))) (\<lambda>match_v.
     bind_result (ok_or (RunIfError RunIfMatchNotObject) (as_object match_v)) (\<lambda>match_obj.
     bind_result (ok_or (RunIfError RunIfMatchFromMissing) (trimmed_str_field obj (lit ''from''))) (\<lambda>from.
     bind_result (ok_or (RunIfError RunIfMatchFieldMissing) (trimmed_str_field match_obj (lit ''field''))) (\<lambda>field.
       (let eq = map_of match_obj (lit ''equals'');
            in_list = and_then (map_of match_obj (lit ''in'')) as_array in
        if eq = None \<and> in_list = None then Inl (RunIfError RunIfMatchValueMissing)
        else Inr (RunIfMatch from field eq in_list))))))"

definition parse_run_if_json :: "Value \<Rightarrow> (workflow_error, WorkflowRunIf option) result" where
  "parse_run_if_json v =
     (if is_null v then Inr None
      else bind_result (ok_or (RunIfError RunIfNotObject) (as_object v)) (\<lambda>obj.
        case and_then (map_of obj (lit ''branch'')) as_str of
          Some branch \<Rightarrow> bind_result (parse_run_if_branch obj branch) (\<lambda>r. Inr (Some r))
        | None \<Rightarrow> bind_result (parse_run_if_match obj) (\<lambda>r. Inr (Some r))))"

section \<open>Nodes\<close>

text \<open>
  \<^verbatim>\<open>serde_json::from_value::<WorkflowNodeToolRole>\<close>: a snake-case name, or the form with one key
  and \<^verbatim>\<open>null\<close> that serde also accepts for a unit variant.
\<close>

definition role_of_name :: "ustring \<Rightarrow> WorkflowNodeToolRole option" where
  "role_of_name s =
     (if s = lit ''review_readonly'' then Some RoleReviewReadonly
      else if s = lit ''patch_write'' then Some RolePatchWrite
      else if s = lit ''test_runner'' then Some RoleTestRunner else None)"

fun role_of_value :: "Value \<Rightarrow> WorkflowNodeToolRole option" where
  "role_of_value (String s) = role_of_name s"
| "role_of_value (Object [(k, Null)]) = role_of_name k"
| "role_of_value _ = None"

definition str_items :: "Value list \<Rightarrow> ustring list" where
  "str_items arr = List.map_filter as_str arr"

definition str_list_field :: "Value \<Rightarrow> ustring \<Rightarrow> ustring list" where
  "str_list_field v key = unwrap_or (map_option str_items (and_then (get_key v key) as_array)) []"

definition parse_node_from_value :: "Value \<Rightarrow> ustring option \<Rightarrow> (workflow_error, WorkflowNodeSpec) result" where
  "parse_node_from_value v forced_id =
     bind_result (ok_or NodeIdMissing
        (or_option forced_id (and_then (get_key v (lit ''id'')) as_str))) (\<lambda>i.
     bind_result (ok_or (NodeToolMissing i)
        (or_option (and_then (get_key v (lit ''tool_name'')) as_str) (and_then (get_key v (lit ''tool'')) as_str))) (\<lambda>tool_name.
     bind_result (case get_key v (lit ''run_if'') of None \<Rightarrow> Inr None | Some r \<Rightarrow> parse_run_if_json r) (\<lambda>run_if.
       Inr \<lparr>node_id = i, node_tool_name = tool_name,
            node_tool_args = unwrap_or (get_key v (lit ''tool_args'')) (Object []),
            node_deps = str_list_field v (lit ''deps''),
            node_requires_approval = unwrap_or (and_then (get_key v (lit ''requires_approval'')) as_bool) False,
            node_timeout_secs = and_then (get_key v (lit ''timeout_secs'')) as_u64,
            node_compensate_with = str_list_field v (lit ''compensate_with''),
            node_max_retries = min (unwrap_or (and_then (get_key v (lit ''max_retries'')) as_u64) 0) 5,
            node_tool_role = and_then (or_option (get_key v (lit ''node_tool_role'')) (get_key v (lit ''executor_kind''))) role_of_value,
            node_run_if = run_if\<rparr>)))"

definition parse_workflow_nodes_field :: "Value \<Rightarrow> (workflow_error, WorkflowNodeSpec list) result" where
  "parse_workflow_nodes_field nodes_v =
     (case as_array nodes_v of
        Some arr \<Rightarrow> map_result (\<lambda>it. parse_node_from_value it None) arr
      | None \<Rightarrow>
          (case as_object nodes_v of
             Some obj \<Rightarrow> map_result (\<lambda>(i, it). parse_node_from_value it (Some i)) obj
           | None \<Rightarrow> Inl NodesNotListOrObject))"

definition parse_one_for_each_pending :: "json_object \<Rightarrow> nat \<Rightarrow> (workflow_error, ForEachPendingSpec) result" where
  "parse_one_for_each_pending obj i =
     bind_result (ok_or (PendingFieldMissing i (lit ''base_id'')) (trimmed_str_field obj (lit ''base_id''))) (\<lambda>base_id.
     bind_result (ok_or (PendingFieldMissing i (lit ''from'')) (trimmed_str_field obj (lit ''from''))) (\<lambda>from.
     bind_result (ok_or (PendingFieldMissing i (lit ''tool'')) (and_then (map_of obj (lit ''tool'')) as_str)) (\<lambda>tool.
       Inr \<lparr>fe_base_id = base_id, fe_from = from,
            fe_json_path = and_then (map_of obj (lit ''json_path'')) as_str, fe_static_items = None,
            fe_item_var = unwrap_or (and_then (map_of obj (lit ''item_var'')) as_str) (lit ''item''),
            fe_max_items = unwrap_or (and_then (map_of obj (lit ''max_items'')) as_u64) 32,
            fe_parallel = unwrap_or (and_then (map_of obj (lit ''parallel'')) as_bool) False,
            fe_tool_name = tool,
            fe_tool_args_template = unwrap_or (map_of obj (lit ''tool_args'')) (Object []),
            fe_requires_approval = False, fe_timeout_secs = None, fe_compensate_with = [],
            fe_max_retries = 0, fe_node_tool_role = None,
            fe_extra_deps = str_list_field (Object obj) (lit ''extra_deps'')\<rparr>)))"

definition parse_for_each_pending_list ::
    "Value option \<Rightarrow> (workflow_error, ForEachPendingSpec list) result" where
  "parse_for_each_pending_list v =
     (case and_then v as_array of
        None \<Rightarrow> Inr []
      | Some arr \<Rightarrow>
          map_result (\<lambda>(i, it). bind_result (ok_or (PendingNotObject i) (as_object it))
            (\<lambda>obj. parse_one_for_each_pending obj i)) (List.enumerate 0 arr))"

section \<open>Templates\<close>

abbreviation jstr :: "string \<Rightarrow> Value" where
  "jstr s \<equiv> String (lit s)"

definition jobj :: "(string \<times> Value) list \<Rightarrow> Value" where
  "jobj kvs = Object (obj_of (map (\<lambda>(k, v). (lit k, v)) kvs))"

definition jnode :: "string \<Rightarrow> string \<Rightarrow> (string \<times> Value) list \<Rightarrow> string list \<Rightarrow> (string \<times> Value) list \<Rightarrow> Value" where
  "jnode i tool args deps rest =
     jobj ([(''id'', jstr i), (''tool_name'', jstr tool), (''tool_args'', jobj args),
            (''deps'', Array (map jstr deps))] @ rest)"

definition jspec :: "nat \<Rightarrow> bool \<Rightarrow> bool \<Rightarrow> Value list \<Rightarrow> Value" where
  "jspec parallelism ff cf nodes =
     jobj [(''max_parallelism'', Number (PosInt parallelism)), (''fail_fast'', Bool ff),
           (''compensate_on_failure'', Bool cf), (''nodes'', Array nodes)]"

definition workflow_template_rust_ci_light :: Value where
  "workflow_template_rust_ci_light = jspec 4 True True
     [jnode ''rust_ci_fmt'' ''run_command''
        [(''command'', jstr ''cargo''), (''args'', Array [jstr ''fmt'', jstr ''--check''])] [] [],
      jnode ''rust_ci_check'' ''cargo_check'' [(''all_targets'', Bool True)] [''rust_ci_fmt''] [],
      jnode ''rust_ci_clippy'' ''cargo_clippy'' [(''all_targets'', Bool True)] [''rust_ci_check''] [],
      jnode ''rust_ci_test'' ''cargo_test'' [] [''rust_ci_clippy''] []]"

definition workflow_template_code_review :: Value where
  "workflow_template_code_review = jspec 4 False False
     [jnode ''cr_diff_names'' ''git''
        [(''action'', jstr ''diff''), (''mode'', jstr ''all''), (''name_only'', Bool True)] []
        [(''node_tool_role'', jstr ''review_readonly'')],
      jnode ''cr_diff'' ''git''
        [(''action'', jstr ''diff''), (''mode'', jstr ''all''), (''context_lines'', Number (PosInt 3))] [''cr_diff_names'']
        [(''node_tool_role'', jstr ''review_readonly'')],
      jnode ''cr_search'' ''search_in_files''
        [(''pattern'', String (lit ''unwrap'' @ [92] @ lit ''(|'' @ [92] @ lit ''.expect'' @ [92] @ lit ''(|todo!|FIXME|panic!'')), (''file_glob'', jstr ''*.rs''),
         (''max_results'', Number (PosInt 40)), (''case_insensitive'', Bool True)] [''cr_diff'']
        [(''node_tool_role'', jstr ''review_readonly'')],
      jnode ''cr_clippy'' ''cargo_clippy'' [(''all_targets'', Bool True)] [''cr_diff'', ''cr_search'']
        [(''node_tool_role'', jstr ''review_readonly'')]]"

definition workflow_template_refactor_precheck :: Value where
  "workflow_template_refactor_precheck = jspec 2 False False
     [jnode ''rpc_graph'' ''code_nav'' [(''action'', jstr ''call_graph_sketch''), (''symbol'', String [])] []
        [(''node_tool_role'', jstr ''review_readonly'')],
      jnode ''rpc_refs'' ''code_nav''
        [(''action'', jstr ''find_references''), (''symbol'', String []), (''exclude_definitions'', Bool True)] [''rpc_graph'']
        [(''node_tool_role'', jstr ''review_readonly'')]]"

text \<open>Assignment through \<^verbatim>\<open>get_mut\<close>: the key is present and its value is replaced.\<close>

fun set_key :: "Value \<Rightarrow> ustring \<Rightarrow> Value \<Rightarrow> Value" where
  "set_key (Object m) k v = Object (obj_insert k v m)"
| "set_key w k v = w"

definition tool_args_of :: "Value \<Rightarrow> json_object option" where
  "tool_args_of node = and_then (and_then (as_object node) (\<lambda>m. map_of m (lit ''tool_args''))) as_object"

definition put_symbol :: "ustring \<Rightarrow> Value \<Rightarrow> (workflow_error, Value) result" where
  "put_symbol sy node =
     (let i = unwrap_or (and_then (get_key node (lit ''id'')) as_str) [] in
      if i \<noteq> lit ''rpc_graph'' \<and> i \<noteq> lit ''rpc_refs'' then Inr node
      else bind_result (ok_or (TemplateError (ToolArgsMissing i)) (tool_args_of node)) (\<lambda>args.
        (let args1 = obj_insert (lit ''symbol'') (String sy) args;
             args2 = (if i = lit ''rpc_graph'' then obj_insert (lit ''symbols'') (Array [String sy]) args1 else args1) in
         Inr (set_key node (lit ''tool_args'') (Object args2)))))"

definition apply_refactor_symbol_to_workflow :: "Value \<Rightarrow> ustring \<Rightarrow> (workflow_error, Value) result" where
  "apply_refactor_symbol_to_workflow workflow symbol =
     (let sy = trim symbol in
      if sy = [] then Inl (TemplateError EmptyRefactorSymbol)
      else bind_result (ok_or (TemplateError NodesArrayMissing) (and_then (get_key workflow (lit ''nodes'')) as_array)) (\<lambda>nodes.
        bind_result (map_result (put_symbol sy) nodes) (\<lambda>nodes'.
          Inr (set_key workflow (lit ''nodes'') (Array nodes')))))"

fun put_pattern :: "ustring \<Rightarrow> Value list \<Rightarrow> (workflow_error, Value list) result" where
  "put_pattern pat [] = Inl (TemplateError SearchNodeMissing)"
| "put_pattern pat (node # nodes) =
     (if and_then (get_key node (lit ''id'')) as_str \<noteq> Some (lit ''cr_search'')
      then bind_result (put_pattern pat nodes) (\<lambda>nodes'. Inr (node # nodes'))
      else bind_result (ok_or (TemplateError (ToolArgsMissing (lit ''cr_search''))) (tool_args_of node)) (\<lambda>args.
        Inr (set_key node (lit ''tool_args'') (Object (obj_insert (lit ''pattern'') (String pat) args)) # nodes)))"

definition apply_code_review_search_pattern :: "Value \<Rightarrow> ustring \<Rightarrow> (workflow_error, Value) result" where
  "apply_code_review_search_pattern workflow pattern =
     (let pat = trim pattern in
      if pat = [] then Inl (TemplateError EmptySearchPattern)
      else bind_result (ok_or (TemplateError NodesArrayMissing) (and_then (get_key workflow (lit ''nodes'')) as_array)) (\<lambda>nodes.
        bind_result (put_pattern pat nodes) (\<lambda>nodes'.
          Inr (set_key workflow (lit ''nodes'') (Array nodes')))))"

definition merge_workflow_template_overlay :: "Value \<Rightarrow> Value option \<Rightarrow> Value" where
  "merge_workflow_template_overlay base overlay =
     (case and_then overlay as_object of
        None \<Rightarrow> base
      | Some over_map \<Rightarrow>
          (case base of
             Object obj \<Rightarrow> Object (foldl (\<lambda>m (k, v). obj_insert k v m) obj over_map)
           | _ \<Rightarrow> base))"

definition template_base :: "ustring \<Rightarrow> (workflow_error, Value) result" where
  "template_base key =
     (if key = lit ''rust_ci_light'' then Inr workflow_template_rust_ci_light
      else if key = lit ''code_review'' then Inr workflow_template_code_review
      else if key = lit ''refactor_precheck'' then Inr workflow_template_refactor_precheck
      else Inl (TemplateError (UnknownTemplate key)))"

definition template_overlay :: "Value \<Rightarrow> Value option" where
  "template_overlay spec_v =
     map_option (\<lambda>m. Object (filter (\<lambda>(k, v). k \<notin>
        {lit ''workflow_template'', lit ''refactor_symbol'', lit ''symbol'', lit ''review_search_pattern''}) m))
       (as_object spec_v)"

definition resolve_workflow_template :: "Value \<Rightarrow> (workflow_error, Value) result" where
  "resolve_workflow_template spec_v =
     (case trim_nonempty (and_then (get_key spec_v (lit ''workflow_template'')) as_str) of
        None \<Rightarrow> Inr spec_v
      | Some key \<Rightarrow>
          bind_result (template_base key) (\<lambda>base.
            (let refactor_symbol = trim_nonempty (and_then
                   (or_option (get_key spec_v (lit ''refactor_symbol'')) (get_key spec_v (lit ''symbol''))) as_str);
                 review_pattern = trim_nonempty (and_then (get_key spec_v (lit ''review_search_pattern'')) as_str);
                 merged = merge_workflow_template_overlay base (template_overlay spec_v) in
             bind_result
               (if key = lit ''refactor_precheck''
                then bind_result (ok_or (TemplateError MissingRefactorSymbol) refactor_symbol)
                       (apply_refactor_symbol_to_workflow merged)
                else Inr merged) (\<lambda>merged1.
             (case review_pattern of
                Some pat \<Rightarrow> if key = lit ''code_review'' then apply_code_review_search_pattern merged1 pat else Inr merged1
              | None \<Rightarrow> Inr merged1)))))"

section \<open>The specification\<close>

record WorkflowSpecConfig =
  sc_max_parallelism :: nat
  sc_fail_fast :: bool
  sc_compensate_on_failure :: bool
  sc_output_inject_max_chars :: nat
  sc_summary_preview_max_chars :: nat
  sc_compensation_preview_max_chars :: nat

definition read_workflow_spec_config :: "Value \<Rightarrow> WorkflowSpecConfig" where
  "read_workflow_spec_config spec_v =
     \<lparr>sc_max_parallelism = unwrap_or (and_then (get_key spec_v (lit ''max_parallelism'')) as_u64) 4,
      sc_fail_fast = unwrap_or (and_then (get_key spec_v (lit ''fail_fast'')) as_bool) True,
      sc_compensate_on_failure = unwrap_or (and_then (get_key spec_v (lit ''compensate_on_failure'')) as_bool) True,
      sc_output_inject_max_chars = unwrap_or (and_then (get_key spec_v (lit ''output_inject_max_chars'')) as_u64) 2000,
      sc_summary_preview_max_chars = unwrap_or (and_then (get_key spec_v (lit ''summary_preview_max_chars'')) as_u64) 1200,
      sc_compensation_preview_max_chars =
        unwrap_or (and_then (get_key spec_v (lit ''compensation_preview_max_chars'')) as_u64) 800\<rparr>"

text \<open>\<^verbatim>\<open>parse_workflow_spec\<close> from the resolved object on; the JSON reader and the author layer come before it.\<close>

definition spec_of_value :: "(ustring \<Rightarrow> nat) \<Rightarrow> Value \<Rightarrow> (workflow_error, WorkflowSpec) result" where
  "spec_of_value rank spec_v =
     (let cfg = read_workflow_spec_config spec_v in
      bind_result (ok_or NodesFieldMissing (get_key spec_v (lit ''nodes''))) (\<lambda>nodes_v.
      bind_result (parse_workflow_nodes_field nodes_v) (\<lambda>nodes.
        if nodes = [] \<and> get_key spec_v (lit ''for_each_pending'') = None then Inl NodesEmpty
        else bind_result (parse_for_each_pending_list (get_key spec_v (lit ''for_each_pending''))) (\<lambda>pending.
          Inr \<lparr>max_parallelism = sc_max_parallelism cfg, fail_fast = sc_fail_fast cfg,
               compensate_on_failure = sc_compensate_on_failure cfg,
               output_inject_max_chars = sc_output_inject_max_chars cfg,
               summary_preview_max_chars = sc_summary_preview_max_chars cfg,
               compensation_preview_max_chars = sc_compensation_preview_max_chars cfg,
               spec_nodes = nodes,
               cached_layer_count = (case topo_layers rank nodes of Some (Inr l) \<Rightarrow> length l | _ \<Rightarrow> 0),
               for_each_pending = pending\<rparr>))))"

section \<open>Tool names\<close>

definition check_tool_name :: "(ustring \<Rightarrow> bool) \<Rightarrow> ustring \<Rightarrow> ustring \<Rightarrow> (workflow_error, unit) result" where
  "check_tool_name registered i tool_name =
     (if registered tool_name \<or> tool_origin tool_name \<noteq> ToolOrigin.Builtin then Inr ()
      else Inl (ToolNotRegistered i tool_name))"

definition validate_tool_names :: "(ustring \<Rightarrow> bool) \<Rightarrow> WorkflowSpec \<Rightarrow> (workflow_error, unit) result" where
  "validate_tool_names registered spec =
     bind_result (map_result (\<lambda>n. check_tool_name registered (node_id n) (node_tool_name n)) (spec_nodes spec)) (\<lambda>_.
     bind_result (map_result (\<lambda>p. check_tool_name registered (fe_base_id p @ ([65288] @ lit ''for_each'' @ [65289])) (fe_tool_name p))
        (for_each_pending spec)) (\<lambda>_. Inr ()))"

end
