(* ===== verification/Workflow_Compile.thy ===== *)
theory Workflow_Compile
  imports Workflow_Parse
begin

text \<open>
  The author layer of workflows: documents with \<^verbatim>\<open>steps\<close> are checked (\<^verbatim>\<open>src/cm_workflow/author_validate.rs\<close>) and
  compiled to \<^verbatim>\<open>workflow.nodes\<close> and \<^verbatim>\<open>for_each_pending\<close> (\<^verbatim>\<open>compile_spec.rs\<close>), and \<^verbatim>\<open>parse_workflow_spec\<close> reads the result.
  The two JSON schemas are checked by a library; \<open>schema\<close> is that check, with its error text.

  Shown here: flattening of nested choices ends; the conditions and dependencies of a repeated step;
  and what the detour over JSON loses of a \<^verbatim>\<open>for_each\<close> step: its approval flag, timeout, retries,
  compensation and role.
\<close>

section \<open>Document modes\<close>

datatype AuthorDocumentMode = Steps | Nodes

type_synonym schema_check = "AuthorDocumentMode \<Rightarrow> Value \<Rightarrow> ustring option"

definition validate_version_field :: "Value \<Rightarrow> (workflow_error, unit) result" where
  "validate_version_field root =
     (case get_key root (lit ''version'') of
        None \<Rightarrow> Inl (AuthorError VersionMissing)
      | Some v \<Rightarrow>
          bind_result (ok_or (AuthorError VersionNotNumber)
            (or_option (as_u64 v) (map_option nat (filter_option (\<lambda>n. 0 \<le> n) (as_i64 v))))) (\<lambda>version.
            if version \<noteq> 2 then Inl (AuthorError (VersionUnsupported version)) else Inr ()))"

definition workflow_object :: "Value \<Rightarrow> json_object option" where
  "workflow_object root = and_then (get_key root (lit ''workflow'')) as_object"

definition workflow_has :: "Value \<Rightarrow> ustring \<Rightarrow> bool" where
  "workflow_has root key \<longleftrightarrow> (case workflow_object root of Some o' \<Rightarrow> map_of o' key \<noteq> None | None \<Rightarrow> False)"

definition author_mode_flags :: "Value \<Rightarrow> bool \<times> bool \<times> bool" where
  "author_mode_flags root =
     (get_key root (lit ''steps'') \<noteq> None \<or> workflow_has root (lit ''steps''),
      workflow_has root (lit ''nodes'') \<or> get_key root (lit ''nodes'') \<noteq> None,
      (case workflow_object root of
         Some o' \<Rightarrow> (case and_then (map_of o' (lit ''workflow_template'')) as_str of
                      Some s \<Rightarrow> trim s \<noteq> [] | None \<Rightarrow> False)
       | None \<Rightarrow> False))"

definition detect_author_document_mode :: "Value \<Rightarrow> (workflow_error, AuthorDocumentMode) result" where
  "detect_author_document_mode root =
     bind_result (validate_version_field root) (\<lambda>_.
       case author_mode_flags root of (has_steps, has_nodes, has_template) \<Rightarrow>
         if has_steps \<and> has_nodes then Inl (AuthorError StepsAndNodes)
         else if has_steps then Inr Steps
         else if has_nodes \<or> has_template then Inr Nodes
         else Inl (AuthorError NoStepsNoNodes))"

definition should_validate_author_spec :: "Value \<Rightarrow> bool" where
  "should_validate_author_spec root \<longleftrightarrow>
     get_key root (lit ''version'') \<noteq> None \<or> get_key root (lit ''steps'') \<noteq> None \<or> workflow_has root (lit ''steps'')"

definition validate_workflow_author_document ::
    "schema_check \<Rightarrow> Value \<Rightarrow> (workflow_error, AuthorDocumentMode) result" where
  "validate_workflow_author_document schema root =
     bind_result (detect_author_document_mode root) (\<lambda>mode.
       case schema mode root of
         None \<Rightarrow> Inr mode
       | Some e \<Rightarrow> Inl (AuthorError (SchemaError e)))"

section \<open>Flattening\<close>

definition normalize_workflow_root :: "Value \<Rightarrow> Value" where
  "normalize_workflow_root root =
     (if get_key root (lit ''workflow'') \<noteq> None then root
      else if get_key root (lit ''nodes'') \<noteq> None then Object [(lit ''workflow'', root)]
      else root)"

text \<open>\<^verbatim>\<open>take_steps(&mut root)\<close>: the root without its steps, and the steps.\<close>

definition take_steps :: "Value \<Rightarrow> (workflow_error, Value \<times> Value option) result" where
  "take_steps root =
     (case get_key root (lit ''steps'') of
        Some s \<Rightarrow> Inr (case root of Object obj \<Rightarrow> Object (obj_remove (lit ''steps'') obj) | _ \<Rightarrow> root, Some s)
      | None \<Rightarrow>
          (case get_key root (lit ''workflow'') of
             None \<Rightarrow> Inr (root, None)
           | Some wfv \<Rightarrow>
               (case wfv of
                  Object wf_obj \<Rightarrow>
                    Inr (set_key root (lit ''workflow'') (Object (obj_remove (lit ''steps'') wf_obj)),
                         map_of wf_obj (lit ''steps''))
                | _ \<Rightarrow> Inl (AuthorError WorkflowNotObject))))"

definition insert_if_absent :: "ustring \<Rightarrow> Value option \<Rightarrow> json_object \<Rightarrow> json_object" where
  "insert_if_absent key ov m =
     (case ov of Some v \<Rightarrow> if map_of m key = None then obj_insert key v m else m | None \<Rightarrow> m)"

fun merge_choice_substep :: "Value \<Rightarrow> Value option \<Rightarrow> Value option \<Rightarrow> Value" where
  "merge_choice_substep (Object m) branch_when shared_after =
     Object (insert_if_absent (lit ''after'') shared_after (insert_if_absent (lit ''when'') branch_when m))"
| "merge_choice_substep sub branch_when shared_after = sub"

lemma size_array_elem: "x \<in> set xs \<Longrightarrow> size x < size (Array xs)"
  by (induction xs) auto

lemma size_map_of: "map_of m k = Some v \<Longrightarrow> size v < size (Object m)"
  by (induction m) (auto split: if_splits)

definition branches_size :: "Value \<Rightarrow> nat" where
  "branches_size v = (case get_key v (lit ''branches'') of Some b \<Rightarrow> Suc (size b) | None \<Rightarrow> 0)"

lemma branches_size_merge: "branches_size (merge_choice_substep sub w a) = branches_size sub"
  by (cases sub) (auto simp: branches_size_def insert_if_absent_def split: option.split)

lemma branches_size_le: "branches_size v \<le> size v"
proof (cases v)
  case (Object m)
  then show ?thesis using size_map_of by (fastforce simp: branches_size_def split: option.split)
qed (simp_all add: branches_size_def)

lemma nested_smaller:
  assumes "map_of obj (lit ''branches'') = Some (Array branches)" "branch \<in> set branches"
    "branch = Object bobj" "map_of bobj (lit ''steps'') = Some (Array nested)" "sub \<in> set nested"
  shows "branches_size (merge_choice_substep sub w a) < branches_size (Object obj)"
proof -
  have "size sub < size (Array nested)" "size (Array nested) < size (Object bobj)" "size (Object bobj) < size (Array branches)"
    using assms size_array_elem size_map_of by blast+
  then have "branches_size sub < Suc (size (Array branches))" using branches_size_le [of sub] by linarith
  then show ?thesis using assms(1) by (simp add: branches_size_merge branches_size_def [of "Object obj"])
qed

text \<open>
  \<^verbatim>\<open>flatten_one_step\<close> with \<^verbatim>\<open>flatten_choice_step\<close> unfolded into it: the vector \<^verbatim>\<open>out\<close> is only appended to, so
  the steps a call adds are its result.
\<close>

function flatten_one_step :: "Value \<Rightarrow> nat \<Rightarrow> Value option \<Rightarrow> (workflow_error, Value list) result" where
  "flatten_one_step step idx inherited_when =
     (case step of
        Object obj \<Rightarrow>
          if and_then (map_of obj (lit ''kind'')) as_str = Some (lit ''choice'')
          then (case map_of obj (lit ''branches'') of
                  Some (Array branches) \<Rightarrow>
                    bind_result (map_result (\<lambda>(bi, branch).
                        case branch of
                          Object bobj \<Rightarrow>
                            (case map_of bobj (lit ''steps'') of
                               Some (Array nested) \<Rightarrow>
                                 bind_result (map_result (\<lambda>(si, sub).
                                     flatten_one_step
                                       (merge_choice_substep sub (map_of bobj (lit ''when'')) (map_of obj (lit ''after'')))
                                       (idx * 1000 + bi * 100 + si) inherited_when)
                                   (List.enumerate 0 nested)) (\<lambda>outs. Inr (concat outs))
                             | _ \<Rightarrow> Inl (StepError idx (BranchStepsMissing bi)))
                        | _ \<Rightarrow> Inl (StepError idx (BranchNotObject bi)))
                      (List.enumerate 0 branches)) (\<lambda>outs. Inr (concat outs))
                | _ \<Rightarrow> Inl (StepError idx ChoiceBranchesMissing))
          else Inr [Object (insert_if_absent (lit ''when'') inherited_when obj)]
      | _ \<Rightarrow> Inl (StepError idx StepNotObject))"
  by pat_completeness auto

termination
proof (relation "measure (\<lambda>(step, idx, w). branches_size step)", goal_cases)
  case (2 step idx inherited_when obj v branches p bi branch bobj v' nested q si sub)
  then have "branch \<in> set branches" "sub \<in> set nested"
    by (metis enumerate_snd snd_conv)+
  with 2 show ?case by (simp add: nested_smaller)
qed simp

declare flatten_one_step.simps [simp del]

definition flatten_author_steps :: "Value \<Rightarrow> (workflow_error, Value list) result" where
  "flatten_author_steps steps_v =
     bind_result (ok_or (AuthorError StepsNotArray) (as_array steps_v)) (\<lambda>arr.
     bind_result (map_result (\<lambda>(i, step). flatten_one_step step i None) (List.enumerate 0 arr))
       (\<lambda>outs. Inr (concat outs)))"

section \<open>Steps\<close>

definition map_required_id :: "json_object \<Rightarrow> nat \<Rightarrow> (workflow_error, ustring) result" where
  "map_required_id obj i = ok_or (StepError i StepIdMissing) (trimmed_str_field obj (lit ''id''))"

definition map_tool_name :: "json_object \<Rightarrow> nat \<Rightarrow> (workflow_error, ustring) result" where
  "map_tool_name obj i =
     ok_or (StepError i StepToolMissing) (trim_nonempty (and_then
       (or_option (map_of obj (lit ''tool'')) (map_of obj (lit ''tool_name''))) as_str))"

definition parse_after_deps :: "Value option \<Rightarrow> nat \<Rightarrow> (workflow_error, ustring list) result" where
  "parse_after_deps after_v i =
     (case after_v of
        None \<Rightarrow> Inr []
      | Some v \<Rightarrow>
          bind_result (ok_or (StepError i AfterNotArray) (as_array v))
            (map_result (\<lambda>item. ok_or (StepError i AfterItemInvalid) (trim_nonempty (as_str item)))))"

definition copy_optional_step_field :: "json_object \<Rightarrow> ustring \<Rightarrow> json_object \<Rightarrow> json_object" where
  "copy_optional_step_field from key to =
     (case map_of from key of Some v \<Rightarrow> obj_insert key v to | None \<Rightarrow> to)"

definition step_args :: "json_object \<Rightarrow> Value" where
  "step_args obj = unwrap_or (or_option (map_of obj (lit ''args'')) (map_of obj (lit ''tool_args''))) (Object [])"

definition resolve_plain_step_id :: "json_object \<Rightarrow> nat \<Rightarrow> ustring option \<Rightarrow> (workflow_error, ustring) result" where
  "resolve_plain_step_id obj i id_override =
     ok_or (StepError i StepIdMissing) (or_option id_override (trimmed_str_field obj (lit ''id'')))"

definition compile_plain_step_node ::
    "json_object \<Rightarrow> nat \<Rightarrow> ustring option \<Rightarrow> ustring list option \<Rightarrow> (workflow_error, json_object) result" where
  "compile_plain_step_node obj i id_override deps_override =
     bind_result (map_tool_name obj i) (\<lambda>tool_name.
     bind_result (case deps_override of Some d \<Rightarrow> Inr d | None \<Rightarrow> parse_after_deps (map_of obj (lit ''after'')) i) (\<lambda>deps.
     bind_result (resolve_plain_step_id obj i id_override) (\<lambda>nid.
       (let node = obj_insert (lit ''deps'') (Array (map String deps))
              (obj_insert (lit ''tool_args'') (step_args obj)
              (obj_insert (lit ''tool'') (String tool_name)
              (obj_insert (lit ''id'') (String nid) []))) in
        Inr (copy_optional_step_field obj (lit ''executor_kind'')
            (copy_optional_step_field obj (lit ''node_tool_role'')
            (copy_optional_step_field obj (lit ''max_retries'')
            (copy_optional_step_field obj (lit ''compensate_with'')
            (copy_optional_step_field obj (lit ''timeout_secs'')
            (copy_optional_step_field obj (lit ''requires_approval'') node)))))))))) "

definition parse_when_to_run_if_json :: "Value \<Rightarrow> (workflow_error, Value) result" where
  "parse_when_to_run_if_json when_v =
     (let from = unwrap_or (get_key when_v (lit ''from'')) Null in
      case get_key when_v (lit ''branch'') of
        Some b \<Rightarrow> Inr (Object (obj_insert (lit ''branch'') b (obj_insert (lit ''from'') from [])))
      | None \<Rightarrow>
          (case get_key when_v (lit ''match'') of
             Some m \<Rightarrow> Inr (Object (obj_insert (lit ''match'') m (obj_insert (lit ''from'') from [])))
           | None \<Rightarrow> Inl (AuthorError WhenInvalid)))"

section \<open>Repeated steps\<close>

datatype RepeatStopOn = StopSuccess | StopNever

record RepeatSpec =
  rep_count :: nat
  rep_stop_on :: RepeatStopOn

definition parse_repeat_spec :: "json_object \<Rightarrow> nat \<Rightarrow> (workflow_error, RepeatSpec option) result" where
  "parse_repeat_spec obj i =
     (case and_then (map_of obj (lit ''repeat'')) as_object of
        None \<Rightarrow> Inr None
      | Some r \<Rightarrow>
          bind_result (ok_or (StepError i RepeatCountMissing) (and_then (map_of r (lit ''count'')) as_u64)) (\<lambda>count.
          if \<not> (1 \<le> count \<and> count \<le> 5) then Inl (StepError i RepeatCountRange)
          else
            (let stop = unwrap_or (trim_nonempty (and_then (map_of r (lit ''stop_on'')) as_str)) (lit ''success'') in
             if stop = lit ''success'' then Inr (Some \<lparr>rep_count = count, rep_stop_on = StopSuccess\<rparr>)
             else if stop = lit ''never'' then Inr (Some \<lparr>rep_count = count, rep_stop_on = StopNever\<rparr>)
             else Inl (StepError i (RepeatStopUnknown stop)))))"

definition step_map_without_repeat :: "json_object \<Rightarrow> json_object" where
  "step_map_without_repeat obj = filter (\<lambda>(k, v). k \<noteq> lit ''repeat'') obj"

definition repeat_stop_on_success_run_if :: "ustring \<Rightarrow> Value" where
  "repeat_stop_on_success_run_if prev_id =
     Object (obj_of [(lit ''from'', String prev_id), (lit ''branch'', String (lit ''failure''))])"

definition apply_repeat_node_run_if ::
    "json_object \<Rightarrow> nat \<Rightarrow> Value option \<Rightarrow> RepeatStopOn \<Rightarrow> ustring option \<Rightarrow> json_object" where
  "apply_repeat_node_run_if node i when_run_if stop_on prev_id =
     (if i = 1
      then (case when_run_if of Some r \<Rightarrow> obj_insert (lit ''run_if'') r node | None \<Rightarrow> node)
      else if stop_on = StopSuccess
      then obj_insert (lit ''run_if'') (repeat_stop_on_success_run_if (unwrap_or prev_id [])) node
      else node)"

definition repeat_id :: "ustring \<Rightarrow> nat \<Rightarrow> ustring" where
  "repeat_id base_id i = base_id @ lit ''_'' @ show_nat i"

fun repeat_loop ::
    "json_object \<Rightarrow> nat \<Rightarrow> ustring \<Rightarrow> Value option \<Rightarrow> RepeatStopOn \<Rightarrow> ustring option \<Rightarrow> nat list \<Rightarrow>
     (workflow_error, json_object list) result" where
  "repeat_loop step_base step_index base_id when_run_if stop_on prev_id [] = Inr []"
| "repeat_loop step_base step_index base_id when_run_if stop_on prev_id (i # is) =
     bind_result (case prev_id of
         Some p \<Rightarrow> Inr [p] | None \<Rightarrow> parse_after_deps (map_of step_base (lit ''after'')) step_index) (\<lambda>deps.
     bind_result (compile_plain_step_node step_base step_index (Some (repeat_id base_id i)) (Some deps)) (\<lambda>node.
     bind_result (repeat_loop step_base step_index base_id when_run_if stop_on (Some (repeat_id base_id i)) is) (\<lambda>rest.
       Inr (apply_repeat_node_run_if node i when_run_if stop_on prev_id # rest))))"

definition expand_repeat_step_nodes ::
    "json_object \<Rightarrow> nat \<Rightarrow> RepeatSpec \<Rightarrow> (workflow_error, json_object list) result" where
  "expand_repeat_step_nodes obj i rep =
     bind_result (map_required_id obj i) (\<lambda>base_id.
     bind_result (case map_of obj (lit ''when'') of
         None \<Rightarrow> Inr None
       | Some w \<Rightarrow> bind_result (parse_when_to_run_if_json w) (\<lambda>r. Inr (Some r))) (\<lambda>when_run_if.
       repeat_loop (step_map_without_repeat obj) i base_id when_run_if (rep_stop_on rep) None
         [1..<Suc (rep_count rep)]))"

section \<open>Steps with for\_each\<close>

record ForEachLoopConfig =
  lc_from :: ustring
  lc_json_path :: "ustring option"
  lc_static_items :: "ustring list option"
  lc_item_var :: ustring
  lc_max_items :: nat
  lc_parallel :: bool

definition parse_for_each_loop_config :: "json_object \<Rightarrow> nat \<Rightarrow> (workflow_error, ForEachLoopConfig) result" where
  "parse_for_each_loop_config fe i =
     bind_result (ok_or (StepError i ForEachFromMissing) (trimmed_str_field fe (lit ''from''))) (\<lambda>from.
     (let max_items = min (unwrap_or (and_then (map_of fe (lit ''max_items'')) as_u64) 32) 64;
          json_path = trimmed_str_field fe (lit ''json_path'');
          static_items = map_option str_items (and_then (map_of fe (lit ''static_items'')) as_array) in
      if max_items = 0 then Inl (StepError i ForEachMaxItemsZero)
      else if json_path = None \<and> unwrap_or static_items [] = [] then Inl (StepError i ForEachNoItems)
      else Inr \<lparr>lc_from = from, lc_json_path = json_path, lc_static_items = static_items,
                lc_item_var = unwrap_or (trimmed_str_field fe (lit ''item_var'')) (lit ''item''),
                lc_max_items = max_items,
                lc_parallel = unwrap_or (and_then (map_of fe (lit ''parallel'')) as_bool) False\<rparr>))"

definition parse_for_each_step :: "json_object \<Rightarrow> nat \<Rightarrow> (workflow_error, ForEachPendingSpec) result" where
  "parse_for_each_step obj i =
     bind_result (map_required_id obj i) (\<lambda>base_id.
     bind_result (ok_or (StepError i ForEachNotObject) (and_then (map_of obj (lit ''for_each'')) as_object)) (\<lambda>fe.
     bind_result (parse_for_each_loop_config fe i) (\<lambda>cfg.
     bind_result (map_tool_name obj i) (\<lambda>tool_name.
     bind_result (parse_after_deps (map_of obj (lit ''after'')) i) (\<lambda>extra_deps.
       Inr \<lparr>fe_base_id = base_id, fe_from = lc_from cfg, fe_json_path = lc_json_path cfg,
            fe_static_items = lc_static_items cfg, fe_item_var = lc_item_var cfg, fe_max_items = lc_max_items cfg,
            fe_parallel = lc_parallel cfg, fe_tool_name = tool_name, fe_tool_args_template = step_args obj,
            fe_requires_approval = unwrap_or (and_then (map_of obj (lit ''requires_approval'')) as_bool) False,
            fe_timeout_secs = and_then (map_of obj (lit ''timeout_secs'')) as_u64,
            fe_compensate_with = str_list_field (Object obj) (lit ''compensate_with''),
            fe_max_retries = min (unwrap_or (and_then (map_of obj (lit ''max_retries'')) as_u64) 0) 5,
            fe_node_tool_role = and_then (or_option (map_of obj (lit ''node_tool_role'')) (map_of obj (lit ''executor_kind''))) role_of_value,
            fe_extra_deps = extra_deps\<rparr>)))))"

definition workflow_node_spec_to_json :: "WorkflowNodeSpec \<Rightarrow> Value" where
  "workflow_node_spec_to_json n =
     (let m0 = obj_insert (lit ''deps'') (Array (map String (node_deps n)))
            (obj_insert (lit ''tool_args'') (node_tool_args n)
            (obj_insert (lit ''tool'') (String (node_tool_name n))
            (obj_insert (lit ''id'') (String (node_id n)) [])));
          m1 = (if node_requires_approval n then obj_insert (lit ''requires_approval'') (Bool True) m0 else m0);
          m2 = (case node_timeout_secs n of Some t \<Rightarrow> obj_insert (lit ''timeout_secs'') (Number (PosInt t)) m1 | None \<Rightarrow> m1);
          m3 = (if node_compensate_with n \<noteq> []
                then obj_insert (lit ''compensate_with'') (Array (map String (node_compensate_with n))) m2 else m2);
          m4 = (if node_max_retries n > 0
                then obj_insert (lit ''max_retries'') (Number (PosInt (node_max_retries n))) m3 else m3) in
      Object m4)"

definition for_each_pending_obj :: "ForEachPendingSpec \<Rightarrow> json_object" where
  "for_each_pending_obj spec =
     obj_insert (lit ''extra_deps'') (Array (map String (fe_extra_deps spec)))
       (obj_insert (lit ''tool_args'') (fe_tool_args_template spec)
       (obj_insert (lit ''tool'') (String (fe_tool_name spec))
       (obj_insert (lit ''parallel'') (Bool (fe_parallel spec))
       (obj_insert (lit ''max_items'') (Number (PosInt (fe_max_items spec)))
       (obj_insert (lit ''item_var'') (String (fe_item_var spec))
       ((case fe_json_path spec of Some p \<Rightarrow> obj_insert (lit ''json_path'') (String p) | None \<Rightarrow> (\<lambda>m. m))
       (obj_insert (lit ''from'') (String (fe_from spec))
       (obj_insert (lit ''base_id'') (String (fe_base_id spec)) []))))))))"

definition for_each_pending_to_json :: "ForEachPendingSpec \<Rightarrow> Value" where
  "for_each_pending_to_json spec = Object (for_each_pending_obj spec)"

section \<open>The compiler\<close>

text \<open>The set of seen ids, the nodes and the pending entries that the loop over the steps builds up.\<close>

type_synonym compile_state = "ustring set \<times> Value list \<times> ForEachPendingSpec list"

definition insert_unique_step_id :: "ustring set \<Rightarrow> ustring \<Rightarrow> (workflow_error, ustring set) result" where
  "insert_unique_step_id seen nid =
     (if nid \<in> seen then Inl (AuthorError (StepDuplicateId nid)) else Inr (insert nid seen))"

definition compile_for_each_author_step ::
    "json_object \<Rightarrow> nat \<Rightarrow> compile_state \<Rightarrow> (workflow_error, compile_state) result" where
  "compile_for_each_author_step obj i st =
     (case st of (seen, nodes, pending) \<Rightarrow>
        bind_result (parse_for_each_step obj i) (\<lambda>spec.
        bind_result (insert_unique_step_id seen (fe_base_id spec)) (\<lambda>seen'.
          case fe_static_items spec of
            Some items \<Rightarrow> Inr (seen', nodes @ map workflow_node_spec_to_json (build_for_each_nodes spec items), pending)
          | None \<Rightarrow> Inr (seen', nodes, pending @ [spec]))))"

fun add_repeat_nodes :: "json_object list \<Rightarrow> compile_state \<Rightarrow> (workflow_error, compile_state) result" where
  "add_repeat_nodes [] st = Inr st"
| "add_repeat_nodes (node # rest) (seen, nodes, pending) =
     bind_result (insert_unique_step_id seen (unwrap_or (and_then (map_of node (lit ''id'')) as_str) [])) (\<lambda>seen'.
       add_repeat_nodes rest (seen', nodes @ [Object node], pending))"

definition compile_plain_author_step ::
    "json_object \<Rightarrow> nat \<Rightarrow> compile_state \<Rightarrow> (workflow_error, compile_state) result" where
  "compile_plain_author_step obj i st =
     bind_result (parse_repeat_spec obj i) (\<lambda>rep.
       case rep of
         Some r \<Rightarrow> bind_result (expand_repeat_step_nodes obj i r) (\<lambda>ns. add_repeat_nodes ns st)
       | None \<Rightarrow>
           (case st of (seen, nodes, pending) \<Rightarrow>
              bind_result (map_required_id obj i) (\<lambda>nid.
              bind_result (insert_unique_step_id seen nid) (\<lambda>seen'.
              bind_result (compile_plain_step_node obj i None None) (\<lambda>node.
                (case map_of obj (lit ''when'') of
                   None \<Rightarrow> Inr (seen', nodes @ [Object node], pending)
                 | Some w \<Rightarrow>
                     bind_result (parse_when_to_run_if_json w) (\<lambda>r.
                       Inr (seen', nodes @ [Object (obj_insert (lit ''run_if'') r node)], pending))))))))"

definition compile_one_flat_step ::
    "json_object \<Rightarrow> nat \<Rightarrow> compile_state \<Rightarrow> (workflow_error, compile_state) result" where
  "compile_one_flat_step obj i st =
     (if map_of obj (lit ''for_each'') \<noteq> None \<and> map_of obj (lit ''repeat'') \<noteq> None
      then Inl (StepError i ForEachAndRepeat)
      else if map_of obj (lit ''for_each'') \<noteq> None then compile_for_each_author_step obj i st
      else compile_plain_author_step obj i st)"

fun compile_steps_loop :: "(nat \<times> Value) list \<Rightarrow> compile_state \<Rightarrow> (workflow_error, compile_state) result" where
  "compile_steps_loop [] st = Inr st"
| "compile_steps_loop ((i, step) # rest) st =
     bind_result (ok_or (StepError i StepNotObject) (as_object step)) (\<lambda>obj.
     bind_result (compile_one_flat_step obj i st) (compile_steps_loop rest))"

definition check_node_deps :: "ustring set \<Rightarrow> Value \<Rightarrow> (workflow_error, unit list) result" where
  "check_node_deps known n =
     (let nid = unwrap_or (and_then (get_key n (lit ''id'')) as_str) (lit ''?'') in
      case and_then (get_key n (lit ''deps'')) as_array of
        None \<Rightarrow> Inr []
      | Some deps \<Rightarrow>
          map_result (\<lambda>d. bind_result (ok_or (AuthorError (DepsInvalid nid)) (as_str d)) (\<lambda>dep.
            if dep \<in> known then Inr () else Inl (AuthorError (AfterUnknown nid dep)))) deps)"

definition validate_after_refs :: "Value list \<Rightarrow> ForEachPendingSpec list \<Rightarrow> (workflow_error, unit) result" where
  "validate_after_refs nodes pending =
     (let known = set (List.map_filter (\<lambda>n. and_then (get_key n (lit ''id'')) as_str) nodes) \<union> fe_base_id ` set pending in
      bind_result (map_result (check_node_deps known) nodes) (\<lambda>_. Inr ()))"

definition compile_flat_steps ::
    "Value list \<Rightarrow> (workflow_error, Value list \<times> ForEachPendingSpec list) result" where
  "compile_flat_steps steps =
     (if steps = [] then Inl (AuthorError StepsEmpty)
      else if length steps > 64 then Inl (AuthorError StepsTooMany)
      else bind_result (compile_steps_loop (List.enumerate 0 steps) ({}, [], [])) (\<lambda>(seen, nodes, pending).
        bind_result (validate_after_refs nodes pending) (\<lambda>_. Inr (nodes, pending))))"

definition compile_workflow_author_value :: "schema_check \<Rightarrow> Value \<Rightarrow> (workflow_error, Value) result" where
  "compile_workflow_author_value schema root =
     bind_result (if should_validate_author_spec root
                  then bind_result (validate_workflow_author_document schema root) (\<lambda>_. Inr ()) else Inr ()) (\<lambda>_.
     bind_result (take_steps root) (\<lambda>(root1, steps).
       case steps of
         None \<Rightarrow> Inr (normalize_workflow_root root1)
       | Some steps_v \<Rightarrow>
           bind_result (flatten_author_steps steps_v) (\<lambda>flat.
           bind_result (compile_flat_steps flat) (\<lambda>(nodes, pending).
             (let workflow_obj = unwrap_or (and_then (get_key root1 (lit ''workflow'')) as_object) [] in
              if map_of workflow_obj (lit ''nodes'') \<noteq> None then Inl (AuthorError StepsAndNodes)
              else
                (let w1 = obj_insert (lit ''nodes'') (Array nodes) (obj_remove (lit ''steps'') workflow_obj);
                     w2 = (if pending \<noteq> []
                           then obj_insert (lit ''for_each_pending'') (Array (map for_each_pending_to_json pending)) w1 else w1) in
                 Inr (Object [(lit ''workflow'', Object w2)])))))))"

definition parse_workflow_spec ::
    "json_reader \<Rightarrow> schema_check \<Rightarrow> (ustring \<Rightarrow> nat) \<Rightarrow> ustring \<Rightarrow> (workflow_error, WorkflowSpec) result" where
  "parse_workflow_spec from_str schema rank args_json =
     (case from_str args_json of
        Inl e \<Rightarrow> Inl (JsonText e)
      | Inr v0 \<Rightarrow>
          bind_result (compile_workflow_author_value schema v0) (\<lambda>v.
          bind_result (resolve_workflow_template (unwrap_or (get_key v (lit ''workflow'')) v)) (\<lambda>spec_v.
            spec_of_value rank spec_v)))"

section \<open>Lemmas\<close>

text \<open>Objects built by insertion are read through \<open>map_of_obj_insert\<close>, never unfolded.\<close>

declare obj_insert.simps [simp del]

lemma trimmed_str_field_trimmed: "trimmed_str_field obj k = Some s \<Longrightarrow> trim s = s \<and> s \<noteq> []"
  by (auto simp: trimmed_str_field_def trim_nonempty_def filter_option_Some)

lemma str_items_String [simp]: "str_items (map String xs) = xs"
  by (induction xs) (simp_all add: str_items_def List.map_filter_simps)

lemma show_nat_last: "\<not> is_whitespace (last (show_nat n))"
proof -
  have "last (show_nat n) \<in> set (show_nat n)" by simp
  then show ?thesis using show_nat_digits by (fastforce simp: is_whitespace_def)
qed

lemma repeat_id_trim: "trim b = b \<Longrightarrow> b \<noteq> [] \<Longrightarrow> trim (repeat_id b i) = repeat_id b i"
  using trim_ends [of b] show_nat_last [of i] by (intro trim_id) (auto simp: repeat_id_def)

lemma repeat_id_ne [simp]: "repeat_id b i \<noteq> []"
  by (simp add: repeat_id_def)

lemma map_of_copy [simp]:
  "map_of to key = None \<Longrightarrow> map_of (copy_optional_step_field from key to) key = map_of from key"
  "k \<noteq> key \<Longrightarrow> map_of (copy_optional_step_field from key to) k = map_of to k"
  by (simp_all add: copy_optional_step_field_def split: option.split)

lemma compiled_node_keys:
  assumes "compile_plain_step_node obj i (Some nid) (Some deps) = Inr node"
  shows "\<exists>tool. map_tool_name obj i = Inr tool \<and> map_of node (lit ''tool'') = Some (String tool) \<and>
    map_of node (lit ''id'') = Some (String nid) \<and> map_of node (lit ''tool_name'') = None \<and>
    map_of node (lit ''deps'') = Some (Array (map String deps)) \<and>
    map_of node (lit ''tool_args'') = Some (step_args obj) \<and> map_of node (lit ''run_if'') = None \<and>
    map_of node (lit ''requires_approval'') = map_of obj (lit ''requires_approval'') \<and>
    map_of node (lit ''timeout_secs'') = map_of obj (lit ''timeout_secs'') \<and>
    map_of node (lit ''compensate_with'') = map_of obj (lit ''compensate_with'') \<and>
    map_of node (lit ''max_retries'') = map_of obj (lit ''max_retries'') \<and>
    map_of node (lit ''node_tool_role'') = map_of obj (lit ''node_tool_role'') \<and>
    map_of node (lit ''executor_kind'') = map_of obj (lit ''executor_kind'')"
proof -
  obtain tool where "map_tool_name obj i = Inr tool"
    and node: "node = copy_optional_step_field obj (lit ''executor_kind'')
            (copy_optional_step_field obj (lit ''node_tool_role'')
            (copy_optional_step_field obj (lit ''max_retries'')
            (copy_optional_step_field obj (lit ''compensate_with'')
            (copy_optional_step_field obj (lit ''timeout_secs'')
            (copy_optional_step_field obj (lit ''requires_approval'')
            (obj_insert (lit ''deps'') (Array (map String deps))
              (obj_insert (lit ''tool_args'') (step_args obj)
              (obj_insert (lit ''tool'') (String tool)
              (obj_insert (lit ''id'') (String nid) [])))))))))"
    using assms by (auto simp: compile_plain_step_node_def resolve_plain_step_id_def bind_result_Inr or_option_def)
  then show ?thesis by (intro exI [of _ tool]) (simp add: node)
qed

text \<open>The node that a compiled step denotes, given its id, dependencies and condition.\<close>

definition step_node :: "json_object \<Rightarrow> ustring \<Rightarrow> ustring \<Rightarrow> ustring list \<Rightarrow> WorkflowRunIf option \<Rightarrow> WorkflowNodeSpec" where
  "step_node obj nid tool deps run_if =
     \<lparr>node_id = nid, node_tool_name = tool, node_tool_args = step_args obj, node_deps = deps,
      node_requires_approval = unwrap_or (and_then (map_of obj (lit ''requires_approval'')) as_bool) False,
      node_timeout_secs = and_then (map_of obj (lit ''timeout_secs'')) as_u64,
      node_compensate_with = str_list_field (Object obj) (lit ''compensate_with''),
      node_max_retries = min (unwrap_or (and_then (map_of obj (lit ''max_retries'')) as_u64) 0) 5,
      node_tool_role = and_then (or_option (map_of obj (lit ''node_tool_role'')) (map_of obj (lit ''executor_kind''))) role_of_value,
      node_run_if = run_if\<rparr>"

lemma compiled_node_parses:
  assumes "compile_plain_step_node obj i (Some nid) (Some deps) = Inr node"
  shows "\<exists>tool. map_tool_name obj i = Inr tool \<and>
    parse_node_from_value (Object node) None = Inr (step_node obj nid tool deps None) \<and>
    parse_node_from_value (Object (obj_insert (lit ''run_if'') r node)) None =
      bind_result (parse_run_if_json r) (\<lambda>c. Inr (step_node obj nid tool deps c))"
  using compiled_node_keys [OF assms]
  by (auto simp: parse_node_from_value_def step_node_def str_list_field_def)

lemma repeat_run_if_parses:
  "trim b = b \<Longrightarrow> b \<noteq> [] \<Longrightarrow>
     parse_run_if_json (repeat_stop_on_success_run_if (repeat_id b i)) =
       Inr (Some (RunIfBranch (repeat_id b i) BranchFailure))"
  by (simp add: parse_run_if_json_def repeat_stop_on_success_run_if_def obj_of_def parse_run_if_branch_def
      trimmed_str_field_def repeat_id_trim)

lemma map_of_without_repeat: "k \<noteq> lit ''repeat'' \<Longrightarrow> map_of (step_map_without_repeat obj) k = map_of obj k"
  by (induction obj) (auto simp: step_map_without_repeat_def)

lemma step_node_without_repeat [simp]: "step_node (step_map_without_repeat obj) = step_node obj"
  by (simp add: step_node_def fun_eq_iff step_args_def map_of_without_repeat str_list_field_def)

lemma map_tool_name_without_repeat [simp]: "map_tool_name (step_map_without_repeat obj) i = map_tool_name obj i"
  by (simp add: map_tool_name_def map_of_without_repeat)

text \<open>The nodes after the first: each depends on the one before and waits for its failure.\<close>

lemma repeat_tail:
  assumes "repeat_loop base i b w StopSuccess (Some (repeat_id b p)) [Suc p..<n] = Inr ns"
    "trim b = b" "b \<noteq> []" "0 < p" "map_tool_name base i = Inr tool"
  shows "length ns = n - Suc p \<and> (\<forall>k < length ns. parse_node_from_value (Object (ns ! k)) None =
    Inr (step_node base (repeat_id b (Suc (p + k))) tool [repeat_id b (p + k)] (Some (RunIfBranch (repeat_id b (p + k)) BranchFailure))))"
  using assms
proof (induction "n - Suc p" arbitrary: p ns)
  case (Suc m)
  then have lt: "Suc p < n" by linarith
  then have "[Suc p..<n] = Suc p # [Suc (Suc p)..<n]" by (simp add: upt_conv_Cons)
  with Suc.prems(1) obtain node rest where
    node: "compile_plain_step_node base i (Some (repeat_id b (Suc p))) (Some [repeat_id b p]) = Inr node"
    and rest: "repeat_loop base i b w StopSuccess (Some (repeat_id b (Suc p))) [Suc (Suc p)..<n] = Inr rest"
    and ns: "ns = obj_insert (lit ''run_if'') (repeat_stop_on_success_run_if (repeat_id b p)) node # rest"
    using Suc.prems(4) by (auto simp: bind_result_Inr apply_repeat_node_run_if_def)
  have IH: "length rest = n - Suc (Suc p) \<and> (\<forall>k < length rest. parse_node_from_value (Object (rest ! k)) None =
    Inr (step_node base (repeat_id b (Suc (Suc p + k))) tool [repeat_id b (Suc p + k)] (Some (RunIfBranch (repeat_id b (Suc p + k)) BranchFailure))))"
    using Suc.hyps(1) [OF _ rest] Suc.hyps(2) Suc.prems by simp
  have hd: "parse_node_from_value (Object (ns ! 0)) None =
    Inr (step_node base (repeat_id b (Suc p)) tool [repeat_id b p] (Some (RunIfBranch (repeat_id b p) BranchFailure)))"
    using compiled_node_parses [OF node, of "repeat_stop_on_success_run_if (repeat_id b p)"] Suc.prems ns
    by (simp add: repeat_run_if_parses)
  show ?case
  proof (intro conjI allI impI)
    show "length ns = n - Suc p" using IH ns lt by simp
    fix k assume "k < length ns"
    then show "parse_node_from_value (Object (ns ! k)) None =
      Inr (step_node base (repeat_id b (Suc (p + k))) tool [repeat_id b (p + k)] (Some (RunIfBranch (repeat_id b (p + k)) BranchFailure)))"
      using hd IH ns by (cases k) auto
  qed
qed simp

lemma static_items_ignore_max_items:
  assumes "parse_for_each_step obj i = Inr spec" "fe_static_items spec = Some items"
    "compile_for_each_author_step obj i (seen, nodes, pending) = Inr (seen', nodes', pending')"
  shows "length nodes' = length nodes + length items"
  using assms by (auto simp: compile_for_each_author_step_def bind_result_Inr build_for_each_nodes_def)

section \<open>Properties\<close>

text \<open>
  A repeated step is a bounded retry chain.  A step with \<^verbatim>\<open>repeat\<close> that stops on success compiles to
  one to five nodes; what the parser reads back are nodes that all carry the step's tool, arguments,
  approval flag, timeout, retries, compensation and role, the first with the step's own dependencies,
  each later one depending on exactly the node before it and running only if that node failed.
\<close>

theorem repeat_is_retry_chain:
  assumes "parse_repeat_spec obj i = Inr (Some rep)" and "rep_stop_on rep = StopSuccess"
    and "expand_repeat_step_nodes obj i rep = Inr ns" and "map_of obj (lit ''when'') = None"
  shows "1 \<le> rep_count rep \<and> rep_count rep \<le> 5 \<and>
    (\<exists>b tool deps. map_required_id obj i = Inr b \<and> map_tool_name obj i = Inr tool \<and>
       parse_after_deps (map_of obj (lit ''after'')) i = Inr deps \<and>
       map_result (\<lambda>n. parse_node_from_value n None) (map Object ns) =
         Inr (map (\<lambda>k. step_node obj (repeat_id b (Suc k)) tool (if k = 0 then deps else [repeat_id b k])
           (if k = 0 then None else Some (RunIfBranch (repeat_id b k) BranchFailure))) [0..<rep_count rep]))"
proof -
  have range: "1 \<le> rep_count rep" "rep_count rep \<le> 5"
    using assms(1) by (auto simp: parse_repeat_spec_def bind_result_Inr Let_def split: option.splits if_splits)
  let ?base = "step_map_without_repeat obj" and ?n = "Suc (rep_count rep)"
  obtain b where b: "map_required_id obj i = Inr b"
    and loop: "repeat_loop ?base i b None StopSuccess None [1..<?n] = Inr ns"
    using assms by (auto simp: expand_repeat_step_nodes_def bind_result_Inr)
  then have bt: "trim b = b" "b \<noteq> []" using trimmed_str_field_trimmed by (auto simp: map_required_id_def)
  have "[1..<?n] = 1 # [Suc 1..<?n]" using range by (simp add: upt_conv_Cons)
  with loop obtain deps node rest where deps: "parse_after_deps (map_of ?base (lit ''after'')) i = Inr deps"
    and node: "compile_plain_step_node ?base i (Some (repeat_id b 1)) (Some deps) = Inr node"
    and rest: "repeat_loop ?base i b None StopSuccess (Some (repeat_id b 1)) [Suc 1..<?n] = Inr rest"
    and ns: "ns = node # rest"
    by (auto simp: bind_result_Inr apply_repeat_node_run_if_def)
  obtain tool where tool: "map_tool_name obj i = Inr tool"
    and hd: "parse_node_from_value (Object node) None = Inr (step_node obj (repeat_id b 1) tool deps None)"
    using compiled_node_parses [OF node] by auto
  have tl: "length rest = ?n - Suc 1" "\<And>k. k < length rest \<Longrightarrow> parse_node_from_value (Object (rest ! k)) None =
      Inr (step_node obj (repeat_id b (Suc (1 + k))) tool [repeat_id b (1 + k)] (Some (RunIfBranch (repeat_id b (1 + k)) BranchFailure)))"
    using repeat_tail [OF rest bt] tool by auto
  let ?f = "\<lambda>k. step_node obj (repeat_id b (Suc k)) tool (if k = 0 then deps else [repeat_id b k])
      (if k = 0 then None else Some (RunIfBranch (repeat_id b k) BranchFailure))"
  have "length ns = rep_count rep" using ns tl(1) range by simp
  moreover have "parse_node_from_value (Object (ns ! k)) None = Inr (?f k)" if "k < length ns" for k
    using that hd tl(2) ns by (cases k) auto
  ultimately have "map_result (\<lambda>n. parse_node_from_value n None) (map Object ns) = Inr (map ?f [0..<rep_count rep])"
    by (intro map_result_InrI) simp_all
  then show ?thesis using range b tool deps by (auto simp: map_of_without_repeat)
qed

definition sample_repeat_step :: json_object where
  "sample_repeat_step =
     [(lit ''id'', String (lit ''a'')), (lit ''repeat'', Object [(lit ''count'', Number (PosInt 2))]),
      (lit ''requires_approval'', Bool True), (lit ''tool'', String (lit ''t''))]"

theorem repeat_is_retry_chain_witness:
  "\<exists>ns deps. expand_repeat_step_nodes sample_repeat_step 0 \<lparr>rep_count = 2, rep_stop_on = StopSuccess\<rparr> = Inr ns \<and>
     map_result (\<lambda>n. parse_node_from_value n None) (map Object ns) =
       Inr [step_node sample_repeat_step (lit ''a_1'') (lit ''t'') deps None,
            step_node sample_repeat_step (lit ''a_2'') (lit ''t'') [lit ''a_1''] (Some (RunIfBranch (lit ''a_1'') BranchFailure))]"
proof -
  let ?rep = "\<lparr>rep_count = 2, rep_stop_on = StopSuccess\<rparr>"
  have a: "trim (lit ''a'') = lit ''a''" "trim (lit ''t'') = lit ''t''" by (simp_all add: trim_id lit_Cons is_whitespace_def)
  have spec: "parse_repeat_spec sample_repeat_step 0 = Inr (Some ?rep)"
    by (simp add: parse_repeat_spec_def sample_repeat_step_def)
  have ids: "map_required_id sample_repeat_step 0 = Inr (lit ''a'')" "map_tool_name sample_repeat_step 0 = Inr (lit ''t'')"
    by (simp_all add: map_required_id_def map_tool_name_def trimmed_str_field_def sample_repeat_step_def a)
  obtain ns where ns: "expand_repeat_step_nodes sample_repeat_step 0 ?rep = Inr ns"
    using ids by (auto simp: expand_repeat_step_nodes_def sample_repeat_step_def upt_rec parse_after_deps_def
        step_map_without_repeat_def compile_plain_step_node_def resolve_plain_step_id_def map_tool_name_def a)
  have "map_of sample_repeat_step (lit ''when'') = None" by (simp add: sample_repeat_step_def)
  from repeat_is_retry_chain [OF spec _ ns this] ns ids show ?thesis
    by (auto simp: upt_rec repeat_id_def lit_Cons)
qed

text \<open>
  The detour over JSON drops the safeguards of a \<^verbatim>\<open>for_each\<close> step.  A step whose items come from the
  output of another node is written to \<^verbatim>\<open>for_each_pending\<close> and read back; what comes back equals what the
  author wrote except that the approval flag, the timeout, the compensation, the retries and the
  role are reset, whatever they were.
\<close>

theorem for_each_detour_drops_safeguards:
  assumes "parse_for_each_step obj i = Inr spec" and "fe_static_items spec = None"
  shows "parse_one_for_each_pending (for_each_pending_obj spec) j =
    Inr (spec\<lparr>fe_requires_approval := False, fe_timeout_secs := None, fe_compensate_with := [],
              fe_max_retries := 0, fe_node_tool_role := None\<rparr>)"
proof -
  have trimmed: "trim (fe_base_id spec) = fe_base_id spec" "fe_base_id spec \<noteq> []"
    "trim (fe_from spec) = fe_from spec" "fe_from spec \<noteq> []"
    using assms(1) trimmed_str_field_trimmed
    by (fastforce simp: parse_for_each_step_def bind_result_Inr map_required_id_def parse_for_each_loop_config_def
        Let_def split: if_splits)+
  have path: "map_of (for_each_pending_obj spec) (lit ''json_path'') = map_option String (fe_json_path spec)"
    by (simp add: for_each_pending_obj_def split: option.split)
  have keys: "map_of (for_each_pending_obj spec) (lit ''base_id'') = Some (String (fe_base_id spec))"
    "map_of (for_each_pending_obj spec) (lit ''from'') = Some (String (fe_from spec))"
    "map_of (for_each_pending_obj spec) (lit ''tool'') = Some (String (fe_tool_name spec))"
    "map_of (for_each_pending_obj spec) (lit ''item_var'') = Some (String (fe_item_var spec))"
    "map_of (for_each_pending_obj spec) (lit ''max_items'') = Some (Number (PosInt (fe_max_items spec)))"
    "map_of (for_each_pending_obj spec) (lit ''parallel'') = Some (Bool (fe_parallel spec))"
    "map_of (for_each_pending_obj spec) (lit ''tool_args'') = Some (fe_tool_args_template spec)"
    "map_of (for_each_pending_obj spec) (lit ''extra_deps'') = Some (Array (map String (fe_extra_deps spec)))"
    by (simp_all add: for_each_pending_obj_def split: option.split)
  have "and_then (map_option String (fe_json_path spec)) as_str = fe_json_path spec"
    by (cases "fe_json_path spec") simp_all
  then show ?thesis
    using trimmed assms(2)
    by (simp add: parse_one_for_each_pending_def trimmed_str_field_def keys path str_list_field_def)
qed

definition sample_for_each_step :: json_object where
  "sample_for_each_step =
     [(lit ''for_each'', Object [(lit ''from'', String (lit ''a'')), (lit ''json_path'', String (lit ''/x''))]),
      (lit ''id'', String (lit ''b'')), (lit ''requires_approval'', Bool True), (lit ''tool'', String RUN_COMMAND)]"

theorem for_each_detour_drops_safeguards_witness:
  "\<exists>spec spec'. parse_for_each_step sample_for_each_step 0 = Inr spec \<and> fe_requires_approval spec \<and>
     parse_one_for_each_pending (for_each_pending_obj spec) 0 = Inr spec' \<and> \<not> fe_requires_approval spec'"
proof -
  have t: "trim (lit ''a'') = lit ''a''" "trim (lit ''b'') = lit ''b''" "trim (lit ''/x'') = lit ''/x''" "trim RUN_COMMAND = RUN_COMMAND"
    "RUN_COMMAND \<noteq> []"
    by (simp_all add: trim_id lit_Cons is_whitespace_def RUN_COMMAND_def)
  obtain spec where spec: "parse_for_each_step sample_for_each_step 0 = Inr spec" "fe_requires_approval spec"
    "fe_static_items spec = None"
    by (simp add: parse_for_each_step_def sample_for_each_step_def map_required_id_def trimmed_str_field_def
        parse_for_each_loop_config_def map_tool_name_def parse_after_deps_def t Let_def)
  from for_each_detour_drops_safeguards [OF spec(1,3)] spec show ?thesis by fastforce
qed

text \<open>
  The built-in templates are sound: each parses, its graph passes the validation, and the two
  review templates only contain nodes with the read-only role.
\<close>

theorem templates_well_formed:
  "list_all (\<lambda>t. case map_option parse_workflow_nodes_field (get_key t (lit ''nodes'')) of
       Some (Inr nodes) \<Rightarrow> nodes \<noteq> [] \<and> validate_dag (\<lambda>k. 0) nodes = Some (Inr ())
     | _ \<Rightarrow> False)
     [workflow_template_rust_ci_light, workflow_template_code_review, workflow_template_refactor_precheck] \<and>
   list_all (\<lambda>t. case map_option parse_workflow_nodes_field (get_key t (lit ''nodes'')) of
       Some (Inr nodes) \<Rightarrow> list_all (\<lambda>n. node_tool_role n = Some RoleReviewReadonly) nodes
     | _ \<Rightarrow> False)
     [workflow_template_code_review, workflow_template_refactor_precheck]"
proof -
  note templates = workflow_template_rust_ci_light_def workflow_template_code_review_def
    workflow_template_refactor_precheck_def jspec_def jnode_def jobj_def obj_of_def
  note parse = parse_workflow_nodes_field_def parse_node_from_value_def str_list_field_def str_items_def
    List.map_filter_simps role_of_name_def
  note dag = validate_dag_def kahn_graph_from_nodes_def kahn_zero_indegree_def hash_iter_def
    kahn_visit_count_def kahn_consume_successors_def sort_key_def unknown_dependency_error_def
  show ?thesis by (simp add: templates parse dag)
qed

end
