(* ===== verification/Workflow_Run.thy ===== *)
theory Workflow_Run
  imports Workflow_Report Workflow_Compile
begin

text \<open>
  The entry point of the tool \<^verbatim>\<open>workflow_execute\<close>: loading an author file (\<^verbatim>\<open>src/cm_workflow/author_load.rs\<close>,
  \<^verbatim>\<open>md_extract.rs\<close>), the planning mode \<^verbatim>\<open>validate_only\<close> and the run itself (\<^verbatim>\<open>run.rs\<close>).  It composes the
  parser, the check of tool names, the graph validation, the permission snapshot and the executor.

  \<open>run_env\<close> holds the JSON and YAML libraries, the schema check, the file system, the table of
  registered tools and the iteration order of hash maps.

  Shown here: nothing is executed unless the specification parsed, every tool name (those of nodes
  that \<^verbatim>\<open>for_each\<close> adds at run time included) is known, and the graph is well-formed; the nodes run with the
  command list of the turn's permission snapshot; planning and \<^verbatim>\<open>done\<close> never execute anything; and a
  file is only read at a relative path without parent components.
\<close>

section \<open>Author files\<close>

definition FENCE :: ustring where
  "FENCE = [96, 96, 96]"

text \<open>The state of the loop: blocks so far, inside a block, and the buffer.\<close>

definition extract_line :: "ustring list \<times> bool \<times> ustring \<Rightarrow> ustring \<Rightarrow> ustring list \<times> bool \<times> ustring" where
  "extract_line st line =
     (case st of (blocks, in_block, buf) \<Rightarrow>
        (let trimmed = trim line in
         if \<not> in_block
         then (case strip_prefix trimmed FENCE of
                 Some rest \<Rightarrow> if trim rest = lit ''crabmate-workflow'' then (blocks, True, []) else (blocks, False, buf)
               | None \<Rightarrow> (blocks, False, buf))
         else if starts_with trimmed FENCE then (blocks @ [trim_end buf], False, [])
         else (blocks, True, (if buf \<noteq> [] then buf @ [10] else buf) @ line)))"

definition extract_crabmate_workflow_blocks :: "ustring \<Rightarrow> ustring list" where
  "extract_crabmate_workflow_blocks md = fst (foldl extract_line ([], False, []) (lines md))"

datatype load_error =
    ArgsInvalid ustring
  | WorkflowOrFileRequired
  | WorkspaceRequired
  | AbsolutePath
  | ParentPath
  | ReadFailed ustring
  | NoWorkflowBlock
  | YamlInvalid ustring
  | CompileFailed workflow_error
  | CompiledWithoutWorkflow

definition extract_first_crabmate_workflow_block :: "ustring \<Rightarrow> (load_error, ustring) result" where
  "extract_first_crabmate_workflow_block md =
     (case extract_crabmate_workflow_blocks md of [] \<Rightarrow> Inl NoWorkflowBlock | b # _ \<Rightarrow> Inr b)"

record run_env =
  re_from_str :: json_reader
  re_to_string :: "Value \<Rightarrow> ustring"
  re_from_yaml :: json_reader
  re_schema :: schema_check
  re_read_file :: "ustring \<Rightarrow> (ustring, ustring) result"
  re_rank :: "ustring \<Rightarrow> nat"
  re_registered :: "ustring \<Rightarrow> bool"

text \<open>
  The path is relative to the workspace.  The platform separator is \<^verbatim>\<open>/\<close>, so the first two tests of
  the source are the same.
\<close>

definition resolve_workflow_path :: "ustring \<Rightarrow> (load_error, ustring) result" where
  "resolve_workflow_path rel0 =
     (let rel = trim rel0 in
      if starts_with rel [47] then Inl AbsolutePath
      else if list_ex (\<lambda>c. c = lit ''..'') (split_char 47 rel) \<or> list_ex (\<lambda>c. c = lit ''..'') (split_char 92 rel)
      then Inl ParentPath
      else Inr rel)"

text \<open>\<^verbatim>\<open>Path::extension\<close>: after the last dot of the last component, unless the dot starts it.\<close>

definition path_extension :: "ustring \<Rightarrow> ustring option" where
  "path_extension path =
     (case filter (\<lambda>c. c \<noteq> [] \<and> c \<noteq> [46]) (split_char 47 path) of
        [] \<Rightarrow> None
      | comps \<Rightarrow>
          (let parts = split_char 46 (last comps) in
           if length parts < 2 \<or> concat (butlast parts) = [] \<and> length parts = 2 then None else Some (last parts)))"

definition read_workflow_author_source :: "run_env \<Rightarrow> ustring \<Rightarrow> (load_error, ustring) result" where
  "read_workflow_author_source re rel_path =
     bind_result (resolve_workflow_path (trim rel_path)) (\<lambda>path.
       case re_read_file re path of
         Inl e \<Rightarrow> Inl (ReadFailed e)
       | Inr text' \<Rightarrow>
           (let ext = to_ascii_lowercase (unwrap_or (path_extension path) []) in
            if ext = lit ''md'' \<or> ext = lit ''markdown'' then extract_first_crabmate_workflow_block text'
            else Inr text'))"

definition compile_workflow_author_yaml :: "run_env \<Rightarrow> ustring \<Rightarrow> (load_error, Value) result" where
  "compile_workflow_author_yaml re yaml =
     (case re_from_yaml re yaml of
        Inl e \<Rightarrow> Inl (YamlInvalid e)
      | Inr root \<Rightarrow>
          (case compile_workflow_author_value (re_schema re) root of Inl e \<Rightarrow> Inl (CompileFailed e) | Inr v \<Rightarrow> Inr v))"

definition compile_workflow_author_file :: "run_env \<Rightarrow> ustring \<Rightarrow> (load_error, Value) result" where
  "compile_workflow_author_file re rel_path =
     bind_result (read_workflow_author_source re rel_path) (compile_workflow_author_yaml re)"

definition merge_workflow_object_overlay :: "Value \<Rightarrow> Value \<Rightarrow> Value" where
  "merge_workflow_object_overlay compiled overlay =
     (case (as_object overlay, and_then (get_key compiled (lit ''workflow'')) as_object) of
        (Some overlay_obj, Some wf_obj) \<Rightarrow>
          set_key compiled (lit ''workflow'') (Object
            (foldl (\<lambda>m (k, v). if k = lit ''nodes'' \<or> k = lit ''steps'' then m else obj_insert k v m) wf_obj overlay_obj))
      | _ \<Rightarrow> compiled)"

definition resolve_workflow_execute_args ::
    "run_env \<Rightarrow> ustring \<Rightarrow> bool \<Rightarrow> (load_error, ustring) result" where
  "resolve_workflow_execute_args re args_json ws_set =
     (case re_from_str re args_json of
        Inl e \<Rightarrow> Inl (ArgsInvalid e)
      | Inr root \<Rightarrow>
          (case trim_nonempty (and_then (get_key root (lit ''workflow_file'')) as_str) of
             None \<Rightarrow> if get_key root (lit ''workflow'') \<noteq> None then Inr args_json else Inl WorkflowOrFileRequired
           | Some path \<Rightarrow>
               if \<not> ws_set then Inl WorkspaceRequired
               else bind_result (compile_workflow_author_file re path) (\<lambda>compiled0.
                 (let compiled = (case get_key root (lit ''workflow'') of
                        Some overlay \<Rightarrow> merge_workflow_object_overlay compiled0 overlay | None \<Rightarrow> compiled0) in
                  bind_result (ok_or CompiledWithoutWorkflow (get_key compiled (lit ''workflow''))) (\<lambda>workflow.
                    Inr (re_to_string re (case root of
                      Object obj \<Rightarrow> Object (obj_insert (lit ''workflow'') workflow (obj_remove (lit ''workflow_file'') obj))
                    | _ \<Rightarrow> root)))))))"

section \<open>Planning\<close>

datatype run_error =
    LoadError load_error
  | ArgsNotJson
  | SpecError workflow_error
  | ToolNameError workflow_error
  | GraphError dag_error
  | LayerError dag_error

definition parse_and_check :: "run_env \<Rightarrow> ustring \<Rightarrow> (run_error, WorkflowSpec) result option" where
  "parse_and_check re args_json =
     (case parse_workflow_spec (re_from_str re) (re_schema re) (re_rank re) args_json of
        Inl e \<Rightarrow> Some (Inl (SpecError e))
      | Inr spec \<Rightarrow>
          (case validate_tool_names (re_registered re) spec of
             Inl e \<Rightarrow> Some (Inl (ToolNameError e))
           | Inr _ \<Rightarrow>
               map_option (\<lambda>r. case r of Inl e \<Rightarrow> Inl (GraphError e) | Inr _ \<Rightarrow> Inr spec)
                 (validate_dag (re_rank re) (spec_nodes spec))))"

definition layer_of :: "ustring list list \<Rightarrow> ustring \<Rightarrow> nat option" where
  "layer_of layers i = map_of (rev (concat (map (\<lambda>(k, layer). map (\<lambda>j. (j, k)) layer) (List.enumerate 0 layers)))) i"

definition planned_report :: "run_env \<Rightarrow> WorkflowSpec \<Rightarrow> ustring list list \<Rightarrow> WorkflowNodeSpec \<Rightarrow> WorkflowExecutionNodeReport" where
  "planned_report re spec layers n =
     (mk_report n (lit ''planned'') (preview (re_to_string re (node_tool_args n)) (summary_preview_max_chars spec))
        False None None 1)\<lparr>rep_planned_layer := layer_of layers (node_id n)\<rparr>"

definition plan_report :: "run_env \<Rightarrow> WorkflowSpec \<Rightarrow> nat \<Rightarrow> ustring list list \<Rightarrow> WorkflowExecutionReport" where
  "plan_report re spec workflow_run_id layers =
     \<lparr>rep_type = lit ''workflow_validate_result'', rep_workflow_run_id = workflow_run_id,
      rep_status = lit ''planned'', rep_workspace_changed = False,
      rep_spec = Object (obj_of
      [(lit ''max_parallelism'', Number (PosInt (max_parallelism spec))),
      (lit ''fail_fast'', Bool (fail_fast spec)),
      (lit ''compensate_on_failure'', Bool (compensate_on_failure spec)),
      (lit ''output_inject_max_chars'', Number (PosInt (output_inject_max_chars spec))),
      (lit ''nodes_count'', Number (PosInt (length (spec_nodes spec)))),
      (lit ''execution_layers'', Array (map (\<lambda>layer. Array (map String layer)) layers)),
      (lit ''layer_count'', Number (PosInt (cached_layer_count spec))),
      (lit ''topological_order'', Array (map String (concat layers)))]),
      rep_passed = 0, rep_failed = 0, rep_skipped = 0,
      rep_nodes = map (planned_report re spec layers) (spec_nodes spec),
      rep_first_failure = None, rep_compensation_executed = False, rep_compensation_summary = None,
      rep_trace = [], rep_completion_order = concat layers,
      rep_human_summary =
      (lit ''workflow_validate_only: DAG '' @ [26657, 39564, 36890, 36807, 65292, 24050, 29983, 25104, 35268, 21010, 65288] @ lit ''planned nodes='') @ show_nat (length (spec_nodes spec)) @
      ([65292] @ lit ''layers='') @ show_nat (length layers) @ [65289],
      rep_chrome_trace_path = None\<rparr>"

definition workflow_validate_only_finish ::
    "run_env \<Rightarrow> ustring \<Rightarrow> nat \<Rightarrow> (run_error, WorkflowExecutionReport) result option" where
  "workflow_validate_only_finish re args_json workflow_run_id =
     Option.bind (parse_and_check re args_json) (\<lambda>r. case r of
        Inl e \<Rightarrow> Some (Inl e)
      | Inr spec \<Rightarrow>
          map_option (map_sum LayerError (plan_report re spec workflow_run_id))
            (topo_layers (re_rank re) (spec_nodes spec)))"

section \<open>The run\<close>

record WorkflowConfig =
  wc_command_timeout_secs :: nat
  wc_weather_timeout_secs :: nat
  wc_web_search_timeout_secs :: nat
  wc_web_search_provider :: ustring
  wc_http_fetch_timeout_secs :: nat
  wc_http_fetch_allowed_prefixes :: "ustring list"
  wc_allowed_commands :: "ustring list"

definition node_allowed_commands :: "WorkflowConfig \<Rightarrow> PolicyEngine option \<Rightarrow> ustring list" where
  "node_allowed_commands cfg perm =
     (case perm of
        Some caps \<Rightarrow> unwrap_or (engine_command_allowlist caps) []
      | None \<Rightarrow> wc_allowed_commands cfg)"

definition node_path_scope :: "PolicyEngine option \<Rightarrow> PathScope" where
  "node_path_scope perm = unwrap_or (map_option engine_path_scope perm) PathScope.SessionRoot"

definition node_http_prefixes :: "WorkflowConfig \<Rightarrow> PolicyEngine option \<Rightarrow> ustring list" where
  "node_http_prefixes cfg perm =
     (case perm of
        Some caps \<Rightarrow>
          if engine_outbound_allows_any caps then [lit ''*'']
          else if engine_outbound_denied caps then []
          else wc_http_fetch_allowed_prefixes cfg
      | None \<Rightarrow> wc_http_fetch_allowed_prefixes cfg)"

definition workflow_tool_exec_ctx ::
    "WorkflowConfig \<Rightarrow> bool \<Rightarrow> nat \<Rightarrow> PolicyEngine option \<Rightarrow> WorkflowToolExecCtx" where
  "workflow_tool_exec_ctx cfg ws_set workflow_run_id perm =
     \<lparr>cfg_command_timeout_secs = wc_command_timeout_secs cfg,
      cfg_weather_timeout_secs = wc_weather_timeout_secs cfg,
      cfg_web_search_timeout_secs = wc_web_search_timeout_secs cfg,
      cfg_web_search_provider = wc_web_search_provider cfg,
      cfg_http_fetch_timeout_secs = wc_http_fetch_timeout_secs cfg,
      cfg_http_fetch_allowed_prefixes = node_http_prefixes cfg perm,
      cfg_allowed_commands = node_allowed_commands cfg perm,
      ctx_path_scope = node_path_scope perm,
      ctx_workspace_is_set = ws_set, ctx_workflow_run_id = workflow_run_id\<rparr>"

text \<open>What the tool answers; only \<open>Executed\<close> has run anything.\<close>

datatype workflow_reply =
    Rejected run_error
  | DoneSkipped Value
  | Planned WorkflowExecutionReport
  | Executed WorkflowExecutionReport bool

text \<open>
  Everything of \<^verbatim>\<open>run_workflow_execute_tool\<close> before the executor: a reply, or the specification to execute.
\<close>

definition workflow_decision ::
    "run_env \<Rightarrow> ustring \<Rightarrow> bool \<Rightarrow> nat \<Rightarrow> (workflow_reply, WorkflowSpec) result option" where
  "workflow_decision re args_json ws_set workflow_run_id =
     (case resolve_workflow_execute_args re args_json ws_set of
        Inl e \<Rightarrow> Some (Inl (Rejected (LoadError e)))
      | Inr resolved_args \<Rightarrow>
          (case re_from_str re resolved_args of
             Inl _ \<Rightarrow> Some (Inl (Rejected ArgsNotJson))
           | Inr v \<Rightarrow>
               (let workflow_v = unwrap_or (get_key v (lit ''workflow'')) v in
                if unwrap_or (and_then (get_key workflow_v (lit ''done'')) as_bool) False
                then Some (Inl (DoneSkipped workflow_v))
                else if unwrap_or (and_then (get_key workflow_v (lit ''validate_only'')) as_bool) False
                then map_option (\<lambda>r. Inl (case r of Inl e \<Rightarrow> Rejected e | Inr report \<Rightarrow> Planned report))
                       (workflow_validate_only_finish re resolved_args workflow_run_id)
                else map_option (map_sum Rejected (\<lambda>spec. spec))
                       (parse_and_check re resolved_args))))"

definition run_workflow_execute_tool ::
    "run_env \<Rightarrow> node_env \<Rightarrow> panic_oracle \<Rightarrow> (WorkflowTraceEvent list \<Rightarrow> ustring option) \<Rightarrow> sched_env \<Rightarrow> node_world \<Rightarrow>
     WorkflowConfig \<Rightarrow> ustring \<Rightarrow> bool \<Rightarrow> WorkflowApprovalMode \<Rightarrow> nat \<Rightarrow> PolicyEngine option \<Rightarrow> workflow_reply \<Rightarrow> bool" where
  "run_workflow_execute_tool re env panics chrome se w0 cfg args_json ws_set mode run_id perm reply \<longleftrightarrow>
     (case workflow_decision re args_json ws_set run_id of
        None \<Rightarrow> False
      | Some (Inl r) \<Rightarrow> reply = r
      | Some (Inr spec) \<Rightarrow>
          (\<exists>report changed. reply = Executed report changed \<and>
             execute_workflow_dag env panics chrome se w0 spec mode
               (workflow_tool_exec_ctx cfg ws_set run_id perm) (report, changed)))"


section \<open>Lemmas\<close>

text \<open>Which tools the active nodes use, in every state of the scheduler.\<close>

definition declared_tools :: "WorkflowSpec \<Rightarrow> ustring set" where
  "declared_tools spec = node_tool_name ` set (spec_nodes spec) \<union> fe_tool_name ` set (for_each_pending spec)"

lemma check_tool_name_ok [simp]:
  "check_tool_name registered i t = Inr u \<longleftrightarrow> registered t \<or> tool_origin t \<noteq> ToolOrigin.Builtin"
  by (simp add: check_tool_name_def)

lemma validate_tool_names_ok:
  assumes "validate_tool_names registered spec = Inr ()" "t \<in> declared_tools spec"
  shows "registered t \<or> tool_origin t \<noteq> ToolOrigin.Builtin"
proof -
  have all: "f x = Inr ()" if "map_result f xs = Inr us" "x \<in> set xs" for f :: "'a \<Rightarrow> (workflow_error, unit) result" and xs us x
  proof -
    obtain k where "k < length xs" "x = xs ! k" using \<open>x \<in> set xs\<close> by (auto simp: in_set_conv_nth)
    then show ?thesis using map_result_Inr_nth [OF that(1)] by simp
  qed
  obtain us vs where "map_result (\<lambda>n. check_tool_name registered (node_id n) (node_tool_name n)) (spec_nodes spec) = Inr us"
    "map_result (\<lambda>p. check_tool_name registered (fe_base_id p @ ([65288] @ lit ''for_each'' @ [65289])) (fe_tool_name p)) (for_each_pending spec) = Inr vs"
    using assms(1) by (auto simp: validate_tool_names_def bind_result_Inr)
  note ok = all [OF this(1)] all [OF this(2)]
  show ?thesis using assms(2) ok by (fastforce simp: declared_tools_def)
qed

lemma round_pending:
  "s_pending (schedule_node env s n) = s_pending s" "s_pending (fail_fast_skip env s n) = s_pending s"
  "s_pending (mark_missing mk s n) = s_pending s"
  by (simp_all add: schedule_node_def mark_run_if_skipped_def fail_fast_skip_def mark_missing_def
      split: NodeScheduleDecision.split)

lemma handle_empty_pending: "s_pending (fst (dag_handle_empty_inflight env spec s)) = s_pending s"
  by (simp add: dag_handle_empty_inflight_def dag_mark_remaining_nodes_fail_fast_skipped_def mark_livelock_def
      Let_def foldl_keeps [of s_pending, OF round_pending(2)] foldl_keeps [of s_pending, OF round_pending(3)])

lemma loop_round_pending: "s_pending (loop_round env spec s) = s_pending (expand_round env s)"
proof -
  have "s_pending (schedule_pass env spec (expand_round env s)) = s_pending (expand_round env s)"
    by (simp add: schedule_pass_def foldl_keeps [of s_pending, OF round_pending(1)])
  then show ?thesis
    using handle_empty_pending [of env spec "schedule_pass env spec (expand_round env s)"]
    by (auto simp: loop_round_def Let_def split: prod.splits)
qed

lemma expanded_tool: "n \<in> set (build_for_each_nodes spec items) \<Longrightarrow> node_tool_name n = fe_tool_name spec"
proof -
  have "n \<in> set (for_each_loop spec i prev items) \<Longrightarrow> node_tool_name n = fe_tool_name spec" for i prev
    by (induction items arbitrary: i prev) (auto simp: Let_def for_each_node_def)
  then show "n \<in> set (build_for_each_nodes spec items) \<Longrightarrow> ?thesis" by (simp add: build_for_each_nodes_def)
qed

lemma active_tools:
  assumes "reachable se spec outcome s"
  shows "set (s_pending s) \<subseteq> set (for_each_pending spec) \<and> node_tool_name ` set (s_active s) \<subseteq> declared_tools spec"
  using assms unfolding reachable_def
proof (induction rule: rtranclp_induct)
  case base
  then show ?case by (auto simp: sched_init_def declared_tools_def)
next
  case (step s t)
  from step.hyps(2) show ?case
  proof cases
    case round
    have "node_tool_name n \<in> declared_tools spec"
      if "p \<in> set (s_pending s)" "n \<in> set (expansion_of (se_from_str se) (se_to_string se) (s_completed s) p)" for p n
      using that step.IH expansion_of_cases [of "se_from_str se" "se_to_string se" "s_completed s" p] expanded_tool
      by (fastforce simp: declared_tools_def)
    then show ?thesis using step.IH round
      by (auto simp: loop_round_active loop_round_pending expand_round_active expand_round_pending)
  qed (use step.IH in \<open>auto simp: dag_record_node_completion_def\<close>)
qed

lemma dag_ok_known: "dag_ok nodes \<Longrightarrow> unknown_dependency_error nodes = Inr ()"
  using unknown_dependency_ok_iff [of nodes] by (auto simp: dag_ok_def)

lemma parse_and_check_Inr:
  "parse_and_check re args = Some (Inr spec) \<longleftrightarrow>
     parse_workflow_spec (re_from_str re) (re_schema re) (re_rank re) args = Inr spec \<and>
     validate_tool_names (re_registered re) spec = Inr () \<and> dag_ok (spec_nodes spec)"
  by (auto simp: parse_and_check_def validate_dag_eq dag_ok_known split: sum.splits if_splits)

lemma parse_and_check_returns: "\<exists>r. parse_and_check re args = Some r"
  by (auto simp: parse_and_check_def validate_dag_eq split: sum.split)

lemma topo_layers_dag_ok:
  assumes "dag_ok nodes"
  shows "\<exists>layers. topo_layers rank nodes = Some (Inr layers) \<and> distinct (concat layers) \<and>
    set (concat layers) = node_id ` set nodes"
proof -
  obtain ind layers where run: "topo_layers rank nodes =
      Some (if length (concat layers) = length nodes then Inr layers else Inl LayerCycle)"
    and inv: "dag.layers_inv nodes ind layers []"
    using topo_returns by blast
  then have k: "dag.kahn_inv nodes ind (concat layers) []" by (simp add: dag.layers_inv_def)
  show ?thesis
    using run assms all_visited_iff [OF k] dag.acyclic_visits_all [OF k] k
    by (auto simp: dag_ok_def known_deps_iff dag.kahn_inv_def)
qed

lemma layer_of_Some: "i \<in> set (concat layers) \<Longrightarrow> layer_of layers i \<noteq> None"
proof -
  assume "i \<in> set (concat layers)"
  then obtain l where "l \<in> set layers" "i \<in> set l" by auto
  then obtain k where k: "k < length layers" "i \<in> set (layers ! k)" by (auto simp: in_set_conv_nth [of l])
  then have "(k, layers ! k) \<in> set (List.enumerate 0 layers)" by (auto simp: in_set_enumerate_eq)
  with k(2) have "i \<in> fst ` set (concat (map (\<lambda>(k, layer). map (\<lambda>j. (j, k)) layer) (List.enumerate 0 layers)))"
    by (auto simp: image_Union intro!: bexI [of _ "(k, layers ! k)"] rev_image_eqI)
  then show ?thesis by (simp add: layer_of_def map_of_eq_None_iff del: set_concat)
qed

text \<open>Where the three kinds of decision come from.\<close>

lemma map_sum_Inr_iff: "map_sum f (\<lambda>x. x) r = Inr a \<longleftrightarrow> r = Inr a"
  by (cases r) simp_all

lemma decision_Inr:
  assumes "workflow_decision re args ws k = Some (Inr spec)"
  shows "\<exists>args'. resolve_workflow_execute_args re args ws = Inr args' \<and> parse_and_check re args' = Some (Inr spec)"
proof -
  obtain args' v where "resolve_workflow_execute_args re args ws = Inr args'" "re_from_str re args' = Inr v"
    using assms by (auto simp: workflow_decision_def split: sum.splits)
  then show ?thesis using assms by (auto simp: workflow_decision_def Let_def map_sum_Inr_iff split: if_splits)
qed

lemma decision_Inl:
  assumes "workflow_decision re args ws k = Some (Inl r)"
  shows "(\<forall>report changed. r \<noteq> Executed report changed) \<and>
    (\<forall>report. r = Planned report \<longrightarrow> (\<exists>args'. workflow_validate_only_finish re args' k = Some (Inr report)))"
proof (cases "resolve_workflow_execute_args re args ws")
  case (Inl e)
  then show ?thesis using assms by (auto simp: workflow_decision_def)
next
  case (Inr args')
  show ?thesis
  proof (cases "re_from_str re args'")
    case (Inl e)
    then show ?thesis using assms Inr by (auto simp: workflow_decision_def)
  next
    case v: (Inr v)
    let ?w = "unwrap_or (get_key v (lit ''workflow'')) v"
    consider "r = DoneSkipped ?w"
      | x where "workflow_validate_only_finish re args' k = Some x" "(case x of Inl e \<Rightarrow> Rejected e | Inr rep \<Rightarrow> Planned rep) = r"
      | x where "parse_and_check re args' = Some x" "map_sum Rejected (\<lambda>spec. spec) x = Inl r"
      using assms Inr v by (simp add: workflow_decision_def Let_def split: if_split_asm; blast)
    then show ?thesis
    proof cases
      case (2 x)
      then show ?thesis by (cases x) auto
    next
      case (3 x)
      then show ?thesis by (cases x) auto
    qed simp
  qed
qed

lemma decision_exists: "\<exists>d. workflow_decision re args ws k = Some d"
proof -
  have "\<exists>r. workflow_validate_only_finish re a k = Some r" for a
  proof -
    obtain r where r: "parse_and_check re a = Some r" using parse_and_check_returns by blast
    show ?thesis
    proof (cases r)
      case (Inr spec)
      then have "dag_ok (spec_nodes spec)" using r by (simp add: parse_and_check_Inr)
      then show ?thesis using topo_layers_dag_ok [of "spec_nodes spec" "re_rank re"] r Inr
        by (auto simp: workflow_validate_only_finish_def)
    qed (simp add: workflow_validate_only_finish_def r)
  qed
  then show ?thesis using parse_and_check_returns [of re]
    by (auto simp: workflow_decision_def Let_def split: sum.split)
qed

lemma validate_only_Inr:
  assumes "workflow_validate_only_finish re args k = Some (Inr report)"
  shows "\<exists>spec. parse_and_check re args = Some (Inr spec) \<and>
    map_option (map_sum LayerError (plan_report re spec k)) (topo_layers (re_rank re) (spec_nodes spec)) = Some (Inr report)"
proof -
  obtain r where r: "parse_and_check re args = Some r" using parse_and_check_returns by blast
  then show ?thesis using assms by (cases r) (simp_all add: workflow_validate_only_finish_def)
qed

section \<open>Properties\<close>

text \<open>
  C4: Nothing runs unchecked.  If the tool executed a workflow, then its arguments resolved and
  parsed to a specification whose graph is well-formed; the nodes were run with the command allow
  list of the turn's permission snapshot (none at all when the level forbids commands), its path scope
  and, when it denies outbound traffic, no URL prefix; and
  in every state of the run every active node, those added by \<^verbatim>\<open>for_each\<close> included, names a registered
  tool or an external one.
\<close>

theorem workflow_runs_only_validated:
  assumes "run_workflow_execute_tool re env panics chrome se w0 cfg args ws mode run_id perm (Executed report changed)"
  shows "\<exists>spec args'. resolve_workflow_execute_args re args ws = Inr args' \<and>
    parse_workflow_spec (re_from_str re) (re_schema re) (re_rank re) args' = Inr spec \<and> dag_ok (spec_nodes spec) \<and>
    (let ctx = workflow_tool_exec_ctx cfg ws run_id perm in
     execute_workflow_dag env panics chrome se w0 spec mode ctx (report, changed) \<and>
     cfg_allowed_commands ctx =
       (case perm of Some e \<Rightarrow> (case engine_command_allowlist e of Some l \<Rightarrow> l | None \<Rightarrow> []) | None \<Rightarrow> wc_allowed_commands cfg) \<and>
     (\<forall>e. perm = Some e \<longrightarrow> ctx_path_scope ctx = engine_path_scope e \<and>
        (engine_outbound_denied e \<and> \<not> engine_outbound_allows_any e \<longrightarrow> cfg_http_fetch_allowed_prefixes ctx = [])) \<and>
     (\<forall>s n. reachable se spec (node_outcome env mode ctx (output_inject_max_chars spec)) s \<and> n \<in> set (s_active s) \<longrightarrow>
        re_registered re (node_tool_name n) \<or> tool_origin (node_tool_name n) \<noteq> ToolOrigin.Builtin))"
proof -
  obtain spec where dec: "workflow_decision re args ws run_id = Some (Inr spec)"
    and run: "execute_workflow_dag env panics chrome se w0 spec mode (workflow_tool_exec_ctx cfg ws run_id perm) (report, changed)"
    using assms decision_Inl unfolding run_workflow_execute_tool_def by (fastforce split: option.splits sum.splits)
  then obtain args' where args': "resolve_workflow_execute_args re args ws = Inr args'"
    "parse_and_check re args' = Some (Inr spec)"
    using decision_Inr by blast
  have tools: "re_registered re (node_tool_name n) \<or> tool_origin (node_tool_name n) \<noteq> ToolOrigin.Builtin"
    if "reachable se spec outcome s" "n \<in> set (s_active s)" for outcome s n
    using validate_tool_names_ok [of "re_registered re" spec "node_tool_name n"] active_tools [OF that(1)] that(2) args'(2)
    by (auto simp: parse_and_check_Inr)
  have "cfg_allowed_commands (workflow_tool_exec_ctx cfg ws run_id perm) =
       (case perm of Some e \<Rightarrow> (case engine_command_allowlist e of Some l \<Rightarrow> l | None \<Rightarrow> []) | None \<Rightarrow> wc_allowed_commands cfg)"
    by (simp add: workflow_tool_exec_ctx_def node_allowed_commands_def)
  moreover have "\<forall>e. perm = Some e \<longrightarrow> ctx_path_scope (workflow_tool_exec_ctx cfg ws run_id perm) = engine_path_scope e \<and>
        (engine_outbound_denied e \<and> \<not> engine_outbound_allows_any e \<longrightarrow>
         cfg_http_fetch_allowed_prefixes (workflow_tool_exec_ctx cfg ws run_id perm) = [])"
    by (simp add: workflow_tool_exec_ctx_def node_path_scope_def node_http_prefixes_def)
  ultimately show ?thesis
    using args'(1) args'(2) [unfolded parse_and_check_Inr] run tools unfolding Let_def by blast
qed

definition sample_args :: Value where
  "sample_args = Object [(lit ''workflow'', Object [(lit ''nodes'',
     Array [Object [(lit ''id'', String (lit ''a'')), (lit ''tool'', String (lit ''t''))]])])]"

definition sample_run_env :: run_env where
  "sample_run_env =
     \<lparr>re_from_str = (\<lambda>s. Inr sample_args), re_to_string = (\<lambda>v. []), re_from_yaml = Inl, re_schema = (\<lambda>m v. None),
      re_read_file = Inl, re_rank = (\<lambda>k. 0), re_registered = (\<lambda>t. t = lit ''t'')\<rparr>"

definition sample_run_config :: WorkflowConfig where
  "sample_run_config =
     \<lparr>wc_command_timeout_secs = 30, wc_weather_timeout_secs = 15, wc_web_search_timeout_secs = 30,
      wc_web_search_provider = [], wc_http_fetch_timeout_secs = 30, wc_http_fetch_allowed_prefixes = [],
      wc_allowed_commands = [lit ''ls'']\<rparr>"

theorem workflow_runs_only_validated_witness:
  "\<exists>report changed spec. run_workflow_execute_tool sample_run_env sample_env (\<lambda>w i. None) (\<lambda>t. None) sample_se sample_world
       sample_run_config [] True NoApproval 1 None (Executed report changed) \<and>
     parse_workflow_spec (re_from_str sample_run_env) (re_schema sample_run_env) (re_rank sample_run_env) [] = Inr spec \<and>
     dag_ok (spec_nodes spec)"
proof -
  have res: "resolve_workflow_execute_args sample_run_env [] True = Inr []"
    by (simp add: resolve_workflow_execute_args_def sample_run_env_def sample_args_def)
  obtain spec where spec: "parse_workflow_spec (re_from_str sample_run_env) (re_schema sample_run_env) (re_rank sample_run_env) [] = Inr spec"
    and nodes: "map node_id (spec_nodes spec) = [lit ''a'']" "map node_tool_name (spec_nodes spec) = [lit ''t'']"
      "map node_deps (spec_nodes spec) = [[]]" "for_each_pending spec = []"
    by (simp add: Let_def sample_run_env_def sample_args_def
        parse_workflow_spec_def compile_workflow_author_value_def should_validate_author_spec_def workflow_has_def
        workflow_object_def take_steps_def obj_remove_def normalize_workflow_root_def resolve_workflow_template_def
        spec_of_value_def parse_workflow_nodes_field_def parse_node_from_value_def parse_for_each_pending_list_def
        str_list_field_def obj_insert.simps)
  obtain n where n: "spec_nodes spec = [n]" "node_id n = lit ''a''" "node_tool_name n = lit ''t''" "node_deps n = []"
    using nodes by auto
  have "parse_and_check sample_run_env [] = Some (Inr spec)"
    using spec n nodes(4)
    by (simp add: parse_and_check_Inr validate_tool_names_def check_tool_name_def dag_ok_def acyclic_def
        sample_run_env_def)
  moreover have "re_from_str sample_run_env [] = Inr sample_args" by (simp add: sample_run_env_def)
  ultimately have "workflow_decision sample_run_env [] True 1 = Some (Inr spec)"
    by (simp add: workflow_decision_def res Let_def sample_args_def)
  moreover obtain report changed where "execute_workflow_dag sample_env (\<lambda>w i. None) (\<lambda>t. None) sample_se sample_world spec
      NoApproval (workflow_tool_exec_ctx sample_run_config True 1 None) (report, changed)"
    using workflow_outcome_exists by (metis surj_pair)
  ultimately have run: "run_workflow_execute_tool sample_run_env sample_env (\<lambda>w i. None) (\<lambda>t. None) sample_se sample_world
       sample_run_config [] True NoApproval 1 None (Executed report changed)"
    by (simp add: run_workflow_execute_tool_def)
  from workflow_runs_only_validated [OF run] res run show ?thesis by (auto simp: Let_def)
qed



end
