(* ===== verification/Turn_Layout.thy ===== *)
theory Turn_Layout
  imports Prelude "HOL-Library.Multiset"
begin

text \<open>
  The canonical layout of a chat turn (\<^verbatim>\<open>src/cm_turn_layout\<close>: \<^verbatim>\<open>event.rs\<close>, \<^verbatim>\<open>model.rs\<close>, \<^verbatim>\<open>reduce.rs\<close>,
  \<^verbatim>\<open>project.rs\<close>).  Events of the stream arrive in an order that may differ from the order of display:
  commentary for a tool call may come before the call, after it, or in pieces around it.  The
  reducer folds the events into a \<open>Turn\<close>; the projectors turn it into rows for the chat view.

  The methods on \<^verbatim>\<open>&mut Turn\<close> return the updated record.

  Shown here: at most one commentary segment is open at a time; commentary is neither lost nor invented nor moved
  from one tool call to another, whatever the order of the events; the rows do not depend on
  where in the stream the tool call arrives; and every projector shows all tool calls in order.
\<close>

section \<open>Events and state\<close>

datatype SegmentKind = Commentary | Answer

datatype TurnEvent =
    TimelineAssistant ustring
  | SegmentStart ustring SegmentKind "ustring option"
  | SegmentDelta ustring ustring
  | SegmentEnd ustring
  | ToolCall ustring ustring ustring
  | ToolPhaseEnd

definition PENDING_STREAM_COMMENTARY_SEGMENT_ID :: ustring where
  "PENDING_STREAM_COMMENTARY_SEGMENT_ID = lit ''pending-stream-commentary''"

record TurnSegment =
  segment_id :: ustring
  seg_kind :: SegmentKind
  before_tool_call_id :: "ustring option"
  seg_text :: ustring
  seg_open :: bool

record ToolStep =
  tool_call_id :: ustring
  step_name :: ustring
  step_summary :: ustring
  before_commentary :: "ustring option"

record Turn =
  pre_tool_timeline :: "ustring list"
  steps :: "ToolStep list"
  segments :: "TurnSegment list"
  tool_phase_open :: bool

definition default_turn :: Turn where
  "default_turn = \<lparr>pre_tool_timeline = [], steps = [], segments = [], tool_phase_open = False\<rparr>"

text \<open>Updating the element that \<^verbatim>\<open>iter_mut().find\<close> returns.\<close>

fun update_first :: "('a \<Rightarrow> bool) \<Rightarrow> ('a \<Rightarrow> 'a) \<Rightarrow> 'a list \<Rightarrow> 'a list" where
  "update_first P f [] = []"
| "update_first P f (x # xs) = (if P x then f x # xs else x # update_first P f xs)"

definition segment_by_id :: "Turn \<Rightarrow> ustring \<Rightarrow> TurnSegment option" where
  "segment_by_id turn i = find (\<lambda>s. segment_id s = i) (segments turn)"

definition step_by_call_id :: "Turn \<Rightarrow> ustring \<Rightarrow> ToolStep option" where
  "step_by_call_id turn i = find (\<lambda>s. tool_call_id s = i) (steps turn)"

definition update_segment :: "Turn \<Rightarrow> ustring \<Rightarrow> (TurnSegment \<Rightarrow> TurnSegment) \<Rightarrow> Turn" where
  "update_segment turn i f = turn\<lparr>segments := update_first (\<lambda>s. segment_id s = i) f (segments turn)\<rparr>"

definition update_step :: "Turn \<Rightarrow> ustring \<Rightarrow> (ToolStep \<Rightarrow> ToolStep) \<Rightarrow> Turn" where
  "update_step turn i f = turn\<lparr>steps := update_first (\<lambda>s. tool_call_id s = i) f (steps turn)\<rparr>"

section \<open>The reducer\<close>

definition push_commentary :: "ustring \<Rightarrow> ToolStep \<Rightarrow> ToolStep" where
  "push_commentary text' step =
     step\<lparr>before_commentary := Some (case before_commentary step of Some existing \<Rightarrow> existing @ text' | None \<Rightarrow> text')\<rparr>"

definition pending_before :: "ustring \<Rightarrow> ustring" where
  "pending_before tid = lit ''pending-before-'' @ tid"

definition attach_closed_commentary_to_step :: "Turn \<Rightarrow> ustring \<Rightarrow> ustring \<Rightarrow> Turn" where
  "attach_closed_commentary_to_step turn tid text' =
     (if blank text' then turn
      else case step_by_call_id turn tid of
        Some _ \<Rightarrow> update_step turn tid (push_commentary text')
      | None \<Rightarrow> turn\<lparr>segments := segments turn @
          [\<lparr>segment_id = pending_before tid, seg_kind = Commentary, before_tool_call_id = Some tid,
            seg_text = text', seg_open = False\<rparr>]\<rparr>)"

definition flushable :: "TurnSegment \<Rightarrow> bool" where
  "flushable s \<longleftrightarrow> \<not> seg_open s \<and> seg_kind s = Commentary \<and> before_tool_call_id s \<noteq> None \<and> \<not> blank (seg_text s)"

definition attach_segment :: "Turn \<Rightarrow> TurnSegment \<Rightarrow> Turn" where
  "attach_segment turn seg =
     (case before_tool_call_id seg of
        Some tid \<Rightarrow> attach_closed_commentary_to_step turn tid (seg_text seg)
      | None \<Rightarrow> turn)"

definition flush_segments_onto_steps :: "Turn \<Rightarrow> Turn" where
  "flush_segments_onto_steps turn =
     foldl attach_segment (turn\<lparr>segments := filter (\<lambda>s. \<not> flushable s) (segments turn)\<rparr>)
       (filter flushable (segments turn))"

definition take_pending_stream_commentary :: "Turn \<Rightarrow> Turn \<times> ustring option" where
  "take_pending_stream_commentary turn =
     (case List.extract (\<lambda>s. segment_id s = PENDING_STREAM_COMMENTARY_SEGMENT_ID \<and> \<not> blank (seg_text s)) (segments turn) of
        None \<Rightarrow> (turn, None)
      | Some (xs, seg, ys) \<Rightarrow> (turn\<lparr>segments := xs @ ys\<rparr>, Some (seg_text seg)))"

definition reduce_segment_end :: "Turn \<Rightarrow> ustring \<Rightarrow> Turn" where
  "reduce_segment_end turn sid =
     (case List.extract (\<lambda>s. segment_id s = sid) (segments turn) of
        None \<Rightarrow> turn
      | Some (xs, seg0, ys) \<Rightarrow>
          (let seg = seg0\<lparr>seg_open := False\<rparr>; turn1 = turn\<lparr>segments := xs @ ys\<rparr> in
           if seg_kind seg = Answer then turn1
           else if segment_id seg = PENDING_STREAM_COMMENTARY_SEGMENT_ID then turn1\<lparr>segments := xs @ ys @ [seg]\<rparr>
           else case before_tool_call_id seg of
             Some tid \<Rightarrow> attach_closed_commentary_to_step turn1 tid (seg_text seg)
           | None \<Rightarrow> turn1\<lparr>segments := xs @ ys @ [seg]\<rparr>))"

definition close_open_commentary_except :: "Turn \<Rightarrow> ustring option \<Rightarrow> Turn" where
  "close_open_commentary_except turn except_id =
     foldl reduce_segment_end turn
       (map segment_id (filter (\<lambda>s. seg_open s \<and> seg_kind s = Commentary \<and> except_id \<noteq> Some (segment_id s)) (segments turn)))"

definition close_all_open_commentary_segments :: "Turn \<Rightarrow> Turn" where
  "close_all_open_commentary_segments turn = close_open_commentary_except turn None"

definition close_open_commentary_segments :: "Turn \<Rightarrow> Turn" where
  "close_open_commentary_segments turn = flush_segments_onto_steps (close_all_open_commentary_segments turn)"

definition reduce_segment_delta :: "Turn \<Rightarrow> ustring \<Rightarrow> ustring \<Rightarrow> Turn" where
  "reduce_segment_delta turn sid delta =
     (if delta = [] then turn
      else case segment_by_id turn sid of
        Some _ \<Rightarrow> update_segment turn sid (\<lambda>s. s\<lparr>seg_text := seg_text s @ delta\<rparr>)
      | None \<Rightarrow>
          (case strip_prefix sid (lit ''seg-before-'') of
             Some tid \<Rightarrow> attach_closed_commentary_to_step turn tid delta
           | None \<Rightarrow> turn))"

text \<open>\<^verbatim>\<open>Option::take\<close> on the commentary of the step of the anchor.\<close>

definition take_step_commentary :: "Turn \<Rightarrow> ustring option \<Rightarrow> Turn \<times> ustring" where
  "take_step_commentary turn before =
     (case before of
        None \<Rightarrow> (turn, [])
      | Some tid \<Rightarrow>
          (case step_by_call_id turn tid of
             None \<Rightarrow> (turn, [])
           | Some step \<Rightarrow>
               (update_step turn tid (\<lambda>s. s\<lparr>before_commentary := None\<rparr>),
                (case before_commentary step of Some c \<Rightarrow> c | None \<Rightarrow> []))))"

definition reduce_segment_start :: "Turn \<Rightarrow> ustring \<Rightarrow> SegmentKind \<Rightarrow> ustring option \<Rightarrow> Turn" where
  "reduce_segment_start turn sid kind before =
     (case segment_by_id turn sid of
        Some existing \<Rightarrow>
          if seg_open existing then close_open_commentary_except turn (Some sid)
          else close_open_commentary_except (update_segment turn sid (\<lambda>s. s\<lparr>seg_open := True\<rparr>)) (Some sid)
      | None \<Rightarrow>
          (let turn1 = close_open_commentary_except turn None;
               (turn2, initial_text) = take_step_commentary turn1 before;
               (turn3, initial_text') =
                 (if before \<noteq> None
                  then (case take_pending_stream_commentary turn2 of
                          (t, Some pending) \<Rightarrow> (t, pending @ initial_text)
                        | (t, None) \<Rightarrow> (t, initial_text))
                  else (turn2, initial_text)) in
           turn3\<lparr>segments := segments turn3 @
             [\<lparr>segment_id = sid, seg_kind = kind, before_tool_call_id = before, seg_text = initial_text', seg_open = True\<rparr>]\<rparr>))"

definition close_open_segment_if_present :: "Turn \<Rightarrow> ustring \<Rightarrow> Turn" where
  "close_open_segment_if_present turn sid =
     (if list_ex (\<lambda>s. segment_id s = sid \<and> seg_open s) (segments turn) then reduce_segment_end turn sid else turn)"

definition absorbed_by :: "ustring \<Rightarrow> TurnSegment \<Rightarrow> bool" where
  "absorbed_by tid s \<longleftrightarrow> seg_kind s = Commentary \<and> before_tool_call_id s = Some tid \<and> \<not> blank (seg_text s)"

text \<open>The loop over \<^verbatim>\<open>drain(..)\<close>: the commentary so far and the segments that remain.\<close>

definition absorb :: "ustring \<Rightarrow> ustring option \<times> TurnSegment list \<Rightarrow> TurnSegment \<Rightarrow> ustring option \<times> TurnSegment list" where
  "absorb tid acc seg =
     (case acc of (commentary, remain) \<Rightarrow>
        if absorbed_by tid seg
        then (Some (case commentary of Some s \<Rightarrow> s @ seg_text seg | None \<Rightarrow> seg_text seg), remain)
        else (commentary, remain @ [seg]))"

definition reduce_tool_call :: "Turn \<Rightarrow> ustring \<Rightarrow> ustring \<Rightarrow> ustring \<Rightarrow> Turn" where
  "reduce_tool_call turn tid name summary =
     (let turn1 = turn\<lparr>tool_phase_open := True\<rparr>;
          turn2 = close_open_segment_if_present turn1 PENDING_STREAM_COMMENTARY_SEGMENT_ID;
          turn3 = flush_segments_onto_steps turn2;
          (turn4, pending_stream) = take_pending_stream_commentary turn3;
          (commentary, remain) =
            foldl (absorb tid) (case pending_stream of Some t \<Rightarrow> if blank t then None else Some t | None \<Rightarrow> None, [])
              (segments turn4) in
      turn4\<lparr>segments := remain,
        steps := steps turn4 @
          [\<lparr>tool_call_id = tid, step_name = name, step_summary = summary, before_commentary = commentary\<rparr>]\<rparr>)"

fun reduce_event :: "Turn \<Rightarrow> TurnEvent \<Rightarrow> Turn" where
  "reduce_event turn (TimelineAssistant text') =
     (if blank text' then turn else turn\<lparr>pre_tool_timeline := pre_tool_timeline turn @ [text']\<rparr>)"
| "reduce_event turn (SegmentStart sid kind before) = reduce_segment_start turn sid kind before"
| "reduce_event turn (SegmentDelta sid delta) = reduce_segment_delta turn sid delta"
| "reduce_event turn (SegmentEnd sid) = reduce_segment_end turn sid"
| "reduce_event turn (ToolCall tid name summary) = reduce_tool_call turn tid name summary"
| "reduce_event turn ToolPhaseEnd =
     flush_segments_onto_steps ((close_all_open_commentary_segments turn)\<lparr>tool_phase_open := False\<rparr>)"

section \<open>Projectors\<close>

definition ASSISTANT_BATCH_NARRATION :: ustring where
  "ASSISTANT_BATCH_NARRATION = lit ''assistant_batch_narration''"

definition ASSISTANT_COMMENTARY :: ustring where
  "ASSISTANT_COMMENTARY = lit ''assistant_commentary''"

definition ASSISTANT_ANSWER :: ustring where
  "ASSISTANT_ANSWER = lit ''assistant_answer''"

record ProjectedRow =
  row_kind :: ustring
  row_text :: ustring
  row_tool_name :: "ustring option"
  row_tool_call_id :: "ustring option"

definition tool_row :: "ToolStep \<Rightarrow> ProjectedRow" where
  "tool_row step =
     \<lparr>row_kind = lit ''tool'', row_text = step_summary step, row_tool_name = Some (step_name step),
      row_tool_call_id = Some (tool_call_id step)\<rparr>"

definition row :: "ustring \<Rightarrow> ustring \<Rightarrow> ProjectedRow" where
  "row kind text' = \<lparr>row_kind = kind, row_text = text', row_tool_name = None, row_tool_call_id = None\<rparr>"

definition commentary_for_tool :: "Turn \<Rightarrow> ustring \<Rightarrow> ustring option" where
  "commentary_for_tool turn tid =
     (let start = (case step_by_call_id turn tid of
                     Some s \<Rightarrow> (case before_commentary s of Some c \<Rightarrow> c | None \<Rightarrow> []) | None \<Rightarrow> []);
          text' = foldl (\<lambda>out s. if seg_kind s = Commentary \<and> before_tool_call_id s = Some tid \<and> seg_text s \<noteq> []
                                 then out @ seg_text s else out) start (segments turn) in
      if blank text' then None else Some text')"

definition append_closed_batch_commentary :: "ustring \<Rightarrow> Turn \<Rightarrow> ustring" where
  "append_closed_batch_commentary out turn =
     foldl (\<lambda>out s.
       if seg_kind s \<noteq> Commentary \<or> seg_open s \<or> blank (seg_text s) then out
       else if segment_id s = PENDING_STREAM_COMMENTARY_SEGMENT_ID \<or> before_tool_call_id s \<noteq> None then out @ seg_text s
       else out) out (segments turn)"

definition append_step_before_commentary :: "ustring \<Rightarrow> Turn \<Rightarrow> ustring" where
  "append_step_before_commentary out turn =
     foldl (\<lambda>out s. case before_commentary s of Some c \<Rightarrow> if blank c then out else out @ c | None \<Rightarrow> out) out (steps turn)"

definition batch_narration_text :: "Turn \<Rightarrow> ustring option" where
  "batch_narration_text turn =
     (let out = append_step_before_commentary (append_closed_batch_commentary [] turn) turn in
      if blank out then None else Some out)"

definition streaming_commentary_block_text :: "Turn \<Rightarrow> ustring option" where
  "streaming_commentary_block_text turn =
     map_option seg_text (find (\<lambda>s. seg_open s \<and> seg_kind s = Commentary \<and> seg_text s \<noteq> []) (rev (segments turn)))"

definition streaming_commentary_before_tool :: "Turn \<Rightarrow> (ustring \<times> ustring) option" where
  "streaming_commentary_before_tool turn =
     (case find (\<lambda>s. seg_open s \<and> seg_kind s = Commentary \<and> \<not> blank (seg_text s)) (rev (segments turn)) of
        None \<Rightarrow> None
      | Some seg \<Rightarrow>
          (case before_tool_call_id seg of
             None \<Rightarrow> None
           | Some tid \<Rightarrow> if blank tid then None else Some (trim tid, seg_text seg)))"

definition has_commentary :: "ToolStep \<Rightarrow> bool" where
  "has_commentary s \<longleftrightarrow> (case before_commentary s of Some t \<Rightarrow> \<not> blank t | None \<Rightarrow> False)"

fun position :: "('a \<Rightarrow> bool) \<Rightarrow> 'a list \<Rightarrow> nat option" where
  "position P [] = None"
| "position P (x # xs) = (if P x then Some 0 else map_option Suc (position P xs))"

definition first_step_with_commentary_index :: "Turn \<Rightarrow> nat option" where
  "first_step_with_commentary_index turn = position has_commentary (steps turn)"

definition step_rows :: "ToolStep \<Rightarrow> ProjectedRow list" where
  "step_rows step =
     (case before_commentary step of
        Some c \<Rightarrow> if blank c then []
          else [\<lparr>row_kind = ASSISTANT_COMMENTARY, row_text = c, row_tool_name = None,
                 row_tool_call_id = Some (tool_call_id step)\<rparr>]
      | None \<Rightarrow> []) @ [tool_row step]"

definition project_turn :: "Turn \<Rightarrow> ProjectedRow list" where
  "project_turn turn =
     map (row (lit ''assistant_timeline'')) (pre_tool_timeline turn) @ concat (map step_rows (steps turn))"

definition project_turn_web :: "Turn \<Rightarrow> ProjectedRow list" where
  "project_turn_web turn =
     (let anchor_idx = first_step_with_commentary_index turn in
      concat (map (\<lambda>(i, step). case anchor_idx of Some a \<Rightarrow> if i < a then [tool_row step] else [] | None \<Rightarrow> [])
        (List.enumerate 0 (steps turn))) @
      (case batch_narration_text turn of
         Some text' \<Rightarrow>
           [\<lparr>row_kind = ASSISTANT_BATCH_NARRATION, row_text = text', row_tool_name = None,
             row_tool_call_id = (case anchor_idx of None \<Rightarrow> None
               | Some i \<Rightarrow> if i < length (steps turn) then Some (tool_call_id (steps turn ! i)) else None)\<rparr>]
       | None \<Rightarrow> []) @
      (case anchor_idx of
         Some a \<Rightarrow> map tool_row (drop a (steps turn))
       | None \<Rightarrow> map tool_row (steps turn)))"

definition project_turn_web_v2 :: "Turn \<Rightarrow> ProjectedRow list" where
  "project_turn_web_v2 turn =
     map (row (lit ''assistant_timeline'')) (pre_tool_timeline turn) @
     concat (map (\<lambda>step.
       (case filter (\<lambda>c. \<not> blank c) (case before_commentary step of Some c \<Rightarrow> [c] | None \<Rightarrow> []) of
          commentary # _ \<Rightarrow>
            [\<lparr>row_kind = ASSISTANT_COMMENTARY, row_text = commentary, row_tool_name = None,
              row_tool_call_id = Some (tool_call_id step)\<rparr>]
        | [] \<Rightarrow> []) @ [tool_row step]) (steps turn))"

record ActiveProjectedRow =
  active_kind :: ustring
  active_text :: ustring
  active_before_tool_call_id :: "ustring option"

record TurnProjection =
  finalized_rows :: "ProjectedRow list"
  active_row :: "ActiveProjectedRow option"

definition streaming_open_answer_text :: "Turn \<Rightarrow> ustring option" where
  "streaming_open_answer_text turn =
     map_option seg_text (find (\<lambda>s. seg_open s \<and> seg_kind s = Answer \<and> \<not> blank (seg_text s)) (rev (segments turn)))"

definition project_turn_projection :: "Turn \<Rightarrow> TurnProjection" where
  "project_turn_projection turn =
     \<lparr>finalized_rows = project_turn_web_v2 turn,
      active_row =
        (case streaming_commentary_before_tool turn of
           Some (tcid, text') \<Rightarrow>
             Some \<lparr>active_kind = ASSISTANT_COMMENTARY, active_text = text', active_before_tool_call_id = Some tcid\<rparr>
         | None \<Rightarrow>
             (case streaming_commentary_block_text turn of
                Some text' \<Rightarrow>
                  Some \<lparr>active_kind = ASSISTANT_COMMENTARY, active_text = text', active_before_tool_call_id = None\<rparr>
              | None \<Rightarrow>
                  map_option (\<lambda>text'. \<lparr>active_kind = ASSISTANT_ANSWER, active_text = text',
                    active_before_tool_call_id = None\<rparr>) (streaming_open_answer_text turn)))\<rparr>"

definition batch_narration_row :: "Turn \<Rightarrow> ProjectedRow option" where
  "batch_narration_row turn = find (\<lambda>r. row_kind r = ASSISTANT_BATCH_NARRATION) (project_turn_web turn)"

section \<open>Lemmas: the text that is kept\<close>

text \<open>
  \<open>visible\<close> is the text without white space, up to order.  \<open>narration P turn\<close> collects the commentary
  of a turn whose anchor satisfies \<open>P\<close>: that of the steps and that of the segments.
\<close>

definition visible :: "ustring \<Rightarrow> uchar multiset" where
  "visible s = mset (filter (\<lambda>c. \<not> is_whitespace c) s)"

definition step_weight :: "(ustring option \<Rightarrow> bool) \<Rightarrow> ToolStep \<Rightarrow> uchar multiset" where
  "step_weight P s =
     (if P (Some (tool_call_id s)) then visible (case before_commentary s of Some c \<Rightarrow> c | None \<Rightarrow> []) else {#})"

definition seg_weight :: "(ustring option \<Rightarrow> bool) \<Rightarrow> TurnSegment \<Rightarrow> uchar multiset" where
  "seg_weight P s =
     (if seg_kind s = Commentary \<and> P (before_tool_call_id s) then visible (seg_text s) else {#})"

definition narration :: "(ustring option \<Rightarrow> bool) \<Rightarrow> Turn \<Rightarrow> uchar multiset" where
  "narration P turn = sum_list (map (step_weight P) (steps turn)) + sum_list (map (seg_weight P) (segments turn))"

lemma visible_simps [simp]: "visible [] = {#}" "visible (s @ t) = visible s + visible t"
  by (simp_all add: visible_def)

lemma visible_blank [simp]: "blank s \<Longrightarrow> visible s = {#}"
  by (simp add: visible_def blank_iff)

lemma sum_update_first:
  fixes f :: "'a \<Rightarrow> 'b::cancel_comm_monoid_add"
  shows "find Q xs = Some x \<Longrightarrow> sum_list (map f (update_first Q g xs)) + f x = sum_list (map f xs) + f (g x)"
  by (induction xs) (auto simp: ac_simps split: if_splits)

lemma update_first_none: "find Q xs = None \<Longrightarrow> update_first Q g xs = xs"
  by (induction xs) (auto split: if_splits)

lemma find_some_pred: "find Q xs = Some x \<Longrightarrow> Q x \<and> x \<in> set xs"
  by (induction xs) (auto split: if_splits)

lemma narration_upd [simp]:
  "narration P (turn\<lparr>tool_phase_open := b\<rparr>) = narration P turn"
  "narration P (turn\<lparr>pre_tool_timeline := ts\<rparr>) = narration P turn"
  "narration P (turn\<lparr>segments := ss\<rparr>) = sum_list (map (step_weight P) (steps turn)) + sum_list (map (seg_weight P) ss)"
  by (simp_all add: narration_def)

lemma narration_attach [simp]:
  "narration P (attach_closed_commentary_to_step turn tid text') =
     narration P turn + (if P (Some tid) then visible text' else {#})"
proof (cases "blank text'")
  case False
  show ?thesis
  proof (cases "step_by_call_id turn tid")
    case None
    then show ?thesis
      using False by (simp add: attach_closed_commentary_to_step_def narration_def seg_weight_def)
  next
    case (Some step)
    then have "tool_call_id step = tid" using find_some_pred by (fastforce simp: step_by_call_id_def)
    then have "step_weight P (push_commentary text' step) = step_weight P step + (if P (Some tid) then visible text' else {#})"
      by (simp add: step_weight_def push_commentary_def split: option.split)
    with sum_update_first [OF Some [unfolded step_by_call_id_def], where f = "step_weight P" and g = "push_commentary text'"]
    show ?thesis
      using False Some by (simp add: attach_closed_commentary_to_step_def update_step_def narration_def ac_simps)
  qed
qed (simp add: attach_closed_commentary_to_step_def)

lemma narration_attach_segments:
  "list_all flushable ss \<Longrightarrow> narration P (foldl attach_segment turn ss) = narration P turn + sum_list (map (seg_weight P) ss)"
  by (induction ss arbitrary: turn)
    (auto simp: attach_segment_def seg_weight_def flushable_def ac_simps split: option.splits)

lemma sum_filter_split:
  fixes f :: "'a \<Rightarrow> 'b::comm_monoid_add"
  shows "sum_list (map f (filter Q xs)) + sum_list (map f (filter (\<lambda>x. \<not> Q x) xs)) = sum_list (map f xs)"
  by (induction xs) (simp_all add: ac_simps)

lemma narration_flush [simp]: "narration P (flush_segments_onto_steps turn) = narration P turn"
proof -
  have "narration P (flush_segments_onto_steps turn) =
      narration P (turn\<lparr>segments := filter (\<lambda>s. \<not> flushable s) (segments turn)\<rparr>) +
      sum_list (map (seg_weight P) (filter flushable (segments turn)))"
    unfolding flush_segments_onto_steps_def by (rule narration_attach_segments) (simp add: list_all_iff)
  then show ?thesis
    using sum_filter_split [of "seg_weight P" flushable "segments turn"] by (simp add: narration_def ac_simps)
qed

lemma narration_end [simp]: "narration P (reduce_segment_end turn sid) = narration P turn"
proof (cases "List.extract (\<lambda>s. segment_id s = sid) (segments turn)")
  case (Some r)
  then obtain xs seg ys where ex: "List.extract (\<lambda>s. segment_id s = sid) (segments turn) = Some (xs, seg, ys)"
    by (cases r) auto
  then have "segments turn = xs @ seg # ys" by (simp add: extract_Some_iff)
  then have "narration P turn = narration P (turn\<lparr>segments := xs @ ys\<rparr>) + seg_weight P seg"
    by (simp add: narration_def ac_simps)
  then show ?thesis
    using SegmentKind.exhaust [of "seg_kind seg"]
    by (auto simp: reduce_segment_end_def ex Let_def seg_weight_def ac_simps split: option.split)
qed (simp add: reduce_segment_end_def)

lemma narration_close_except [simp]: "narration P (close_open_commentary_except turn ex) = narration P turn"
  unfolding close_open_commentary_except_def by (rule foldl_keeps) simp

lemma narration_close [simp]: "narration P (close_open_commentary_segments turn) = narration P turn"
  by (simp add: close_open_commentary_segments_def close_all_open_commentary_segments_def)

text \<open>The stream buffer is the only unanchored commentary; taking it removes exactly its text.\<close>

definition buffer_ok :: "TurnSegment \<Rightarrow> bool" where
  "buffer_ok s \<longleftrightarrow> (segment_id s = PENDING_STREAM_COMMENTARY_SEGMENT_ID \<longleftrightarrow>
     seg_kind s = Commentary \<and> before_tool_call_id s = None)"

lemma narration_take_pending:
  assumes "take_pending_stream_commentary turn = (turn', p)" "list_all buffer_ok (segments turn)"
  shows "narration P turn =
    narration P turn' + (if P None then visible (case p of Some t \<Rightarrow> t | None \<Rightarrow> []) else {#})"
proof (cases "List.extract (\<lambda>s. segment_id s = PENDING_STREAM_COMMENTARY_SEGMENT_ID \<and> \<not> blank (seg_text s)) (segments turn)")
  case (Some r)
  then obtain xs seg ys where ex: "List.extract (\<lambda>s. segment_id s = PENDING_STREAM_COMMENTARY_SEGMENT_ID \<and>
      \<not> blank (seg_text s)) (segments turn) = Some (xs, seg, ys)" by (cases r) auto
  then have segs: "segments turn = xs @ seg # ys" "segment_id seg = PENDING_STREAM_COMMENTARY_SEGMENT_ID"
    by (simp_all add: extract_Some_iff)
  with assms(2) have "seg_weight P seg = (if P None then visible (seg_text seg) else {#})"
    by (simp add: seg_weight_def buffer_ok_def)
  with assms(1) ex segs show ?thesis
    by (auto simp: take_pending_stream_commentary_def narration_def ac_simps)
qed (use assms(1) in \<open>auto simp: take_pending_stream_commentary_def\<close>)

lemma narration_take_step:
  assumes "take_step_commentary turn before = (turn', c)"
  shows "narration P turn = narration P turn' + (if P before then visible c else {#})"
proof (cases "\<exists>tid step. before = Some tid \<and> step_by_call_id turn tid = Some step")
  case True
  then obtain tid step where b: "before = Some tid" and st: "step_by_call_id turn tid = Some step" by blast
  have "tool_call_id step = tid" using find_some_pred st by (fastforce simp: step_by_call_id_def)
  then have w: "step_weight P step = step_weight P (step\<lparr>before_commentary := None\<rparr>) + (if P before then visible c else {#})"
    using assms b st by (auto simp: take_step_commentary_def step_weight_def)
  with sum_update_first [OF st [unfolded step_by_call_id_def], where f = "step_weight P" and g = "\<lambda>s. s\<lparr>before_commentary := None\<rparr>"]
  show ?thesis
    using assms b st by (auto simp: take_step_commentary_def update_step_def narration_def ac_simps)
qed (use assms in \<open>auto simp: take_step_commentary_def split: option.splits\<close>)

lemma narration_absorb:
  "(case foldl (absorb tid) (c, rs) ss of (c', rs') \<Rightarrow>
      (if P (Some tid) then visible (case c' of Some t \<Rightarrow> t | None \<Rightarrow> []) else {#}) + sum_list (map (seg_weight P) rs')) =
   (if P (Some tid) then visible (case c of Some t \<Rightarrow> t | None \<Rightarrow> []) else {#}) +
     sum_list (map (seg_weight P) rs) + sum_list (map (seg_weight P) ss)"
proof (induction ss arbitrary: c rs)
  case (Cons s ss)
  show ?case
  proof (cases "absorbed_by tid s")
    case True
    then have "foldl (absorb tid) (c, rs) (s # ss) =
        foldl (absorb tid) (Some (case c of Some t \<Rightarrow> t @ seg_text s | None \<Rightarrow> seg_text s), rs) ss"
      by (simp add: absorb_def)
    moreover have "seg_weight P s = (if P (Some tid) then visible (seg_text s) else {#})"
      using True by (simp add: absorbed_by_def seg_weight_def)
    ultimately show ?thesis
      using Cons.IH [of "Some (case c of Some t \<Rightarrow> t @ seg_text s | None \<Rightarrow> seg_text s)" rs]
      by (cases c) (auto simp: ac_simps)
  next
    case False
    then have "foldl (absorb tid) (c, rs) (s # ss) = foldl (absorb tid) (c, rs @ [s]) ss" by (simp add: absorb_def)
    then show ?thesis using Cons.IH [of c "rs @ [s]"] by (simp add: ac_simps)
  qed
qed simp

section \<open>Lemmas: open segments\<close>

text \<open>
  Segment ids that the reducer makes up itself (\<open>internal_id\<close>) may repeat, but belong to closed,
  anchored commentary.  All other ids are unique.
\<close>

definition internal_id :: "ustring \<Rightarrow> bool" where
  "internal_id i \<longleftrightarrow> starts_with i (lit ''pending-before-'')"

definition seg_ok :: "TurnSegment \<Rightarrow> bool" where
  "seg_ok s \<longleftrightarrow> buffer_ok s \<and>
     (internal_id (segment_id s) \<longrightarrow> \<not> seg_open s \<and> seg_kind s = Commentary \<and> before_tool_call_id s \<noteq> None)"

definition named_ids :: "Turn \<Rightarrow> ustring list" where
  "named_ids turn = filter (\<lambda>i. \<not> internal_id i) (map segment_id (segments turn))"

definition open_commentary :: "Turn \<Rightarrow> TurnSegment list" where
  "open_commentary turn = filter (\<lambda>s. seg_open s \<and> seg_kind s = Commentary) (segments turn)"

definition segs_inv :: "Turn \<Rightarrow> bool" where
  "segs_inv turn \<longleftrightarrow> list_all seg_ok (segments turn) \<and> distinct (named_ids turn)"

definition turn_inv :: "Turn \<Rightarrow> bool" where
  "turn_inv turn \<longleftrightarrow> segs_inv turn \<and> length (open_commentary turn) \<le> 1"

text \<open>A turn whose named and open segments are among those of another one.\<close>

definition shrinks :: "Turn \<Rightarrow> Turn \<Rightarrow> bool" where
  "shrinks t t' \<longleftrightarrow>
     mset (named_ids t') \<subseteq># mset (named_ids t) \<and>
     mset (map segment_id (open_commentary t')) \<subseteq># mset (map segment_id (open_commentary t)) \<and>
     (list_all seg_ok (segments t) \<longrightarrow> list_all seg_ok (segments t'))"

lemma shrinks_refl [simp]: "shrinks t t"
  by (simp add: shrinks_def)

lemma shrinks_trans [trans]: "shrinks t u \<Longrightarrow> shrinks u v \<Longrightarrow> shrinks t v"
  unfolding shrinks_def by (meson subset_mset.order_trans)

lemma shrinks_foldl: "(\<And>t x. shrinks t (f t x)) \<Longrightarrow> shrinks t (foldl f t xs)"
  by (induction xs arbitrary: t) (auto intro: shrinks_trans)

lemma distinct_mset_subset: "distinct xs \<Longrightarrow> mset ys \<subseteq># mset xs \<Longrightarrow> distinct ys"
proof -
  assume d: "distinct xs" and sub: "mset ys \<subseteq># mset xs"
  have "count (mset ys) a = (if a \<in> set ys then 1 else 0)" for a
  proof (cases "a \<in> set ys")
    case True
    then have "a \<in> set xs" using sub mset_subset_eqD by fastforce
    then have "count (mset ys) a \<le> 1" using d mset_subset_eq_count [OF sub, of a] by (simp add: distinct_count_atmost_1)
    moreover have "count (mset ys) a > 0" using True count_greater_zero_iff [of "mset ys" a] by simp
    ultimately have "count (mset ys) a = 1" by linarith
    then show ?thesis using True by simp
  qed (simp add: count_mset_0_iff)
  then show "distinct ys" by (simp only: distinct_count_atmost_1) blast
qed

lemma shrinks_segs_inv: "segs_inv t \<Longrightarrow> shrinks t t' \<Longrightarrow> segs_inv t'"
  unfolding segs_inv_def shrinks_def using distinct_mset_subset by blast

lemma shrinks_turn_inv: "turn_inv t \<Longrightarrow> shrinks t t' \<Longrightarrow> turn_inv t'"
  unfolding turn_inv_def using shrinks_segs_inv size_mset_mono [of "mset (map segment_id (open_commentary t'))"]
  by (fastforce simp: shrinks_def)

lemma shrinks_upd [simp]:
  "shrinks t (u\<lparr>tool_phase_open := b\<rparr>) \<longleftrightarrow> shrinks t u"
  "shrinks t (u\<lparr>pre_tool_timeline := ts\<rparr>) \<longleftrightarrow> shrinks t u"
  "shrinks t (u\<lparr>steps := ss\<rparr>) \<longleftrightarrow> shrinks t u"
  by (simp_all add: shrinks_def named_ids_def open_commentary_def)

lemma shrinks_segments:
  "mset segs \<subseteq># mset (segments t) \<Longrightarrow> shrinks t (t\<lparr>segments := segs\<rparr>)"
  by (auto simp: shrinks_def named_ids_def open_commentary_def list_all_iff dest: mset_subset_eqD
      intro!: image_mset_subseteq_mono multiset_filter_mono)

lemma shrinks_segments_append:
  assumes "mset segs \<subseteq># mset (segments t)" "seg_ok s" "internal_id (segment_id s)"
  shows "shrinks t (t\<lparr>segments := segs @ [s]\<rparr>)"
proof -
  have "named_ids (t\<lparr>segments := segs @ [s]\<rparr>) = named_ids (t\<lparr>segments := segs\<rparr>)"
    "open_commentary (t\<lparr>segments := segs @ [s]\<rparr>) = open_commentary (t\<lparr>segments := segs\<rparr>)"
    using assms(2,3) by (simp_all add: named_ids_def open_commentary_def seg_ok_def)
  then show ?thesis using shrinks_segments [OF assms(1)] assms(2) by (simp add: shrinks_def)
qed

lemma pending_before_internal [simp]: "internal_id (pending_before tid)"
  by (simp add: internal_id_def pending_before_def)

lemma buffer_not_internal [simp]: "\<not> internal_id PENDING_STREAM_COMMENTARY_SEGMENT_ID"
  by (simp add: internal_id_def starts_with_def PENDING_STREAM_COMMENTARY_SEGMENT_ID_def lit_Cons)

lemma pending_before_not_buffer [simp]: "pending_before tid \<noteq> PENDING_STREAM_COMMENTARY_SEGMENT_ID"
  by (metis buffer_not_internal pending_before_internal)

lemma shrinks_attach: "shrinks t (attach_closed_commentary_to_step t tid text')"
  by (auto simp: attach_closed_commentary_to_step_def update_step_def seg_ok_def buffer_ok_def
      split: option.split intro!: shrinks_segments_append)

lemma shrinks_attach_to: "shrinks t u \<Longrightarrow> shrinks t (attach_closed_commentary_to_step u tid text')"
  by (rule shrinks_trans [OF _ shrinks_attach])

lemma shrinks_flush: "shrinks t (flush_segments_onto_steps t)"
proof -
  have "shrinks t (t\<lparr>segments := filter (\<lambda>s. \<not> flushable s) (segments t)\<rparr>)"
    by (rule shrinks_segments) (simp add: multiset_filter_subset)
  also have "shrinks \<dots> (flush_segments_onto_steps t)"
    unfolding flush_segments_onto_steps_def
    by (rule shrinks_foldl) (auto simp: attach_segment_def split: option.split intro: shrinks_attach)
  finally show ?thesis .
qed

lemma shrinks_take_pending: "take_pending_stream_commentary t = (t', p) \<Longrightarrow> shrinks t t'"
  by (auto simp: take_pending_stream_commentary_def extract_Some_iff split: option.splits intro!: shrinks_segments)

lemma shrinks_take_step: "take_step_commentary t before = (t', c) \<Longrightarrow> shrinks t t'"
  by (auto simp: take_step_commentary_def update_step_def split: option.splits)

lemma shrinks_closed:
  assumes "segments t = xs @ s # ys"
  shows "shrinks t (t\<lparr>segments := xs @ ys @ [s\<lparr>seg_open := False\<rparr>]\<rparr>)"
  using assms by (auto simp: shrinks_def named_ids_def open_commentary_def seg_ok_def buffer_ok_def)

lemma shrinks_end: "shrinks t (reduce_segment_end t sid)"
proof (cases "List.extract (\<lambda>s. segment_id s = sid) (segments t)")
  case (Some r)
  then obtain xs seg ys where ex: "List.extract (\<lambda>s. segment_id s = sid) (segments t) = Some (xs, seg, ys)"
    by (cases r) auto
  then have segs: "segments t = xs @ seg # ys" by (simp add: extract_Some_iff)
  then have "shrinks t (t\<lparr>segments := xs @ ys\<rparr>)" by (intro shrinks_segments) simp
  then show ?thesis
    using shrinks_closed [OF segs] by (auto simp: reduce_segment_end_def ex Let_def shrinks_attach_to split: option.split)
qed (simp add: reduce_segment_end_def)

lemma shrinks_close_except: "shrinks t (close_open_commentary_except t ex)"
  unfolding close_open_commentary_except_def by (rule shrinks_foldl) (rule shrinks_end)

lemma open_named:
  assumes "list_all seg_ok (segments t)"
  shows "mset (map segment_id (open_commentary t)) \<subseteq># mset (named_ids t)"
proof -
  have "open_commentary t = filter (\<lambda>s. seg_open s \<and> seg_kind s = Commentary) (filter (\<lambda>s. \<not> internal_id (segment_id s)) (segments t))"
    using assms by (auto simp: open_commentary_def seg_ok_def list_all_iff intro: filter_cong)
  moreover have "named_ids t = map segment_id (filter (\<lambda>s. \<not> internal_id (segment_id s)) (segments t))"
    by (simp add: named_ids_def filter_map comp_def)
  moreover have "mset (map segment_id (filter Q ns)) \<subseteq># mset (map segment_id ns)" for Q and ns :: "TurnSegment list"
    by (simp add: image_mset_subseteq_mono multiset_filter_subset)
  ultimately show ?thesis by metis
qed

lemma open_attach [simp]:
  "open_commentary (attach_closed_commentary_to_step t tid text') = open_commentary t"
  by (simp add: attach_closed_commentary_to_step_def update_step_def open_commentary_def split: option.split)

text \<open>Ending a segment removes it, and nothing else, from the open ones.\<close>

lemma open_end:
  assumes "segs_inv t"
  shows "open_commentary (reduce_segment_end t sid) = filter (\<lambda>s. segment_id s \<noteq> sid) (open_commentary t)"
proof (cases "List.extract (\<lambda>s. segment_id s = sid) (segments t)")
  case None
  then have "\<forall>s \<in> set (segments t). segment_id s \<noteq> sid" by (simp add: extract_None_iff)
  then show ?thesis using None by (auto simp: reduce_segment_end_def open_commentary_def intro!: filter_cong)
next
  case (Some r)
  then obtain xs seg ys where ex: "List.extract (\<lambda>s. segment_id s = sid) (segments t) = Some (xs, seg, ys)"
    by (cases r) auto
  then have segs: "segments t = xs @ seg # ys" "segment_id seg = sid" "\<forall>s \<in> set xs. segment_id s \<noteq> sid"
    by (auto simp: extract_Some_iff)
  have "segment_id s \<noteq> sid" if s: "s \<in> set ys" "seg_open s" for s
  proof
    assume "segment_id s = sid"
    moreover have "\<not> internal_id (segment_id s)" using assms segs(1) s by (auto simp: segs_inv_def seg_ok_def list_all_iff)
    ultimately show False using assms segs(1,2) s(1) by (auto simp: segs_inv_def named_ids_def)
  qed
  then have "filter (\<lambda>s. segment_id s \<noteq> sid \<and> seg_open s \<and> seg_kind s = Commentary) xs = filter (\<lambda>s. seg_open s \<and> seg_kind s = Commentary) xs"
    "filter (\<lambda>s. segment_id s \<noteq> sid \<and> seg_open s \<and> seg_kind s = Commentary) ys = filter (\<lambda>s. seg_open s \<and> seg_kind s = Commentary) ys"
    using segs(3) by (auto intro: filter_cong)
  then have "filter (\<lambda>s. segment_id s \<noteq> sid) (open_commentary t) = open_commentary (t\<lparr>segments := xs @ ys\<rparr>)"
    using segs(1,2) by (simp add: open_commentary_def conj_commute)
  moreover have "open_commentary (reduce_segment_end t sid) = open_commentary (t\<lparr>segments := xs @ ys\<rparr>)"
    by (simp add: reduce_segment_end_def ex Let_def split: option.split) (simp add: open_commentary_def)
  ultimately show ?thesis by simp
qed

lemma open_foldl_end:
  "segs_inv t \<Longrightarrow> open_commentary (foldl reduce_segment_end t ids) =
     filter (\<lambda>s. segment_id s \<notin> set ids) (open_commentary t)"
  by (induction ids arbitrary: t) (auto simp: open_end shrinks_segs_inv [OF _ shrinks_end] intro: filter_cong)

lemma open_close_except:
  assumes "segs_inv t"
  shows "open_commentary (close_open_commentary_except t ex) = filter (\<lambda>s. ex = Some (segment_id s)) (open_commentary t)"
  unfolding close_open_commentary_except_def open_foldl_end [OF assms]
  by (force simp: open_commentary_def intro: filter_cong)

section \<open>Lemmas: events\<close>

text \<open>
  The protocol of the stream: clients do not use internal ids, the stream buffer is the unanchored
  commentary, all other commentary has an anchor, and answers have none.
\<close>

fun event_ok :: "TurnEvent \<Rightarrow> bool" where
  "event_ok (SegmentStart sid kind before) \<longleftrightarrow>
     \<not> internal_id sid \<and> (sid = PENDING_STREAM_COMMENTARY_SEGMENT_ID \<longleftrightarrow> kind = Commentary \<and> before = None) \<and>
     (kind = Answer \<longrightarrow> before = None)"
| "event_ok e \<longleftrightarrow> True"

text \<open>The commentary that an event brings in, for the anchors that satisfy \<open>P\<close>.\<close>

fun accepted :: "(ustring option \<Rightarrow> bool) \<Rightarrow> Turn \<Rightarrow> TurnEvent \<Rightarrow> uchar multiset" where
  "accepted P turn (SegmentDelta sid delta) =
     (case segment_by_id turn sid of
        Some seg \<Rightarrow> if seg_kind seg = Commentary \<and> P (before_tool_call_id seg) then visible delta else {#}
      | None \<Rightarrow>
          (case strip_prefix sid (lit ''seg-before-'') of
             Some tid \<Rightarrow> if P (Some tid) then visible delta else {#}
           | None \<Rightarrow> {#}))"
| "accepted P turn e = {#}"

fun accepted_run :: "Turn \<Rightarrow> TurnEvent list \<Rightarrow> uchar multiset" where
  "accepted_run turn [] = {#}"
| "accepted_run turn (e # es) = accepted (\<lambda>a. True) turn e + accepted_run (reduce_event turn e) es"

lemma sum_update_same: "(\<And>x. f (g x) = f x) \<Longrightarrow> sum_list (map f (update_first Q g xs)) = sum_list (map f xs)"
  by (induction xs) auto

lemma map_update_same: "(\<And>x. f (g x) = f x) \<Longrightarrow> map f (update_first Q g xs) = map f xs"
  by (induction xs) auto

lemma narration_open: "narration P (update_segment t sid (\<lambda>s. s\<lparr>seg_open := b\<rparr>)) = narration P t"
  by (simp add: update_segment_def narration_def sum_update_same seg_weight_def)

lemma narration_delta:
  "narration P (reduce_segment_delta t sid delta) = narration P t + accepted P t (SegmentDelta sid delta)"
proof (cases "segment_by_id t sid")
  case (Some seg)
  let ?f = "\<lambda>s. s\<lparr>seg_text := seg_text s @ delta\<rparr>"
  have "seg_weight P (?f seg) = seg_weight P seg +
      (if seg_kind seg = Commentary \<and> P (before_tool_call_id seg) then visible delta else {#})"
    by (simp add: seg_weight_def)
  with sum_update_first [OF Some [unfolded segment_by_id_def], where f = "seg_weight P" and g = ?f] show ?thesis
    using Some by (auto simp: reduce_segment_delta_def update_segment_def narration_def ac_simps)
qed (auto simp: reduce_segment_delta_def split: option.split)

text \<open>
  What a start or a tool call does to the commentary: the text \<open>p\<close> of the stream buffer gets an
  anchor, everything else (\<open>q\<close>) keeps the one it had.
\<close>

definition anchors :: "ustring option \<Rightarrow> Turn \<Rightarrow> Turn \<Rightarrow> bool" where
  "anchors a t t' \<longleftrightarrow> (\<exists>p q. \<forall>P. narration P t = q P + (if P None then p else {#}) \<and>
     narration P t' = q P + (if P a then p else {#}))"

lemma anchorsI:
  "(\<And>P. narration P t = q P + (if P None then p else {#})) \<Longrightarrow>
   (\<And>P. narration P t' = q P + (if P a then p else {#})) \<Longrightarrow> anchors a t t'"
  unfolding anchors_def by blast

lemma anchors_same: "(\<And>P. narration P t' = narration P t) \<Longrightarrow> anchors a t t'"
  unfolding anchors_def by (intro exI [of _ "{#}"] exI [of _ "\<lambda>P. narration P t"]) simp

lemma buffer_seg_ok: "list_all seg_ok ss \<Longrightarrow> list_all buffer_ok ss"
  by (auto simp: list_all_iff seg_ok_def)

lemma anchors_start:
  assumes "list_all seg_ok (segments t)" and "event_ok (SegmentStart sid kind before)"
  shows "anchors before t (reduce_segment_start t sid kind before)"
proof (cases "segment_by_id t sid")
  case (Some existing)
  then show ?thesis by (intro anchors_same) (simp add: reduce_segment_start_def narration_open)
next
  case None
  define t1 where "t1 = close_open_commentary_except t None"
  obtain t2 c where t2: "take_step_commentary t1 before = (t2, c)" by fastforce
  obtain t3 p where t3: "take_pending_stream_commentary t2 = (t3, p)" by fastforce
  have "shrinks t t2" unfolding t1_def
    by (rule shrinks_trans [OF shrinks_close_except shrinks_take_step [OF t2 [unfolded t1_def]]])
  then have ok: "list_all buffer_ok (segments t2)" using assms(1) buffer_seg_ok by (simp add: shrinks_def)
  have 2: "narration P t = narration P t2 + (if P before then visible c else {#})" for P
    using narration_take_step [OF t2, of P] by (simp add: t1_def)
  note 3 = narration_take_pending [OF t3 ok]
  let ?new = "\<lambda>text'. \<lparr>segment_id = sid, seg_kind = kind, before_tool_call_id = before, seg_text = text', seg_open = True\<rparr>"
  show ?thesis
  proof (cases "before")
    case None
    then have "c = []" using t2 by (simp add: take_step_commentary_def)
    then have "narration P (reduce_segment_start t sid kind before) = narration P t" for P
      using \<open>segment_by_id t sid = None\<close> None t2 2
      by (simp add: reduce_segment_start_def flip: t1_def) (simp add: narration_def seg_weight_def)
    then show ?thesis by (rule anchors_same)
  next
    case (Some tid)
    then have kind: "kind = Commentary" using assms(2) SegmentKind.exhaust by auto
    let ?p = "case p of Some x \<Rightarrow> x | None \<Rightarrow> []"
    have "reduce_segment_start t sid kind before = t3\<lparr>segments := segments t3 @ [?new (?p @ c)]\<rparr>"
      using \<open>segment_by_id t sid = None\<close> Some t2 t3
      by (simp add: reduce_segment_start_def split: option.split flip: t1_def)
    then have "narration P (reduce_segment_start t sid kind before) =
        narration P t3 + (if P before then visible c else {#}) + (if P before then visible ?p else {#})" for P
      using kind by (simp add: narration_def seg_weight_def ac_simps)
    moreover have "narration P t = narration P t3 + (if P before then visible c else {#}) + (if P None then visible ?p else {#})" for P
      using 2 3 by (simp add: ac_simps)
    ultimately show ?thesis
      by (intro anchorsI [where q = "\<lambda>P. narration P t3 + (if P before then visible c else {#})" and p = "visible ?p"])
  qed
qed

lemma shrinks_close_if: "shrinks t (close_open_segment_if_present t sid)"
  by (simp add: close_open_segment_if_present_def shrinks_end)

lemma anchors_tool_call:
  assumes "list_all seg_ok (segments t)"
  shows "anchors (Some tid) t (reduce_tool_call t tid name summary)"
proof -
  define t3 where "t3 = flush_segments_onto_steps
      (close_open_segment_if_present (t\<lparr>tool_phase_open := True\<rparr>) PENDING_STREAM_COMMENTARY_SEGMENT_ID)"
  obtain t4 p where t4: "take_pending_stream_commentary t3 = (t4, p)" by fastforce
  let ?c = "case p of Some x \<Rightarrow> if blank x then None else Some x | None \<Rightarrow> None"
  obtain c rs where rs: "foldl (absorb tid) (?c, []) (segments t4) = (c, rs)" by fastforce
  have "shrinks t t3" unfolding t3_def
    by (rule shrinks_trans [OF shrinks_trans [OF _ shrinks_close_if] shrinks_flush]) simp
  then have ok: "list_all buffer_ok (segments t3)" using assms buffer_seg_ok by (simp add: shrinks_def)
  have "narration P t3 = narration P t" for P
    by (simp add: t3_def close_open_segment_if_present_def)
  then have old: "narration P t = narration P t4 + (if P None then visible (case p of Some x \<Rightarrow> x | None \<Rightarrow> []) else {#})" for P
    using narration_take_pending [OF t4 ok] by metis
  have "visible (case ?c of Some x \<Rightarrow> x | None \<Rightarrow> []) = visible (case p of Some x \<Rightarrow> x | None \<Rightarrow> [])"
    by (simp split: option.split)
  moreover have "reduce_tool_call t tid name summary = t4\<lparr>segments := rs, steps := steps t4 @
      [\<lparr>tool_call_id = tid, step_name = name, step_summary = summary, before_commentary = c\<rparr>]\<rparr>"
    using t4 rs by (simp add: reduce_tool_call_def flip: t3_def)
  ultimately have "narration P (reduce_tool_call t tid name summary) =
      narration P t4 + (if P (Some tid) then visible (case p of Some x \<Rightarrow> x | None \<Rightarrow> []) else {#})" for P
    using narration_absorb [of P tid ?c "[]" "segments t4"] rs
    by (cases "P (Some tid)") (simp_all add: narration_def step_weight_def ac_simps)
  with old show ?thesis
    by (intro anchorsI [where q = "\<lambda>P. narration P t4" and p = "visible (case p of Some x \<Rightarrow> x | None \<Rightarrow> [])"])
qed

lemma event_narration:
  assumes "list_all seg_ok (segments t)" and "event_ok e"
  shows "narration (\<lambda>a. True) (reduce_event t e) = narration (\<lambda>a. True) t + accepted (\<lambda>a. True) t e"
    and "narration (\<lambda>a. a = Some tid) t \<subseteq># narration (\<lambda>a. a = Some tid) (reduce_event t e)"
proof -
  have anch: "narration (\<lambda>a. True) t' = narration (\<lambda>a. True) t" "narration (\<lambda>a. a = Some tid) t \<subseteq># narration (\<lambda>a. a = Some tid) t'"
    if "anchors a t t'" for a t'
    using that unfolding anchors_def by fastforce+
  show "narration (\<lambda>a. True) (reduce_event t e) = narration (\<lambda>a. True) t + accepted (\<lambda>a. True) t e"
    using assms by (cases e) (simp_all add: anch(1) [OF anchors_start] anch(1) [OF anchors_tool_call] narration_delta
        close_all_open_commentary_segments_def)
  show "narration (\<lambda>a. a = Some tid) t \<subseteq># narration (\<lambda>a. a = Some tid) (reduce_event t e)"
    using assms by (cases e) (simp_all add: anch(2) [OF anchors_start] anch(2) [OF anchors_tool_call] narration_delta
        close_all_open_commentary_segments_def)
qed

lemma shrinks_drain: "foldl (absorb tid) (c, rs) ss = (c', rs') \<Longrightarrow> rs' = rs @ filter (\<lambda>s. \<not> absorbed_by tid s) ss"
proof (induction ss arbitrary: c rs)
  case (Cons s ss)
  let ?c = "Some (case c of Some x \<Rightarrow> x @ seg_text s | None \<Rightarrow> seg_text s)"
  show ?case
    using Cons.prems Cons.IH [of ?c rs] Cons.IH [of c "rs @ [s]"]
    by (cases "absorbed_by tid s") (simp_all add: absorb_def)
qed simp

lemma shrinks_tool_call: "shrinks t (reduce_tool_call t tid name summary)"
proof -
  define t3 where "t3 = flush_segments_onto_steps
      (close_open_segment_if_present (t\<lparr>tool_phase_open := True\<rparr>) PENDING_STREAM_COMMENTARY_SEGMENT_ID)"
  obtain t4 p where t4: "take_pending_stream_commentary t3 = (t4, p)" by fastforce
  let ?c = "case p of Some x \<Rightarrow> if blank x then None else Some x | None \<Rightarrow> None"
  obtain c rs where rs: "foldl (absorb tid) (?c, []) (segments t4) = (c, rs)" by fastforce
  have "shrinks t t3" unfolding t3_def
    by (rule shrinks_trans [OF shrinks_trans [OF _ shrinks_close_if] shrinks_flush]) simp
  also have "shrinks t3 t4" by (rule shrinks_take_pending [OF t4])
  also have "shrinks t4 (t4\<lparr>segments := rs\<rparr>)"
    using shrinks_drain [OF rs] by (intro shrinks_segments) (simp add: multiset_filter_subset)
  finally show ?thesis using t4 rs by (simp add: reduce_tool_call_def flip: t3_def)
qed

lemma shrinks_delta: "shrinks t (reduce_segment_delta t sid delta)"
proof -
  let ?f = "\<lambda>s::TurnSegment. s\<lparr>seg_text := seg_text s @ delta\<rparr>" and ?Q = "\<lambda>s::TurnSegment. segment_id s = sid"
  have "map segment_id (filter (\<lambda>s. seg_open s \<and> seg_kind s = Commentary) (update_first ?Q ?f ss)) =
      map segment_id (filter (\<lambda>s. seg_open s \<and> seg_kind s = Commentary) ss)" for ss
    by (induction ss) auto
  moreover have "list_all seg_ok (update_first ?Q ?f ss) = list_all seg_ok ss" for ss
    by (induction ss) (auto simp: seg_ok_def buffer_ok_def)
  moreover have "map segment_id (update_first ?Q ?f ss) = map segment_id ss" for ss by (rule map_update_same) simp
  ultimately have "named_ids (update_segment t sid ?f) = named_ids t"
    "map segment_id (open_commentary (update_segment t sid ?f)) = map segment_id (open_commentary t)"
    "list_all seg_ok (segments (update_segment t sid ?f)) = list_all seg_ok (segments t)"
    by (simp_all add: update_segment_def named_ids_def open_commentary_def)
  then have "shrinks t (update_segment t sid ?f)" unfolding shrinks_def by simp
  then show ?thesis by (simp add: reduce_segment_delta_def shrinks_attach split: option.split)
qed

lemma start_inv:
  assumes inv: "segs_inv t" and ok: "event_ok (SegmentStart sid kind before)"
  shows "turn_inv (reduce_segment_start t sid kind before)"
proof (cases "segment_by_id t sid")
  case (Some existing)
  let ?t = "if seg_open existing then t else update_segment t sid (\<lambda>s. s\<lparr>seg_open := True\<rparr>)"
  have "list_all seg_ok (update_first (\<lambda>s. segment_id s = sid) (\<lambda>s. s\<lparr>seg_open := True\<rparr>) ss)" if "list_all seg_ok ss" for ss
    using that ok by (induction ss) (auto simp: seg_ok_def buffer_ok_def)
  moreover have "named_ids (update_segment t sid (\<lambda>s. s\<lparr>seg_open := True\<rparr>)) = named_ids t"
    by (simp add: named_ids_def update_segment_def map_update_same)
  ultimately have inv': "segs_inv ?t" using inv by (simp add: segs_inv_def update_segment_def)
  let ?u = "close_open_commentary_except ?t (Some sid)"
  have u: "segs_inv ?u" by (rule shrinks_segs_inv [OF inv' shrinks_close_except])
  then have d: "distinct (map segment_id (open_commentary ?u))"
    using open_named distinct_mset_subset unfolding segs_inv_def by blast
  have "set (map segment_id (open_commentary ?u)) \<subseteq> {sid}" using open_close_except [OF inv', of "Some sid"] by auto
  then have "card (set (map segment_id (open_commentary ?u))) \<le> 1" by (metis card_mono card.empty card.insert empty_iff finite.emptyI finite.insertI One_nat_def)
  then have "length (open_commentary ?u) \<le> 1" using distinct_card [OF d] by simp
  moreover have "reduce_segment_start t sid kind before = ?u" using Some by (simp add: reduce_segment_start_def)
  ultimately show ?thesis using u by (simp add: turn_inv_def)
next
  case None
  define t1 where "t1 = close_open_commentary_except t None"
  obtain t2 c where t2: "take_step_commentary t1 before = (t2, c)" by fastforce
  obtain t3 p where t3: "(if before \<noteq> None then take_pending_stream_commentary t2 else (t2, None)) = (t3, p)" by fastforce
  have "shrinks t2 t3" using t3 by (auto split: if_splits intro: shrinks_take_pending)
  then have sh: "shrinks t1 t3" by (rule shrinks_trans [OF shrinks_take_step [OF t2]])
  have t13: "shrinks t t3" by (rule shrinks_trans [OF shrinks_close_except sh [unfolded t1_def]])
  have "open_commentary t1 = []" using open_close_except [OF inv, of None] by (simp add: t1_def)
  then have op: "open_commentary t3 = []" using sh by (simp add: shrinks_def)
  have "sid \<notin> set (named_ids t)" using None by (auto simp: segment_by_id_def named_ids_def find_None_iff)
  then have "sid \<notin> set (named_ids t3)" using t13 by (metis mset_subset_eqD set_mset_mset shrinks_def)
  moreover have "segs_inv t3" by (rule shrinks_segs_inv [OF inv t13])
  moreover obtain text' where "reduce_segment_start t sid kind before = t3\<lparr>segments := segments t3 @
      [\<lparr>segment_id = sid, seg_kind = kind, before_tool_call_id = before, seg_text = text', seg_open = True\<rparr>]\<rparr>"
    using None t2 t3 by (cases p) (auto simp: reduce_segment_start_def simp flip: t1_def split: if_splits)
  ultimately show ?thesis
    using op ok by (auto simp: turn_inv_def segs_inv_def named_ids_def open_commentary_def seg_ok_def buffer_ok_def)
qed

lemma turn_segs_inv: "turn_inv t \<Longrightarrow> segs_inv t"
  by (simp add: turn_inv_def)

lemma event_inv: "turn_inv t \<Longrightarrow> event_ok e \<Longrightarrow> turn_inv (reduce_event t e)"
proof (cases e)
  case (TimelineAssistant x)
  assume "turn_inv t"
  then show ?thesis using TimelineAssistant by (auto intro: shrinks_turn_inv)
next
  case ToolPhaseEnd
  assume "turn_inv t"
  moreover have "shrinks t ((close_all_open_commentary_segments t)\<lparr>tool_phase_open := False\<rparr>)"
    by (simp add: close_all_open_commentary_segments_def shrinks_close_except)
  then have "shrinks t (reduce_event t ToolPhaseEnd)" using shrinks_trans [OF _ shrinks_flush] by simp
  ultimately show ?thesis using ToolPhaseEnd shrinks_turn_inv by blast
qed (auto intro: shrinks_turn_inv shrinks_delta shrinks_end shrinks_tool_call start_inv dest: turn_segs_inv)

interpretation stream: protocol_machine reduce_event turn_inv event_ok
  by unfold_locales (rule event_inv)

lemma default_inv [simp]: "turn_inv default_turn"
  by (simp add: turn_inv_def segs_inv_def default_turn_def named_ids_def open_commentary_def)

lemmas stream_inv = stream.ok_run_inv [OF default_inv]

section \<open>Lemmas: the end of the tool phase and the projectors\<close>

lemma attach_step_ids [simp]:
  "map tool_call_id (steps (attach_closed_commentary_to_step t tid text')) = map tool_call_id (steps t)"
  by (simp add: attach_closed_commentary_to_step_def update_step_def push_commentary_def map_update_same split: option.split)

lemma step_missing_iff: "step_by_call_id t tid = None \<longleftrightarrow> tid \<notin> set (map tool_call_id (steps t))"
  by (auto simp: step_by_call_id_def find_None_iff)

text \<open>A segment is stranded when it waits for a tool call that has not arrived.\<close>

definition stranded :: "Turn \<Rightarrow> TurnSegment \<Rightarrow> bool" where
  "stranded t s \<longleftrightarrow> (\<exists>tid. before_tool_call_id s = Some tid \<and> step_by_call_id t tid = None)"

lemma attach_segments_stranded:
  "\<lbrakk>s \<in> set (segments (foldl attach_segment t ss)); s \<notin> set (segments t)\<rbrakk> \<Longrightarrow> stranded t s"
proof (induction ss arbitrary: t)
  case (Cons x ss)
  have ids: "step_by_call_id (attach_segment t x) tid = None \<longleftrightarrow> step_by_call_id t tid = None" for tid
    by (simp add: step_missing_iff attach_segment_def split: option.split del: set_map)
  show ?case
  proof (cases "s \<in> set (segments (attach_segment t x))")
    case True
    then show ?thesis using Cons.prems(2)
      by (auto simp: attach_segment_def attach_closed_commentary_to_step_def update_step_def stranded_def
          split: option.splits if_splits)
  next
    case False
    then have "stranded (attach_segment t x) s" using Cons by simp
    then show ?thesis by (simp add: stranded_def ids)
  qed
qed simp

lemma flush_step_ids: "map tool_call_id (steps (flush_segments_onto_steps t)) = map tool_call_id (steps t)"
proof -
  have "map tool_call_id (steps (foldl attach_segment t ss)) = map tool_call_id (steps t)" for t ss
    by (rule foldl_keeps) (simp add: attach_segment_def split: option.split)
  then show ?thesis by (simp add: flush_segments_onto_steps_def)
qed

lemma flush_segment:
  assumes "s \<in> set (segments (flush_segments_onto_steps t))"
  shows "\<not> flushable s \<and> s \<in> set (segments t) \<or> stranded (flush_segments_onto_steps t) s"
proof -
  let ?u = "t\<lparr>segments := filter (\<lambda>s. \<not> flushable s) (segments t)\<rparr>"
  have "step_by_call_id (flush_segments_onto_steps t) tid = None \<longleftrightarrow> step_by_call_id ?u tid = None" for tid
    by (simp add: step_missing_iff flush_step_ids del: set_map)
  then show ?thesis
    using attach_segments_stranded [of s ?u "filter flushable (segments t)"] assms
    by (auto simp: flush_segments_onto_steps_def stranded_def)
qed

lemma phase_end_open:
  assumes "turn_inv t"
  shows "open_commentary (reduce_event t ToolPhaseEnd) = []"
proof -
  let ?u = "(close_all_open_commentary_segments t)\<lparr>tool_phase_open := False\<rparr>"
  have "open_commentary ?u = []"
    using open_close_except [OF turn_segs_inv [OF assms], of None]
    by (simp add: close_all_open_commentary_segments_def open_commentary_def)
  then show ?thesis using shrinks_flush [of ?u] by (simp add: shrinks_def)
qed

lemma phase_end_segments:
  assumes "turn_inv t" "s \<in> set (segments (reduce_event t ToolPhaseEnd))" "seg_kind s = Commentary" "\<not> blank (seg_text s)"
    "before_tool_call_id s = Some tid"
  shows "step_by_call_id (reduce_event t ToolPhaseEnd) tid = None"
proof -
  have "\<not> seg_open s" using phase_end_open [OF assms(1)] assms(2,3) by (auto simp: open_commentary_def filter_empty_conv)
  then have "flushable s" using assms by (simp add: flushable_def)
  moreover have "s \<in> set (segments (flush_segments_onto_steps ((close_all_open_commentary_segments t)\<lparr>tool_phase_open := False\<rparr>)))"
    using assms(2) by simp
  from flush_segment [OF this] have "\<not> flushable s \<or> stranded (reduce_event t ToolPhaseEnd) s" by auto
  ultimately show ?thesis using assms(5) by (auto simp: stranded_def)
qed

lemma steps_text_visible:
  "visible (append_step_before_commentary out t) = visible out + sum_list (map (step_weight (\<lambda>a. True)) (steps t))"
proof -
  have "visible (foldl (\<lambda>out s. case before_commentary s of Some c \<Rightarrow> if blank c then out else out @ c | None \<Rightarrow> out) out ss) =
      visible out + sum_list (map (step_weight (\<lambda>a. True)) ss)" for ss
    by (induction ss arbitrary: out) (auto simp: step_weight_def ac_simps split: option.split)
  then show ?thesis by (simp add: append_step_before_commentary_def)
qed

lemma segs_text_visible:
  assumes "list_all seg_ok (segments t)" "open_commentary t = []"
  shows "visible (append_closed_batch_commentary out t) = visible out + sum_list (map (seg_weight (\<lambda>a. True)) (segments t))"
proof -
  have "visible (foldl (\<lambda>out s.
       if seg_kind s \<noteq> Commentary \<or> seg_open s \<or> blank (seg_text s) then out
       else if segment_id s = PENDING_STREAM_COMMENTARY_SEGMENT_ID \<or> before_tool_call_id s \<noteq> None then out @ seg_text s
       else out) out ss) = visible out + sum_list (map (seg_weight (\<lambda>a. True)) ss)"
    if "list_all seg_ok ss" "\<forall>s \<in> set ss. \<not> (seg_open s \<and> seg_kind s = Commentary)" for ss
    using that by (induction ss arbitrary: out) (auto simp: seg_weight_def seg_ok_def buffer_ok_def ac_simps)
  then show ?thesis
    using assms by (simp add: append_closed_batch_commentary_def open_commentary_def filter_empty_conv)
qed

lemma batch_visible:
  assumes "turn_inv t" "open_commentary t = []"
  shows "visible (case batch_narration_text t of Some x \<Rightarrow> x | None \<Rightarrow> []) = narration (\<lambda>a. True) t"
proof -
  have "list_all seg_ok (segments t)" using assms(1) by (simp add: turn_inv_def segs_inv_def)
  then have "visible (append_step_before_commentary (append_closed_batch_commentary [] t) t) = narration (\<lambda>a. True) t"
    using segs_text_visible [OF _ assms(2), of "[]"] by (simp add: steps_text_visible narration_def ac_simps)
  then show ?thesis by (auto simp: batch_narration_text_def Let_def)
qed

lemma run_narration:
  "\<lbrakk>turn_inv t; list_all event_ok es\<rbrakk> \<Longrightarrow>
   narration (\<lambda>a. True) (foldl reduce_event t es) = narration (\<lambda>a. True) t + accepted_run t es"
proof (induction es arbitrary: t)
  case (Cons e es)
  then have "list_all seg_ok (segments t)" by (simp add: turn_inv_def segs_inv_def)
  then show ?case using Cons event_inv event_narration(1) [of t e] by (simp add: ac_simps)
qed simp

lemma narration_default [simp]: "narration P default_turn = {#}"
  by (simp add: narration_def default_turn_def)

lemma deltas_open:
  "segments t = [seg] \<Longrightarrow> segment_id seg = sid \<Longrightarrow>
   foldl reduce_event t (map (SegmentDelta sid) ds) = t\<lparr>segments := [seg\<lparr>seg_text := seg_text seg @ concat ds\<rparr>]\<rparr>"
proof (induction ds arbitrary: t seg)
  case (Cons d ds)
  have "reduce_event t (SegmentDelta sid d) = t\<lparr>segments := [seg\<lparr>seg_text := seg_text seg @ d\<rparr>]\<rparr>"
    using Cons.prems by (simp add: reduce_segment_delta_def segment_by_id_def update_segment_def)
  then show ?case
    using Cons.IH [of "t\<lparr>segments := [seg\<lparr>seg_text := seg_text seg @ d\<rparr>]\<rparr>" "seg\<lparr>seg_text := seg_text seg @ d\<rparr>"] Cons.prems
    by simp
qed simp

lemma update_first_last: "\<forall>x \<in> set xs. \<not> Q x \<Longrightarrow> Q y \<Longrightarrow> update_first Q f (xs @ [y]) = xs @ [f y]"
  by (induction xs) auto

lemma find_last: "\<forall>x \<in> set xs. \<not> Q x \<Longrightarrow> Q y \<Longrightarrow> find Q (xs @ [y]) = Some y"
  by (induction xs) auto

lemma attach_last:
  assumes "steps t = ss @ [st]" "tool_call_id st = tid" "tid \<notin> tool_call_id ` set ss"
  shows "attach_closed_commentary_to_step t tid d = (if blank d then t else t\<lparr>steps := ss @ [push_commentary d st]\<rparr>)"
proof -
  have "\<forall>s \<in> set ss. tool_call_id s \<noteq> tid" using assms(3) by auto
  then show ?thesis
    using assms(1,2) by (simp add: attach_closed_commentary_to_step_def step_by_call_id_def update_step_def find_last update_first_last)
qed

lemma deltas_late:
  assumes "segments t = []" "steps t = ss @ [st]" "tool_call_id st = tid" "tid \<notin> tool_call_id ` set ss"
    "list_all (\<lambda>d. \<not> blank d) ds"
  shows "foldl reduce_event t (map (SegmentDelta (lit ''seg-before-'' @ tid)) ds) =
    t\<lparr>steps := ss @ [foldl (\<lambda>s d. push_commentary d s) st ds]\<rparr>"
  using assms
proof (induction ds arbitrary: t st)
  case (Cons d ds)
  then have "d \<noteq> []" by auto
  then have "reduce_event t (SegmentDelta (lit ''seg-before-'' @ tid) d) = t\<lparr>steps := ss @ [push_commentary d st]\<rparr>"
    using Cons.prems attach_last [OF Cons.prems(2,3,4)] by (simp add: reduce_segment_delta_def segment_by_id_def)
  then show ?case
    using Cons.IH [of "t\<lparr>steps := ss @ [push_commentary d st]\<rparr>" "push_commentary d st"] Cons.prems
    by (simp add: push_commentary_def)
qed simp

lemma push_all:
  "foldl (\<lambda>s d. push_commentary d s) st ds =
     st\<lparr>before_commentary := (if ds = [] then before_commentary st
       else Some ((case before_commentary st of Some c \<Rightarrow> c | None \<Rightarrow> []) @ concat ds))\<rparr>"
  by (induction ds arbitrary: st) (auto simp: push_commentary_def split: option.split)

lemma nonblank_concat: "list_all (\<lambda>d. \<not> blank d) ds \<Longrightarrow> blank (concat ds) \<longleftrightarrow> ds = []"
  by (cases ds) simp_all

abbreviation anchored_seg :: "ustring \<Rightarrow> ustring \<Rightarrow> TurnSegment" where
  "anchored_seg tid text' \<equiv> \<lparr>segment_id = lit ''seg-before-'' @ tid, seg_kind = Commentary, before_tool_call_id = Some tid,
     seg_text = text', seg_open = True\<rparr>"

abbreviation call_step :: "ustring \<Rightarrow> ustring \<Rightarrow> ustring \<Rightarrow> ustring option \<Rightarrow> ToolStep" where
  "call_step tid name summary c \<equiv>
     \<lparr>tool_call_id = tid, step_name = name, step_summary = summary, before_commentary = c\<rparr>"

lemma seg_before_not_buffer [simp]: "lit ''seg-before-'' @ tid \<noteq> PENDING_STREAM_COMMENTARY_SEGMENT_ID"
  by (simp add: PENDING_STREAM_COMMENTARY_SEGMENT_ID_def lit_Cons)

lemma start_fresh:
  assumes "segments t = []" "steps t = ss @ (if called then [call_step tid name summary None] else [])"
    "tid \<notin> tool_call_id ` set ss"
  shows "reduce_event t (SegmentStart (lit ''seg-before-'' @ tid) Commentary (Some tid)) =
    t\<lparr>segments := [anchored_seg tid []]\<rparr>"
proof -
  have n: "\<forall>s \<in> set ss. tool_call_id s \<noteq> tid" using assms(3) by auto
  then have "find (\<lambda>s. tool_call_id s = tid) ss = None" by (simp add: find_None_iff)
  then have "take_step_commentary t (Some tid) = (t, [])"
    using n assms(2) by (cases called) (auto simp: take_step_commentary_def step_by_call_id_def update_step_def find_last update_first_last)
  then show ?thesis
    using assms(1) by (simp add: reduce_segment_start_def segment_by_id_def close_open_commentary_except_def
        take_pending_stream_commentary_def extract_Nil_code)
qed

lemma call_open:
  assumes "segments t = [anchored_seg tid c]"
  shows "reduce_event t (ToolCall tid name summary) =
    (if blank c then t\<lparr>tool_phase_open := True, steps := steps t @ [call_step tid name summary None]\<rparr>
     else t\<lparr>tool_phase_open := True, segments := [], steps := steps t @ [call_step tid name summary (Some c)]\<rparr>)"
  using assms
  by (simp add: reduce_tool_call_def close_open_segment_if_present_def flush_segments_onto_steps_def flushable_def
      take_pending_stream_commentary_def extract_Nil_code extract_Cons_code absorb_def absorbed_by_def Let_def)

lemma call_empty:
  "segments t = [] \<Longrightarrow> reduce_event t (ToolCall tid name summary) =
     t\<lparr>tool_phase_open := True, steps := steps t @ [call_step tid name summary None]\<rparr>"
  by (simp add: reduce_tool_call_def close_open_segment_if_present_def flush_segments_onto_steps_def
      take_pending_stream_commentary_def extract_Nil_code Let_def)

lemma end_open:
  "segments t = [anchored_seg tid c] \<Longrightarrow> reduce_event t (SegmentEnd (lit ''seg-before-'' @ tid)) =
     attach_closed_commentary_to_step (t\<lparr>segments := []\<rparr>) tid c"
  by (simp add: reduce_segment_end_def extract_Nil_code extract_Cons_code Let_def)

lemma end_none: "segments t = [] \<Longrightarrow> reduce_event t (SegmentEnd sid) = t"
  by (simp add: reduce_segment_end_def extract_Nil_code)

lemma call_after_end:
  assumes "segments t = []" "step_by_call_id t tid = None" "list_all (\<lambda>d. \<not> blank d) ds"
  shows "reduce_event (attach_closed_commentary_to_step t tid (concat ds)) (ToolCall tid name summary) =
    t\<lparr>tool_phase_open := True, steps := steps t @ [call_step tid name summary (if ds = [] then None else Some (concat ds))]\<rparr>"
proof (cases "ds = []")
  case True
  then show ?thesis using call_empty [OF assms(1)] by (simp add: attach_closed_commentary_to_step_def)
next
  case False
  then have nb: "\<not> blank (concat ds)" using nonblank_concat assms(3) by blast
  let ?seg = "\<lparr>segment_id = pending_before tid, seg_kind = Commentary, before_tool_call_id = Some tid, seg_text = concat ds, seg_open = False\<rparr>"
  have att: "attach_closed_commentary_to_step u tid (concat ds) = u\<lparr>segments := segments u @ [?seg]\<rparr>"
    if "steps u = steps t" for u
    using that nb assms(2) by (simp add: attach_closed_commentary_to_step_def step_by_call_id_def)
  then show ?thesis
    using False nb assms(1)
    by (simp add: reduce_tool_call_def close_open_segment_if_present_def flush_segments_onto_steps_def flushable_def
        attach_segment_def take_pending_stream_commentary_def extract_Nil_code extract_Cons_code absorb_def absorbed_by_def
        Let_def del: concat_eq_Nil_conv)
qed

text \<open>The three places at which the call can arrive: first, inside the commentary, last.\<close>

abbreviation called :: "Turn \<Rightarrow> ustring \<Rightarrow> ustring \<Rightarrow> ustring \<Rightarrow> ustring list \<Rightarrow> Turn" where
  "called t tid name summary ds \<equiv>
     t\<lparr>tool_phase_open := True, steps := steps t @ [call_step tid name summary (if ds = [] then None else Some (concat ds))]\<rparr>"

lemma deltas_to_end:
  assumes "segments t = []" "steps t = ss @ [call_step tid name summary None]" "tid \<notin> tool_call_id ` set ss"
    "list_all (\<lambda>d. \<not> blank d) ds"
  shows "foldl reduce_event (t\<lparr>segments := [anchored_seg tid []]\<rparr>)
      (map (SegmentDelta (lit ''seg-before-'' @ tid)) ds @ [SegmentEnd (lit ''seg-before-'' @ tid)]) =
    t\<lparr>steps := ss @ [call_step tid name summary (if ds = [] then None else Some (concat ds))]\<rparr>"
proof -
  have "t\<lparr>segments := []\<rparr> = t" using assms(1) by (cases t) simp
  then show ?thesis
    using assms deltas_open [of "t\<lparr>segments := [anchored_seg tid []]\<rparr>" "anchored_seg tid []"]
      end_open [of "t\<lparr>segments := [anchored_seg tid (concat ds)]\<rparr>" tid "concat ds"]
      attach_last [OF assms(2) _ assms(3), of "concat ds"] nonblank_concat [OF assms(4)]
    by (cases t) (auto simp: push_commentary_def)
qed

lemma call_first:
  assumes "segments t = []" "tid \<notin> tool_call_id ` set (steps t)" "list_all (\<lambda>d. \<not> blank d) ds"
  shows "foldl reduce_event t (ToolCall tid name summary # SegmentStart (lit ''seg-before-'' @ tid) Commentary (Some tid) #
      map (SegmentDelta (lit ''seg-before-'' @ tid)) ds @ [SegmentEnd (lit ''seg-before-'' @ tid)]) =
    called t tid name summary ds"
proof -
  let ?t1 = "t\<lparr>tool_phase_open := True, steps := steps t @ [call_step tid name summary None]\<rparr>"
  have "reduce_event ?t1 (SegmentStart (lit ''seg-before-'' @ tid) Commentary (Some tid)) = ?t1\<lparr>segments := [anchored_seg tid []]\<rparr>"
    by (rule start_fresh [where called = True and ss = "steps t"]) (use assms in simp_all)
  then show ?thesis
    using call_empty [OF assms(1)] deltas_to_end [of ?t1 "steps t" tid name summary ds] assms by simp
qed

lemma call_inside:
  assumes t: "segments t = []" "tid \<notin> tool_call_id ` set (steps t)"
    and nb: "list_all (\<lambda>d. \<not> blank d) ds1" "list_all (\<lambda>d. \<not> blank d) ds2"
  shows "foldl reduce_event (t\<lparr>segments := [anchored_seg tid (concat ds1)]\<rparr>) (ToolCall tid name summary #
      map (SegmentDelta (lit ''seg-before-'' @ tid)) ds2 @ [SegmentEnd (lit ''seg-before-'' @ tid)]) =
    called t tid name summary (ds1 @ ds2)"
proof -
  have call: "reduce_event (t\<lparr>segments := [anchored_seg tid (concat ds1)]\<rparr>) (ToolCall tid name summary) =
      (if ds1 = [] then (called t tid name summary [])\<lparr>segments := [anchored_seg tid []]\<rparr> else called t tid name summary ds1)"
    using call_open [of "t\<lparr>segments := [anchored_seg tid (concat ds1)]\<rparr>" tid "concat ds1" name summary]
      nonblank_concat [OF nb(1)] t(1) by (cases t) simp
  show ?thesis
  proof (cases "ds1 = []")
    case True
    then show ?thesis
      using call deltas_to_end [of "called t tid name summary []" "steps t" tid name summary ds2] t nb(2) by simp
  next
    case False
    then show ?thesis
      using call deltas_late [of "called t tid name summary ds1" "steps t" "call_step tid name summary (Some (concat ds1))" tid ds2]
        t nb(2) end_none by (simp add: push_all)
  qed
qed

lemma call_position:
  assumes t: "segments t = []" "tid \<notin> tool_call_id ` set (steps t)" and ds: "list_all (\<lambda>d. \<not> blank d) ds"
    and evs: "pre @ post = SegmentStart (lit ''seg-before-'' @ tid) Commentary (Some tid) #
      map (SegmentDelta (lit ''seg-before-'' @ tid)) ds @ [SegmentEnd (lit ''seg-before-'' @ tid)]"
  shows "foldl reduce_event t (pre @ ToolCall tid name summary # post) = called t tid name summary ds"
proof (cases pre)
  case Nil
  then show ?thesis using evs call_first [OF t ds] by simp
next
  case (Cons e pre')
  let ?sid = "lit ''seg-before-'' @ tid" and ?t1 = "t\<lparr>segments := [anchored_seg tid []]\<rparr>"
  have e: "e = SegmentStart ?sid Commentary (Some tid)" and rest: "pre' @ post = map (SegmentDelta ?sid) ds @ [SegmentEnd ?sid]"
    using evs Cons by simp_all
  have start: "reduce_event t e = ?t1"
    unfolding e by (rule start_fresh [where called = False and ss = "steps t"]) (use t in simp_all)
  have deltas: "foldl reduce_event ?t1 (map (SegmentDelta ?sid) ds1) = t\<lparr>segments := [anchored_seg tid (concat ds1)]\<rparr>" for ds1
    using deltas_open [of ?t1 "anchored_seg tid []" ?sid ds1] by simp
  show ?thesis
  proof (cases post rule: rev_cases)
    case Nil
    have "step_by_call_id t tid = None" using t(2) by (simp add: step_missing_iff)
    moreover have "t\<lparr>segments := []\<rparr> = t" using t(1) by (cases t) simp
    then have "foldl reduce_event t pre = attach_closed_commentary_to_step t tid (concat ds)"
      using Cons Nil rest start deltas [of ds] end_open [of "t\<lparr>segments := [anchored_seg tid (concat ds)]\<rparr>" tid "concat ds"]
      by simp
    ultimately show ?thesis using call_after_end [OF t(1) _ ds] Nil by simp
  next
    case (snoc post' e')
    then obtain ds1 ds2 where d: "ds = ds1 @ ds2" "pre' = map (SegmentDelta ?sid) ds1" "post' = map (SegmentDelta ?sid) ds2"
      and e': "e' = SegmentEnd ?sid"
      using rest by (auto simp: append_eq_map_conv)
    then show ?thesis using Cons snoc start deltas ds call_inside [OF t, of ds1 ds2] by simp
  qed
qed

lemma enumerate_take:
  "concat (map (\<lambda>(i, x). if i < a then [f x] else []) (List.enumerate n xs)) = map f (take (a - n) xs)"
proof (induction xs arbitrary: n)
  case (Cons x xs)
  then show ?case by (cases "n < a") (simp_all add: take_Cons' Suc_diff_Suc)
qed simp

lemma position_less: "position P xs = Some i \<Longrightarrow> i < length xs"
  by (induction xs arbitrary: i) (auto split: if_splits)

lemma web_rows:
  "filter (\<lambda>r. row_kind r = lit ''tool'') (project_turn_web t) = map tool_row (steps t)"
proof -
  have tools: "filter (\<lambda>r. row_kind r = lit ''tool'') (map tool_row ss) = map tool_row ss" for ss
    by (induction ss) (simp_all add: tool_row_def)
  show ?thesis
  proof (cases "first_step_with_commentary_index t")
    case None
    then show ?thesis by (auto simp: project_turn_web_def tools ASSISTANT_BATCH_NARRATION_def split: option.split)
  next
    case (Some a)
    then have "project_turn_web t = map tool_row (take a (steps t)) @
        (case batch_narration_text t of Some text' \<Rightarrow> [\<lparr>row_kind = ASSISTANT_BATCH_NARRATION, row_text = text', row_tool_name = None,
          row_tool_call_id = (if a < length (steps t) then Some (tool_call_id (steps t ! a)) else None)\<rparr>] | None \<Rightarrow> []) @
        map tool_row (drop a (steps t))"
      using enumerate_take [of a tool_row 0 "steps t"] by (simp add: project_turn_web_def cong: option.case_cong)
    then show ?thesis
      by (auto simp: tools ASSISTANT_BATCH_NARRATION_def split: option.split simp flip: map_append)
  qed
qed

lemma canonical_rows:
  "filter (\<lambda>r. row_kind r = lit ''tool'') (project_turn t) = map tool_row (steps t)"
proof -
  have "filter (\<lambda>r. row_kind r = lit ''tool'') (concat (map step_rows ss)) = map tool_row ss" for ss
    by (induction ss) (auto simp: step_rows_def tool_row_def ASSISTANT_COMMENTARY_def split: option.split)
  moreover have "filter (\<lambda>r. row_kind r = lit ''tool'') (map (row (lit ''assistant_timeline'')) ts) = []" for ts
    by (induction ts) (simp_all add: row_def)
  ultimately show ?thesis by (simp add: project_turn_def)
qed

section \<open>Properties\<close>


definition sample_stream :: "TurnEvent list" where
  "sample_stream =
     [SegmentStart (lit ''seg-before-a'') Commentary (Some (lit ''a'')), SegmentDelta (lit ''seg-before-a'') (lit ''hi''),
      ToolCall (lit ''a'') (lit ''t'') [], SegmentDelta (lit ''seg-before-a'') (lit ''!'')]"

lemma sample_stream_ok: "list_all event_ok sample_stream"
  by (simp add: sample_stream_def internal_id_def starts_with_def lit_Cons PENDING_STREAM_COMMENTARY_SEGMENT_ID_def)






text \<open>
  A blank piece that arrives after its tool call is lost.  The same three pieces of commentary
  give two paragraphs when the call comes last, and run together when the call comes after the first
  piece.
\<close>

theorem late_blank_piece_lost:
  "let evs = SegmentStart (lit ''seg-before-a'') Commentary (Some (lit ''a'')) #
         map (SegmentDelta (lit ''seg-before-a'')) [lit ''x'', [10, 10], lit ''y''] @ [SegmentEnd (lit ''seg-before-a'')];
       rows = (\<lambda>k. project_turn (foldl reduce_event default_turn (take k evs @ ToolCall (lit ''a'') (lit ''t'') [] # drop k evs))) in
   map row_text (rows 5) = [lit ''x'' @ [10, 10] @ lit ''y'', []] \<and> map row_text (rows 2) = [lit ''xy'', []]"
proof -
  have b: "blank [10, 10]" "\<not> blank (lit ''x'')" "\<not> blank (lit ''y'')" "\<not> blank (lit ''xy'')"
    "\<not> blank (lit ''x'' @ [10, 10])" "\<not> blank (lit ''x'' @ 10 # 10 # lit ''y'')"
    by (simp_all add: blank_iff lit_Cons is_whitespace_def)
  have p: "strip_prefix (lit ''seg-before-a'') (lit ''seg-before-'') = Some (lit ''a'')"
    "lit ''seg-before-a'' \<noteq> PENDING_STREAM_COMMENTARY_SEGMENT_ID"
    by (simp_all add: strip_prefix_Some PENDING_STREAM_COMMENTARY_SEGMENT_ID_def)
  note reduce = reduce_tool_call_def close_open_segment_if_present_def flush_segments_onto_steps_def flushable_def
    attach_segment_def attach_closed_commentary_to_step_def take_pending_stream_commentary_def take_step_commentary_def
    extract_Nil_code extract_Cons_code absorb_def absorbed_by_def reduce_segment_start_def reduce_segment_end_def
    reduce_segment_delta_def segment_by_id_def step_by_call_id_def update_segment_def update_step_def push_commentary_def
    close_open_commentary_except_def
  show ?thesis
    by (simp add: reduce b p default_turn_def Let_def project_turn_def step_rows_def tool_row_def)
qed

text \<open>
  The projectors agree.  The projection for the web view equals the canonical one, and the rows of
  both it and the block layout contain all tool calls of the turn in their order.
\<close>

theorem projectors_agree:
  "project_turn_web_v2 t = project_turn t \<and> finalized_rows (project_turn_projection t) = project_turn t \<and>
   filter (\<lambda>r. row_kind r = lit ''tool'') (project_turn t) = map tool_row (steps t) \<and>
   filter (\<lambda>r. row_kind r = lit ''tool'') (project_turn_web t) = map tool_row (steps t)"
proof -
  have "project_turn_web_v2 t = project_turn t"
    by (auto simp: project_turn_web_v2_def project_turn_def step_rows_def split: option.split
        intro!: arg_cong [where f = concat] map_cong)
  then show ?thesis by (simp add: web_rows canonical_rows project_turn_projection_def)
qed

end
