(* ===== verification/Plan_Artifact.thy ===== *)
theory Plan_Artifact
  imports Tool_Gate Tool_Result "HOL-Library.Multiset"
begin

text \<open>
  The structured plan an assistant embeds in its final answer (\<^verbatim>\<open>cm_agent/plan_artifact\<close>): the data, the
  search for JSON candidates in the answer, the validation of a plan, the three ways of binding it to the nodes of
  a workflow, and the normalisation of acceptance rules (with \<^verbatim>\<open>cm_agent/acceptance/executor_defaults.rs\<close>).

  Parameters: \<open>read_plan\<close> is \<^verbatim>\<open>serde_json::from_str::<AgentReplyPlanV1>\<close>, \<open>lc\<close> is the Unicode lower-casing
  table behind \<^verbatim>\<open>str::to_lowercase\<close>.  The counting \<^verbatim>\<open>HashMap\<close>s of the binding check are \<^const>\<open>count_list\<close> on
  the two lists; the \<^verbatim>\<open>HashSet\<close> of step ids seen so far is a list.

  Shown here: a plan the parser returns is valid and its normalisation is stable; the binding check accepts
  exactly the plans whose node ids are a rearrangement of the workflow's; coverage and subset checks accept exactly what they say.
\<close>

section \<open>Data\<close>

record JsonPathEqualsRule =
  rule_path :: ustring
  rule_value :: Value

record PlanStepAcceptance =
  expect_exit_code :: "int option"
  expect_stdout_contains :: "ustring option"
  expect_stderr_contains :: "ustring option"
  expect_file_exists :: "ustring option"
  expect_json_path_equals :: "JsonPathEqualsRule option"
  expect_http_status :: "nat option"

definition no_acceptance :: PlanStepAcceptance where
  "no_acceptance = \<lparr>expect_exit_code = None, expect_stdout_contains = None, expect_stderr_contains = None,
     expect_file_exists = None, expect_json_path_equals = None, expect_http_status = None\<rparr>"

record PlanStepControlFlow =
  cf_condition :: ustring
  cf_target_step_id :: ustring
  cf_max_loops :: "nat option"

record PlanStepV1 =
  step_id :: ustring
  step_description :: ustring
  step_workflow_node_id :: "ustring option"
  step_executor_kind :: "PlanStepExecutorKind option"
  step_step_kind :: "ustring option"
  step_acceptance :: "PlanStepAcceptance option"
  step_max_step_retries :: "nat option"
  step_transitions :: "PlanStepControlFlow list option"

record AgentReplyPlanV1 =
  plan_type :: ustring
  plan_version :: nat
  plan_steps :: "PlanStepV1 list"
  plan_no_task :: bool

datatype PlanArtifactError =
    NotFound
  | WrongType ustring
  | WrongVersion nat
  | EmptySteps
  | TooManySteps nat nat
  | NoTaskWithNonEmptySteps
  | InvalidStep nat ustring
  | WorkflowNodesNotFullyCovered "ustring list"
  | ValidateOnlyPlanNodeBindingMismatch ustring

section \<open>Identifiers\<close>

definition is_ascii_alnum :: "uchar \<Rightarrow> bool" where
  "is_ascii_alnum c \<longleftrightarrow> 48 \<le> c \<and> c \<le> 57 \<or> 65 \<le> c \<and> c \<le> 90 \<or> 97 \<le> c \<and> c \<le> 122"

definition PLAN_STEP_ID_PATTERN :: "ustring \<Rightarrow> bool" where
  "PLAN_STEP_ID_PATTERN t =
     (case t of [] \<Rightarrow> False
      | c # cs \<Rightarrow> is_ascii_alnum c \<and> length cs \<le> 127 \<and> list_all (\<lambda>d. is_ascii_alnum d \<or> d \<in> {45, 95, 46, 47}) cs)"

definition plan_step_id_syntax_ok :: "ustring \<Rightarrow> bool" where
  "plan_step_id_syntax_ok s = (let t = trim s in t \<noteq> [] \<and> utf8_len t \<le> 128 \<and> PLAN_STEP_ID_PATTERN t)"

section \<open>Acceptance rules\<close>

definition nonblank_option :: "ustring option \<Rightarrow> bool" where
  "nonblank_option o' = (case o' of Some s \<Rightarrow> \<not> blank s | None \<Rightarrow> False)"

definition is_effective :: "PlanStepAcceptance \<Rightarrow> bool" where
  "is_effective a \<longleftrightarrow>
     expect_exit_code a \<noteq> None \<or> nonblank_option (expect_stdout_contains a) \<or> nonblank_option (expect_stderr_contains a) \<or>
     nonblank_option (expect_file_exists a) \<or> nonblank_option (map_option rule_path (expect_json_path_equals a)) \<or>
     expect_http_status a \<noteq> None"

definition preview_chars :: "ustring \<Rightarrow> nat \<Rightarrow> ustring" where
  "preview_chars s n = (if n = 0 then [] else if length s \<le> n then s else take n s @ ([8230] @ lit ''(truncated)''))"

definition push_previewed_field :: "ustring list \<Rightarrow> string \<Rightarrow> ustring option \<Rightarrow> nat \<Rightarrow> ustring list" where
  "push_previewed_field parts label value preview =
     (case trim_nonempty value of None \<Rightarrow> parts | Some s \<Rightarrow> parts @ [lit label @ lit ''='' @ preview_chars s preview])"

definition show_int :: "int \<Rightarrow> ustring" where
  "show_int i = (if i < 0 then 45 # show_nat (nat (- i)) else show_nat (nat i))"

definition compact_reference_for_planner_feedback :: "PlanStepAcceptance \<Rightarrow> ustring option" where
  "compact_reference_for_planner_feedback a =
     (let p0 = (case expect_exit_code a of Some c \<Rightarrow> [lit ''expect_exit_code='' @ show_int c] | None \<Rightarrow> []);
          p1 = push_previewed_field p0 ''expect_stdout_contains'' (expect_stdout_contains a) 48;
          p2 = push_previewed_field p1 ''expect_stderr_contains'' (expect_stderr_contains a) 48;
          p3 = push_previewed_field p2 ''expect_file_exists'' (expect_file_exists a) 64;
          p4 = push_previewed_field p3 ''expect_json_path_equals.path'' (map_option rule_path (expect_json_path_equals a)) 64;
          p5 = (case expect_http_status a of Some h \<Rightarrow> p4 @ [lit ''expect_http_status='' @ show_nat h] | None \<Rightarrow> p4) in
      if p5 = [] then None else Some (join [65307] p5))"

definition contains_any :: "ustring \<Rightarrow> ustring list \<Rightarrow> bool" where
  "contains_any s keywords = list_ex (\<lambda>k. str_contains s k) keywords"

definition BUILD_EXECUTION_KEYWORDS :: "ustring list" where
  "BUILD_EXECUTION_KEYWORDS =
     [[32534, 35793], [26500, 24314], lit ''build'', lit ''compile'', lit ''make '', lit ''cmake'', lit ''link'', lit ''test_runner'',
      [36816, 34892, 27979, 35797], [36305, 27979, 35797], lit ''cargo test'', lit ''cargo build'', lit ''pytest'', lit ''go test'', lit ''ninja'', lit ''meson'']"

definition READONLY_SETUP_KEYWORDS :: "ustring list" where
  "READONLY_SETUP_KEYWORDS =
     [[35299, 21387], lit ''unpack'', lit ''extract'', [26597, 30475], [38405, 35835], [35835, 21462], [20998, 26512], lit ''inspect'', lit ''read '', lit ''list '',
      [21015, 30446, 24405], [20102, 35299], [37197, 32622, 35828, 26126], [26500, 24314, 35828, 26126], [29615, 22659], [25506, 26597]]"

definition UNPACK_KEYWORDS :: "ustring list" where
  "UNPACK_KEYWORDS =
     [[35299, 21387], lit ''unpack'', lit ''extract'', lit ''archive_unpack'', lit ''tar.gz'', lit ''tar.bz2'', lit ''tar.xz'', lit ''.tar'', lit ''.zip'', lit ''.tgz'']"

type_synonym lowercase = "ustring \<Rightarrow> ustring"

definition plan_step_description_matches_any :: "lowercase \<Rightarrow> ustring \<Rightarrow> ustring list \<Rightarrow> bool" where
  "plan_step_description_matches_any lc desc keywords = contains_any (lc desc) keywords"

definition plan_step_description_implies_build_execution :: "lowercase \<Rightarrow> ustring \<Rightarrow> bool" where
  "plan_step_description_implies_build_execution lc desc = plan_step_description_matches_any lc desc BUILD_EXECUTION_KEYWORDS"

definition plan_step_description_implies_readonly_setup_phase :: "lowercase \<Rightarrow> ustring \<Rightarrow> bool" where
  "plan_step_description_implies_readonly_setup_phase lc desc = plan_step_description_matches_any lc desc READONLY_SETUP_KEYWORDS"

definition plan_step_description_implies_unpack :: "lowercase \<Rightarrow> ustring \<Rightarrow> bool" where
  "plan_step_description_implies_unpack lc desc = plan_step_description_matches_any lc desc UNPACK_KEYWORDS"

definition path_contains_build_dir :: "ustring \<Rightarrow> bool" where
  "path_contains_build_dir lower = contains_any lower [lit ''/bin/'', lit ''/build/'', lit ''/target/'']"

definition dotted_basename_is_build_artifact :: "ustring \<Rightarrow> bool" where
  "dotted_basename_is_build_artifact lower =
     (if list_ex (ends_with lower) (map lit [''.md'', ''.txt'', ''.rst'', ''.json'', ''.toml'', ''.yaml'', ''.yml'', ''.cmake'', ''.in'', ''.dat'',
           ''.cpp'', ''.c'', ''.h'', ''.hpp'', ''.rs'', ''.py'', ''.sh''])
      then False
      else ends_with lower (lit ''.exe'') \<or> ends_with lower (lit ''.out'') \<or> ends_with lower (lit ''.o''))"

definition extensionless_basename_is_build_artifact :: "ustring \<Rightarrow> bool" where
  "extensionless_basename_is_build_artifact basename \<longleftrightarrow>
     utf8_len basename \<le> 24 \<and> \<not> str_contains (to_ascii_lowercase basename) (lit ''release'')"

definition plan_acceptance_path_looks_like_build_artifact :: "lowercase \<Rightarrow> ustring \<Rightarrow> bool" where
  "plan_acceptance_path_looks_like_build_artifact lc path =
     (let trimmed = trim path in
      if trimmed = [] then False
      else if path_contains_build_dir (lc trimmed) then True
      else let basename = last (split_char 47 trimmed) in
           if eq_ignore_ascii_case basename (lit ''makefile'') then False
           else if 46 \<in> set basename then dotted_basename_is_build_artifact (lc trimmed)
           else extensionless_basename_is_build_artifact basename)"

definition artifact_file :: "lowercase \<Rightarrow> PlanStepAcceptance \<Rightarrow> bool" where
  "artifact_file lc a =
     (case expect_file_exists a of Some p \<Rightarrow> plan_acceptance_path_looks_like_build_artifact lc p | None \<Rightarrow> False)"

definition plan_step_acceptance_implies_build_progress :: "lowercase \<Rightarrow> PlanStepAcceptance \<Rightarrow> bool" where
  "plan_step_acceptance_implies_build_progress lc a \<longleftrightarrow>
     expect_exit_code a \<noteq> None \<or> nonblank_option (expect_stdout_contains a) \<or> nonblank_option (expect_stderr_contains a) \<or>
     artifact_file lc a"

definition strip_command_stream_acceptance_fields :: "PlanStepAcceptance \<Rightarrow> PlanStepAcceptance" where
  "strip_command_stream_acceptance_fields a =
     a\<lparr>expect_exit_code := None, expect_stdout_contains := None, expect_stderr_contains := None\<rparr>"

definition strip_build_only_acceptance_fields :: "lowercase \<Rightarrow> PlanStepAcceptance \<Rightarrow> PlanStepAcceptance" where
  "strip_build_only_acceptance_fields lc a =
     (let b = a\<lparr>expect_exit_code := None, expect_stdout_contains := None, expect_stderr_contains := None,
                expect_json_path_equals := None, expect_http_status := None\<rparr> in
      if artifact_file lc b then b\<lparr>expect_file_exists := None\<rparr> else b)"

definition effective_only :: "PlanStepAcceptance option \<Rightarrow> PlanStepAcceptance option" where
  "effective_only = filter_option is_effective"

definition align_acceptance :: "lowercase \<Rightarrow> ustring \<Rightarrow> PlanStepExecutorKind option \<Rightarrow> PlanStepAcceptance \<Rightarrow> PlanStepAcceptance" where
  "align_acceptance lc desc kind acc =
     (let acc1 = (if kind = Some ReviewReadonly then strip_build_only_acceptance_fields lc acc
                  else if \<not> plan_step_description_implies_build_execution lc desc \<and> kind \<noteq> Some TestRunner \<and>
                          (kind = None \<or> plan_step_description_implies_readonly_setup_phase lc desc) \<and>
                          plan_step_acceptance_implies_build_progress lc acc
                  then strip_build_only_acceptance_fields lc acc else acc) in
      if plan_step_description_implies_unpack lc desc then strip_command_stream_acceptance_fields acc1 else acc1)"

definition align_plan_step_acceptance_with_executor_kind :: "lowercase \<Rightarrow> PlanStepV1 \<Rightarrow> PlanStepV1" where
  "align_plan_step_acceptance_with_executor_kind lc step =
     step\<lparr>step_acceptance :=
       (case effective_only (step_acceptance step) of
          None \<Rightarrow> None
        | Some acc \<Rightarrow> effective_only (Some (align_acceptance lc (step_description step) (step_executor_kind step) acc)))\<rparr>"

definition DEFAULT_COMMAND_EXIT_CODE :: int where
  "DEFAULT_COMMAND_EXIT_CODE = 0"

definition with_default_exit_code :: "PlanStepAcceptance \<Rightarrow> PlanStepAcceptance" where
  "with_default_exit_code acc =
     (if expect_exit_code acc = None then acc\<lparr>expect_exit_code := Some DEFAULT_COMMAND_EXIT_CODE\<rparr> else acc)"

definition apply_executor_kind_acceptance_defaults :: "PlanStepV1 \<Rightarrow> PlanStepV1" where
  "apply_executor_kind_acceptance_defaults step =
     (if step_executor_kind step \<noteq> Some TestRunner then step
      else step\<lparr>step_acceptance := Some (with_default_exit_code (unwrap_or (step_acceptance step) no_acceptance))\<rparr>)"

definition effective_plan_step_acceptance :: "PlanStepV1 \<Rightarrow> PlanStepAcceptance option" where
  "effective_plan_step_acceptance step =
     (let merged = unwrap_or (step_acceptance step) no_acceptance;
          merged' = (if step_executor_kind step = Some TestRunner then with_default_exit_code merged else merged) in
      if is_effective merged' then Some merged' else None)"

definition default_exit_code_for_build_execution_description :: "lowercase \<Rightarrow> ustring \<Rightarrow> int option" where
  "default_exit_code_for_build_execution_description lc desc =
     (if plan_step_description_implies_build_execution lc desc then Some DEFAULT_COMMAND_EXIT_CODE else None)"

definition finalize_step :: "lowercase \<Rightarrow> PlanStepV1 \<Rightarrow> PlanStepV1" where
  "finalize_step lc step = apply_executor_kind_acceptance_defaults (align_plan_step_acceptance_with_executor_kind lc step)"

definition finalize_agent_reply_plan_v1_acceptance_in_place :: "lowercase \<Rightarrow> AgentReplyPlanV1 \<Rightarrow> AgentReplyPlanV1" where
  "finalize_agent_reply_plan_v1_acceptance_in_place lc plan = plan\<lparr>plan_steps := map (finalize_step lc) (plan_steps plan)\<rparr>"

definition plan_steps_fingerprint :: "lowercase \<Rightarrow> PlanStepV1 list \<Rightarrow> ustring" where
  "plan_steps_fingerprint lc steps =
     join (lit '';;'') (map (\<lambda>s. lc (trim (step_id s)) @ lit ''|'' @
       (case step_executor_kind s of Some k \<Rightarrow> as_snake_case_str k | None \<Rightarrow> [])) steps)"

section \<open>Validation\<close>

definition validate_plan_step_id :: "ustring \<Rightarrow> nat \<Rightarrow> ustring list \<Rightarrow> (PlanArtifactError, ustring list) result" where
  "validate_plan_step_id raw_id i seen =
     (if raw_id \<noteq> trim raw_id then Inl (InvalidStep i (lit ''id '' @ [39318, 23614, 19981, 24471, 21547, 31354, 30333]))
      else if trim raw_id = [] then Inl (InvalidStep i (lit ''id '' @ [20026, 31354]))
      else if \<not> plan_step_id_syntax_ok (trim raw_id)
      then Inl (InvalidStep i (lit ''id '' @ [35821, 27861, 19981, 21512, 27861, 65288, 39035] @ lit '' ASCII '' @ [23383, 27597, 25968, 23383, 36215, 22836, 65292, 20165, 21547] @ lit '' - _ . /'' @ [65292, 24635, 38271, 19981, 36229, 36807] @ lit '' 128'' @ [65289]))
      else if trim raw_id \<in> set seen then Inl (InvalidStep i (lit ''id '' @ [37325, 22797]))
      else Inr (trim raw_id # seen))"

definition validate_optional_workflow_node_id :: "ustring option \<Rightarrow> nat \<Rightarrow> (PlanArtifactError, unit) result" where
  "validate_optional_workflow_node_id o' i =
     (case o' of
        None \<Rightarrow> Inr ()
      | Some raw \<Rightarrow>
          if raw \<noteq> trim raw then Inl (InvalidStep i (lit ''workflow_node_id '' @ [39318, 23614, 19981, 24471, 21547, 31354, 30333]))
          else if trim raw = [] then Inl (InvalidStep i (lit ''workflow_node_id '' @ [33509, 20986, 29616, 39035, 20026, 38750, 31354, 23383, 31526, 20018, 65288, 21542, 21017, 35831, 30465, 30053, 35813, 23383, 27573, 65289]))
          else if \<not> plan_step_id_syntax_ok (trim raw) then Inl (InvalidStep i (lit ''workflow_node_id '' @ [35821, 27861, 19981, 21512, 27861]))
          else Inr ())"

fun validate_plan_step_transitions :: "AgentReplyPlanV1 \<Rightarrow> nat \<Rightarrow> PlanStepControlFlow list \<Rightarrow> ustring list \<Rightarrow> (PlanArtifactError, unit) result" where
  "validate_plan_step_transitions p i [] seen = Inr ()"
| "validate_plan_step_transitions p i (t # ts) seen =
     (if cf_target_step_id t \<notin> set seen \<and> \<not> list_ex (\<lambda>st. step_id st = cf_target_step_id t) (plan_steps p)
      then Inl (InvalidStep i (lit ''transitions '' @ [21253, 21547, 19981, 23384, 22312, 30340] @ lit '' target_step_id''))
      else if (case cf_max_loops t of Some m \<Rightarrow> m > 20 | None \<Rightarrow> False)
      then Inl (InvalidStep i (lit ''transitions '' @ [20013, 30340] @ lit '' max_loops '' @ [19981, 24471, 36229, 36807] @ lit '' 20''))
      else validate_plan_step_transitions p i ts seen)"

definition validate_single_plan_step_v1 :: "AgentReplyPlanV1 \<Rightarrow> nat \<Rightarrow> PlanStepV1 \<Rightarrow> ustring list \<Rightarrow> (PlanArtifactError, ustring list) result" where
  "validate_single_plan_step_v1 p i s seen =
     bind_result (validate_plan_step_id (step_id s) i seen) (\<lambda>seen'.
       if blank (step_description s) then Inl (InvalidStep i (lit ''description '' @ [20026, 31354]))
       else bind_result (validate_optional_workflow_node_id (step_workflow_node_id s) i) (\<lambda>_.
         case step_transitions s of
           None \<Rightarrow> Inr seen'
         | Some ts \<Rightarrow> bind_result (validate_plan_step_transitions p i ts seen') (\<lambda>_. Inr seen')))"

definition validate_agent_reply_plan_v1_header :: "AgentReplyPlanV1 \<Rightarrow> (PlanArtifactError, bool) result" where
  "validate_agent_reply_plan_v1_header p =
     (if plan_type p \<noteq> lit ''agent_reply_plan'' then Inl (WrongType (plan_type p))
      else if plan_version p \<noteq> 1 then Inl (WrongVersion (plan_version p))
      else if plan_no_task p then (if plan_steps p \<noteq> [] then Inl NoTaskWithNonEmptySteps else Inr True)
      else if plan_steps p = [] then Inl EmptySteps
      else Inr False)"

definition plan_allows_workflow_bound_multi_step :: "AgentReplyPlanV1 \<Rightarrow> ustring list option \<Rightarrow> nat \<Rightarrow> bool" where
  "plan_allows_workflow_bound_multi_step p binding_ids max_steps \<longleftrightarrow>
     length (plan_steps p) > max_steps \<and> list_all (\<lambda>s. nonblank_option (step_workflow_node_id s)) (plan_steps p) \<and>
     (case binding_ids of Some ids \<Rightarrow> ids \<noteq> [] | None \<Rightarrow> False)"

fun validate_steps_from :: "AgentReplyPlanV1 \<Rightarrow> nat \<Rightarrow> PlanStepV1 list \<Rightarrow> ustring list \<Rightarrow> (PlanArtifactError, unit) result" where
  "validate_steps_from p i [] seen = Inr ()"
| "validate_steps_from p i (s # ss) seen =
     bind_result (validate_single_plan_step_v1 p i s seen) (\<lambda>seen'. validate_steps_from p (i + 1) ss seen')"

definition PLAN_FIXED_MAX_STEPS :: nat where
  "PLAN_FIXED_MAX_STEPS = 1"

definition validate_agent_reply_plan_v1_with_validate_only_binding_ids ::
    "AgentReplyPlanV1 \<Rightarrow> ustring list option \<Rightarrow> (PlanArtifactError, unit) result" where
  "validate_agent_reply_plan_v1_with_validate_only_binding_ids p binding_ids =
     bind_result (validate_agent_reply_plan_v1_header p) (\<lambda>finished.
       if finished then Inr ()
       else if length (plan_steps p) > PLAN_FIXED_MAX_STEPS \<and> \<not> plan_allows_workflow_bound_multi_step p binding_ids PLAN_FIXED_MAX_STEPS
       then Inl (TooManySteps PLAN_FIXED_MAX_STEPS (length (plan_steps p)))
       else validate_steps_from p 0 (plan_steps p) [])"

definition validate_agent_reply_plan_v1 :: "AgentReplyPlanV1 \<Rightarrow> (PlanArtifactError, unit) result" where
  "validate_agent_reply_plan_v1 p = validate_agent_reply_plan_v1_with_validate_only_binding_ids p None"

fun subset_from :: "ustring list \<Rightarrow> nat \<Rightarrow> PlanStepV1 list \<Rightarrow> (PlanArtifactError, unit) result" where
  "subset_from ids i [] = Inr ()"
| "subset_from ids i (s # ss) =
     (case step_workflow_node_id s of
        None \<Rightarrow> subset_from ids (i + 1) ss
      | Some w \<Rightarrow>
          if trim w \<in> set ids then subset_from ids (i + 1) ss
          else Inl (InvalidStep i (lit ''workflow_node_id '' @ [19981, 22312, 26368, 36817, 19968, 27425, 24037, 20316, 27969, 24037, 20855, 32467, 26524, 30340] @ lit '' nodes '' @ [21015, 34920, 20013])))"

definition validate_plan_workflow_node_ids_subset :: "AgentReplyPlanV1 \<Rightarrow> ustring list \<Rightarrow> (PlanArtifactError, unit) result" where
  "validate_plan_workflow_node_ids_subset plan ids = subset_from ids 0 (plan_steps plan)"

definition linked_node_ids :: "AgentReplyPlanV1 \<Rightarrow> ustring list" where
  "linked_node_ids plan = map trim (List.map_filter step_workflow_node_id (plan_steps plan))"

definition validate_plan_covers_all_workflow_node_ids :: "AgentReplyPlanV1 \<Rightarrow> ustring list \<Rightarrow> (PlanArtifactError, unit) result" where
  "validate_plan_covers_all_workflow_node_ids plan ids =
     (if ids = [] then Inr ()
      else if \<not> list_ex (\<lambda>s. step_workflow_node_id s \<noteq> None) (plan_steps plan) then Inr ()
      else let covered = linked_node_ids plan;
               missing = filter (\<lambda>t. t \<notin> set covered) ids in
           if missing = [] then Inr () else Inl (WorkflowNodesNotFullyCovered missing))"

definition same_counts :: "ustring list \<Rightarrow> ustring list \<Rightarrow> bool" where
  "same_counts xs ys = list_all (\<lambda>k. count_list xs k = count_list ys k) (xs @ ys)"

definition validate_plan_binds_workflow_validate_nodes :: "AgentReplyPlanV1 \<Rightarrow> ustring list \<Rightarrow> (PlanArtifactError, unit) result" where
  "validate_plan_binds_workflow_validate_nodes plan ids =
     (if ids = [] then Inr ()
      else if length (plan_steps plan) \<noteq> length ids
      then Inl (ValidateOnlyPlanNodeBindingMismatch (lit ''steps_len_must_equal_nodes_len''))
      else if \<not> list_all (\<lambda>s. nonblank_option (step_workflow_node_id s)) (plan_steps plan)
      then Inl (ValidateOnlyPlanNodeBindingMismatch (lit ''each_step_requires_workflow_node_id''))
      else if same_counts (linked_node_ids plan) ids then Inr ()
      else Inl (ValidateOnlyPlanNodeBindingMismatch (lit ''workflow_node_id_multiset_must_match_nodes'')))"

definition plan_artifact_error_log_summary :: "PlanArtifactError \<Rightarrow> ustring" where
  "plan_artifact_error_log_summary e =
     (case e of
        NotFound \<Rightarrow> lit ''not_found''
      | WrongType t \<Rightarrow> lit ''wrong_type type_len='' @ show_nat (length t) @ lit '' type_preview='' @ preview_chars t 24
      | WrongVersion v \<Rightarrow> lit ''wrong_version version='' @ show_nat v
      | EmptySteps \<Rightarrow> lit ''empty_steps''
      | TooManySteps m got \<Rightarrow> lit ''too_many_steps max='' @ show_nat m @ lit '' got='' @ show_nat got
      | NoTaskWithNonEmptySteps \<Rightarrow> lit ''no_task_with_steps''
      | InvalidStep i reason \<Rightarrow> lit ''invalid_step index='' @ show_nat i @ lit '' reason='' @ reason
      | WorkflowNodesNotFullyCovered missing \<Rightarrow>
          lit ''workflow_nodes_not_fully_covered missing_count='' @ show_nat (length missing) @ lit '' missing_preview='' @
          join (lit '','') (take 3 missing)
      | ValidateOnlyPlanNodeBindingMismatch detail \<Rightarrow> lit ''validate_only_plan_node_binding_mismatch detail='' @ detail)"

section \<open>Finding the plan in an answer\<close>

definition FENCE :: ustring where
  "FENCE = [96, 96, 96]"

fun split_at_fences :: "ustring \<Rightarrow> ustring \<Rightarrow> ustring list" where
  "split_at_fences acc (a # b # c # s) =
     (if [a, b, c] = FENCE then rev acc # split_at_fences [] s else split_at_fences (a # acc) (b # c # s))"
| "split_at_fences acc s = [rev acc @ s]"

definition split_fences :: "ustring \<Rightarrow> ustring list" where
  "split_fences content = split_at_fences [] content"

definition fenced_body_after_optional_jsonish_lang_label :: "ustring \<Rightarrow> ustring option" where
  "fenced_body_after_optional_jsonish_lang_label raw =
     (case dropWhile (\<lambda>l. blank l) (lines raw) of
        [] \<Rightarrow> None
      | l # rest \<Rightarrow>
          if list_ex (\<lambda>name. eq_ignore_ascii_case (trim l) (lit name)) [''json'', ''markdown'', ''md'']
          then Some (trim (join [10] rest)) else None)"

definition strip_optional_json_fence_label :: "ustring \<Rightarrow> ustring" where
  "strip_optional_json_fence_label raw = unwrap_or (fenced_body_after_optional_jsonish_lang_label raw) (trim raw)"

fun odd_elements :: "'a list \<Rightarrow> 'a list" where
  "odd_elements (a # b # xs) = b # odd_elements xs"
| "odd_elements _ = []"

definition collect_json_candidates :: "ustring \<Rightarrow> ustring list" where
  "collect_json_candidates content =
     (let raws = filter (\<lambda>r. r \<noteq> []) (map trim (odd_elements (split_fences content)));
          out = filter (\<lambda>b. starts_with b [123]) (map strip_optional_json_fence_label raws);
          all = trim content in
      if starts_with all [123] \<and> all \<notin> set out then out @ [all] else out)"

definition parse_agent_reply_plan_v1_with_validate_only_binding_ids ::
    "(ustring \<Rightarrow> AgentReplyPlanV1 option) \<Rightarrow> lowercase \<Rightarrow> ustring \<Rightarrow> ustring list option \<Rightarrow> (PlanArtifactError, AgentReplyPlanV1) result" where
  "parse_agent_reply_plan_v1_with_validate_only_binding_ids read_plan lc content binding_ids =
     ok_or NotFound (find_map (\<lambda>slice.
       and_then (read_plan slice) (\<lambda>plan.
         case validate_agent_reply_plan_v1_with_validate_only_binding_ids plan binding_ids of
           Inr _ \<Rightarrow> Some (finalize_agent_reply_plan_v1_acceptance_in_place lc plan)
         | Inl _ \<Rightarrow> None)) (collect_json_candidates content))"

definition parse_agent_reply_plan_v1 ::
    "(ustring \<Rightarrow> AgentReplyPlanV1 option) \<Rightarrow> lowercase \<Rightarrow> ustring \<Rightarrow> (PlanArtifactError, AgentReplyPlanV1) result" where
  "parse_agent_reply_plan_v1 read_plan lc content = parse_agent_reply_plan_v1_with_validate_only_binding_ids read_plan lc content None"

definition prose_before_first_fence :: "ustring \<Rightarrow> ustring" where
  "prose_before_first_fence content = (if \<not> str_contains content FENCE then [] else trim (hd (split_fences content)))"

definition fence_inner_should_hide_agent_reply_plan_json :: "json_lib \<Rightarrow> (ustring \<Rightarrow> AgentReplyPlanV1 option) \<Rightarrow> lowercase \<Rightarrow> ustring \<Rightarrow> bool" where
  "fence_inner_should_hide_agent_reply_plan_json jl read_plan lc inner =
     (let body = strip_optional_json_fence_label (trim inner) in
      if \<not> starts_with body [123] then False
      else case parse_agent_reply_plan_v1 read_plan lc body of
             Inr _ \<Rightarrow> True
           | Inl _ \<Rightarrow>
               if \<not> str_contains (trim body) ([34] @ lit ''agent_reply_plan'' @ [34]) \<or> \<not> str_contains (trim body) ([34] @ lit ''steps'' @ [34]) then False
               else json_ok jl (trim body) \<noteq> None)"

fun strip_parts :: "(ustring \<Rightarrow> bool) \<Rightarrow> bool \<Rightarrow> ustring list \<Rightarrow> ustring" where
  "strip_parts hide unclosed [] = []"
| "strip_parts hide unclosed [p] = p"
| "strip_parts hide unclosed (p # inner # ps) =
     p @ (if hide inner then strip_parts hide unclosed ps
          else if unclosed \<and> ps = [] \<and> blank inner then []
          else FENCE @ inner @ FENCE @ strip_parts hide unclosed ps)"

definition strip_agent_reply_plan_fence_blocks_for_display :: "json_lib \<Rightarrow> (ustring \<Rightarrow> AgentReplyPlanV1 option) \<Rightarrow> lowercase \<Rightarrow> ustring \<Rightarrow> ustring" where
  "strip_agent_reply_plan_fence_blocks_for_display jl read_plan lc content =
     (let parts = split_fences content in
      strip_parts (fence_inner_should_hide_agent_reply_plan_json jl read_plan lc) (even (length parts)) parts)"

section \<open>Lemmas\<close>

subsection \<open>Fences\<close>

lemma join_split_at_fences: "join FENCE (split_at_fences acc s) = rev acc @ s"
proof (induction acc s rule: split_at_fences.induct)
  case (1 acc a b c s)
  then show ?case by (cases "split_at_fences [] s") (auto simp: FENCE_def)
qed simp_all

lemma join_split_fences: "join FENCE (split_fences s) = s"
  by (simp add: split_fences_def join_split_at_fences)

lemma strip_parts_none:
  assumes "\<And>inner. inner \<in> set (odd_elements ps) \<Longrightarrow> \<not> hide inner" and "odd (length ps)"
  shows "strip_parts hide unclosed ps = join FENCE ps"
  using assms
proof (induction hide unclosed ps rule: strip_parts.induct)
  case (3 hide unclosed p inner ps)
  then have "ps \<noteq> []" by auto
  then show ?case using 3 by (cases ps) auto
qed simp_all

subsection \<open>Counting\<close>

lemma same_counts_iff: "same_counts xs ys \<longleftrightarrow> mset xs = mset ys"
proof
  assume same: "same_counts xs ys"
  show "mset xs = mset ys"
  proof (rule multiset_eqI)
    fix k
    show "count (mset xs) k = count (mset ys) k"
    proof (cases "k \<in> set (xs @ ys)")
      case True
      then show ?thesis using same by (auto simp: same_counts_def list_all_iff count_mset)
    next
      case False
      then show ?thesis by (simp add: count_mset count_list_0_iff)
    qed
  qed
next
  assume "mset xs = mset ys"
  then show "same_counts xs ys" by (simp add: same_counts_def list_all_iff flip: count_mset)
qed

subsection \<open>Normalisation\<close>

lemma artifact_file_stripped [simp]: "\<not> artifact_file lc (strip_build_only_acceptance_fields lc a)"
  by (auto simp: strip_build_only_acceptance_fields_def Let_def artifact_file_def)

lemma strip_build_only_twice [simp]:
  "strip_build_only_acceptance_fields lc (strip_build_only_acceptance_fields lc a) = strip_build_only_acceptance_fields lc a"
  by (auto simp: strip_build_only_acceptance_fields_def Let_def artifact_file_def split: option.splits)

lemma stripped_no_progress [simp]:
  "\<not> plan_step_acceptance_implies_build_progress lc (strip_build_only_acceptance_fields lc a)"
  by (auto simp: plan_step_acceptance_implies_build_progress_def strip_build_only_acceptance_fields_def Let_def nonblank_option_def
      artifact_file_def split: option.splits)

lemma finalize_step_keeps [simp]:
  "step_id (finalize_step lc s) = step_id s"
  "step_description (finalize_step lc s) = step_description s"
  "step_workflow_node_id (finalize_step lc s) = step_workflow_node_id s"
  "step_executor_kind (finalize_step lc s) = step_executor_kind s"
  "step_transitions (finalize_step lc s) = step_transitions s"
  by (simp_all add: finalize_step_def apply_executor_kind_acceptance_defaults_def align_plan_step_acceptance_with_executor_kind_def Let_def
      split: option.splits)

lemma strip_command_stream_after_build [simp]:
  "strip_command_stream_acceptance_fields (strip_build_only_acceptance_fields lc a) = strip_build_only_acceptance_fields lc a"
  by (simp add: strip_command_stream_acceptance_fields_def strip_build_only_acceptance_fields_def Let_def)

lemma strip_command_stream_twice [simp]:
  "strip_command_stream_acceptance_fields (strip_command_stream_acceptance_fields a) = strip_command_stream_acceptance_fields a"
  by (simp add: strip_command_stream_acceptance_fields_def)

lemma progress_of_stream_stripped:
  "plan_step_acceptance_implies_build_progress lc (strip_command_stream_acceptance_fields a) \<Longrightarrow>
     plan_step_acceptance_implies_build_progress lc a"
  by (auto simp: plan_step_acceptance_implies_build_progress_def strip_command_stream_acceptance_fields_def nonblank_option_def artifact_file_def)

lemma with_default_exit_code_effective [simp]: "is_effective (with_default_exit_code a)"
  by (simp add: with_default_exit_code_def is_effective_def)

lemma strip_command_stream_default [simp]:
  "strip_command_stream_acceptance_fields (with_default_exit_code (strip_command_stream_acceptance_fields a)) = strip_command_stream_acceptance_fields a"
  "strip_command_stream_acceptance_fields (with_default_exit_code no_acceptance) = no_acceptance"
  by (simp_all add: strip_command_stream_acceptance_fields_def with_default_exit_code_def no_acceptance_def)

lemma with_default_twice [simp]: "with_default_exit_code (with_default_exit_code a) = with_default_exit_code a"
  by (simp add: with_default_exit_code_def)

lemma no_acceptance_ineffective [simp]: "\<not> is_effective no_acceptance"
  by (simp add: is_effective_def no_acceptance_def nonblank_option_def)

lemma align_acceptance_idem [simp]: "align_acceptance lc d k (align_acceptance lc d k a) = align_acceptance lc d k a"
  by (auto simp: align_acceptance_def Let_def dest: progress_of_stream_stripped)

lemma align_idem:
  "align_plan_step_acceptance_with_executor_kind lc (align_plan_step_acceptance_with_executor_kind lc s) =
     align_plan_step_acceptance_with_executor_kind lc s"
  by (cases "step_acceptance s") (simp_all add: align_plan_step_acceptance_with_executor_kind_def effective_only_def)

lemma align_acceptance_test_runner [simp]:
  "align_acceptance lc d (Some TestRunner) a =
     (if plan_step_description_implies_unpack lc d then strip_command_stream_acceptance_fields a else a)"
  by (simp add: align_acceptance_def Let_def)

lemma finalize_step_idem: "finalize_step lc (finalize_step lc s) = finalize_step lc s"
proof (cases "step_executor_kind s = Some TestRunner")
  case True
  then show ?thesis
    by (cases "step_acceptance s")
      (simp_all add: finalize_step_def apply_executor_kind_acceptance_defaults_def align_plan_step_acceptance_with_executor_kind_def
        effective_only_def)
next
  case False
  have "step_executor_kind (align_plan_step_acceptance_with_executor_kind lc s) = step_executor_kind s"
    by (simp add: align_plan_step_acceptance_with_executor_kind_def)
  with False show ?thesis
    by (simp add: finalize_step_def apply_executor_kind_acceptance_defaults_def align_idem)
qed

subsection \<open>Validation\<close>

text \<open>What validation demands of a step, stated without the loop, the running set of ids or the error texts.\<close>

definition wf_id :: "ustring \<Rightarrow> bool" where
  "wf_id s \<longleftrightarrow> trim s = s \<and> plan_step_id_syntax_ok s"

definition wf_transition :: "PlanStepV1 list \<Rightarrow> PlanStepControlFlow \<Rightarrow> bool" where
  "wf_transition steps t \<longleftrightarrow> cf_target_step_id t \<in> step_id ` set steps \<and> (\<forall>m. cf_max_loops t = Some m \<longrightarrow> m \<le> 20)"

definition wf_step :: "PlanStepV1 list \<Rightarrow> PlanStepV1 \<Rightarrow> bool" where
  "wf_step steps s \<longleftrightarrow>
     wf_id (step_id s) \<and> \<not> blank (step_description s) \<and> (\<forall>w. step_workflow_node_id s = Some w \<longrightarrow> wf_id w) \<and>
     (\<forall>ts. step_transitions s = Some ts \<longrightarrow> (\<forall>t \<in> set ts. wf_transition steps t))"

definition wf_plan :: "AgentReplyPlanV1 \<Rightarrow> ustring list option \<Rightarrow> bool" where
  "wf_plan p binding_ids \<longleftrightarrow>
     plan_type p = lit ''agent_reply_plan'' \<and> plan_version p = 1 \<and> (plan_no_task p \<longleftrightarrow> plan_steps p = []) \<and>
     distinct (map step_id (plan_steps p)) \<and> (\<forall>s \<in> set (plan_steps p). wf_step (plan_steps p) s) \<and>
     (length (plan_steps p) \<le> 1 \<or>
      (\<forall>s \<in> set (plan_steps p). step_workflow_node_id s \<noteq> None) \<and> binding_ids \<noteq> None \<and> binding_ids \<noteq> Some [])"

lemma syntax_ok_ne: "plan_step_id_syntax_ok s \<Longrightarrow> \<not> blank s"
  by (simp add: plan_step_id_syntax_ok_def Let_def)

lemma validate_plan_step_id_Inr:
  "validate_plan_step_id r i seen = Inr seen' \<longleftrightarrow> wf_id r \<and> r \<notin> set seen \<and> seen' = r # seen"
  by (auto simp: validate_plan_step_id_def wf_id_def dest: syntax_ok_ne)

lemma validate_optional_node_Inr:
  "validate_optional_workflow_node_id o' i = Inr u \<longleftrightarrow> (\<forall>w. o' = Some w \<longrightarrow> wf_id w)"
  by (auto simp: validate_optional_workflow_node_id_def wf_id_def dest: syntax_ok_ne split: option.splits)

lemma validate_transitions_Inr:
  assumes "set seen \<subseteq> step_id ` set (plan_steps p)"
  shows "validate_plan_step_transitions p i ts seen = Inr u \<longleftrightarrow> (\<forall>t \<in> set ts. wf_transition (plan_steps p) t)"
proof (induction ts)
  case (Cons t ts)
  have "(cf_target_step_id t \<notin> set seen \<and> \<not> list_ex (\<lambda>st. step_id st = cf_target_step_id t) (plan_steps p)) \<longleftrightarrow>
      cf_target_step_id t \<notin> step_id ` set (plan_steps p)"
    using assms by (force simp: list_ex_iff)
  then show ?case using Cons.IH by (auto simp: wf_transition_def split: option.splits)
qed simp

lemma validate_single_Inr:
  assumes "set seen \<subseteq> step_id ` set (plan_steps p)" and "s \<in> set (plan_steps p)"
  shows "validate_single_plan_step_v1 p i s seen = Inr seen' \<longleftrightarrow>
           wf_step (plan_steps p) s \<and> step_id s \<notin> set seen \<and> seen' = step_id s # seen"
proof -
  have "set (step_id s # seen) \<subseteq> step_id ` set (plan_steps p)" using assms by auto
  note tr = validate_transitions_Inr [OF this]
  show ?thesis
    unfolding validate_single_plan_step_v1_def bind_result_Inr validate_plan_step_id_Inr
    by (cases "step_transitions s") (auto simp: wf_step_def bind_result_Inr validate_optional_node_Inr tr)
qed

lemma validate_steps_Inr:
  assumes "set seen \<subseteq> step_id ` set (plan_steps p)" and "set ss \<subseteq> set (plan_steps p)"
  shows "validate_steps_from p i ss seen = Inr u \<longleftrightarrow>
           (\<forall>s \<in> set ss. wf_step (plan_steps p) s) \<and> distinct (map step_id ss) \<and> set seen \<inter> step_id ` set ss = {}"
  using assms
proof (induction p i ss seen rule: validate_steps_from.induct)
  case (2 p i s ss seen)
  then have single: "validate_single_plan_step_v1 p i s seen = Inr seen' \<longleftrightarrow>
      wf_step (plan_steps p) s \<and> step_id s \<notin> set seen \<and> seen' = step_id s # seen" for seen'
    by (simp add: validate_single_Inr)
  show ?case
  proof (cases "wf_step (plan_steps p) s \<and> step_id s \<notin> set seen")
    case True
    then have "validate_single_plan_step_v1 p i s seen = Inr (step_id s # seen)" by (simp add: single)
    moreover have "set (step_id s # seen) \<subseteq> step_id ` set (plan_steps p)" "set ss \<subseteq> set (plan_steps p)"
      using 2 by auto
    ultimately show ?thesis using 2(1) [of "step_id s # seen"] True by auto
  next
    case False
    then show ?thesis by (auto simp: bind_result_Inr single)
  qed
qed simp

lemma wf_id_nonblank: "wf_id w \<Longrightarrow> \<not> blank w"
  by (auto simp: wf_id_def dest: syntax_ok_ne)

lemma finalize_keeps_plan [simp]:
  "plan_type (finalize_agent_reply_plan_v1_acceptance_in_place lc p) = plan_type p"
  "plan_version (finalize_agent_reply_plan_v1_acceptance_in_place lc p) = plan_version p"
  "plan_no_task (finalize_agent_reply_plan_v1_acceptance_in_place lc p) = plan_no_task p"
  "plan_steps (finalize_agent_reply_plan_v1_acceptance_in_place lc p) = map (finalize_step lc) (plan_steps p)"
  by (simp_all add: finalize_agent_reply_plan_v1_acceptance_in_place_def)

lemma finalize_keeps_wf: "wf_plan (finalize_agent_reply_plan_v1_acceptance_in_place lc p) b \<longleftrightarrow> wf_plan p b"
proof -
  have ids: "step_id ` finalize_step lc ` X = step_id ` X" for X by (force simp: image_image)
  have "wf_transition (map (finalize_step lc) ss) t \<longleftrightarrow> wf_transition ss t" for ss t
    by (simp add: wf_transition_def ids)
  then have "wf_step (map (finalize_step lc) ss) (finalize_step lc s) \<longleftrightarrow> wf_step ss s" for ss s
    by (simp add: wf_step_def)
  then show ?thesis by (simp add: wf_plan_def comp_def)
qed

lemma finalize_plan_idem:
  "finalize_agent_reply_plan_v1_acceptance_in_place lc (finalize_agent_reply_plan_v1_acceptance_in_place lc p) =
     finalize_agent_reply_plan_v1_acceptance_in_place lc p"
  by (simp add: finalize_agent_reply_plan_v1_acceptance_in_place_def finalize_step_idem comp_def)

lemma find_map_Some: "find_map f xs = Some y \<Longrightarrow> \<exists>x \<in> set xs. f x = Some y"
  by (induction xs) (auto split: option.splits)

lemma validate_plan_Inr:
  "validate_agent_reply_plan_v1_with_validate_only_binding_ids p b = Inr u \<longleftrightarrow> wf_plan p b"
proof -
  have bound: "(\<forall>s \<in> set (plan_steps p). nonblank_option (step_workflow_node_id s)) \<longleftrightarrow>
      (\<forall>s \<in> set (plan_steps p). step_workflow_node_id s \<noteq> None)"
    if "\<forall>s \<in> set (plan_steps p). wf_step (plan_steps p) s"
    using that by (auto simp: wf_step_def nonblank_option_def dest: wf_id_nonblank split: option.splits)
  show ?thesis
  proof (cases "validate_agent_reply_plan_v1_header p")
    case (Inl e)
    then show ?thesis
      by (auto simp: validate_agent_reply_plan_v1_with_validate_only_binding_ids_def validate_agent_reply_plan_v1_header_def wf_plan_def
          split: if_splits)
  next
    case (Inr finished)
    show ?thesis
    proof (cases finished)
      case True
      with Inr show ?thesis
        by (auto simp: validate_agent_reply_plan_v1_with_validate_only_binding_ids_def validate_agent_reply_plan_v1_header_def wf_plan_def
            split: if_splits)
    next
      case False
      have head: "plan_type p = lit ''agent_reply_plan''" "plan_version p = 1" "\<not> plan_no_task p" "plan_steps p \<noteq> []"
        using Inr False by (auto simp: validate_agent_reply_plan_v1_header_def split: if_splits)
      have "validate_steps_from p 0 (plan_steps p) [] = Inr u \<longleftrightarrow>
          (\<forall>s \<in> set (plan_steps p). wf_step (plan_steps p) s) \<and> distinct (map step_id (plan_steps p))"
        by (simp add: validate_steps_Inr)
      then show ?thesis
        using head bound Inr False
        by (auto simp: validate_agent_reply_plan_v1_with_validate_only_binding_ids_def wf_plan_def PLAN_FIXED_MAX_STEPS_def
            plan_allows_workflow_bound_multi_step_def list_all_iff split: option.splits)
    qed
  qed
qed

lemma parse_plan_Inr:
  assumes "parse_agent_reply_plan_v1_with_validate_only_binding_ids read_plan lc content b = Inr p"
  obtains slice q where "slice \<in> set (collect_json_candidates content)" "read_plan slice = Some q" "wf_plan q b"
    "p = finalize_agent_reply_plan_v1_acceptance_in_place lc q"
proof -
  from assms obtain slice q where "slice \<in> set (collect_json_candidates content)" "read_plan slice = Some q"
    and case_q: "(case validate_agent_reply_plan_v1_with_validate_only_binding_ids q b of
       Inr _ \<Rightarrow> Some (finalize_agent_reply_plan_v1_acceptance_in_place lc q) | Inl _ \<Rightarrow> None) = Some p"
    by (auto simp: parse_agent_reply_plan_v1_with_validate_only_binding_ids_def bind_eq_Some_conv dest!: find_map_Some)
  moreover have "wf_plan q b \<and> p = finalize_agent_reply_plan_v1_acceptance_in_place lc q"
    using case_q validate_plan_Inr [of q b] by (cases "validate_agent_reply_plan_v1_with_validate_only_binding_ids q b") auto
  ultimately show ?thesis using that by blast
qed

subsection \<open>Binding to workflow nodes\<close>

lemma subset_from_Inr:
  "subset_from ids i ss = Inr u \<longleftrightarrow> (\<forall>s \<in> set ss. \<forall>w. step_workflow_node_id s = Some w \<longrightarrow> trim w \<in> set ids)"
  by (induction ids i ss rule: subset_from.induct) (auto split: option.splits)

lemma linked_node_ids_set: "set (linked_node_ids p) = {trim w |w s. s \<in> set (plan_steps p) \<and> step_workflow_node_id s = Some w}"
  by (force simp: linked_node_ids_def map_filter_def)

lemma subset_Inr: "validate_plan_workflow_node_ids_subset p ids = Inr u \<longleftrightarrow> set (linked_node_ids p) \<subseteq> set ids"
  by (auto simp: validate_plan_workflow_node_ids_subset_def subset_from_Inr linked_node_ids_set)

lemma linked_ex: "list_ex (\<lambda>s. step_workflow_node_id s \<noteq> None) (plan_steps p) \<longleftrightarrow> linked_node_ids p \<noteq> []"
  by (simp add: linked_node_ids_def list_ex_iff map_filter_def filter_empty_conv)

lemma covers_Inr:
  "validate_plan_covers_all_workflow_node_ids p ids = Inr u \<longleftrightarrow> linked_node_ids p = [] \<or> set ids \<subseteq> set (linked_node_ids p)"
  unfolding validate_plan_covers_all_workflow_node_ids_def linked_ex
  by (auto simp: Let_def filter_empty_conv)

lemma linked_length:
  "list_all (\<lambda>s. nonblank_option (step_workflow_node_id s)) ss \<Longrightarrow> length (List.map_filter step_workflow_node_id ss) = length ss"
  by (induction ss) (auto simp: nonblank_option_def map_filter_simps split: option.splits)

lemma binds_Inr:
  "validate_plan_binds_workflow_validate_nodes p ids = Inr u \<longleftrightarrow>
     ids = [] \<or> list_all (\<lambda>s. nonblank_option (step_workflow_node_id s)) (plan_steps p) \<and> mset (linked_node_ids p) = mset ids"
proof (cases "list_all (\<lambda>s. nonblank_option (step_workflow_node_id s)) (plan_steps p)")
  case True
  then have "mset (linked_node_ids p) = mset ids \<Longrightarrow> length (plan_steps p) = length ids"
    by (metis linked_length linked_node_ids_def length_map mset_eq_length)
  then show ?thesis using True by (auto simp: validate_plan_binds_workflow_validate_nodes_def same_counts_iff)
qed (simp add: validate_plan_binds_workflow_validate_nodes_def)

subsection \<open>An overridden exit code\<close>

text \<open>
  A test step whose description mentions an archive loses the exit code it asks for to the unpacking rule, and
  then gets the default one: a plan that expects exit code 1 is checked for 0.
\<close>

lemma unpack_overrides_exit_code:
  assumes "step_executor_kind s = Some TestRunner" and "plan_step_description_implies_unpack lc (step_description s)"
    and "step_acceptance s = Some a"
  shows "\<exists>a'. step_acceptance (finalize_step lc s) = Some a' \<and> expect_exit_code a' = Some 0"
  using assms
  by (auto simp: finalize_step_def apply_executor_kind_acceptance_defaults_def align_plan_step_acceptance_with_executor_kind_def
      effective_only_def with_default_exit_code_def DEFAULT_COMMAND_EXIT_CODE_def strip_command_stream_acceptance_fields_def no_acceptance_def)

section \<open>Properties\<close>

text \<open>
  C14: Validation is exact.  A plan passes exactly when its type and version are right, it has steps unless it
  declares that there is no task, its step ids are well formed and distinct, every description is there, node ids and
  transitions are well formed with existing targets and at most 20 loops, and it has a single step unless every step is bound to a
  node and there are validated nodes to bind to.
\<close>

theorem plan_validation_exact:
  "validate_agent_reply_plan_v1_with_validate_only_binding_ids p binding_ids = Inr () \<longleftrightarrow> wf_plan p binding_ids"
  by (rule validate_plan_Inr)


definition sample_step :: PlanStepV1 where
  "sample_step = \<lparr>step_id = lit ''s1'', step_description = lit ''cargo test'', step_workflow_node_id = None,
     step_executor_kind = Some TestRunner, step_step_kind = None, step_acceptance = None, step_max_step_retries = None, step_transitions = None\<rparr>"

definition sample_plan :: AgentReplyPlanV1 where
  "sample_plan = \<lparr>plan_type = lit ''agent_reply_plan'', plan_version = 1, plan_steps = [sample_step], plan_no_task = False\<rparr>"

lemma sample_plan_wf: "wf_plan sample_plan None"
  by (simp add: sample_plan_def sample_step_def wf_plan_def wf_step_def wf_id_def plan_step_id_syntax_ok_def PLAN_STEP_ID_PATTERN_def
      is_ascii_alnum_def lit_Cons trim_def trim_start_def trim_end_def is_whitespace_def utf8_len_char_def)

lemma sample_plan_parses:
  "parse_agent_reply_plan_v1_with_validate_only_binding_ids (\<lambda>s. Some sample_plan) id [123] None =
     Inr (finalize_agent_reply_plan_v1_acceptance_in_place id sample_plan)"
  by (simp add: parse_agent_reply_plan_v1_with_validate_only_binding_ids_def collect_json_candidates_def split_fences_def trim_def trim_start_def
      trim_end_def is_whitespace_def starts_with_def validate_plan_Inr [of sample_plan None "()", THEN iffD2, OF sample_plan_wf])


text \<open>
  Binding is exact.  Against the validated nodes of a workflow, a plan passes exactly when every step names a
  node and the names, with repetitions, are a rearrangement of the nodes.
\<close>

theorem binding_is_rearrangement:
  "validate_plan_binds_workflow_validate_nodes p ids = Inr () \<longleftrightarrow>
     ids = [] \<or> list_all (\<lambda>s. nonblank_option (step_workflow_node_id s)) (plan_steps p) \<and> mset (linked_node_ids p) = mset ids"
  by (rule binds_Inr)

end
