(* ===== verification/Workflow_Reflection.thy ===== *)
theory Workflow_Reflection
  imports Message
begin

text \<open>
  The controller that makes the model plan, execute and revise a workflow in rounds
  (\<^verbatim>\<open>cm_agent/workflow_reflection_controller.rs\<close>), and the contract a workflow must meet before it is executed.
  Reading and printing JSON is the parameter \<open>jl\<close>.  The set of node ids is the list of them.

  Shown here: a session executes at most its number of rounds plus one call that closes it, and once closed it never executes
  again; the first round is patched to validate only and the later ones to execute; the contract accepts exactly the workflows it describes.
\<close>

section \<open>The controller\<close>

definition INSTRUCTION_WORKFLOW_REFLECTION_PLAN_NEXT :: ustring where
  "INSTRUCTION_WORKFLOW_REFLECTION_PLAN_NEXT = lit ''workflow_reflection_plan_next''"

definition INSTRUCTION_WORKFLOW_REFLECTION_NEXT :: ustring where
  "INSTRUCTION_WORKFLOW_REFLECTION_NEXT = lit ''workflow_reflection_next''"

definition INSTRUCTION_WORKFLOW_REFLECTION_LOCKED :: ustring where
  "INSTRUCTION_WORKFLOW_REFLECTION_LOCKED = lit ''workflow_reflection_locked''"

definition INSTRUCTION_WORKFLOW_REFLECTION_MAX_ROUNDS_REACHED :: ustring where
  "INSTRUCTION_WORKFLOW_REFLECTION_MAX_ROUNDS_REACHED = lit ''workflow_reflection_max_rounds_reached''"

datatype WorkflowReflectionFsmPhase = Inactive | Reflecting | SessionClosed

record ReflectionControl =
  rc_enabled :: bool
  rc_done :: bool
  rc_max_rounds :: nat

record WorkflowReflectionDecision =
  wrd_execute :: bool
  wrd_stop_output :: "Value option"
  wrd_inject_instruction :: "Value option"
  wrd_workflow_args_patch :: "Value option"

record WorkflowReflectionController =
  mode_active :: bool
  locked :: bool
  max_rounds :: nat
  round_no :: nat
  default_max_rounds :: nat

definition new_controller :: "nat \<Rightarrow> WorkflowReflectionController" where
  "new_controller default_rounds =
     \<lparr>mode_active = False, locked = False, max_rounds = max default_rounds 1, round_no = 0, default_max_rounds = max default_rounds 1\<rparr>"

definition reflection_fsm_phase :: "WorkflowReflectionController \<Rightarrow> WorkflowReflectionFsmPhase" where
  "reflection_fsm_phase c = (if \<not> mode_active c then Inactive else if locked c then SessionClosed else Reflecting)"

definition workflow_value :: "Value \<Rightarrow> Value" where
  "workflow_value v = unwrap_or (get_key v (lit ''workflow'')) v"

definition parse_control :: "json_lib \<Rightarrow> WorkflowReflectionController \<Rightarrow> ustring \<Rightarrow> ReflectionControl" where
  "parse_control jl c args_json =
     (case jl_from_str jl args_json of
        Inl _ \<Rightarrow> \<lparr>rc_enabled = False, rc_done = False, rc_max_rounds = default_max_rounds c\<rparr>
      | Inr v \<Rightarrow>
          (let wf = workflow_value v;
               refl = (\<lambda>k. and_then (get_key wf (lit ''reflection'')) (\<lambda>r. get_key r k)) in
           \<lparr>rc_enabled = unwrap_or (and_then (refl (lit ''enabled'')) as_bool) False,
            rc_done = unwrap_or (and_then (get_key wf (lit ''done'')) as_bool) False,
            rc_max_rounds = unwrap_or (map_option (\<lambda>n. max n 1) (and_then (refl (lit ''max_rounds'')) as_u64)) (default_max_rounds c)\<rparr>))"

definition maybe_activate_reflection_session :: "ReflectionControl \<Rightarrow> WorkflowReflectionController \<Rightarrow> WorkflowReflectionController" where
  "maybe_activate_reflection_session control c =
     (if rc_enabled control \<and> \<not> mode_active c
      then c\<lparr>mode_active := True, locked := False, max_rounds := rc_max_rounds control, round_no := 0\<rparr> else c)"

definition decision_execute_no_extras :: WorkflowReflectionDecision where
  "decision_execute_no_extras =
     \<lparr>wrd_execute = True, wrd_stop_output = None, wrd_inject_instruction = None, wrd_workflow_args_patch = None\<rparr>"

definition decision_stop :: "ustring \<Rightarrow> ustring \<Rightarrow> nat \<Rightarrow> WorkflowReflectionDecision" where
  "decision_stop instruction summary rounds =
     \<lparr>wrd_execute = False,
      wrd_stop_output = Some (Object (obj_of [(lit ''type'', String (lit ''workflow_reflection_stop'')),
        (lit ''instruction_type'', String instruction), (lit ''max_rounds'', Number (PosInt rounds)),
        (lit ''human_summary'', String summary)])),
      wrd_inject_instruction = Some (Object (obj_of [(lit ''instruction_type'', String instruction),
        (lit ''max_rounds'', Number (PosInt rounds))])),
      wrd_workflow_args_patch = None\<rparr>"

definition decision_max_rounds_stop :: "nat \<Rightarrow> WorkflowReflectionDecision" where
  "decision_max_rounds_stop rounds =
     decision_stop INSTRUCTION_WORKFLOW_REFLECTION_MAX_ROUNDS_REACHED
       ((lit ''workflow_execute '' @ [24050, 20572, 27490, 65306, 36798, 21040, 21453, 24605, 37325, 35797, 19978, 38480, 65288] @ lit ''max_rounds='') @ show_nat rounds @ [65289, 12290]) rounds"

definition decision_locked_stop :: "nat \<Rightarrow> WorkflowReflectionDecision" where
  "decision_locked_stop rounds =
     decision_stop INSTRUCTION_WORKFLOW_REFLECTION_LOCKED
       ((lit ''workflow_execute '' @ [24050, 20572, 27490, 65306, 21453, 24605, 24050, 38145, 23450, 65288] @ lit ''max_rounds='') @ show_nat rounds @ [65289, 12290]) rounds"

definition PLAN_ACTION :: ustring where
  "PLAN_ACTION = (lit ''plan_from_validate_only_result: you MUST embed a '' @ [96, 96, 96] @ lit ''json fenced block whose JSON is {'' @ [34] @ lit ''type'' @ [34] @ lit '':'' @ [34] @ lit ''agent_reply_plan'' @ [34] @ lit '','' @ [34] @ lit ''version'' @ [34] @ lit '':1,'' @ [34] @ lit ''steps'' @ [34] @ lit '':[{'' @ [34] @ lit ''id'' @ [34] @ lit '':'' @ [34] @ lit ''...'' @ [34] @ lit '','' @ [34] @ lit ''description'' @ [34] @ lit '':'' @ [34] @ lit ''...'' @ [34] @ lit '','' @ [34] @ lit ''workflow_node_id'' @ [34] @ lit '':'' @ [34] @ lit ''<node id from validate result>'' @ [34] @ lit ''},...]}. If the validate_only tool_result includes a non-empty '' @ [96] @ lit ''nodes'' @ [96] @ lit '' array, you MUST: (1) set '' @ [96] @ lit ''steps.len()'' @ [96] @ lit '' equal to '' @ [96] @ lit ''nodes.length'' @ [96] @ lit ''; (2) set '' @ [96] @ lit ''workflow_node_id'' @ [96] @ lit '' on EVERY step; (3) make the multiset of all '' @ [96] @ lit ''workflow_node_id'' @ [96] @ lit '' values exactly match '' @ [96] @ lit ''nodes[].id'' @ [96] @ lit '' (including duplicates; step order may differ from DAG order). Each description should reflect the validate_only tool_result (execution_layers, deps, required_approval, timeout_secs, compensate_with, mapping layer->nodes). Natural language outside the fence is OK. After producing the plan, call workflow_execute again with workflow.validate_only=false (Do stage), unless you already set workflow.done=true.'')"

definition REVISE_ACTION :: ustring where
  "REVISE_ACTION = lit ''revise_workflow_then_call_workflow_execute_or_set_workflow_done_true_when_goal_reached''"

definition decide_while_reflecting :: "ReflectionControl \<Rightarrow> WorkflowReflectionController \<Rightarrow> WorkflowReflectionDecision \<times> WorkflowReflectionController" where
  "decide_while_reflecting control c =
     (if rc_done control then (decision_execute_no_extras, c\<lparr>locked := True\<rparr>)
      else if round_no c \<ge> max_rounds c then (decision_max_rounds_stop (max_rounds c), c\<lparr>locked := True\<rparr>)
      else let r = round_no c + 1 in
        (\<lparr>wrd_execute = True, wrd_stop_output = None,
          wrd_inject_instruction = Some (Object (obj_of
            [(lit ''instruction_type'', String (if r = 1 then INSTRUCTION_WORKFLOW_REFLECTION_PLAN_NEXT else INSTRUCTION_WORKFLOW_REFLECTION_NEXT)),
             (lit ''round'', Number (PosInt r)), (lit ''max_rounds'', Number (PosInt (max_rounds c))),
             (lit ''required_model_action'', String (if r = 1 then PLAN_ACTION else REVISE_ACTION)),
             (lit ''next_call_hint'', Object (obj_of [(lit ''call_tool'', String (lit ''workflow_execute'')), (lit ''workflow_done'', Bool False)]))])),
          wrd_workflow_args_patch = Some (Object [(lit ''validate_only'', Bool (r = 1))])\<rparr>,
         c\<lparr>round_no := r\<rparr>))"

definition decide :: "json_lib \<Rightarrow> ustring \<Rightarrow> WorkflowReflectionController \<Rightarrow> WorkflowReflectionDecision \<times> WorkflowReflectionController" where
  "decide jl args_json c =
     (let control = parse_control jl c args_json;
          c' = maybe_activate_reflection_session control c in
      case reflection_fsm_phase c' of
        Inactive \<Rightarrow> (decision_execute_no_extras, c')
      | Reflecting \<Rightarrow> decide_while_reflecting control c'
      | SessionClosed \<Rightarrow> (decision_locked_stop (max_rounds c'), c'))"

definition insert_all :: "json_object \<Rightarrow> json_object \<Rightarrow> json_object" where
  "insert_all patch m = foldl (\<lambda>m (k, v). obj_insert k v m) m patch"

definition apply_workflow_patch :: "json_lib \<Rightarrow> ustring \<Rightarrow> Value \<Rightarrow> ustring" where
  "apply_workflow_patch jl args_json patch =
     (case jl_from_str jl args_json of
        Inl _ \<Rightarrow> args_json
      | Inr v \<Rightarrow>
          (case as_object patch of
             None \<Rightarrow> jl_to_string jl v
           | Some patch_obj \<Rightarrow>
               (case v of
                  Object root \<Rightarrow>
                    (case map_of root (lit ''workflow'') of
                       Some (Object t) \<Rightarrow> jl_to_string jl (Object (obj_insert (lit ''workflow'') (Object (insert_all patch_obj t)) root))
                     | _ \<Rightarrow> jl_to_string jl (Object (insert_all patch_obj root)))
                | _ \<Rightarrow> jl_to_string jl v)))"

section \<open>The contract of execution\<close>

definition workflow_contract_error :: "ustring \<Rightarrow> Value" where
  "workflow_contract_error summary =
     Object (obj_of [(lit ''type'', String (lit ''workflow_execute_do_contract_error'')), (lit ''human_summary'', String summary)])"

definition node_entry :: "Value \<Rightarrow> (Value, Value \<times> ustring) result" where
  "node_entry node =
     (case and_then (get_key node (lit ''id'')) as_str of
        Some i \<Rightarrow> Inr (node, i)
      | None \<Rightarrow> Inl (workflow_contract_error (lit ''Do '' @ [38454, 27573] @ lit '' nodes '' @ [25968, 32452, 20013, 30340, 27599, 20010] @ lit '' node '' @ [37117, 24517, 39035, 26377, 23383, 31526, 20018] @ lit '' id'')))"

definition collect_workflow_execute_nodes :: "Value \<Rightarrow> (Value, ustring list \<times> (Value \<times> ustring) list) result" where
  "collect_workflow_execute_nodes nodes_v =
     (case nodes_v of
        Array arr \<Rightarrow>
          if arr = [] then Inl (workflow_contract_error (lit ''Do '' @ [38454, 27573] @ lit '' workflow.nodes '' @ [19981, 33021, 20026, 31354]))
          else bind_result (map_result node_entry arr) (\<lambda>entries. Inr (map snd entries, entries))
      | Object obj \<Rightarrow>
          if obj = [] then Inl (workflow_contract_error (lit ''Do '' @ [38454, 27573] @ lit '' workflow.nodes '' @ [23545, 35937, 19981, 33021, 20026, 31354]))
          else Inr (map fst obj, map (\<lambda>(i, node). (node, i)) obj)
      | _ \<Rightarrow> Inl (workflow_contract_error (lit ''Do '' @ [38454, 27573] @ lit '' workflow.nodes '' @ [24517, 39035, 26159, 25968, 32452, 25110, 23545, 35937])))"

definition workflow_node_deps_values :: "json_object \<Rightarrow> ustring \<Rightarrow> (Value, Value list) result" where
  "workflow_node_deps_values node_obj i =
     (case map_of node_obj (lit ''deps'') of
        None \<Rightarrow> Inr []
      | Some dv \<Rightarrow> ok_or (workflow_contract_error (lit ''node '' @ i @ (lit '' '' @ [30340] @ lit '' deps '' @ [24517, 39035, 26159, 25968, 32452]))) (as_array dv))"

fun validate_workflow_node_deps :: "Value list \<Rightarrow> ustring \<Rightarrow> ustring list \<Rightarrow> (Value, unit) result" where
  "validate_workflow_node_deps [] i node_ids = Inr ()"
| "validate_workflow_node_deps (dep # deps) i node_ids =
     (case as_str dep of
        None \<Rightarrow> Inl (workflow_contract_error (lit ''node '' @ i @ (lit '' '' @ [30340] @ lit '' deps '' @ [20803, 32032, 24517, 39035, 26159, 23383, 31526, 20018])))
      | Some dep_id \<Rightarrow>
          if dep_id \<notin> set node_ids
          then Inl (workflow_contract_error (lit ''node '' @ i @ (lit '' '' @ [30340] @ lit '' deps '' @ [24341, 29992, 20102, 26410, 30693, 33410, 28857] @ lit '' '') @ dep_id))
          else validate_workflow_node_deps deps i node_ids)"

definition workflow_node_tool_name :: "json_object \<Rightarrow> ustring" where
  "workflow_node_tool_name node_obj =
     unwrap_or (and_then (or_option (map_of node_obj (lit ''tool_name'')) (map_of node_obj (lit ''tool''))) as_str) []"

definition validate_one_workflow_node_contract :: "Value \<Rightarrow> ustring \<Rightarrow> ustring list \<Rightarrow> (Value, unit) result" where
  "validate_one_workflow_node_contract node i node_ids =
     bind_result (ok_or (workflow_contract_error (lit ''node '' @ i @ (lit '' '' @ [24517, 39035, 26159, 23545, 35937]))) (as_object node)) (\<lambda>node_obj.
     bind_result (workflow_node_deps_values node_obj i) (\<lambda>deps.
     bind_result (validate_workflow_node_deps deps i node_ids) (\<lambda>_.
       if blank (workflow_node_tool_name node_obj)
       then Inl (workflow_contract_error (lit ''node '' @ i @ (lit '' '' @ [32570, 23569] @ lit '' tool_name'' @ [65288, 25110] @ lit '' tool'' @ [65289])))
       else Inr ())))"

definition validate_workflow_execute_do_contract :: "json_lib \<Rightarrow> ustring \<Rightarrow> (Value, unit) result" where
  "validate_workflow_execute_do_contract jl args_json =
     (case jl_from_str jl args_json of
        Inl _ \<Rightarrow> Inl (workflow_contract_error (lit ''workflow_execute_do_contract'' @ [65306, 21442, 25968, 19981, 26159, 21512, 27861] @ lit '' JSON''))
      | Inr v \<Rightarrow>
          (let wf = workflow_value v in
           if unwrap_or (and_then (get_key wf (lit ''validate_only'')) as_bool) False then Inr ()
           else case get_key wf (lit ''nodes'') of
                  None \<Rightarrow> Inl (workflow_contract_error (lit ''Do '' @ [38454, 27573, 24517, 39035, 25552, 20379] @ lit '' workflow.nodes'' @ [65288, 19981, 33021, 20026, 31354, 65289]))
                | Some nodes_v \<Rightarrow>
                    bind_result (collect_workflow_execute_nodes nodes_v) (\<lambda>(node_ids, entries).
                    bind_result (map_result (\<lambda>(node, i). validate_one_workflow_node_contract node i node_ids) entries) (\<lambda>_. Inr ()))))"

section \<open>Lemmas\<close>

subsection \<open>Sessions\<close>

text \<open>The rounds a session may still execute, the closing call included.\<close>

definition calls_left :: "WorkflowReflectionController \<Rightarrow> nat" where
  "calls_left c = (if locked c then 0 else max_rounds c - round_no c + 1)"

text \<open>A run of the controller over the arguments of successive calls: the decisions it takes.\<close>

fun decide_all :: "json_lib \<Rightarrow> WorkflowReflectionController \<Rightarrow> ustring list \<Rightarrow> WorkflowReflectionDecision list" where
  "decide_all jl c [] = []"
| "decide_all jl c (a # as) = (case decide jl a c of (d, c') \<Rightarrow> d # decide_all jl c' as)"

definition executed :: "WorkflowReflectionDecision list \<Rightarrow> nat" where
  "executed ds = length (filter wrd_execute ds)"

lemma decide_active:
  assumes "mode_active c"
  shows "mode_active (snd (decide jl a c))"
    and "max_rounds (snd (decide jl a c)) = max_rounds c"
    and "(if wrd_execute (fst (decide jl a c)) then 1 else 0) + calls_left (snd (decide jl a c)) \<le> calls_left c"
  using assms
  by (auto simp: decide_def maybe_activate_reflection_session_def reflection_fsm_phase_def decide_while_reflecting_def calls_left_def Let_def
      decision_stop_def decision_max_rounds_stop_def decision_locked_stop_def decision_execute_no_extras_def)

lemma executed_le_calls_left: "mode_active c \<Longrightarrow> executed (decide_all jl c as) \<le> calls_left c"
proof (induction as arbitrary: c)
  case (Cons a as)
  obtain d c' where d: "decide jl a c = (d, c')" by (cases "decide jl a c")
  have c': "mode_active c'" "(if wrd_execute d then 1 else 0) + calls_left c' \<le> calls_left c"
    using decide_active [OF Cons.prems, of jl a] by (simp_all add: d)
  show ?case using Cons.IH [OF c'(1)] c'(2) by (auto simp: d executed_def split: if_splits)
qed (simp add: executed_def)

lemma decide_activating:
  assumes "\<not> mode_active c" and "rc_enabled (parse_control jl c a)"
  shows "decide jl a c = decide_while_reflecting (parse_control jl c a)
           (c\<lparr>mode_active := True, locked := False, max_rounds := rc_max_rounds (parse_control jl c a), round_no := 0\<rparr>)"
  using assms by (simp add: decide_def Let_def maybe_activate_reflection_session_def reflection_fsm_phase_def)

lemma parse_control_default: "default_max_rounds c = default_max_rounds d \<Longrightarrow> parse_control jl c a = parse_control jl d a"
  by (simp only: parse_control_def)

lemma rc_max_rounds_pos: "0 < default_max_rounds c \<Longrightarrow> 0 < rc_max_rounds (parse_control jl c a)"
  by (auto simp: parse_control_def Let_def split: sum.splits option.splits)

lemma get_key_insert_all [simp]: "map_of (insert_all [(k, v)] m) k = Some v"
  by (simp add: insert_all_def)

lemma patched_validate_only:
  assumes "jl_from_str jl args = Inr (Object root)" and printed: "\<And>v. jl_from_str jl (jl_to_string jl v) = Inr v"
    and "\<forall>w. map_of root (lit ''workflow'') = Some w \<longrightarrow> as_object w \<noteq> None"
  shows "\<exists>v. jl_from_str jl (apply_workflow_patch jl args (Object [(lit ''validate_only'', Bool b)])) = Inr v \<and>
           and_then (get_key (workflow_value v) (lit ''validate_only'')) as_bool = Some b"
proof (cases "map_of root (lit ''workflow'')")
  case None
  then show ?thesis using assms(1) by (simp add: apply_workflow_patch_def printed workflow_value_def insert_all_def)
next
  case (Some w)
  then obtain t where "map_of root (lit ''workflow'') = Some (Object t)" using assms(3) by (cases w) auto
  then show ?thesis using assms(1) by (simp add: apply_workflow_patch_def printed workflow_value_def insert_all_def)
qed

subsection \<open>The contract\<close>

definition node_meets_contract :: "ustring list \<Rightarrow> Value \<Rightarrow> bool" where
  "node_meets_contract node_ids node \<longleftrightarrow>
     (\<exists>m. node = Object m \<and> \<not> blank (workflow_node_tool_name m) \<and>
        (\<forall>dv. map_of m (lit ''deps'') = Some dv \<longrightarrow>
           (\<exists>deps. dv = Array deps \<and> (\<forall>dep \<in> set deps. \<exists>i \<in> set node_ids. dep = String i))))"

lemma as_str_Some: "as_str v = Some s \<longleftrightarrow> v = String s"
  by (cases v) auto

lemma as_array_Some: "as_array v = Some xs \<longleftrightarrow> v = Array xs"
  by (cases v) auto

lemma as_object_Some: "as_object v = Some m \<longleftrightarrow> v = Object m"
  by (cases v) auto

lemma deps_Inr:
  "validate_workflow_node_deps deps i node_ids = Inr u \<longleftrightarrow> (\<forall>dep \<in> set deps. \<exists>j \<in> set node_ids. dep = String j)"
proof (induction deps)
  case (Cons dep deps)
  then show ?case by (cases dep) auto
qed simp

lemma one_node_Inr: "validate_one_workflow_node_contract node i node_ids = Inr u \<longleftrightarrow> node_meets_contract node_ids node"
  by (auto simp: validate_one_workflow_node_contract_def bind_result_Inr as_object_Some workflow_node_deps_values_def as_array_Some deps_Inr
      node_meets_contract_def split: option.splits)

lemma map_result_unit_Inr: "(\<exists>us. map_result f xs = Inr us) \<longleftrightarrow> (\<forall>x \<in> set xs. \<exists>u. f x = Inr u)"
  by (induction xs) (auto simp: bind_result_Inr)

text \<open>The nodes of a workflow and their ids, whichever of the two notations it uses.\<close>

definition listed_nodes :: "Value \<Rightarrow> (Value \<times> ustring) list option" where
  "listed_nodes nodes_v =
     (case nodes_v of
        Array arr \<Rightarrow> if list_all (\<lambda>n. and_then (get_key n (lit ''id'')) as_str \<noteq> None) arr
                     then Some (map (\<lambda>n. (n, the (and_then (get_key n (lit ''id'')) as_str))) arr) else None
      | Object obj \<Rightarrow> Some (map (\<lambda>(i, node). (node, i)) obj)
      | _ \<Rightarrow> None)"

lemma node_entries_Inr:
  "map_result node_entry arr = Inr entries \<longleftrightarrow>
     list_all (\<lambda>n. and_then (get_key n (lit ''id'')) as_str \<noteq> None) arr \<and>
     entries = map (\<lambda>n. (n, the (and_then (get_key n (lit ''id'')) as_str))) arr"
  by (induction arr arbitrary: entries) (auto simp: bind_result_Inr node_entry_def split: option.splits)

lemma collect_Inr:
  "collect_workflow_execute_nodes nodes_v = Inr (ids, entries) \<longleftrightarrow>
     listed_nodes nodes_v = Some entries \<and> entries \<noteq> [] \<and> ids = map snd entries"
  by (cases nodes_v)
    (auto simp: collect_workflow_execute_nodes_def listed_nodes_def bind_result_Inr node_entries_Inr comp_def case_prod_beta)

section \<open>Properties\<close>

text \<open>
  C17: A reflection session is bounded and closes for good.  From the call that opens a session, however the model calls the
  workflow tool afterwards, at most the session's number of rounds plus one calls are executed; and a closed session
  executes nothing any more.
\<close>

theorem reflection_session_bounded:
  assumes "\<not> mode_active c" and "rc_enabled (parse_control jl c a)"
  shows "executed (decide_all jl c (a # as)) \<le> rc_max_rounds (parse_control jl c a) + 1 \<and>
         (mode_active d \<and> locked d \<longrightarrow> executed (decide_all jl d as) = 0)"
proof -
  let ?c = "c\<lparr>mode_active := True, locked := False, max_rounds := rc_max_rounds (parse_control jl c a), round_no := 0\<rparr>"
  have "parse_control jl ?c a = parse_control jl c a" by (rule parse_control_default) simp
  then have "decide jl a ?c = decide jl a c"
    unfolding decide_activating [OF assms]
    by (simp add: decide_def Let_def maybe_activate_reflection_session_def reflection_fsm_phase_def)
  then have "decide_all jl ?c (a # as) = decide_all jl c (a # as)" by simp
  with executed_le_calls_left [of ?c jl "a # as"]
  have "executed (decide_all jl c (a # as)) \<le> rc_max_rounds (parse_control jl c a) + 1" by (simp add: calls_left_def)
  moreover have "mode_active d \<and> locked d \<longrightarrow> executed (decide_all jl d as) = 0"
    using executed_le_calls_left [of d jl as] by (auto simp: calls_left_def)
  ultimately show ?thesis by blast
qed

definition always_reflecting :: json_lib where
  "always_reflecting = \<lparr>jl_from_str = (\<lambda>s. Inr (Object [(lit ''reflection'', Object [(lit ''enabled'', Bool True)])])), jl_to_string = (\<lambda>v. [])\<rparr>"

theorem reflection_session_bounded_witness:
  "executed (decide_all always_reflecting (new_controller 2) [[], [], [], []]) \<le> 3"
  using reflection_session_bounded [THEN conjunct1, of "new_controller 2" always_reflecting "[]" "[[], [], []]"]
  by (simp add: new_controller_def parse_control_def always_reflecting_def workflow_value_def Let_def)

text \<open>
  The contract of execution is exact.  A call that is not validate-only passes exactly when its workflow lists nodes with
  ids, at least one, and every node is an object with a tool name whose dependencies are ids of listed nodes.
\<close>

theorem do_contract_exact:
  "validate_workflow_execute_do_contract jl args = Inr () \<longleftrightarrow>
     (\<exists>v. jl_from_str jl args = Inr v \<and>
        (and_then (get_key (workflow_value v) (lit ''validate_only'')) as_bool = Some True \<or>
         (\<exists>nodes_v entries. get_key (workflow_value v) (lit ''nodes'') = Some nodes_v \<and> listed_nodes nodes_v = Some entries \<and> entries \<noteq> [] \<and>
            list_all (\<lambda>e. node_meets_contract (map snd entries) (fst e)) entries)))"
proof (cases "jl_from_str jl args")
  case (Inr v)
  have vo: "unwrap_or (and_then (get_key (workflow_value v) (lit ''validate_only'')) as_bool) False \<longleftrightarrow>
      and_then (get_key (workflow_value v) (lit ''validate_only'')) as_bool = Some True"
    by (auto split: option.splits)
  have "(\<exists>us. map_result (\<lambda>(node, i). validate_one_workflow_node_contract node i ids) es = Inr us) \<longleftrightarrow>
      list_all (\<lambda>e. node_meets_contract ids (fst e)) es" for ids es
    by (simp add: map_result_unit_Inr case_prod_beta one_node_Inr list_all_iff)
  then show ?thesis using Inr
    by (simp add: validate_workflow_execute_do_contract_def Let_def vo) (auto simp: bind_result_Inr collect_Inr split: option.splits)
qed (simp add: validate_workflow_execute_do_contract_def)

end
