(* ===== verification/Vendor_Messages.thy ===== *)
theory Vendor_Messages
  imports Message
begin

text \<open>
  From a stored conversation to the messages of a request (\<^verbatim>\<open>src/cm_types/message.rs\<close>,
  \<^verbatim>\<open>src/cm_types/tool_response_completion.rs\<close>, \<^verbatim>\<open>src/cm_llm/vendor_messages.rs\<close>): marks and reasoning are stripped,
  missing tool results are filled in, adjacent assistant messages merged, empty ones removed,
  system messages folded into the next user message where the vendor needs it, and the arguments of
  tool calls sanitised.

  The loops over vectors with an index are functions on lists; the one that steps back after a merge
  (\<^verbatim>\<open>merge_all_consecutive_assistant_messages_in_vec\<close>) keeps its index and has a termination proof.

  Shown here: the request obeys the rules that upstream servers enforce, whatever the conversation looks like;
  the merge loop computes the one-pass collapse; and nothing but assistant messages is changed by the normalisation.
\<close>

section \<open>Roles\<close>

definition is_assistant_role :: "ustring \<Rightarrow> bool" where
  "is_assistant_role role = eq_ignore_ascii_case (trim role) (lit ''assistant'')"

definition is_tool_role :: "ustring \<Rightarrow> bool" where
  "is_tool_role role = eq_ignore_ascii_case (trim role) (lit ''tool'')"

definition is_user_role :: "ustring \<Rightarrow> bool" where
  "is_user_role role = eq_ignore_ascii_case (trim role) (lit ''user'')"

definition role_is_system_for_vendor :: "ustring \<Rightarrow> bool" where
  "role_is_system_for_vendor role = eq_ignore_ascii_case (trim role) (lit ''system'')"

definition tool_calls_of :: "Message \<Rightarrow> ToolCall list" where
  "tool_calls_of m = (case msg_tool_calls m of Some cs \<Rightarrow> cs | None \<Rightarrow> [])"

definition assistant_has_non_empty_tool_calls :: "Message \<Rightarrow> bool" where
  "assistant_has_non_empty_tool_calls m = (case msg_tool_calls m of Some cs \<Rightarrow> cs \<noteq> [] | None \<Rightarrow> False)"

section \<open>Stripping\<close>

definition detail_text :: "Value \<Rightarrow> ustring" where
  "detail_text d = (case and_then (as_object d) (\<lambda>obj. map_of obj (lit ''text'')) of Some (String t) \<Rightarrow> t | _ \<Rightarrow> [])"

definition merge_reasoning_details_into_reasoning_content :: "Message \<Rightarrow> Message" where
  "merge_reasoning_details_into_reasoning_content msg =
     (case msg_reasoning_details msg of
        None \<Rightarrow> msg
      | Some details \<Rightarrow>
          (let msg1 = msg\<lparr>msg_reasoning_details := None\<rparr>; from_details = concat (map detail_text details) in
           if from_details = [] then msg1
           else
             (let replace = (case msg_reasoning_content msg of
                    None \<Rightarrow> True
                  | Some rc \<Rightarrow> rc = [] \<or> starts_with from_details rc \<and> utf8_len from_details \<ge> utf8_len rc) in
              if replace then msg1\<lparr>msg_reasoning_content := Some from_details\<rparr> else msg1)))"

definition message_clone_stripping_reasoning_for_api :: "Message \<Rightarrow> bool \<Rightarrow> bool \<Rightarrow> Message" where
  "message_clone_stripping_reasoning_for_api m preserve_kimi preserve_deepseek =
     (let is_asst = is_assistant_role (msg_role m);
          tc = assistant_has_non_empty_tool_calls m;
          keep = preserve_kimi \<and> is_asst \<and> tc \<or> preserve_deepseek \<and> is_asst \<and> tc in
      if keep
      then (let x = (merge_reasoning_details_into_reasoning_content m)\<lparr>msg_reasoning_details := None\<rparr> in
            if msg_reasoning_content x = None then x\<lparr>msg_reasoning_content := Some []\<rparr> else x)
      else if msg_reasoning_content m = None \<and> msg_reasoning_details m = None then m
      else m\<lparr>msg_reasoning_content := None, msg_reasoning_details := None\<rparr>)"

fun strip_skill_in_parts :: "Value list \<Rightarrow> Value list" where
  "strip_skill_in_parts [] = []"
| "strip_skill_in_parts (p # ps) =
     (case p of
        Object obj \<Rightarrow>
          if and_then (map_of obj (lit ''type'')) as_str \<noteq> Some (lit ''text'') then p # strip_skill_in_parts ps
          else (case map_of obj (lit ''text'') of
                  Some (String t) \<Rightarrow>
                    Object (obj_insert (lit ''text'') (String (strip_explicit_skill_slash_prefix_for_model t)) obj) # ps
                | _ \<Rightarrow> p # strip_skill_in_parts ps)
      | _ \<Rightarrow> p # strip_skill_in_parts ps)"

definition strip_user_skill_slash_in_message_for_api :: "Message \<Rightarrow> Message" where
  "strip_user_skill_slash_in_message_for_api m =
     (if \<not> is_user_role (msg_role m) \<or> is_server_injected_user_message m then m
      else case msg_content m of
        Some (Text s) \<Rightarrow> m\<lparr>msg_content := Some (Text (strip_explicit_skill_slash_prefix_for_model s))\<rparr>
      | Some (Parts parts) \<Rightarrow> m\<lparr>msg_content := Some (Parts (strip_skill_in_parts parts))\<rparr>
      | None \<Rightarrow> m)"

definition messages_for_api_stripping_reasoning_skip_ui_separators :: "Message list \<Rightarrow> bool \<Rightarrow> bool \<Rightarrow> Message list" where
  "messages_for_api_stripping_reasoning_skip_ui_separators messages preserve_kimi preserve_deepseek =
     map (\<lambda>m. strip_user_skill_slash_in_message_for_api
            (message_clone_stripping_reasoning_for_api m preserve_kimi preserve_deepseek))
       (filter (\<lambda>m. \<not> is_message_excluded_from_llm_context_except_memory m \<and> \<not> is_long_term_memory_injection m \<and>
          \<not> is_workspace_changelist_injection m) messages)"

section \<open>Missing tool results\<close>

definition contiguous_tool_response_ids :: "Message list \<Rightarrow> nat \<Rightarrow> ustring list \<times> nat" where
  "contiguous_tool_response_ids messages start =
     (let tools = takeWhile (\<lambda>m. is_tool_role (msg_role m)) (drop start messages) in
      (List.map_filter msg_tool_call_id tools, start + length tools))"

definition tool_placeholder_message :: "ustring \<Rightarrow> ustring \<Rightarrow> ustring \<Rightarrow> Message" where
  "tool_placeholder_message tid tool_name prefix =
     tool_result tid (prefix @ [65288, 24037, 20855, 65306] @ tool_name @ [65289])"

text \<open>The loop: after an assistant with calls it continues behind the tool messages, old and new.\<close>

function complete_missing_tool_responses :: "Message list \<Rightarrow> ustring \<Rightarrow> Message list \<times> nat" where
  "complete_missing_tool_responses [] prefix = ([], 0)"
| "complete_missing_tool_responses (m # ms) prefix =
     (if \<not> is_assistant_role (msg_role m) \<or> \<not> assistant_has_non_empty_tool_calls m
      then (case complete_missing_tool_responses ms prefix of (out, added) \<Rightarrow> (m # out, added))
      else
        (let calls = tool_calls_of m;
             (responded, insert_at) = contiguous_tool_response_ids ms 0;
             placeholders = map (\<lambda>c. tool_placeholder_message (call_id c) (fn_name (call_function c)) prefix)
               (filter (\<lambda>c. \<not> list_ex (\<lambda>i. i = call_id c) responded) calls) in
         case complete_missing_tool_responses (drop insert_at ms) prefix of
           (out, added) \<Rightarrow> (m # take insert_at ms @ placeholders @ out, length placeholders + added)))"
  by pat_completeness auto
termination
  by (relation "measure (\<lambda>(ms, p). length ms)") (auto simp: contiguous_tool_response_ids_def)

section \<open>Merging assistants\<close>

definition trimmed_text :: "Message \<Rightarrow> ustring" where
  "trimmed_text m = (case message_content_as_str (msg_content m) of Some s \<Rightarrow> trim s | None \<Rightarrow> [])"

definition merge_adjacent_assistant_text :: "Message \<Rightarrow> Message \<Rightarrow> Message" where
  "merge_adjacent_assistant_text into from =
     (let a = trimmed_text into; b = trimmed_text from in
      into\<lparr>msg_content :=
        (if a = [] \<and> b = [] then None
         else if b = [] then msg_content into
         else if a = [] then msg_content from
         else if starts_with b a then msg_content from
         else if starts_with a b then msg_content into
         else Some (Text (a @ [10, 10] @ b)))\<rparr>)"

definition squash_consecutive_assistant_pair :: "Message \<Rightarrow> Message \<Rightarrow> Message" where
  "squash_consecutive_assistant_pair into from =
     (let from_has_tc = assistant_has_non_empty_tool_calls from;
          into_has_tc = assistant_has_non_empty_tool_calls into;
          from_empty = message_content_is_effectively_empty from in
      if into_has_tc \<and> \<not> from_has_tc then
        (if from_empty then into\<lparr>msg_tool_calls := None\<rparr>
         else merge_adjacent_assistant_text (into\<lparr>msg_tool_calls := None\<rparr>) from)
      else if into_has_tc \<and> from_has_tc then
        (let a = tool_calls_of into @ tool_calls_of from in
         (merge_adjacent_assistant_text into from)\<lparr>msg_tool_calls := (if a = [] then None else Some a)\<rparr>)
      else if \<not> into_has_tc \<and> from_has_tc then
        (merge_adjacent_assistant_text into from)\<lparr>msg_tool_calls := msg_tool_calls from\<rparr>
      else merge_adjacent_assistant_text into from)"

abbreviation is_asst :: "Message \<Rightarrow> bool" where
  "is_asst m \<equiv> is_assistant_role (msg_role m)"

definition merge_pair :: "Message \<Rightarrow> Message \<Rightarrow> Message" where
  "merge_pair m next = squash_consecutive_assistant_pair (m\<lparr>msg_role := lit ''assistant''\<rparr>) next"

text \<open>The inner \<^verbatim>\<open>while\<close>: the vector, the index and \<^verbatim>\<open>merged_any\<close>.\<close>

function merge_pass :: "Message list \<Rightarrow> nat \<Rightarrow> bool \<Rightarrow> Message list \<times> bool" where
  "merge_pass out i merged_any =
     (if i + 1 < length out then
        if \<not> (is_asst (out ! i) \<and> is_asst (out ! (i + 1))) then merge_pass out (i + 1) merged_any
        else merge_pass (take i out @ merge_pair (out ! i) (out ! (i + 1)) # drop (i + 2) out) (i - 1) True
      else (out, merged_any))"
  by pat_completeness auto
termination
  by (relation "measure (\<lambda>(out, i, b). 2 * length out - i)") auto

declare merge_pass.simps [simp del]

lemma merge_pass_length:
  "length (fst (merge_pass out i b)) \<le> length out \<and>
   (snd (merge_pass out i b) \<and> \<not> b \<longrightarrow> length (fst (merge_pass out i b)) < length out)"
proof (induction out i b rule: merge_pass.induct)
  case (1 out i b)
  note eq = merge_pass.simps [of out i b]
  consider "\<not> i + 1 < length out" | "i + 1 < length out" "\<not> (is_asst (out ! i) \<and> is_asst (out ! (i + 1)))"
    | "i + 1 < length out" "is_asst (out ! i) \<and> is_asst (out ! (i + 1))" by blast
  then show ?case
  proof cases
    case 1
    then show ?thesis by (simp add: eq)
  next
    case 2
    then have e: "merge_pass out i b = merge_pass out (i + 1) b" using eq by simp
    show ?thesis unfolding e using "1.IH"(1) 2 by blast
  next
    case 3
    let ?out = "take i out @ merge_pair (out ! i) (out ! (i + 1)) # drop (i + 2) out"
    have e: "merge_pass out i b = merge_pass ?out (i - 1) True" using 3 eq by simp
    have "length (fst (merge_pass ?out (i - 1) True)) \<le> length ?out" using "1.IH"(2) 3 by blast
    then show ?thesis unfolding e using 3(1) by auto
  qed
qed

lemma merge_pass_shrinks: "(out', True) = merge_pass out 0 False \<Longrightarrow> length out' < length out"
  using merge_pass_length [of out 0 False] by (metis fst_conv snd_conv)

function merge_all_consecutive_assistant_messages_in_vec :: "Message list \<Rightarrow> Message list" where
  "merge_all_consecutive_assistant_messages_in_vec out =
     (case merge_pass out 0 False of
        (out', merged_any) \<Rightarrow> if merged_any then merge_all_consecutive_assistant_messages_in_vec out' else out')"
  by pat_completeness auto
termination
  by (relation "measure length") (auto dest: merge_pass_shrinks)

declare merge_all_consecutive_assistant_messages_in_vec.simps [simp del]

definition merge_consecutive_assistants_in_place :: "Message list \<Rightarrow> Message list" where
  "merge_consecutive_assistants_in_place messages = merge_all_consecutive_assistant_messages_in_vec messages"

section \<open>Normalisation, folding and sanitising\<close>

definition assistant_lacks_openai_content_and_tool_calls :: "Message \<Rightarrow> bool" where
  "assistant_lacks_openai_content_and_tool_calls m =
     (if \<not> is_asst m then False
      else if assistant_has_non_empty_tool_calls m then False
      else case message_content_as_str (msg_content m) of
        Some s \<Rightarrow> blank s
      | None \<Rightarrow> message_content_is_effectively_empty m)"

definition remove_all_assistants_lacking_openai_content_or_tool_calls :: "Message list \<Rightarrow> Message list" where
  "remove_all_assistants_lacking_openai_content_or_tool_calls out =
     filter (\<lambda>m. \<not> assistant_lacks_openai_content_and_tool_calls m) out"

definition clear_last_tool_calls :: "Message list \<Rightarrow> Message list" where
  "clear_last_tool_calls out =
     (if out \<noteq> [] \<and> is_asst (last out) \<and> assistant_has_non_empty_tool_calls (last out)
      then butlast out @ [(last out)\<lparr>msg_tool_calls := None\<rparr>] else out)"

definition normalize_messages_for_openai_compatible_request :: "Message list \<Rightarrow> Message list" where
  "normalize_messages_for_openai_compatible_request msgs =
     remove_all_assistants_lacking_openai_content_or_tool_calls
       (clear_last_tool_calls
         (remove_all_assistants_lacking_openai_content_or_tool_calls
           (merge_all_consecutive_assistant_messages_in_vec msgs)))"

text \<open>The loop of the folding with its vector \<^verbatim>\<open>pending\<close>.\<close>

fun fold_system_loop :: "ustring list \<Rightarrow> Message list \<Rightarrow> Message list" where
  "fold_system_loop pending [] = (if pending \<noteq> [] then [user_only (join [10, 10] pending)] else [])"
| "fold_system_loop pending (m # ms) =
     (if role_is_system_for_vendor (msg_role m) then
        (case trim_nonempty (message_content_as_str (msg_content m)) of
           Some c \<Rightarrow> fold_system_loop (pending @ [c]) ms
         | None \<Rightarrow> fold_system_loop pending ms)
      else if is_user_role (msg_role m) then
        (if pending = [] then m # fold_system_loop [] ms
         else merge_system_text_prefix_into_user_content m (join [10, 10] pending) # fold_system_loop [] ms)
      else
        (if pending \<noteq> [] then [user_only (join [10, 10] pending)] else []) @ m # fold_system_loop [] ms)"

definition fold_system_messages_into_following_user :: "Message list \<Rightarrow> Message list" where
  "fold_system_messages_into_following_user msgs = fold_system_loop [] msgs"

definition sanitize_call :: "json_lib \<Rightarrow> ToolCall \<Rightarrow> ToolCall" where
  "sanitize_call jl tc =
     (let s = sanitize_tool_call_arguments_for_openai_compat jl (fn_arguments (call_function tc)) in
      if s = fn_arguments (call_function tc) then tc
      else tc\<lparr>call_function := (call_function tc)\<lparr>fn_arguments := s\<rparr>\<rparr>)"

definition sanitize_message :: "json_lib \<Rightarrow> Message \<Rightarrow> Message" where
  "sanitize_message jl m =
     (if \<not> is_asst m then m
      else case msg_tool_calls m of
        None \<Rightarrow> m
      | Some tcs \<Rightarrow> m\<lparr>msg_tool_calls := Some (map (sanitize_call jl) tcs)\<rparr>)"

definition sanitize_assistant_tool_call_arguments_for_vendor_in_place :: "json_lib \<Rightarrow> Message list \<Rightarrow> Message list" where
  "sanitize_assistant_tool_call_arguments_for_vendor_in_place jl msgs = map (sanitize_message jl) msgs"

definition VENDOR_MISSING_TOOL_RESULT_PLACEHOLDER :: ustring where
  "VENDOR_MISSING_TOOL_RESULT_PLACEHOLDER =
     [35813, 24037, 20855, 35843, 29992, 22312, 20250, 35805, 21382, 21490, 20013, 27809, 26377, 32467, 26524, 65288, 21487, 33021, 22240, 29983, 25104, 34987, 20013, 26029, 25110, 21382, 21490, 34987, 35009, 21098, 65289, 65292, 26410, 25191, 34892, 23436, 25104, 65292, 26080, 32467, 26524, 12290]"

definition normalize_stripped_messages_for_vendor_body :: "json_lib \<Rightarrow> Message list \<Rightarrow> bool \<Rightarrow> Message list" where
  "normalize_stripped_messages_for_vendor_body jl messages fold_system_into_user =
     (let messages1 = fst (complete_missing_tool_responses messages VENDOR_MISSING_TOOL_RESULT_PLACEHOLDER);
          v = normalize_messages_for_openai_compatible_request messages1;
          v1 = (if fold_system_into_user then fold_system_messages_into_following_user v else v) in
      sanitize_assistant_tool_call_arguments_for_vendor_in_place jl v1)"

definition conversation_messages_to_vendor_body :: "json_lib \<Rightarrow> Message list \<Rightarrow> bool \<Rightarrow> bool \<Rightarrow> bool \<Rightarrow> Message list" where
  "conversation_messages_to_vendor_body jl messages fold_system_into_user preserve_kimi preserve_deepseek =
     (let stripped = messages_for_api_stripping_reasoning_skip_ui_separators messages preserve_kimi preserve_deepseek;
          completed = fst (complete_missing_tool_responses stripped VENDOR_MISSING_TOOL_RESULT_PLACEHOLDER);
          v = normalize_messages_for_openai_compatible_request completed;
          v1 = (if fold_system_into_user then fold_system_messages_into_following_user v else v) in
      sanitize_assistant_tool_call_arguments_for_vendor_in_place jl v1)"

section \<open>Lemmas: the merge loop\<close>

text \<open>The reference: one pass from left to right.\<close>

fun collapse :: "Message list \<Rightarrow> Message list" where
  "collapse [] = []"
| "collapse [m] = [m]"
| "collapse (a # b # ms) =
     (if is_asst a \<and> is_asst b then collapse (merge_pair a b # ms) else a # collapse (b # ms))"

abbreviation apart :: "Message \<Rightarrow> Message \<Rightarrow> bool" where
  "apart a b \<equiv> \<not> (is_asst a \<and> is_asst b)"

lemma trim_assistant [simp]: "trim (lit ''assistant'') = lit ''assistant''"
  by (simp add: trim_id lit_Cons is_whitespace_def)

lemma merge_text_simps [simp]:
  "msg_role (merge_adjacent_assistant_text a b) = msg_role a"
  "msg_tool_calls (merge_adjacent_assistant_text a b) = msg_tool_calls a"
  by (simp_all add: merge_adjacent_assistant_text_def Let_def)

lemma merge_pair_asst [simp]: "is_asst (merge_pair a b)"
  by (simp add: merge_pair_def squash_consecutive_assistant_pair_def Let_def is_assistant_role_def eq_ignore_ascii_case_def)

lemma collapse_apart: "successively apart (collapse ms)"
proof -
  have "successively apart (collapse ms) \<and> (ms \<noteq> [] \<longrightarrow> collapse ms \<noteq> [] \<and> is_asst (hd (collapse ms)) = is_asst (hd ms))"
    by (induction ms rule: collapse.induct) (auto simp: successively_Cons)
  then show ?thesis by blast
qed

lemma collapse_fixed: "successively apart ms \<Longrightarrow> collapse ms = ms"
  by (induction ms rule: collapse.induct) (auto simp: successively_Cons)

lemma successively_snoc: "successively P (xs @ [x]) \<longleftrightarrow> successively P xs \<and> (xs \<noteq> [] \<longrightarrow> P (last xs) x)"
  by (auto simp: successively_append_iff)

lemma collapse_append:
  "successively apart (pre @ [a]) \<Longrightarrow> collapse (pre @ a # ms) = pre @ collapse (a # ms)"
proof (induction pre)
  case (Cons p pre)
  then show ?case by (cases pre) (auto simp: successively_Cons)
qed simp

text \<open>The pass never leaves a mergeable pair before its index.\<close>

lemma merge_pass_collapse:
  "successively apart (take (i + 1) out) \<Longrightarrow> i < length out \<or> out = [] \<Longrightarrow> fst (merge_pass out i b) = collapse out"
proof (induction out i b rule: merge_pass.induct)
  case (1 out i b)
  note eq = merge_pass.simps [of out i b]
  show ?case
  proof (cases "i + 1 < length out")
    case False
    then have "take (i + 1) out = out" by simp
    then show ?thesis using False 1 by (simp add: eq collapse_fixed)
  next
    case True
    then have split: "out = take i out @ out ! i # out ! (i + 1) # drop (i + 2) out"
      by (simp add: Cons_nth_drop_Suc)
    have pre: "successively apart (take i out @ [out ! i])" using "1.prems" True by (simp add: take_Suc_conv_app_nth)
    show ?thesis
    proof (cases "is_asst (out ! i) \<and> is_asst (out ! (i + 1))")
      case False
      have "take (i + 1 + 1) out = take (i + 1) out @ [out ! (i + 1)]" using True by (simp add: take_Suc_conv_app_nth)
      moreover have "last (take (i + 1) out) = out ! i" using True by (simp add: take_Suc_conv_app_nth)
      ultimately have "successively apart (take (i + 1 + 1) out)" using "1.prems"(1) False True by (simp add: successively_snoc)
      then show ?thesis using "1.IH"(1) True False by (simp add: eq)
    next
      case merge: True
      let ?out = "take i out @ merge_pair (out ! i) (out ! (i + 1)) # drop (i + 2) out"
      have "take (i - 1 + 1) ?out = take (i - 1 + 1) (take i out @ [merge_pair (out ! i) (out ! (i + 1))])"
        using True by (cases i) simp_all
      moreover have "successively apart (take i out @ [merge_pair (out ! i) (out ! (i + 1))])"
        using pre merge by (auto simp: successively_snoc)
      ultimately have ok: "successively apart (take (i - 1 + 1) ?out)"
        by (metis append_take_drop_id successively_append_iff)
      have "collapse out = collapse ?out"
        using collapse_append [OF pre] merge split pre
          collapse_append [of "take i out" "merge_pair (out ! i) (out ! (i + 1))" "drop (i + 2) out"]
          \<open>successively apart (take i out @ [merge_pair (out ! i) (out ! (i + 1))])\<close>
        by (metis collapse.simps(3))
      then show ?thesis using "1.IH"(2) True merge ok by (simp add: eq)
    qed
  qed
qed

lemma merge_all_eq_collapse: "merge_all_consecutive_assistant_messages_in_vec out = collapse out"
proof (induction out rule: merge_all_consecutive_assistant_messages_in_vec.induct)
  case (1 out)
  obtain out' m where p: "merge_pass out 0 False = (out', m)" by fastforce
  have out': "out' = collapse out"
  proof -
    have "successively apart (take (0 + 1) out)" by (cases out) simp_all
    then show ?thesis using merge_pass_collapse [of 0 out False] p by auto
  qed
  moreover have "collapse (collapse out) = collapse out" by (rule collapse_fixed [OF collapse_apart])
  ultimately show ?case
    using 1 p by (subst merge_all_consecutive_assistant_messages_in_vec.simps) auto
qed

section \<open>Lemmas: legality\<close>

text \<open>Every call of an assistant is answered by one of the tool messages that directly follow it.\<close>

abbreviation is_tool :: "Message \<Rightarrow> bool" where
  "is_tool m \<equiv> is_tool_role (msg_role m)"

fun calls_answered :: "Message list \<Rightarrow> bool" where
  "calls_answered [] = True"
| "calls_answered (m # ms) \<longleftrightarrow>
     (is_asst m \<longrightarrow> set (map call_id (tool_calls_of m)) \<subseteq> set (fst (contiguous_tool_response_ids ms 0))) \<and> calls_answered ms"

lemma role_exclusive:
  "is_assistant_role r \<Longrightarrow> \<not> is_tool_role r" "is_assistant_role r \<Longrightarrow> \<not> is_user_role r"
  "is_assistant_role r \<Longrightarrow> \<not> role_is_system_for_vendor r" "is_tool_role r \<Longrightarrow> \<not> is_user_role r"
  "is_tool_role r \<Longrightarrow> \<not> role_is_system_for_vendor r" "is_user_role r \<Longrightarrow> \<not> role_is_system_for_vendor r"
proof -
  have low: "to_ascii_lowercase (lit ''assistant'') = lit ''assistant''" "to_ascii_lowercase (lit ''tool'') = lit ''tool''"
    "to_ascii_lowercase (lit ''user'') = lit ''user''" "to_ascii_lowercase (lit ''system'') = lit ''system''"
    by (simp_all add: to_ascii_lowercase_def lit_Cons)
  show "is_assistant_role r \<Longrightarrow> \<not> is_tool_role r" "is_assistant_role r \<Longrightarrow> \<not> is_user_role r"
    "is_assistant_role r \<Longrightarrow> \<not> role_is_system_for_vendor r" "is_tool_role r \<Longrightarrow> \<not> is_user_role r"
    "is_tool_role r \<Longrightarrow> \<not> role_is_system_for_vendor r" "is_user_role r \<Longrightarrow> \<not> role_is_system_for_vendor r"
    by (simp_all add: is_assistant_role_def is_tool_role_def is_user_role_def role_is_system_for_vendor_def
        eq_ignore_ascii_case_def low)
qed

lemma has_calls_iff: "assistant_has_non_empty_tool_calls m \<longleftrightarrow> tool_calls_of m \<noteq> []"
  by (simp add: assistant_has_non_empty_tool_calls_def tool_calls_of_def split: option.split)

lemma responded_eq [simp]:
  "fst (contiguous_tool_response_ids ms 0) = List.map_filter msg_tool_call_id (takeWhile is_tool ms)"
  by (simp add: contiguous_tool_response_ids_def Let_def)

lemma placeholder_simps [simp]:
  "is_tool (tool_placeholder_message i n p)" "msg_tool_call_id (tool_placeholder_message i n p) = Some i"
  "\<not> is_asst (tool_placeholder_message i n p)"
  by (simp_all add: tool_placeholder_message_def tool_result_def plain_message_def is_tool_role_def is_assistant_role_def
      trim_id lit_Cons is_whitespace_def eq_ignore_ascii_case_def to_ascii_lowercase_def)

lemma calls_answered_tools: "list_all is_tool ts \<Longrightarrow> calls_answered (ts @ ms) \<longleftrightarrow> calls_answered ms"
  by (induction ts) (auto dest: role_exclusive)

lemma takeWhile_prefix: "list_all P ts \<Longrightarrow> takeWhile P (ts @ ms) = ts @ takeWhile P ms"
  by (induction ts) auto

lemma complete_answers: "calls_answered (fst (complete_missing_tool_responses ms prefix))"
proof (induction ms prefix rule: complete_missing_tool_responses.induct)
  case (2 m ms prefix)
  show ?case
  proof (cases "is_asst m \<and> assistant_has_non_empty_tool_calls m")
    case False
    then have "is_asst m \<longrightarrow> tool_calls_of m = []" by (simp add: has_calls_iff)
    then show ?thesis using False "2.IH"(1) by (auto simp: split: prod.split)
  next
    case True
    define tools where "tools = takeWhile is_tool ms"
    define ps where "ps = map (\<lambda>c. tool_placeholder_message (call_id c) (fn_name (call_function c)) prefix)
        (filter (\<lambda>c. \<not> list_ex (\<lambda>i. i = call_id c) (List.map_filter msg_tool_call_id tools)) (tool_calls_of m))"
    obtain out added where rest: "complete_missing_tool_responses (drop (length tools) ms) prefix = (out, added)" by fastforce
    have ids: "contiguous_tool_response_ids ms 0 = (List.map_filter msg_tool_call_id tools, length tools)"
      by (simp add: contiguous_tool_response_ids_def tools_def Let_def)
    have res: "fst (complete_missing_tool_responses (m # ms) prefix) = m # tools @ ps @ out"
      using True rest by (simp add: ids Let_def ps_def tools_def takeWhile_eq_take [symmetric])
    have tl: "list_all is_tool (tools @ ps)" by (auto simp: tools_def ps_def list_all_iff dest: set_takeWhileD)
    have "calls_answered out" using "2.IH"(2) True rest ids by (simp add: Let_def)
    then have "calls_answered (tools @ ps @ out)" using calls_answered_tools [OF tl] by simp
    moreover have "takeWhile is_tool (tools @ ps @ out) = tools @ ps @ takeWhile is_tool out"
      using takeWhile_prefix [OF tl] by simp
    moreover have "call_id c \<in> set (List.map_filter msg_tool_call_id (tools @ ps))" if "c \<in> set (tool_calls_of m)" for c
      using that by (cases "call_id c \<in> set (List.map_filter msg_tool_call_id tools)")
        (auto simp: ps_def map_filter_def list_ex_iff image_iff split: option.splits)
    ultimately show ?thesis unfolding res by (auto simp: map_filter_def)
  qed
qed simp

lemma merge_pair_calls:
  assumes "tool_calls_of a = []"
  shows "tool_calls_of (merge_pair a b) = tool_calls_of b"
proof -
  have a: "\<not> assistant_has_non_empty_tool_calls (a\<lparr>msg_role := r\<rparr>)" "tool_calls_of (a\<lparr>msg_role := r\<rparr>) = []" for r
    using assms by (simp_all add: has_calls_iff) (simp_all add: tool_calls_of_def)
  show ?thesis
  proof (cases "assistant_has_non_empty_tool_calls b")
    case True
    then show ?thesis using a by (simp add: merge_pair_def squash_consecutive_assistant_pair_def Let_def tool_calls_of_def)
  next
    case False
    then have "tool_calls_of b = []" by (simp add: has_calls_iff)
    then show ?thesis
      using a False assms by (simp add: merge_pair_def squash_consecutive_assistant_pair_def Let_def tool_calls_of_def)
  qed
qed

lemma collapse_tools: "takeWhile is_tool (collapse ms) = takeWhile is_tool ms"
proof (induction ms rule: collapse.induct)
  case (3 a b ms)
  then show ?case using role_exclusive(1) [of "msg_role a"] role_exclusive(1) [of "msg_role b"]
      role_exclusive(1) [of "msg_role (merge_pair a b)"]
    by (auto simp: merge_pair_asst)
qed simp_all

lemma collapse_answers: "calls_answered ms \<Longrightarrow> calls_answered (collapse ms)"
proof (induction ms rule: collapse.induct)
  case (3 a b ms)
  show ?case
  proof (cases "is_asst a \<and> is_asst b")
    case True
    then have "takeWhile is_tool (b # ms) = []" using role_exclusive(1) by simp
    then have "tool_calls_of a = []" using "3.prems" True by (auto simp: map_filter_def)
    then have "calls_answered (merge_pair a b # ms)" using "3.prems" merge_pair_calls [of a b] True by simp
    then show ?thesis using "3.IH"(1) True by simp
  next
    case False
    then show ?thesis using "3.IH"(2) "3.prems" collapse_tools [of "b # ms"] by auto
  qed
qed simp_all

lemma filter_tools:
  assumes "\<And>m. is_tool m \<Longrightarrow> Q m"
  shows "set (takeWhile is_tool ms) \<subseteq> set (takeWhile is_tool (filter Q ms))"
  using assms by (induction ms) auto

lemma map_filter_mono: "set xs \<subseteq> set ys \<Longrightarrow> set (List.map_filter f xs) \<subseteq> set (List.map_filter f ys)"
  by (auto simp: map_filter_def)

lemma filter_answers:
  assumes "\<And>m. is_tool m \<Longrightarrow> Q m"
  shows "calls_answered ms \<Longrightarrow> calls_answered (filter Q ms)"
proof (induction ms)
  case (Cons m ms)
  have "set (List.map_filter msg_tool_call_id (takeWhile is_tool ms)) \<subseteq>
      set (List.map_filter msg_tool_call_id (takeWhile is_tool (filter Q ms)))"
    by (rule map_filter_mono, rule filter_tools) (rule assms)
  then show ?case using Cons by auto
qed simp

lemma filter_apart_Cons:
  assumes "\<And>m. \<not> Q m \<Longrightarrow> is_asst m"
  shows "successively apart (x # ms) \<Longrightarrow> successively apart (x # filter Q ms)"
proof (induction ms arbitrary: x)
  case (Cons m ms)
  have tl: "successively apart (m # filter Q ms)" using Cons by simp
  show ?case
  proof (cases "Q m")
    case True
    then show ?thesis using Cons.prems tl by simp
  next
    case False
    then have "\<not> is_asst x" using assms [OF False] Cons.prems by simp
    moreover have "successively apart (filter Q ms)" using tl by (cases "filter Q ms") auto
    ultimately show ?thesis using False by (cases "filter Q ms") auto
  qed
qed simp

lemma filter_apart:
  assumes "\<And>m. \<not> Q m \<Longrightarrow> is_asst m" and "successively apart ms"
  shows "successively apart (filter Q ms)"
proof (cases ms)
  case (Cons m rest)
  then have "successively apart (m # filter Q rest)" using filter_apart_Cons [of Q m rest] assms by blast
  then show ?thesis using Cons by (cases "filter Q rest") auto
qed simp

lemma answered_last:
  assumes "calls_answered ms" "ms \<noteq> []" "is_asst (last ms)"
  shows "tool_calls_of (last ms) = []"
  using assms by (induction ms) (auto simp: map_filter_def split: if_splits)

lemma tool_not_lacking: "is_tool m \<Longrightarrow> \<not> assistant_lacks_openai_content_and_tool_calls m"
  using role_exclusive(1) by (auto simp: assistant_lacks_openai_content_and_tool_calls_def)

lemma lacking_asst: "\<not> \<not> assistant_lacks_openai_content_and_tool_calls m \<Longrightarrow> is_asst m"
  by (auto simp: assistant_lacks_openai_content_and_tool_calls_def split: if_splits)

lemma normalize_eq:
  assumes "calls_answered ms"
  shows "normalize_messages_for_openai_compatible_request ms =
    filter (\<lambda>m. \<not> assistant_lacks_openai_content_and_tool_calls m) (collapse ms)"
proof -
  let ?v = "filter (\<lambda>m. \<not> assistant_lacks_openai_content_and_tool_calls m) (collapse ms)"
  have "calls_answered ?v" by (rule filter_answers [OF tool_not_lacking collapse_answers [OF assms]])
  then have "clear_last_tool_calls ?v = ?v"
    using answered_last [of ?v] by (auto simp: clear_last_tool_calls_def has_calls_iff)
  then show ?thesis
    by (simp add: normalize_messages_for_openai_compatible_request_def merge_all_eq_collapse
        remove_all_assistants_lacking_openai_content_or_tool_calls_def)
qed


section \<open>Lemmas: folding and sanitising\<close>

abbreviation is_system :: "Message \<Rightarrow> bool" where
  "is_system m \<equiv> role_is_system_for_vendor (msg_role m)"

abbreviation has_text :: "Message \<Rightarrow> bool" where
  "has_text m \<equiv> trim_nonempty (message_content_as_str (msg_content m)) \<noteq> None"

lemma user_only_role [simp]:
  "is_user_role (msg_role (user_only t))" "\<not> is_tool (user_only t)" "\<not> is_asst (user_only t)" "\<not> is_system (user_only t)"
proof -
  show u: "is_user_role (msg_role (user_only t))"
    by (simp add: user_only_def plain_message_def is_user_role_def trim_id lit_Cons is_whitespace_def eq_ignore_ascii_case_def)
  show "\<not> is_tool (user_only t)" "\<not> is_asst (user_only t)" "\<not> is_system (user_only t)"
    using u role_exclusive by blast+
qed

lemma merge_system_role [simp]: "msg_role (merge_system_text_prefix_into_user_content m p) = msg_role m"
  by (simp add: merge_system_text_prefix_into_user_content_def Let_def
      split: option.split MessageContent.split list.split Value.split)

text \<open>What the folding puts out is an old message that is not a system message, or a user message.\<close>

lemma fold_members:
  "m \<in> set (fold_system_loop pending ms) \<Longrightarrow> (m \<in> set ms \<and> \<not> is_system m) \<or> is_user_role (msg_role m)"
  by (induction pending ms rule: fold_system_loop.induct) (auto split: if_splits option.splits)

lemma fold_tools: "set (takeWhile is_tool ms) \<subseteq> set (takeWhile is_tool (fold_system_loop [] ms))"
proof (induction ms)
  case (Cons m ms)
  then show ?case using role_exclusive(4,5) [of "msg_role m"] by auto
qed simp

lemma fold_answers: "calls_answered ms \<Longrightarrow> calls_answered (fold_system_loop pending ms)"
proof (induction pending ms rule: fold_system_loop.induct)
  case (2 pending m ms)
  have "set (List.map_filter msg_tool_call_id (takeWhile is_tool ms)) \<subseteq>
      set (List.map_filter msg_tool_call_id (takeWhile is_tool (fold_system_loop [] ms)))"
    by (rule map_filter_mono, rule fold_tools)
  then have asst: "calls_answered (m # fold_system_loop [] ms)" if "calls_answered (fold_system_loop [] ms)"
    using that "2.prems" by auto
  have user: "\<not> is_asst (merge_system_text_prefix_into_user_content m p)" if "is_user_role (msg_role m)" for p
    using that role_exclusive(2) by auto
  show ?case using 2 asst user by (auto split: option.split)
qed simp

lemma fold_apart:
  assumes "\<And>m. m \<in> set ms \<Longrightarrow> is_system m \<Longrightarrow> has_text m" and "successively apart ms"
  shows "successively apart (fold_system_loop pending ms) \<and>
    (fold_system_loop pending ms \<noteq> [] \<and> (pending \<noteq> [] \<or> \<not> is_asst (hd ms)) \<longrightarrow> \<not> is_asst (hd (fold_system_loop pending ms)))"
  using assms
proof (induction ms arbitrary: pending)
  case (Cons m ms)
  have ap: "successively apart ms" and hd: "ms = [] \<or> apart m (hd ms)"
    using Cons.prems(2) by (cases ms; simp)+
  have texts: "\<And>n. n \<in> set ms \<Longrightarrow> is_system n \<Longrightarrow> has_text n" using Cons.prems(1) by simp
  consider "is_system m" | "\<not> is_system m" "is_user_role (msg_role m)" | "\<not> is_system m" "\<not> is_user_role (msg_role m)" by blast
  then show ?case
  proof cases
    case 1
    then obtain c where "trim_nonempty (message_content_as_str (msg_content m)) = Some c"
      using Cons.prems(1) [of m] by auto
    then show ?thesis using 1 Cons.IH [OF texts ap, of "pending @ [c]"] by auto
  next
    case 2
    then have na: "\<not> is_asst m" using role_exclusive(2) by blast
    show ?thesis
      using 2 na Cons.IH [OF texts ap, of "[]"] by (auto simp: successively_Cons)
  next
    case 3
    let ?f = "fold_system_loop [] ms"
    have ih: "successively apart ?f \<and> (?f \<noteq> [] \<and> \<not> is_asst (hd ms) \<longrightarrow> \<not> is_asst (hd ?f))"
      using Cons.IH [OF texts ap, of "[]"] by auto
    have "ms = [] \<Longrightarrow> ?f = []" by simp
    then have "successively apart (m # ?f)" using ih hd by (auto simp: successively_Cons)
    then show ?thesis using 3 by (auto simp: successively_Cons)
  qed
qed simp

lemma sanitize_simps [simp]:
  "msg_role (sanitize_message jl m) = msg_role m" "msg_content (sanitize_message jl m) = msg_content m"
  "msg_tool_call_id (sanitize_message jl m) = msg_tool_call_id m"
  by (simp_all add: sanitize_message_def split: option.split)

lemma sanitize_call_id [simp]: "call_id (sanitize_call jl c) = call_id c"
  by (simp add: sanitize_call_def Let_def)

lemma sanitize_calls: "is_asst m \<Longrightarrow> tool_calls_of (sanitize_message jl m) = map (sanitize_call jl) (tool_calls_of m)"
  by (simp add: sanitize_message_def tool_calls_of_def split: option.split)

lemma sanitize_answers: "calls_answered (map (sanitize_message jl) ms) = calls_answered ms"
proof (induction ms)
  case (Cons m ms)
  have "List.map_filter msg_tool_call_id (takeWhile is_tool (map (sanitize_message jl) ms)) =
      List.map_filter msg_tool_call_id (takeWhile is_tool ms)"
    by (simp add: takeWhile_map map_filter_def comp_def filter_map)
  then show ?case using Cons by (auto simp: sanitize_calls image_image)
qed simp

lemma sanitize_apart: "successively apart (map (sanitize_message jl) ms) = successively apart ms"
  by (simp add: successively_map)

lemma sanitize_arguments:
  assumes "\<forall>v. \<exists>v'. jl_from_str jl (jl_to_string jl v) = Inr v'" "jl_from_str jl (lit ''{}'') = Inr (Object [])"
  shows "\<exists>v. jl_from_str jl (fn_arguments (call_function (sanitize_call jl c))) = Inr v"
  using sanitized_arguments_parse [OF assms, of "fn_arguments (call_function c)"]
  by (auto simp: sanitize_call_def Let_def)

text \<open>System messages on the way to the folding: none is made and none is changed.\<close>

lemma complete_members:
  "m \<in> set (fst (complete_missing_tool_responses ms p)) \<Longrightarrow> m \<in> set ms \<or> is_tool m"
proof (induction ms p rule: complete_missing_tool_responses.induct)
  case (2 x ms p)
  obtain r n where rn: "contiguous_tool_response_ids ms 0 = (r, n)" by fastforce
  show ?case
  proof (cases "is_asst x \<and> assistant_has_non_empty_tool_calls x")
    case True
    then show ?thesis using "2.prems" "2.IH"(2) [OF _ refl rn [symmetric]] rn
      by (auto simp: Let_def split: prod.splits dest: in_set_takeD in_set_dropD)
  next
    case False
    then show ?thesis using "2.prems" "2.IH"(1) by (auto split: prod.splits)
  qed
qed simp

lemma collapse_members: "m \<in> set (collapse ms) \<Longrightarrow> m \<in> set ms \<or> is_asst m"
  by (induction ms rule: collapse.induct) (auto split: if_splits)

lemma strip_simps [simp]:
  "msg_role (message_clone_stripping_reasoning_for_api m k d) = msg_role m"
  "msg_content (message_clone_stripping_reasoning_for_api m k d) = msg_content m"
  by (simp_all add: message_clone_stripping_reasoning_for_api_def merge_reasoning_details_into_reasoning_content_def Let_def
      split: option.split)

lemma strip_skill_simps [simp]:
  "msg_role (strip_user_skill_slash_in_message_for_api m) = msg_role m"
  "is_system m \<Longrightarrow> msg_content (strip_user_skill_slash_in_message_for_api m) = msg_content m"
  using role_exclusive(6) [of "msg_role m"]
  by (auto simp: strip_user_skill_slash_in_message_for_api_def split: option.split MessageContent.split)

lemma stripped_system:
  assumes "\<forall>m \<in> set ms. is_system m \<longrightarrow> has_text m"
    and "m \<in> set (messages_for_api_stripping_reasoning_skip_ui_separators ms k d)" "is_system m"
  shows "has_text m"
  using assms by (auto simp: messages_for_api_stripping_reasoning_skip_ui_separators_def)

lemma request_shape:
  assumes "calls_answered ms"
  defines "v \<equiv> normalize_messages_for_openai_compatible_request ms"
  shows "calls_answered v \<and> successively apart v \<and> (\<forall>m \<in> set v. \<not> assistant_lacks_openai_content_and_tool_calls m) \<and>
    (\<forall>m \<in> set v. m \<in> set ms \<or> is_asst m)"
proof -
  let ?Q = "\<lambda>m. \<not> assistant_lacks_openai_content_and_tool_calls m"
  have v: "v = filter ?Q (collapse ms)" unfolding v_def by (rule normalize_eq [OF assms(1)])
  have "calls_answered v" unfolding v by (rule filter_answers [OF tool_not_lacking collapse_answers [OF assms(1)]])
  moreover have "successively apart v" unfolding v by (rule filter_apart [OF lacking_asst collapse_apart])
  ultimately show ?thesis using collapse_members unfolding v by auto
qed

lemma role_lits:
  "is_assistant_role (lit ''assistant'')" "is_tool_role (lit ''tool'')" "is_user_role (lit ''user'')"
  "role_is_system_for_vendor (lit ''system'')" "\<not> role_is_system_for_vendor (lit ''user'')"
  "\<not> role_is_system_for_vendor (lit ''assistant'')" "\<not> is_assistant_role (lit ''system'')" "\<not> is_user_role (lit ''assistant'')"
proof -
  show p: "is_assistant_role (lit ''assistant'')" "is_tool_role (lit ''tool'')" "is_user_role (lit ''user'')"
    "role_is_system_for_vendor (lit ''system'')"
    by (simp_all add: is_assistant_role_def is_tool_role_def is_user_role_def role_is_system_for_vendor_def
        trim_id lit_Cons is_whitespace_def eq_ignore_ascii_case_def)
  show "\<not> role_is_system_for_vendor (lit ''user'')" "\<not> role_is_system_for_vendor (lit ''assistant'')"
    "\<not> is_assistant_role (lit ''system'')" "\<not> is_user_role (lit ''assistant'')"
    using p role_exclusive by blast+
qed

lemma not_lacking:
  "is_asst m \<Longrightarrow> \<not> assistant_lacks_openai_content_and_tool_calls m \<Longrightarrow>
   \<not> message_content_is_effectively_empty m \<or> tool_calls_of m \<noteq> []"
  by (cases "msg_content m" rule: message_content_as_str.cases)
    (auto simp: assistant_lacks_openai_content_and_tool_calls_def has_calls_iff message_content_is_effectively_empty_def
      split: if_splits)

lemma sanitize_not_lacking:
  "assistant_lacks_openai_content_and_tool_calls (sanitize_message jl m) = assistant_lacks_openai_content_and_tool_calls m"
  by (cases "is_asst m")
    (simp_all add: assistant_lacks_openai_content_and_tool_calls_def has_calls_iff sanitize_calls message_content_is_effectively_empty_def
      cong: option.case_cong)

lemma collapse_others: "filter (\<lambda>m. \<not> is_asst m) (collapse ms) = filter (\<lambda>m. \<not> is_asst m) ms"
  by (induction ms rule: collapse.induct) auto

lemma clear_last_others: "filter (\<lambda>m. \<not> is_asst m) (clear_last_tool_calls ms) = filter (\<lambda>m. \<not> is_asst m) ms"
  by (cases ms rule: rev_cases) (auto simp: clear_last_tool_calls_def)

lemma remove_others:
  "filter (\<lambda>m. \<not> is_asst m) (remove_all_assistants_lacking_openai_content_or_tool_calls ms) = filter (\<lambda>m. \<not> is_asst m) ms"
  by (auto simp: remove_all_assistants_lacking_openai_content_or_tool_calls_def
      assistant_lacks_openai_content_and_tool_calls_def intro: filter_cong)

lemma fold_shape:
  assumes "calls_answered v" "successively apart v" "\<forall>m \<in> set v. \<not> assistant_lacks_openai_content_and_tool_calls m"
    and "\<forall>m \<in> set v. is_system m \<longrightarrow> has_text m"
  defines "w \<equiv> fold_system_messages_into_following_user v"
  shows "calls_answered w \<and> successively apart w \<and> (\<forall>m \<in> set w. \<not> assistant_lacks_openai_content_and_tool_calls m) \<and>
    (\<forall>m \<in> set w. \<not> is_system m)"
proof -
  have "\<not> assistant_lacks_openai_content_and_tool_calls m \<and> \<not> is_system m" if "m \<in> set w" for m
    using fold_members [of m "[]" v] that assms(3) role_exclusive(2,6) [of "msg_role m"] lacking_asst [of m]
    by (auto simp: w_def fold_system_messages_into_following_user_def)
  then show ?thesis using fold_answers [OF assms(1)] fold_apart [of v "[]"] assms(2,4)
    by (auto simp: w_def fold_system_messages_into_following_user_def)
qed

section \<open>Properties\<close>


definition sample_conversation :: "Message list" where
  "sample_conversation =
     [system_only (lit ''rules''), user_only (lit ''go''),
      assistant_tool_calls [tool_call_function (lit ''c1'') (lit ''read'') (lit ''junk'')],
      assistant_only (lit ''done'')]"


text \<open>
  The merge loop, which steps back after every merge and starts again until nothing was merged, ends
  for every conversation and computes the one-pass collapse of each run of assistant messages from left to
  right; and the whole normalisation neither changes, drops nor reorders a message of another role.
\<close>

theorem merging_is_one_pass:
  "merge_all_consecutive_assistant_messages_in_vec msgs = collapse msgs \<and>
   successively apart (merge_all_consecutive_assistant_messages_in_vec msgs) \<and>
   filter (\<lambda>m. \<not> is_asst m) (normalize_messages_for_openai_compatible_request msgs) = filter (\<lambda>m. \<not> is_asst m) msgs"
  by (simp only: normalize_messages_for_openai_compatible_request_def merge_all_eq_collapse collapse_apart collapse_others
      clear_last_others remove_others)

text \<open>
  Without the premise on system messages the folding can break the request: a blank system
  message between two assistant messages keeps them apart in the normalisation and is then dropped.
\<close>

lemma fold_blank_system_adjacent:
  "let v = [assistant_only (lit ''a''), system_only (lit '' ''), assistant_only (lit ''b'')] in
   successively apart v \<and> \<not> successively apart (fold_system_messages_into_following_user v)"
proof -
  have "trim (lit '' '') = []" by (simp add: trim_def trim_start_def trim_end_def lit_Cons is_whitespace_def)
  then show ?thesis
    by (simp add: Let_def fold_system_messages_into_following_user_def assistant_only_def system_only_def plain_message_def
        role_lits trim_nonempty_def)
qed

end
