(* ===== verification/Context_Pipeline.thy ===== *)
theory Context_Pipeline
  imports Tool_Result Vendor_Messages
begin

text \<open>
  The synchronous context pipeline (\<^verbatim>\<open>src/cm_agent/message_pipeline\<close>): before every model call the conversation is cut to its
  budget.  Tool texts are compressed, the oldest complete turn groups removed by count and by
  characters, and tool messages without a call dropped; side notes of the user interface are parked meanwhile.

  The Rust functions change a vector in place and return a range or a count; here they return the new
  list with it.  Sizes are natural numbers: a \<^verbatim>\<open>usize\<close> addition that saturates would need a conversation of
  \<open>2 ^ 64\<close> bytes.  The process-wide counters are an explicit state and wrap as \<^verbatim>\<open>fetch_add\<close> does.

  Shown here: trimming removes whole groups, oldest first, keeps the newest one and stops only at the budget or there;
  it never separates a tool result from its call; the orphan scan with its vector of flags is one pass and leaves no
  orphan; and the recorded range is exact for the character budget but not for the count.
\<close>

section \<open>Ranges\<close>

record RemovedPrefix =
  rp_start :: nat
  rp_removed :: nat

definition no_removal :: RemovedPrefix where
  "no_removal = \<lparr>rp_start = 0, rp_removed = 0\<rparr>"

definition rp_is_empty :: "RemovedPrefix \<Rightarrow> bool" where
  "rp_is_empty r \<longleftrightarrow> rp_removed r = 0"

definition rp_end :: "RemovedPrefix \<Rightarrow> nat" where
  "rp_end r = rp_start r + rp_removed r"

definition record_local :: "RemovedPrefix \<Rightarrow> nat \<Rightarrow> nat \<Rightarrow> RemovedPrefix" where
  "record_local r local_start local_removed =
     (if local_removed = 0 then r
      else if rp_removed r = 0 then \<lparr>rp_start = local_start, rp_removed = local_removed\<rparr>
      else
        (let orig_start = (if local_start \<ge> rp_start r then local_start + rp_removed r else local_start);
             new_start = min (rp_start r) orig_start;
             new_end = max (rp_end r) (orig_start + local_removed) in
         \<lparr>rp_start = new_start, rp_removed = new_end - new_start\<rparr>))"

definition rp_union :: "RemovedPrefix \<Rightarrow> RemovedPrefix \<Rightarrow> RemovedPrefix" where
  "rp_union r other =
     (if rp_removed other = 0 then r
      else if rp_removed r = 0 then other
      else
        (let s = min (rp_start r) (rp_start other); e = max (rp_end r) (rp_end other) in
         \<lparr>rp_start = s, rp_removed = e - s\<rparr>))"

section \<open>Turn groups\<close>

record ConversationTurnGroup =
  group_start :: nat
  group_end :: nat

definition user_starts :: "Message list \<Rightarrow> nat list" where
  "user_starts messages = map fst (filter (\<lambda>(idx, m). user_message_counts_for_branch_truncation m) (List.enumerate 0 messages))"

definition conversation_turn_groups :: "Message list \<Rightarrow> ConversationTurnGroup list" where
  "conversation_turn_groups messages =
     (let starts = user_starts messages in
      map (\<lambda>(idx, start). \<lparr>group_start = start,
             group_end = (if idx + 1 < length starts then starts ! (idx + 1) else length messages)\<rparr>)
        (List.enumerate 0 starts))"

definition drain :: "nat \<Rightarrow> nat \<Rightarrow> 'a list \<Rightarrow> 'a list" where
  "drain s e xs = take s xs @ drop e xs"

definition remove_oldest_turn_group :: "Message list \<Rightarrow> nat \<Rightarrow> Message list \<times> RemovedPrefix" where
  "remove_oldest_turn_group messages min_groups_to_keep =
     (let groups = conversation_turn_groups messages in
      if length groups \<le> min_groups_to_keep then (messages, no_removal)
      else
        (let oldest = groups ! 0 in
         (drain (group_start oldest) (group_end oldest) messages,
          \<lparr>rp_start = group_start oldest, rp_removed = group_end oldest - group_start oldest\<rparr>)))"

definition is_parked :: "Message \<Rightarrow> bool" where
  "is_parked m \<longleftrightarrow> is_chat_timeline_marker m \<or> is_model_context_artifact_marker m"

definition take_chat_timeline_markers :: "Message list \<Rightarrow> Message list \<times> Message list" where
  "take_chat_timeline_markers messages = (filter (\<lambda>m. \<not> is_parked m) messages, filter is_parked messages)"

section \<open>Sizes and compression\<close>

definition estimate_chars_from_bytes :: "ustring \<Rightarrow> nat" where
  "estimate_chars_from_bytes s = (utf8_len s + 1) div 2"

definition call_bytes :: "ToolCall \<Rightarrow> nat" where
  "call_bytes tc = utf8_len (fn_name (call_function tc)) + utf8_len (fn_arguments (call_function tc)) + utf8_len (call_id tc)"

definition estimate_message_chars :: "Message \<Rightarrow> nat" where
  "estimate_message_chars m =
     (message_content_byte_len_for_estimate (msg_content m) + 1) div 2 +
     (case msg_reasoning_content m of Some r \<Rightarrow> estimate_chars_from_bytes r | None \<Rightarrow> 0) +
     (case msg_tool_calls m of Some tcs \<Rightarrow> sum_list (map call_bytes tcs) | None \<Rightarrow> 0)"

definition estimate_non_system_chars :: "Message list \<Rightarrow> nat" where
  "estimate_non_system_chars messages = sum_list (map estimate_message_chars (filter (\<lambda>m. msg_role m \<noteq> lit ''system'') messages))"

definition compress_tool_message :: "json_lib \<Rightarrow> nat \<Rightarrow> Message \<Rightarrow> Message \<times> bool" where
  "compress_tool_message jl max_chars m =
     (if msg_role m \<noteq> lit ''tool'' then (m, False)
      else case msg_content m of
        Some (Text s) \<Rightarrow>
          (case maybe_compress_tool_message_content jl s max_chars of
             Some compressed \<Rightarrow> (m\<lparr>msg_content := Some (Text compressed)\<rparr>, True)
           | None \<Rightarrow> (m, False))
      | _ \<Rightarrow> (m, False))"

definition compress_tool_message_contents :: "json_lib \<Rightarrow> Message list \<Rightarrow> nat \<Rightarrow> Message list \<times> nat" where
  "compress_tool_message_contents jl messages max_chars0 =
     (let rs = map (compress_tool_message jl (max max_chars0 256)) messages in
      (map fst rs, length (filter snd rs)))"

section \<open>Trimming by count\<close>

text \<open>\<^verbatim>\<open>rposition\<close>.\<close>

definition rposition :: "('a \<Rightarrow> bool) \<Rightarrow> 'a list \<Rightarrow> nat option" where
  "rposition P xs = map_option fst (find (\<lambda>(i, x). P x) (rev (List.enumerate 0 xs)))"

function remove_second_while :: "nat \<Rightarrow> Message list \<Rightarrow> Message list" where
  "remove_second_while tail_keep tail =
     (if length tail > tail_keep \<and> \<not> length tail \<le> 1 then remove_second_while tail_keep (hd tail # tl (tl tail)) else tail)"
  by pat_completeness auto
termination
  by (relation "measure (\<lambda>(k, t). length t)") auto

declare remove_second_while.simps [simp del]

definition trim_tail_after_system :: "Message list \<Rightarrow> nat \<Rightarrow> Message list" where
  "trim_tail_after_system after tail_keep =
     (let skip = length after - tail_keep; tail = drop skip after in
      if length tail \<ge> 2 \<and> is_assistant_role (msg_role (tail ! 0)) \<and> is_assistant_role (msg_role (tail ! 1)) then
        (case rposition (\<lambda>m. is_user_role (msg_role m)) (take skip after) of
           Some ui \<Rightarrow> remove_second_while tail_keep (after ! ui # tail)
         | None \<Rightarrow> tail)
      else tail)"

section \<open>Lemmas: turns\<close>

abbreviation counts :: "Message \<Rightarrow> bool" where
  "counts \<equiv> user_message_counts_for_branch_truncation"

text \<open>A conversation is a head without messages of the user and then one block per such message.\<close>

definition is_block :: "Message list \<Rightarrow> bool" where
  "is_block b \<longleftrightarrow> b \<noteq> [] \<and> counts (hd b) \<and> list_all (\<lambda>m. \<not> counts m) (tl b)"

function blocks_of :: "Message list \<Rightarrow> Message list list" where
  "blocks_of [] = []"
| "blocks_of (m # ms) = (m # takeWhile (\<lambda>x. \<not> counts x) ms) # blocks_of (dropWhile (\<lambda>x. \<not> counts x) ms)"
  by pat_completeness auto
termination
  by (relation "measure length") (auto simp: le_imp_less_Suc length_dropWhile_le)

definition head_of :: "Message list \<Rightarrow> Message list" where
  "head_of ms = takeWhile (\<lambda>x. \<not> counts x) ms"

definition turns_of :: "Message list \<Rightarrow> Message list list" where
  "turns_of ms = blocks_of (dropWhile (\<lambda>x. \<not> counts x) ms)"

fun block_ranges :: "nat \<Rightarrow> Message list list \<Rightarrow> ConversationTurnGroup list" where
  "block_ranges n [] = []"
| "block_ranges n (b # bs) = \<lparr>group_start = n, group_end = n + length b\<rparr> # block_ranges (n + length b) bs"

lemma list_all_takeWhile: "list_all P (takeWhile P xs)"
  by (induction xs) simp_all

lemma takeWhile_at_split:
  assumes "list_all P r" "ys = [] \<or> \<not> P (hd ys)"
  shows "takeWhile P (r @ ys) = r" "dropWhile P (r @ ys) = ys"
  using assms by (induction r) (cases ys; simp)+

abbreviation quiet :: "Message list \<Rightarrow> bool" where
  "quiet ms \<equiv> list_all (\<lambda>m. \<not> counts m) ms"

lemma concat_blocks: "concat (blocks_of ms) = ms"
  by (induction ms rule: blocks_of.induct) simp_all

lemma drop_starts: "dropWhile (\<lambda>x. \<not> counts x) ms = [] \<or> counts (hd (dropWhile (\<lambda>x. \<not> counts x) ms))"
  using hd_dropWhile_neg [of "\<lambda>x. \<not> counts x" ms] by blast

lemma blocks_are_blocks: "ms = [] \<or> counts (hd ms) \<Longrightarrow> list_all is_block (blocks_of ms)"
proof (induction ms rule: blocks_of.induct)
  case (2 m ms)
  have "is_block (m # takeWhile (\<lambda>x. \<not> counts x) ms)" using 2(2) by (simp add: is_block_def list_all_takeWhile)
  moreover have "list_all is_block (blocks_of (dropWhile (\<lambda>x. \<not> counts x) ms))" by (rule 2(1) [OF drop_starts])
  ultimately show ?case by simp
qed simp

lemma turns_blocks: "list_all is_block (turns_of ms)"
  unfolding turns_of_def by (rule blocks_are_blocks [OF drop_starts])

lemma head_quiet: "quiet (head_of ms)"
  by (simp add: head_of_def list_all_takeWhile)

lemma head_turns: "head_of ms @ concat (turns_of ms) = ms"
  by (simp add: head_of_def turns_of_def concat_blocks)

lemma blocks_start: "list_all is_block bs \<Longrightarrow> concat bs = [] \<or> counts (hd (concat bs))"
  by (cases bs) (simp_all add: is_block_def)

lemma is_block_cases:
  assumes "is_block b"
  obtains m r where "b = m # r" "counts m" "quiet r"
  using assms by (cases b) (simp_all add: is_block_def)

lemma blocks_of_concat: "list_all is_block bs \<Longrightarrow> blocks_of (concat bs) = bs"
proof (induction bs)
  case (Cons b bs)
  then have b: "is_block b" and bs: "list_all is_block bs" by simp_all
  from b obtain m r where b: "b = m # r" "quiet r" by (rule is_block_cases)
  have "takeWhile (\<lambda>x. \<not> counts x) (r @ concat bs) = r" "dropWhile (\<lambda>x. \<not> counts x) (r @ concat bs) = concat bs"
    using takeWhile_at_split [of "\<lambda>x. \<not> counts x" r "concat bs"] b(2) blocks_start [OF bs] by simp_all
  then show ?case using Cons.IH [OF bs] b(1) by simp
qed simp

lemma turns_unique:
  assumes "quiet h" "list_all is_block bs"
  shows "head_of (h @ concat bs) = h" "turns_of (h @ concat bs) = bs"
proof -
  have "takeWhile (\<lambda>x. \<not> counts x) (h @ concat bs) = h" "dropWhile (\<lambda>x. \<not> counts x) (h @ concat bs) = concat bs"
    using takeWhile_at_split [of "\<lambda>x. \<not> counts x" h "concat bs"] assms(1) blocks_start [OF assms(2)] by simp_all
  then show "head_of (h @ concat bs) = h" "turns_of (h @ concat bs) = bs"
    using blocks_of_concat [OF assms(2)] by (simp_all add: head_of_def turns_of_def)
qed

lemma starts_quiet: "list_all (\<lambda>m. \<not> counts m) h \<Longrightarrow> filter (\<lambda>(idx, m). counts m) (List.enumerate n h) = []"
  by (auto simp: list_all_iff filter_empty_conv dest: enumerate_snd)

lemma starts_blocks:
  "list_all is_block bs \<Longrightarrow>
   map fst (filter (\<lambda>(idx, m). counts m) (List.enumerate n (concat bs))) = map group_start (block_ranges n bs)"
proof (induction bs arbitrary: n)
  case (Cons b bs)
  from Cons.prems have "is_block b" by simp
  then obtain m r where b: "b = m # r" "counts m" "quiet r" by (rule is_block_cases)
  then show ?case using Cons starts_quiet [OF b(3), of "Suc n"] by (simp add: enumerate_append_eq)
qed simp

lemma user_starts_eq: "user_starts ms = map group_start (block_ranges (length (head_of ms)) (turns_of ms))"
proof -
  have "user_starts (head_of ms @ concat (turns_of ms)) = map group_start (block_ranges (length (head_of ms)) (turns_of ms))"
    using starts_quiet [OF head_quiet, of 0 ms] starts_blocks [OF turns_blocks]
    by (simp add: user_starts_def enumerate_append_eq)
  then show ?thesis by (simp add: head_turns)
qed

lemma block_ranges_length [simp]: "length (block_ranges n bs) = length bs"
  by (induction bs arbitrary: n) simp_all

lemma block_ranges_Nil [simp]: "block_ranges n bs = [] \<longleftrightarrow> bs = []"
  by (cases bs) simp_all

lemma block_ranges_nth:
  "i < length bs \<Longrightarrow> block_ranges n bs ! i =
     \<lparr>group_start = n + length (concat (take i bs)), group_end = n + length (concat (take (Suc i) bs))\<rparr>"
  by (induction bs arbitrary: n i) (auto simp: nth_Cons split: nat.split)

lemma groups_eq: "conversation_turn_groups ms = block_ranges (length (head_of ms)) (turns_of ms)"
proof (rule nth_equalityI)
  show "length (conversation_turn_groups ms) = length (block_ranges (length (head_of ms)) (turns_of ms))"
    by (simp add: conversation_turn_groups_def user_starts_eq Let_def)
next
  fix i assume "i < length (conversation_turn_groups ms)"
  then have i: "i < length (turns_of ms)" by (simp add: conversation_turn_groups_def user_starts_eq Let_def)
  have total: "length (head_of ms) + length (concat (turns_of ms)) = length ms"
    using arg_cong [OF head_turns [of ms], of length] by simp
  show "conversation_turn_groups ms ! i = block_ranges (length (head_of ms)) (turns_of ms) ! i"
  proof (cases "Suc i < length (turns_of ms)")
    case True
    then show ?thesis using i by (simp add: conversation_turn_groups_def user_starts_eq Let_def block_ranges_nth nth_enumerate_eq)
  next
    case False
    then have "take (Suc i) (turns_of ms) = turns_of ms" using i by simp
    then show ?thesis using i False total
      by (simp add: conversation_turn_groups_def user_starts_eq Let_def block_ranges_nth nth_enumerate_eq)
  qed
qed

lemma groups_length [simp]: "length (conversation_turn_groups ms) = length (turns_of ms)"
  by (simp add: groups_eq)

lemma oldest_group:
  assumes "turns_of ms = b # bs"
  shows "conversation_turn_groups ms ! 0 = \<lparr>group_start = length (head_of ms), group_end = length (head_of ms) + length b\<rparr>"
    and "drain (length (head_of ms)) (length (head_of ms) + length b) ms = head_of ms @ concat bs"
proof -
  show "conversation_turn_groups ms ! 0 = \<lparr>group_start = length (head_of ms), group_end = length (head_of ms) + length b\<rparr>"
    using assms by (simp add: groups_eq)
  have ms: "ms = head_of ms @ b @ concat bs" using head_turns [of ms] assms by simp
  show "drain (length (head_of ms)) (length (head_of ms) + length b) ms = head_of ms @ concat bs"
    using arg_cong [OF ms, of "take (length (head_of ms))"] arg_cong [OF ms, of "drop (length (head_of ms) + length b)"]
    by (simp add: drain_def)
qed

lemma remove_oldest_eq:
  "remove_oldest_turn_group ms k =
     (if length (turns_of ms) \<le> k then (ms, no_removal)
      else (head_of ms @ concat (tl (turns_of ms)),
            \<lparr>rp_start = length (head_of ms), rp_removed = length (hd (turns_of ms))\<rparr>))"
proof (cases "turns_of ms")
  case Nil
  then show ?thesis by (simp add: remove_oldest_turn_group_def)
next
  case (Cons b bs)
  then show ?thesis using oldest_group [OF Cons] by (simp add: remove_oldest_turn_group_def Let_def)
qed

lemma first_block_ne: "turns_of ms = b # bs \<Longrightarrow> b \<noteq> []"
  using turns_blocks [of ms] by (simp add: is_block_def)

lemma remove_oldest_shrinks:
  "remove_oldest_turn_group ms k = (ms', step) \<Longrightarrow> \<not> rp_is_empty step \<Longrightarrow> length ms' < length ms"
proof -
  assume r: "remove_oldest_turn_group ms k = (ms', step)" "\<not> rp_is_empty step"
  then obtain b bs where t: "turns_of ms = b # bs"
    by (cases "turns_of ms") (auto simp: remove_oldest_eq no_removal_def rp_is_empty_def)
  then have "ms' = head_of ms @ concat bs" "ms = head_of ms @ b @ concat bs"
    using r head_turns [of ms] by (auto simp: remove_oldest_eq no_removal_def rp_is_empty_def split: if_splits)
  then show ?thesis using first_block_ne [OF t] by (metis length_append length_greater_0_conv add_less_cancel_left less_add_same_cancel2)
qed

section \<open>Trimming\<close>

function trim_count_loop :: "nat \<Rightarrow> Message list \<Rightarrow> RemovedPrefix \<Rightarrow> Message list \<times> RemovedPrefix" where
  "trim_count_loop max_total messages removed =
     (if length messages > max_total then
        (case remove_oldest_turn_group messages 1 of
           (messages', step) \<Rightarrow>
             if rp_is_empty step then (messages, removed)
             else trim_count_loop max_total messages' (rp_union removed step))
      else (messages, removed))"
  by pat_completeness auto
termination
  by (relation "measure (\<lambda>(n, ms, r). length ms)") (auto dest: remove_oldest_shrinks [OF sym])

declare trim_count_loop.simps [simp del]

definition trim_messages_by_count :: "Message list \<Rightarrow> nat \<Rightarrow> Message list \<times> RemovedPrefix" where
  "trim_messages_by_count messages0 max_after_system =
     (if messages0 = [] \<or> max_after_system = 0 then (messages0, no_removal)
      else
        (let has_system_head = (msg_role (messages0 ! 0) = lit ''system'');
             max_total = max_after_system + (if has_system_head then 1 else 0) in
         case trim_count_loop max_total messages0 no_removal of
           (messages, removed) \<Rightarrow>
             if length messages \<le> max_total then (messages, removed)
             else if conversation_turn_groups messages \<noteq> [] then (messages, removed)
             else if msg_role (messages ! 0) = lit ''system'' then
               (if length messages \<le> 1 + max_after_system then (messages, removed)
                else (messages ! 0 # trim_tail_after_system (drop 1 messages) max_after_system, removed))
             else if length messages > max_after_system then (drop (length messages - max_after_system) messages, removed)
             else (messages, removed)))"

lemma drain_shrinks: "turns_of ms = b # bs \<Longrightarrow> length (drain (length (head_of ms)) (length (head_of ms) + length b) ms) < length ms"
  using oldest_group(2) first_block_ne head_turns [of ms]
  by (metis add_less_cancel_left concat.simps(2) length_append length_greater_0_conv less_add_same_cancel2)

function trim_complete_turn_groups_by_char_budget :: "Message list \<Rightarrow> nat \<Rightarrow> nat \<Rightarrow> RemovedPrefix \<Rightarrow> Message list \<times> RemovedPrefix" where
  "trim_complete_turn_groups_by_char_budget messages budget min_total removed =
     (if estimate_non_system_chars messages > budget then
        (case conversation_turn_groups messages of
           [] \<Rightarrow> (messages, removed)
         | oldest # rest \<Rightarrow>
             let remaining = length messages - (group_end oldest - group_start oldest) in
             if length (oldest # rest) \<le> 1 \<or> remaining < min_total then (messages, removed)
             else trim_complete_turn_groups_by_char_budget (drain (group_start oldest) (group_end oldest) messages) budget min_total
                    (record_local removed (group_start oldest) (group_end oldest - group_start oldest)))
      else (messages, removed))"
  by pat_completeness auto
termination
proof (relation "measure (\<lambda>(ms, b, m, r). length ms)", goal_cases)
  case (2 messages budget min_total removed oldest rest remaining)
  then obtain b bs where t: "turns_of messages = b # bs" by (cases "turns_of messages") (auto simp: groups_eq)
  then have "oldest = \<lparr>group_start = length (head_of messages), group_end = length (head_of messages) + length b\<rparr>"
    using 2 by (simp add: groups_eq)
  then show ?case using drain_shrinks [OF t] by simp
qed simp

declare trim_complete_turn_groups_by_char_budget.simps [simp del]

fun ungrouped_count :: "nat \<Rightarrow> nat \<Rightarrow> Message list \<Rightarrow> nat" where
  "ungrouped_count budget remaining_chars [] = 0"
| "ungrouped_count budget remaining_chars (m # ms) =
     (if remaining_chars \<le> budget then 0 else Suc (ungrouped_count budget (remaining_chars - estimate_message_chars m) ms))"

definition trim_ungrouped_messages_by_char_budget :: "Message list \<Rightarrow> nat \<Rightarrow> nat \<Rightarrow> Message list \<times> RemovedPrefix" where
  "trim_ungrouped_messages_by_char_budget messages budget min_total =
     (let start_idx = (if msg_role (messages ! 0) = lit ''system'' then 1 else 0);
          removable = length messages - min_total;
          remove_count = ungrouped_count budget (estimate_non_system_chars messages) (take removable (drop start_idx messages)) in
      (if remove_count > 0 then drain start_idx (start_idx + remove_count) messages else messages,
       \<lparr>rp_start = start_idx, rp_removed = remove_count\<rparr>))"

definition trim_messages_by_char_budget :: "Message list \<Rightarrow> nat \<Rightarrow> nat \<Rightarrow> Message list \<times> RemovedPrefix" where
  "trim_messages_by_char_budget messages budget min_messages_after_system =
     (if budget = 0 \<or> length messages \<le> 1 then (messages, no_removal)
      else
        (let min_total = 1 + min_messages_after_system in
         if length messages \<le> min_total then (messages, no_removal)
         else if estimate_non_system_chars messages \<le> budget then (messages, no_removal)
         else if conversation_turn_groups messages = [] then trim_ungrouped_messages_by_char_budget messages budget min_total
         else trim_complete_turn_groups_by_char_budget messages budget min_total no_removal))"

section \<open>Orphans\<close>

fun prev_index :: "bool list \<Rightarrow> nat \<Rightarrow> nat" where
  "prev_index keep 0 = 0"
| "prev_index keep (Suc p) = (if \<not> keep ! Suc p then prev_index keep p else Suc p)"

definition opens_tools :: "Message \<Rightarrow> bool" where
  "opens_tools m \<longleftrightarrow> msg_role m = lit ''tool'' \<or> msg_role m = lit ''assistant'' \<and> assistant_has_non_empty_tool_calls m"

definition orphan_step :: "Message list \<Rightarrow> bool list \<Rightarrow> nat \<Rightarrow> bool list" where
  "orphan_step messages keep i =
     (if msg_role (messages ! i) \<noteq> lit ''tool'' then keep
      else
        (let has_valid_predecessor = i > 0 \<and>
               (let prev = prev_index keep (i - 1) in keep ! prev \<and> opens_tools (messages ! prev)) in
         if has_valid_predecessor then keep else keep[i := False]))"

definition drop_orphan_tool_messages :: "Message list \<Rightarrow> Message list \<times> nat" where
  "drop_orphan_tool_messages messages =
     (let keep = foldl (orphan_step messages) (replicate (length messages) True) [0 ..< length messages];
          out = map fst (filter snd (zip messages keep)) in
      (out, length messages - length out))"

section \<open>Interrupted turns\<close>

definition INTERRUPTED_TOOL_RESULT_PLACEHOLDER :: ustring where
  "INTERRUPTED_TOOL_RESULT_PLACEHOLDER = [26412, 36718, 24050, 34987, 29992, 25143, 20013, 26029, 65292, 35813, 24037, 20855, 35843, 29992, 26410, 25191, 34892, 23436, 25104, 65292, 26080, 32467, 26524, 12290]"

fun drop_unresponded_incomplete_tool_calls :: "json_lib \<Rightarrow> Message list \<Rightarrow> Message list \<times> nat" where
  "drop_unresponded_incomplete_tool_calls jl [] = ([], 0)"
| "drop_unresponded_incomplete_tool_calls jl (m # ms) =
     (let (rest, dropped) = drop_unresponded_incomplete_tool_calls jl ms in
      if \<not> is_assistant_role (msg_role m) \<or> tool_calls_of m = [] then (m # rest, dropped)
      else
        (let responded = fst (contiguous_tool_response_ids ms 0);
             kept = filter (\<lambda>c. list_ex (\<lambda>i. i = call_id c) responded \<or>
                 json_ok jl (trim (fn_arguments (call_function c))) \<noteq> None) (tool_calls_of m) in
         (m\<lparr>msg_tool_calls := (if kept = [] then None else Some kept)\<rparr> # rest,
          length (tool_calls_of m) - length kept + dropped)))"

definition complete_pending_tool_responses_for_persistence :: "json_lib \<Rightarrow> Message list \<Rightarrow> Message list \<times> nat" where
  "complete_pending_tool_responses_for_persistence jl messages =
     complete_missing_tool_responses (fst (drop_unresponded_incomplete_tool_calls jl messages)) INTERRUPTED_TOOL_RESULT_PLACEHOLDER"

section \<open>The pipeline\<close>

datatype MessagePipelineStage = SessionSyncStart | AfterCompressTool | AfterTrimByCount | AfterTrimByCharBudget
  | AfterSecondCompressTool | AfterDropOrphanTool | AfterMergeAssistantsInPlace

fun stage_as_str :: "MessagePipelineStage \<Rightarrow> ustring" where
  "stage_as_str SessionSyncStart = lit ''start''"
| "stage_as_str AfterCompressTool = lit ''after_compress_tool''"
| "stage_as_str AfterTrimByCount = lit ''after_trim_count''"
| "stage_as_str AfterTrimByCharBudget = lit ''after_trim_char_budget''"
| "stage_as_str AfterSecondCompressTool = lit ''after_compress_tool_2''"
| "stage_as_str AfterDropOrphanTool = lit ''after_drop_orphan_tool''"
| "stage_as_str AfterMergeAssistantsInPlace = lit ''after_merge_assistants''"

record PipelineStepSnapshot =
  snap_stage :: MessagePipelineStage
  snap_message_count :: nat
  snap_non_system_chars_est :: nat

record MessagePipelineDelta =
  n_before :: nat
  n_after :: nat
  trim_count_hit :: bool
  trim_char_hit :: bool
  delta_tool_compress_hits :: nat
  removed_prefix :: RemovedPrefix

record MessagePipelineCounters =
  trim_count_hits :: nat
  trim_char_budget_hits :: nat
  tool_compress_hits :: nat
  orphan_tool_drops :: nat

record MessagePipelineConfig =
  tool_message_max_chars :: nat
  max_message_history :: nat
  context_char_budget :: nat
  context_min_messages_after_system :: nat

type_synonym pipeline_report = "PipelineStepSnapshot list option"

definition snapshot_of :: "MessagePipelineStage \<Rightarrow> Message list \<Rightarrow> PipelineStepSnapshot" where
  "snapshot_of stage messages =
     \<lparr>snap_stage = stage, snap_message_count = length messages, snap_non_system_chars_est = estimate_non_system_chars messages\<rparr>"

definition record_and_trace :: "pipeline_report \<Rightarrow> MessagePipelineStage \<Rightarrow> Message list \<Rightarrow> pipeline_report" where
  "record_and_trace report stage messages = map_option (\<lambda>steps. steps @ [snapshot_of stage messages]) report"

definition format_for_log :: "PipelineStepSnapshot list \<Rightarrow> ustring" where
  "format_for_log steps =
     join (lit '' | '') (map (\<lambda>s. stage_as_str (snap_stage s) @ lit '':n='' @ show_nat (snap_message_count s) @ (lit '':chars'' @ [8776]) @
       show_nat (snap_non_system_chars_est s)) steps)"

text \<open>\<^verbatim>\<open>fetch_add\<close> on an \<^verbatim>\<open>AtomicU64\<close>.\<close>

definition fetch_add :: "nat \<Rightarrow> nat \<Rightarrow> nat" where
  "fetch_add n k = (n + k) mod 2 ^ 64"

definition apply_session_sync_pipeline_with_config :: "json_lib \<Rightarrow> MessagePipelineCounters \<Rightarrow> Message list \<Rightarrow> MessagePipelineConfig \<Rightarrow>
    pipeline_report \<Rightarrow> Message list \<times> MessagePipelineDelta \<times> MessagePipelineCounters \<times> pipeline_report" where
  "apply_session_sync_pipeline_with_config jl ctr0 messages cfg report0 =
     (let (ms0, parked) = take_chat_timeline_markers messages;
          report1 = record_and_trace report0 SessionSyncStart ms0;
          (ms1, c1) = compress_tool_message_contents jl ms0 (tool_message_max_chars cfg);
          ctr1 = ctr0\<lparr>tool_compress_hits := fetch_add (tool_compress_hits ctr0) c1\<rparr>;
          report2 = record_and_trace report1 AfterCompressTool ms1;
          (ms2, count_removed) = trim_messages_by_count ms1 (max_message_history cfg);
          count_hit = (length ms2 < length ms1);
          ctr2 = (if count_hit then ctr1\<lparr>trim_count_hits := fetch_add (trim_count_hits ctr1) 1\<rparr> else ctr1);
          report3 = record_and_trace report2 AfterTrimByCount ms2;
          (ms4, prefix, char_hit, hits, ctr4, report5) =
            (if context_char_budget cfg > 0 then
               (let (ms3, char_removed) = trim_messages_by_char_budget ms2 (context_char_budget cfg) (context_min_messages_after_system cfg);
                    hit = (length ms3 < length ms2);
                    ctr3 = (if hit then ctr2\<lparr>trim_char_budget_hits := fetch_add (trim_char_budget_hits ctr2) 1\<rparr> else ctr2);
                    report4 = record_and_trace report3 AfterTrimByCharBudget ms3;
                    (ms4, c2) = compress_tool_message_contents jl ms3 (tool_message_max_chars cfg) in
                (ms4, record_local count_removed (rp_start char_removed) (rp_removed char_removed), hit, c1 + c2,
                 ctr3\<lparr>tool_compress_hits := fetch_add (tool_compress_hits ctr3) c2\<rparr>,
                 record_and_trace report4 AfterSecondCompressTool ms4))
             else (ms2, count_removed, False, c1, ctr2, report3));
          (ms5, dropped) = drop_orphan_tool_messages ms4;
          ctr5 = ctr4\<lparr>orphan_tool_drops := fetch_add (orphan_tool_drops ctr4) dropped\<rparr>;
          report6 = record_and_trace report5 AfterDropOrphanTool ms5 in
      (ms5 @ parked,
       \<lparr>n_before = length ms0, n_after = length ms5, trim_count_hit = count_hit, trim_char_hit = char_hit,
        delta_tool_compress_hits = hits, removed_prefix = prefix\<rparr>, ctr5, report6))"

section \<open>Lemmas: trimming\<close>

text \<open>The specification: the oldest turns go, one at a time, until the rest fits or only one is left.\<close>

fun shed :: "(Message list list \<Rightarrow> bool) \<Rightarrow> Message list list \<Rightarrow> Message list list" where
  "shed fits (b # c # bs) = (if fits (b # c # bs) then b # c # bs else shed fits (c # bs))"
| "shed fits bs = bs"

lemma shed_drop: "\<exists>j. shed fits bs = drop j bs \<and> (bs \<noteq> [] \<longrightarrow> j < length bs)"
proof (induction fits bs rule: shed.induct)
  case (1 fits b c bs)
  then show ?case
  proof (cases "fits (b # c # bs)")
    case True
    then show ?thesis by (intro exI [of _ 0]) simp
  next
    case False
    then obtain j where "shed fits (c # bs) = drop j (c # bs)" "j < length (c # bs)" using 1 by auto
    then show ?thesis using False by (intro exI [of _ "Suc j"]) simp
  qed
qed (auto intro: exI [of _ 0])

lemma shed_last: "bs \<noteq> [] \<Longrightarrow> shed fits bs \<noteq> [] \<and> last (shed fits bs) = last bs"
  by (induction fits bs rule: shed.induct) auto

lemma shed_stops: "fits (shed fits bs) \<or> length (shed fits bs) \<le> 1"
  by (induction fits bs rule: shed.induct) auto

lemma shed_needed: "shed fits bs = drop j bs \<Longrightarrow> i < j \<Longrightarrow> j < length bs \<Longrightarrow> \<not> fits (drop i bs)"
proof (induction fits bs arbitrary: i j rule: shed.induct)
  case (1 fits b c bs)
  show ?case
  proof (cases "fits (b # c # bs)")
    case True
    then have "length (drop j (b # c # bs)) = length (b # c # bs)" using "1.prems"(1) by (metis shed.simps(1))
    then show ?thesis using "1.prems"(2,3) by simp
  next
    case False
    then show ?thesis using "1.IH" [of "j - 1" "i - 1"] "1.prems" by (cases i; cases j) auto
  qed
qed auto

lemma shed_blocks: "list_all is_block bs \<Longrightarrow> list_all is_block (shed fits bs)"
  by (induction fits bs rule: shed.induct) auto

lemma shed_id: "fits bs \<or> length bs \<le> 1 \<Longrightarrow> shed fits bs = bs"
  by (induction fits bs rule: shed.induct) auto

lemma rest_turns:
  assumes "turns_of ms = b # bs"
  shows "head_of (head_of ms @ concat bs) = head_of ms" "turns_of (head_of ms @ concat bs) = bs"
  using turns_unique [OF head_quiet [of ms], of bs] turns_blocks [of ms] assms by simp_all

lemma count_loop_sheds:
  "fst (trim_count_loop n ms r) = head_of ms @ concat (shed (\<lambda>bs. length (head_of ms @ concat bs) \<le> n) (turns_of ms))"
proof (induction n ms r rule: trim_count_loop.induct)
  case (1 n ms r)
  have ms: "ms = head_of ms @ concat (turns_of ms)" by (simp add: head_turns)
  show ?case
  proof (cases "length ms > n \<and> length (turns_of ms) > 1")
    case False
    then have "fst (trim_count_loop n ms r) = ms"
      by (auto simp: trim_count_loop.simps [of n ms r] remove_oldest_eq rp_is_empty_def no_removal_def)
    moreover have "shed (\<lambda>bs. length (head_of ms @ concat bs) \<le> n) (turns_of ms) = turns_of ms"
      using False head_turns [of ms] by (intro shed_id) (simp add: not_less)
    ultimately show ?thesis using ms by simp
  next
    case True
    then obtain b c bs where t: "turns_of ms = b # c # bs" by (cases "turns_of ms"; cases "tl (turns_of ms)") auto
    have r: "remove_oldest_turn_group ms 1 = (head_of ms @ concat (c # bs), \<lparr>rp_start = length (head_of ms), rp_removed = length b\<rparr>)"
      using t by (simp add: remove_oldest_eq)
    have ne: "\<not> rp_is_empty \<lparr>rp_start = length (head_of ms), rp_removed = length b\<rparr>"
      using first_block_ne [OF t] by (simp add: rp_is_empty_def)
    have loop: "trim_count_loop n ms r = trim_count_loop n (head_of ms @ concat (c # bs)) (rp_union r \<lparr>rp_start = length (head_of ms), rp_removed = length b\<rparr>)"
      using True r ne by (simp add: trim_count_loop.simps [of n ms r])
    have "\<not> length (head_of ms @ concat (b # c # bs)) \<le> n" using True ms t by (metis not_le)
    then show ?thesis
      using "1.IH" [OF _ r [symmetric] ne] True rest_turns [OF t] t unfolding loop by simp
  qed
qed

lemma char_loop_sheds:
  assumes "fits = (\<lambda>bs. estimate_non_system_chars (head_of ms @ concat bs) \<le> budget \<or> length (head_of ms @ concat (tl bs)) < min_total)"
  shows "fst (trim_complete_turn_groups_by_char_budget ms budget min_total r) = head_of ms @ concat (shed fits (turns_of ms))"
  using assms
proof (induction ms budget min_total r rule: trim_complete_turn_groups_by_char_budget.induct)
  case (1 ms budget min_total r)
  have ms: "head_of ms @ concat (turns_of ms) = ms" by (rule head_turns)
  note eq = trim_complete_turn_groups_by_char_budget.simps [of ms budget min_total r]
  show ?case
  proof (cases "turns_of ms")
    case Nil
    then show ?thesis using ms by (simp add: eq groups_eq)
  next
    case (Cons b bs)
    let ?h = "length (head_of ms)"
    have g: "conversation_turn_groups ms = \<lparr>group_start = ?h, group_end = ?h + length b\<rparr> # block_ranges (?h + length b) bs"
      using Cons by (simp add: groups_eq)
    have rem: "length ms - length b = length (head_of ms @ concat bs)" using arg_cong [OF ms, of length] Cons by simp
    show ?thesis
    proof (cases "bs = [] \<or> fits (b # bs)")
      case True
      then have "fst (trim_complete_turn_groups_by_char_budget ms budget min_total r) = ms"
        using 1(2) ms rem Cons by (auto simp: eq g Let_def)
      moreover have "shed fits (turns_of ms) = turns_of ms" using True Cons by (intro shed_id) auto
      ultimately show ?thesis using ms by simp
    next
      case False
      then obtain c cs where bs: "bs = c # cs" by (cases bs) auto
      have over: "estimate_non_system_chars ms > budget" "\<not> length (head_of ms @ concat bs) < min_total"
        using False 1(2) ms Cons by (simp_all add: not_le)
      let ?ms' = "head_of ms @ concat bs"
      have loop: "trim_complete_turn_groups_by_char_budget ms budget min_total r =
          trim_complete_turn_groups_by_char_budget ?ms' budget min_total (record_local r ?h (length b))"
        using over rem oldest_group(2) [OF Cons] bs by (simp add: eq g Let_def)
      have "fst (trim_complete_turn_groups_by_char_budget ?ms' budget min_total (record_local r ?h (length b))) =
          head_of ?ms' @ concat (shed fits (turns_of ?ms'))"
        using "1.IH" [OF over(1) g refl] over(2) rem bs 1(2) rest_turns [OF Cons] oldest_group(2) [OF Cons] by simp
      then show ?thesis using rest_turns [OF Cons] False Cons bs unfolding loop by simp
    qed
  qed
qed

text \<open>The range of the character budget, relative to the list before the loop.\<close>

lemma char_loop_range:
  assumes "trim_complete_turn_groups_by_char_budget ms budget min_total r = (out, r')"
    and "rp_removed r = 0 \<or> rp_start r = length (head_of ms)"
  shows "\<exists>k. out = drain (length (head_of ms)) (length (head_of ms) + k) ms \<and> rp_removed r' = rp_removed r + k \<and>
    (k = 0 \<longrightarrow> r' = r) \<and> (k \<noteq> 0 \<longrightarrow> rp_start r' = length (head_of ms)) \<and> length (head_of ms) + k \<le> length ms"
  using assms
proof (induction ms budget min_total r arbitrary: out r' rule: trim_complete_turn_groups_by_char_budget.induct)
  case (1 ms budget min_total r)
  note eq = trim_complete_turn_groups_by_char_budget.simps [of ms budget min_total r]
  have h: "length (head_of ms) \<le> length ms" using arg_cong [OF head_turns [of ms], of length] by simp
  have unchanged: ?case if same: "trim_complete_turn_groups_by_char_budget ms budget min_total r = (ms, r)"
  proof -
    have "out = ms" "r' = r" using same 1(2) by simp_all
    then show ?thesis using h by (intro exI [of _ 0]) (simp add: drain_def)
  qed
  show ?case
  proof (cases "turns_of ms")
    case Nil
    then have "trim_complete_turn_groups_by_char_budget ms budget min_total r = (ms, r)" by (simp add: eq groups_eq)
    then show ?thesis using unchanged by blast
  next
    case (Cons b bs)
    let ?h = "length (head_of ms)" and ?ms' = "head_of ms @ concat bs"
    have ms: "ms = head_of ms @ b @ concat bs" using head_turns [of ms] Cons by simp
    have g: "conversation_turn_groups ms = \<lparr>group_start = ?h, group_end = ?h + length b\<rparr> # block_ranges (?h + length b) bs"
      using Cons by (simp add: groups_eq)
    show ?thesis
    proof (cases "estimate_non_system_chars ms > budget \<and> bs \<noteq> [] \<and> \<not> length ms - length b < min_total")
      case False
      then have "trim_complete_turn_groups_by_char_budget ms budget min_total r = (ms, r)" by (auto simp: eq g Let_def)
      then show ?thesis using unchanged by blast
    next
      case True
      let ?r = "record_local r ?h (length b)"
      have b: "0 < length b" using first_block_ne [OF Cons] by simp
      have rl: "rp_start ?r = ?h" "rp_removed ?r = rp_removed r + length b"
        using b 1(3) by (auto simp: record_local_def rp_end_def Let_def)
      have loop: "trim_complete_turn_groups_by_char_budget ?ms' budget min_total ?r = (out, r')"
        using True oldest_group(2) [OF Cons] 1(2) by (simp add: eq g Let_def)
      have "\<exists>k. out = drain ?h (?h + k) ?ms' \<and> rp_removed r' = rp_removed ?r + k \<and> (k = 0 \<longrightarrow> r' = ?r) \<and> (k \<noteq> 0 \<longrightarrow> rp_start r' = ?h) \<and>
          ?h + k \<le> length ?ms'"
        using "1.IH" [OF _ g refl, of out r', simplified] True loop rl(1) rest_turns [OF Cons] oldest_group(2) [OF Cons] by simp
      then obtain k where k: "out = drain ?h (?h + k) ?ms'" "rp_removed r' = rp_removed ?r + k" "rp_start r' = ?h" "?h + k \<le> length ?ms'"
        using rl(1) by (metis (full_types))
      have "drain ?h (?h + k) ?ms' = drain ?h (?h + (length b + k)) ms"
        using arg_cong [OF ms, of "drop (?h + (length b + k))"] arg_cong [OF ms, of "take ?h"] by (simp add: drain_def)
      moreover have "?h + (length b + k) \<le> length ms" using k(4) arg_cong [OF ms, of length] by simp
      ultimately show ?thesis using k rl b by (intro exI [of _ "length b + k"]) auto
    qed
  qed
qed

section \<open>Lemmas: orphans\<close>

abbreviation tool_msg :: "Message \<Rightarrow> bool" where
  "tool_msg m \<equiv> msg_role m = lit ''tool''"

text \<open>One pass: a tool message stays if the last message kept is a call or a result.\<close>

fun keep_tools :: "bool \<Rightarrow> Message list \<Rightarrow> Message list" where
  "keep_tools opened [] = []"
| "keep_tools opened (m # ms) =
     (if tool_msg m then (if opened then m # keep_tools True ms else keep_tools False ms) else m # keep_tools (opens_tools m) ms)"

fun open_after :: "bool \<Rightarrow> Message list \<Rightarrow> bool" where
  "open_after opened [] = opened"
| "open_after opened (m # ms) = open_after (if tool_msg m then opened else opens_tools m) ms"

fun no_orphans :: "bool \<Rightarrow> Message list \<Rightarrow> bool" where
  "no_orphans opened [] = True"
| "no_orphans opened (m # ms) \<longleftrightarrow> (tool_msg m \<longrightarrow> opened) \<and> no_orphans (opens_tools m) ms"

lemma tool_opens [simp]: "tool_msg m \<Longrightarrow> opens_tools m"
  by (simp add: opens_tools_def)

lemma keep_tools_snoc:
  "keep_tools opened (ms @ [m]) = keep_tools opened ms @ (if tool_msg m \<and> \<not> open_after opened ms then [] else [m])"
  by (induction opened ms rule: keep_tools.induct) auto

lemma open_after_snoc: "open_after opened (ms @ [m]) = (if tool_msg m then open_after opened ms else opens_tools m)"
  by (induction opened ms rule: open_after.induct) auto

lemma keep_tools_clean: "no_orphans opened (keep_tools opened ms)"
  by (induction opened ms rule: keep_tools.induct) auto

lemma keep_tools_id: "no_orphans opened ms \<Longrightarrow> keep_tools opened ms = ms"
  by (induction opened ms rule: no_orphans.induct) auto

lemma keep_tools_others: "filter (\<lambda>m. \<not> tool_msg m) (keep_tools opened ms) = filter (\<lambda>m. \<not> tool_msg m) ms"
  by (induction opened ms rule: keep_tools.induct) auto

lemma keep_tools_length: "length (keep_tools opened ms) \<le> length ms"
  by (induction opened ms rule: keep_tools.induct) auto

lemma prev_index_le: "prev_index keep p \<le> p"
  by (induction p) auto

lemma prev_index_update: "p < i \<Longrightarrow> prev_index (keep[i := x]) p = prev_index keep p"
  by (induction p) auto

lemma prev_index_here: "keep ! p \<Longrightarrow> prev_index keep p = p"
  by (cases p) auto

abbreviation kept_by :: "Message list \<Rightarrow> bool list \<Rightarrow> Message list" where
  "kept_by ms keep \<equiv> map fst (filter snd (zip ms keep))"

definition scan_inv :: "Message list \<Rightarrow> nat \<Rightarrow> bool list \<Rightarrow> bool" where
  "scan_inv ms i keep \<longleftrightarrow> length keep = length ms \<and> (\<forall>j. i \<le> j \<and> j < length ms \<longrightarrow> keep ! j) \<and>
     kept_by (take i ms) (take i keep) = keep_tools False (take i ms) \<and>
     (0 < i \<longrightarrow> (keep ! prev_index keep (i - 1) \<and> opens_tools (ms ! prev_index keep (i - 1))) = open_after False (take i ms))"

lemma scan_inv_step:
  assumes inv: "scan_inv ms i keep" and i: "i < length ms"
  shows "scan_inv ms (Suc i) (orphan_step ms keep i)"
proof -
  let ?open = "open_after False (take i ms)"
  have ms: "take (Suc i) ms = take i ms @ [ms ! i]" using i by (rule take_Suc_conv_app_nth)
  have len: "length keep = length ms" and ki: "keep ! i" and old: "kept_by (take i ms) (take i keep) = keep_tools False (take i ms)"
    using inv i by (simp_all add: scan_inv_def)
  have kept: "kept_by (take (Suc i) ms) (take (Suc i) k) = keep_tools False (take i ms) @ (if k ! i then [ms ! i] else [])"
    if "length k = length ms" "take i k = take i keep" for k
  proof -
    have "length (take i ms) = length (take i keep)" using len by simp
    then show ?thesis using that i old by (simp add: take_Suc_conv_app_nth)
  qed
  have valid: "(i > 0 \<and> (let prev = prev_index keep (i - 1) in keep ! prev \<and> opens_tools (ms ! prev))) = ?open"
    using inv by (cases "i = 0") (simp_all add: scan_inv_def Let_def)
  show ?thesis
  proof (cases "tool_msg (ms ! i) \<and> \<not> ?open")
    case False
    then have step: "orphan_step ms keep i = keep" using valid by (auto simp: orphan_step_def)
    then show ?thesis
      using inv False i ki kept [of keep] ms len prev_index_here [of keep i]
      by (auto simp: scan_inv_def keep_tools_snoc open_after_snoc)
  next
    case True
    then have step: "orphan_step ms keep i = keep[i := False]" using valid by (auto simp: orphan_step_def)
    have k: "kept_by (take (Suc i) ms) (take (Suc i) (keep[i := False])) = keep_tools False (take (Suc i) ms)"
      using kept [of "keep[i := False]"] True len i ms by (simp add: keep_tools_snoc)
    have "((keep[i := False]) ! prev_index (keep[i := False]) i \<and> opens_tools (ms ! prev_index (keep[i := False]) i)) = ?open"
    proof (cases i)
      case 0
      then show ?thesis using True len i by simp
    next
      case (Suc p)
      then have "prev_index (keep[i := False]) i = prev_index keep p" using len i by (simp add: prev_index_update)
      moreover have "prev_index keep p \<noteq> i" using prev_index_le [of keep p] Suc by simp
      ultimately show ?thesis using inv Suc by (simp add: scan_inv_def)
    qed
    then show ?thesis using step inv k True ms by (simp add: scan_inv_def open_after_snoc)
  qed
qed

lemma scan_inv_run: "i \<le> length ms \<Longrightarrow> scan_inv ms i (foldl (orphan_step ms) (replicate (length ms) True) [0 ..< i])"
proof (induction i)
  case (Suc i)
  then show ?case using scan_inv_step [of ms i] by simp
qed (simp add: scan_inv_def)

lemma drop_orphans_eq: "drop_orphan_tool_messages ms = (keep_tools False ms, length ms - length (keep_tools False ms))"
proof -
  define keep where "keep = foldl (orphan_step ms) (replicate (length ms) True) [0 ..< length ms]"
  have inv: "scan_inv ms (length ms) keep" using scan_inv_run [of "length ms" ms] by (simp add: keep_def)
  then have "length keep = length ms" "kept_by ms (take (length ms) keep) = keep_tools False ms"
    by (simp add: scan_inv_def) (use inv in \<open>unfold scan_inv_def, metis take_all order_refl\<close>)
  then have "kept_by ms keep = keep_tools False ms" by simp
  moreover have "drop_orphan_tool_messages ms = (kept_by ms keep, length ms - length (kept_by ms keep))"
    by (simp add: drop_orphan_tool_messages_def keep_def Let_def)
  ultimately show ?thesis by simp
qed

text \<open>Whole turns and orphans: a turn starts with a user message, so it does not depend on what is before it.\<close>

lemma counts_not_tool: "counts m \<Longrightarrow> \<not> tool_msg m"
  by (auto simp: user_message_counts_for_branch_truncation_def)

lemma no_orphans_append: "no_orphans opened (xs @ ys) \<longleftrightarrow> no_orphans opened xs \<and> no_orphans (if xs = [] then opened else opens_tools (last xs)) ys"
  by (induction opened xs rule: no_orphans.induct) auto

lemma no_orphans_blocks: "list_all is_block bs \<Longrightarrow> no_orphans opened (concat bs) \<longleftrightarrow> list_all (no_orphans False) bs"
proof (induction bs arbitrary: opened)
  case (Cons b bs)
  then obtain m r where b: "b = m # r" "counts m" by (auto elim: is_block_cases)
  then have "\<not> tool_msg m" using counts_not_tool by blast
  then show ?case using Cons b by (simp add: no_orphans_append)
qed simp

lemma no_orphans_suffix:
  assumes "no_orphans opened ms"
  shows "no_orphans opened (head_of ms @ concat (drop j (turns_of ms)))"
proof -
  have bs: "list_all is_block (turns_of ms)" by (rule turns_blocks)
  then have drop: "list_all is_block (drop j (turns_of ms))" by (auto simp: list_all_iff dest: in_set_dropD)
  have "no_orphans opened (head_of ms @ concat (turns_of ms))" using assms by (simp add: head_turns)
  then have "no_orphans opened (head_of ms)" "list_all (no_orphans False) (turns_of ms)"
    using no_orphans_blocks [OF bs] by (simp_all add: no_orphans_append)
  then show ?thesis using no_orphans_blocks [OF drop] by (auto simp: no_orphans_append list_all_iff dest: in_set_dropD)
qed

section \<open>Lemmas: the stages together\<close>

text \<open>One list is what is left of another after whole turns, the oldest first, were removed, but not the newest.\<close>

definition newer_turns :: "Message list \<Rightarrow> Message list \<Rightarrow> bool" where
  "newer_turns ms out \<longleftrightarrow> (\<exists>j. out = head_of ms @ concat (drop j (turns_of ms)) \<and> j < length (turns_of ms))"

lemma newer_turns_refl: "turns_of ms \<noteq> [] \<Longrightarrow> newer_turns ms ms"
  unfolding newer_turns_def by (intro exI [of _ 0]) (simp add: head_turns)

lemma newer_turns_parts:
  assumes "out = head_of ms @ concat (drop j (turns_of ms))"
  shows "head_of out = head_of ms" "turns_of out = drop j (turns_of ms)"
  using turns_unique [OF head_quiet [of ms], of "drop j (turns_of ms)"] turns_blocks [of ms] assms
  by (auto simp: list_all_iff dest: in_set_dropD)

lemma newer_turns_trans:
  assumes "newer_turns a b" "newer_turns b c"
  shows "newer_turns a c"
proof -
  obtain i where i: "b = head_of a @ concat (drop i (turns_of a))" "i < length (turns_of a)"
    using assms(1) by (auto simp: newer_turns_def)
  obtain j where j: "c = head_of b @ concat (drop j (turns_of b))" "j < length (turns_of b)"
    using assms(2) by (auto simp: newer_turns_def)
  have "c = head_of a @ concat (drop (j + i) (turns_of a))" "j + i < length (turns_of a)"
    using j i(2) newer_turns_parts [OF i(1)] by simp_all
  then show ?thesis unfolding newer_turns_def by blast
qed

lemma newer_turns_ne: "newer_turns a b \<Longrightarrow> turns_of b \<noteq> []"
proof -
  assume "newer_turns a b"
  then obtain j where j: "b = head_of a @ concat (drop j (turns_of a))" "j < length (turns_of a)" by (auto simp: newer_turns_def)
  show ?thesis unfolding newer_turns_parts(2) [OF j(1)] using j(2) by simp
qed

lemma newer_turns_shed: "turns_of ms \<noteq> [] \<Longrightarrow> newer_turns ms (head_of ms @ concat (shed fits (turns_of ms)))"
  using shed_drop [of fits "turns_of ms"] unfolding newer_turns_def by force

lemma count_trim_sheds:
  assumes "turns_of ms \<noteq> []"
  shows "fst (trim_messages_by_count ms n) =
    (if n = 0 then ms
     else head_of ms @ concat (shed (\<lambda>bs. length (head_of ms @ concat bs) \<le> n + (if msg_role (ms ! 0) = lit ''system'' then 1 else 0)) (turns_of ms)))"
proof (cases "n = 0")
  case False
  let ?max = "n + (if msg_role (ms ! 0) = lit ''system'' then 1 else 0)"
  obtain out r where l: "trim_count_loop ?max ms no_removal = (out, r)" by fastforce
  have out: "out = head_of ms @ concat (shed (\<lambda>bs. length (head_of ms @ concat bs) \<le> ?max) (turns_of ms))"
    using count_loop_sheds [of ?max ms no_removal] l by simp
  have "turns_of out \<noteq> []" unfolding out by (rule newer_turns_ne [OF newer_turns_shed [OF assms]])
  then have "conversation_turn_groups out \<noteq> []" by (simp add: groups_eq)
  moreover have "ms \<noteq> []" using assms by (auto simp: turns_of_def)
  ultimately have "fst (trim_messages_by_count ms n) = out"
    using False l by (simp add: trim_messages_by_count_def Let_def)
  then show ?thesis using out False by simp
qed (simp add: trim_messages_by_count_def)

lemma tail_shorter: "turns_of ms = b # bs \<Longrightarrow> length (head_of ms @ concat bs) < length ms"
  using drain_shrinks oldest_group(2) by metis

lemma char_trim_sheds:
  assumes "turns_of ms \<noteq> []"
  shows "fst (trim_messages_by_char_budget ms budget k) =
    (if budget = 0 then ms
     else head_of ms @ concat (shed (\<lambda>bs. estimate_non_system_chars (head_of ms @ concat bs) \<le> budget \<or>
       length (head_of ms @ concat (tl bs)) < 1 + k) (turns_of ms)))" (is "_ = (if _ then _ else _ @ concat (shed ?fits _))")
proof -
  obtain b bs where t: "turns_of ms = b # bs" using assms by (cases "turns_of ms") auto
  have id: "head_of ms @ concat (shed ?fits (turns_of ms)) = ms" if "?fits (turns_of ms)"
  proof -
    have "shed ?fits (turns_of ms) = turns_of ms" using that by (intro shed_id) blast
    then show ?thesis using head_turns [of ms] by (simp only:)
  qed
  have g: "conversation_turn_groups ms \<noteq> []" using assms by (simp add: groups_eq)
  consider "budget = 0" | "budget \<noteq> 0" "length ms \<le> 1 + k \<or> estimate_non_system_chars ms \<le> budget"
    | "budget \<noteq> 0" "length ms > 1 + k" "estimate_non_system_chars ms > budget" by linarith
  then show ?thesis
  proof cases
    case 2
    then have "?fits (turns_of ms)" using tail_shorter [OF t] t head_turns [of ms] by auto
    then show ?thesis using 2 id by (auto simp: trim_messages_by_char_budget_def Let_def)
  next
    case 3
    then have "fst (trim_messages_by_char_budget ms budget k) =
        fst (trim_complete_turn_groups_by_char_budget ms budget (1 + k) no_removal)"
      using g by (simp add: trim_messages_by_char_budget_def Let_def)
    then show ?thesis using char_loop_sheds [of ?fits ms budget "1 + k" no_removal] 3 by simp
  qed (simp add: trim_messages_by_char_budget_def)
qed

lemma trims_newer:
  assumes "turns_of ms \<noteq> []"
  shows "newer_turns ms (fst (trim_messages_by_count ms n))" "newer_turns ms (fst (trim_messages_by_char_budget ms budget k))"
  using newer_turns_shed [OF assms] newer_turns_refl [OF assms] by (simp_all add: count_trim_sheds [OF assms] char_trim_sheds [OF assms])

text \<open>Compression changes the text of tool messages and nothing else.\<close>

abbreviation squeeze :: "json_lib \<Rightarrow> nat \<Rightarrow> Message \<Rightarrow> Message" where
  "squeeze jl n m \<equiv> fst (compress_tool_message jl (max n 256) m)"

lemma squeeze_other: "\<not> tool_msg m \<Longrightarrow> squeeze jl n m = m"
  by (simp add: compress_tool_message_def)

lemma squeeze_role [simp]: "msg_role (squeeze jl n m) = msg_role m"
  by (simp add: compress_tool_message_def split: option.split MessageContent.split)

lemma squeeze_counts [simp]: "counts (squeeze jl n m) = counts m"
  using squeeze_other [of m jl n] squeeze_role [of jl n m]
  by (cases "tool_msg m") (simp_all add: user_message_counts_for_branch_truncation_def)

lemma compress_contents_eq: "fst (compress_tool_message_contents jl ms n) = map (squeeze jl n) ms"
  by (simp add: compress_tool_message_contents_def Let_def)

lemma squeeze_others: "filter (\<lambda>m. \<not> tool_msg m) (map (squeeze jl n) ms) = filter (\<lambda>m. \<not> tool_msg m) ms"
  by (induction ms) (auto simp: squeeze_other)

lemma squeeze_turns:
  "head_of (map (squeeze jl n) ms) = map (squeeze jl n) (head_of ms)" "turns_of (map (squeeze jl n) ms) = map (map (squeeze jl n)) (turns_of ms)"
proof -
  let ?f = "squeeze jl n"
  have ms: "map ?f ms = map ?f (head_of ms) @ concat (map (map ?f) (turns_of ms))"
    by (metis head_turns map_append map_concat)
  have "quiet (map ?f (head_of ms))" using head_quiet [of ms] by (simp add: list.pred_map comp_def)
  moreover have "list_all is_block (map (map ?f) (turns_of ms))"
    using turns_blocks [of ms] by (auto simp: list_all_iff is_block_def hd_map map_tl [symmetric] simp del: map_tl)
  ultimately show "head_of (map ?f ms) = map ?f (head_of ms)" "turns_of (map ?f ms) = map (map ?f) (turns_of ms)"
    unfolding ms by (rule turns_unique)+
qed

lemma newer_turns_squeeze:
  assumes "newer_turns (map (squeeze jl n) ms) out"
  shows "\<exists>out'. newer_turns ms out' \<and> out = map (squeeze jl n) out'"
proof -
  obtain j where j: "out = map (squeeze jl n) (head_of ms) @ concat (drop j (map (map (squeeze jl n)) (turns_of ms)))" "j < length (turns_of ms)"
    using assms by (auto simp: newer_turns_def squeeze_turns)
  then have "out = map (squeeze jl n) (head_of ms @ concat (drop j (turns_of ms)))" by (simp add: drop_map map_concat)
  then show ?thesis using j(2) unfolding newer_turns_def by blast
qed

lemma squeeze_opens [simp]: "opens_tools (squeeze jl n m) = opens_tools m"
  using squeeze_other [of m jl n] by (cases "tool_msg m") simp_all

lemma squeeze_no_orphans: "no_orphans opened (map (squeeze jl n) ms) = no_orphans opened ms"
  by (induction opened ms rule: no_orphans.induct) auto

lemma squeeze_roles: "map msg_role (map (squeeze jl n) ms) = map msg_role ms"
  by simp

text \<open>What reaches the orphan scan.\<close>

definition cut_conversation :: "json_lib \<Rightarrow> MessagePipelineConfig \<Rightarrow> Message list \<Rightarrow> Message list" where
  "cut_conversation jl cfg ms0 =
     (let ms2 = fst (trim_messages_by_count (map (squeeze jl (tool_message_max_chars cfg)) ms0) (max_message_history cfg)) in
      if context_char_budget cfg > 0
      then map (squeeze jl (tool_message_max_chars cfg))
             (fst (trim_messages_by_char_budget ms2 (context_char_budget cfg) (context_min_messages_after_system cfg)))
      else ms2)"

lemma pipeline_out:
  assumes "apply_session_sync_pipeline_with_config jl ctr ms cfg rep = (out, delta, ctr', rep')"
  defines "kept \<equiv> keep_tools False (cut_conversation jl cfg (filter (\<lambda>m. \<not> is_parked m) ms))"
  shows "out = kept @ filter is_parked ms \<and> n_before delta = length (filter (\<lambda>m. \<not> is_parked m) ms) \<and> n_after delta = length kept"
  using assms(1) unfolding kept_def cut_conversation_def apply_session_sync_pipeline_with_config_def take_chat_timeline_markers_def
    compress_contents_eq [symmetric]
  by (auto simp: drop_orphans_eq Let_def split: prod.splits if_splits)

lemma cut_newer:
  assumes "turns_of ms0 \<noteq> []"
  shows "\<exists>ms'. newer_turns ms0 ms' \<and> filter (\<lambda>m. \<not> tool_msg m) (cut_conversation jl cfg ms0) = filter (\<lambda>m. \<not> tool_msg m) ms' \<and>
    map msg_role (cut_conversation jl cfg ms0) = map msg_role ms' \<and> (no_orphans False ms' \<longrightarrow> no_orphans False (cut_conversation jl cfg ms0))"
proof -
  let ?f = "squeeze jl (tool_message_max_chars cfg)"
  define ms2 where "ms2 = fst (trim_messages_by_count (map ?f ms0) (max_message_history cfg))"
  define ms3 where "ms3 = (if context_char_budget cfg > 0
      then fst (trim_messages_by_char_budget ms2 (context_char_budget cfg) (context_min_messages_after_system cfg)) else ms2)"
  have "turns_of (map ?f ms0) \<noteq> []" using assms by (simp add: squeeze_turns)
  then have "newer_turns (map ?f ms0) ms2" unfolding ms2_def by (rule trims_newer)
  moreover from this have "newer_turns ms2 ms3" unfolding ms3_def using trims_newer(2) newer_turns_refl newer_turns_ne by simp
  ultimately have "newer_turns (map ?f ms0) ms3" by (rule newer_turns_trans)
  then obtain ms' where ms': "newer_turns ms0 ms'" "ms3 = map ?f ms'" using newer_turns_squeeze by blast
  have cut: "cut_conversation jl cfg ms0 = (if context_char_budget cfg > 0 then map ?f ms3 else ms3)"
    by (simp add: cut_conversation_def Let_def ms3_def ms2_def)
  have "filter (\<lambda>m. \<not> tool_msg m) (cut_conversation jl cfg ms0) = filter (\<lambda>m. \<not> tool_msg m) ms'"
    unfolding cut ms'(2) by (simp only: squeeze_others split: if_split) simp
  moreover have "map msg_role (cut_conversation jl cfg ms0) = map msg_role ms'" unfolding cut ms'(2) by simp
  moreover have "no_orphans False (cut_conversation jl cfg ms0) = no_orphans False ms'"
    unfolding cut ms'(2) by (simp only: squeeze_no_orphans split: if_split) simp
  ultimately show ?thesis using ms'(1) by blast
qed

lemma newer_no_orphans: "newer_turns ms ms' \<Longrightarrow> no_orphans opened ms \<Longrightarrow> no_orphans opened ms'"
  unfolding newer_turns_def using no_orphans_suffix by blast

lemma ungrouped_count_le: "ungrouped_count budget chars ms \<le> length ms"
  by (induction budget chars ms rule: ungrouped_count.induct) auto

lemma drain_length: "s \<le> e \<Longrightarrow> e \<le> length xs \<Longrightarrow> length (drain s e xs) + (e - s) = length xs"
  by (simp add: drain_def)

section \<open>Properties\<close>

text \<open>
  C19: Cutting a conversation to its budget refines the simple rule: shed the oldest turns one at a time until the rest fits, but
  keep the newest.  For the limit on messages "fits" means the number of messages with the system head; for the
  character budget it means the estimate, or that shedding one more would go below the minimum length.
\<close>

theorem trimming_is_shedding:
  assumes "turns_of ms \<noteq> []"
  shows "fst (trim_messages_by_count ms n) =
      (if n = 0 then ms
       else head_of ms @ concat (shed (\<lambda>bs. length (head_of ms @ concat bs) \<le> n + (if msg_role (ms ! 0) = lit ''system'' then 1 else 0))
         (turns_of ms))) \<and>
    fst (trim_messages_by_char_budget ms budget k) =
      (if budget = 0 then ms
       else head_of ms @ concat (shed (\<lambda>bs. estimate_non_system_chars (head_of ms @ concat bs) \<le> budget \<or>
         length (head_of ms @ concat (tl bs)) < 1 + k) (turns_of ms)))"
  using count_trim_sheds [OF assms] char_trim_sheds [OF assms] by blast

definition ask :: Message where
  "ask = user_only (lit ''a'')"

lemma ask_counts [simp]: "counts ask"
  by (simp add: ask_def user_only_def plain_message_def user_message_counts_for_branch_truncation_def is_server_injected_user_message_def
      is_server_injected_user_by_name_def user_message_should_hide_for_chat_display_def is_plan_rewrite_injected_user_content_def
      str_contains_def starts_with_def trim_start_def is_whitespace_def CONTEXT_SUMMARY_INJECTION_CONTENT_PREFIX_def lit_Cons)

lemma ask_turns: "head_of (replicate k ask) = []" "turns_of (replicate k ask) = replicate k [ask]"
proof -
  have eq: "concat (replicate k [ask]) = replicate k ask" by (induction k) simp_all
  have "list_all is_block (replicate k [ask])" by (simp add: list_all_iff is_block_def)
  then show "head_of (replicate k ask) = []" "turns_of (replicate k ask) = replicate k [ask]"
    using turns_unique [of "[]" "replicate k [ask]"] by (simp_all add: eq)
qed

lemma ask_role: "msg_role ask \<noteq> lit ''system''" "msg_role ask \<noteq> lit ''tool''"
  by (simp_all add: ask_def user_only_def plain_message_def)

theorem trimming_is_shedding_witness: "fst (trim_messages_by_count [ask, ask, ask] 2) = [ask, ask]"
proof -
  have t: "turns_of [ask, ask, ask] = [[ask], [ask], [ask]]" "head_of [ask, ask, ask] = []"
    using ask_turns [of 3] by (simp_all add: numeral_eq_Suc)
  then show ?thesis using trimming_is_shedding [of "[ask, ask, ask]" 2] ask_role by simp
qed


definition small_cfg :: MessagePipelineConfig where
  "small_cfg = \<lparr>tool_message_max_chars = 256, max_message_history = 2, context_char_budget = 0, context_min_messages_after_system = 0\<rparr>"

definition zero_counters :: MessagePipelineCounters where
  "zero_counters = \<lparr>trim_count_hits = 0, trim_char_budget_hits = 0, tool_compress_hits = 0, orphan_tool_drops = 0\<rparr>"


text \<open>
  The range reported for the character budget is exact: the result is the conversation without that range, on every branch,
  also after several rounds and for histories without any message of the user.
\<close>

theorem char_range_exact:
  "case trim_messages_by_char_budget ms budget k of
     (out, r) \<Rightarrow> out = drain (rp_start r) (rp_end r) ms \<and> rp_removed r + length out = length ms"
proof -
  have none: "drain s s ms = ms" for s by (simp add: drain_def)
  consider (same) "trim_messages_by_char_budget ms budget k = (ms, no_removal)"
    | (single) "length ms > 1" "trim_messages_by_char_budget ms budget k = trim_ungrouped_messages_by_char_budget ms budget (1 + k)"
    | (groups) "trim_messages_by_char_budget ms budget k = trim_complete_turn_groups_by_char_budget ms budget (1 + k) no_removal"
  proof (cases "budget = 0 \<or> length ms \<le> 1 \<or> length ms \<le> 1 + k \<or> estimate_non_system_chars ms \<le> budget")
    case True
    then have "trim_messages_by_char_budget ms budget k = (ms, no_removal)" by (auto simp: trim_messages_by_char_budget_def Let_def)
    then show ?thesis by (rule same)
  next
    case False
    then show ?thesis using single groups
      by (cases "conversation_turn_groups ms = []") (simp_all add: trim_messages_by_char_budget_def Let_def not_le)
  qed
  then show ?thesis
  proof cases
    case same
    then show ?thesis using none by (simp add: no_removal_def rp_end_def)
  next
    case single
    define s where "s = (if msg_role (ms ! 0) = lit ''system'' then 1 else 0 :: nat)"
    define c where "c = ungrouped_count budget (estimate_non_system_chars ms) (take (length ms - (1 + k)) (drop s ms))"
    have "c \<le> length ms - s" using ungrouped_count_le [of budget "estimate_non_system_chars ms" "take (length ms - (1 + k)) (drop s ms)"]
      unfolding c_def by simp
    then have le: "s + c \<le> length ms" using single(1) by (auto simp: s_def)
    have "trim_messages_by_char_budget ms budget k = (drain s (s + c) ms, \<lparr>rp_start = s, rp_removed = c\<rparr>)"
      using none [of s] by (auto simp: single(2) trim_ungrouped_messages_by_char_budget_def Let_def s_def c_def)
    then show ?thesis using drain_length [of s "s + c" ms] le by (simp add: rp_end_def)
  next
    case groups
    obtain out r where o: "trim_complete_turn_groups_by_char_budget ms budget (1 + k) no_removal = (out, r)" by fastforce
    obtain j where j: "out = drain (length (head_of ms)) (length (head_of ms) + j) ms" "rp_removed r = j" "length (head_of ms) + j \<le> length ms"
      "j = 0 \<longrightarrow> r = no_removal" "j \<noteq> 0 \<longrightarrow> rp_start r = length (head_of ms)"
      using char_loop_range [OF o] by (auto simp: no_removal_def)
    have "trim_messages_by_char_budget ms budget k = (out, r)" using groups o by simp
    moreover have "out = drain (rp_start r) (rp_end r) ms \<and> rp_removed r + length out = length ms"
      using j drain_length [of "length (head_of ms)" "length (head_of ms) + j" ms] none
      by (cases "j = 0") (simp_all add: rp_end_def no_removal_def)
    ultimately show ?thesis by auto
  qed
qed

text \<open>
  The range reported for the limit on messages is not: each step reports the oldest group at the same start, and \<^verbatim>\<open>union\<close> takes
  both ranges for the same coordinates, so after two groups of one message the range says one.
\<close>

lemma count_range_understated:
  "trim_messages_by_count [ask, ask, ask] 1 = ([ask], \<lparr>rp_start = 0, rp_removed = 1\<rparr>)"
proof -
  have t: "turns_of [ask, ask, ask] = [[ask], [ask], [ask]]" "head_of [ask, ask, ask] = []"
    "turns_of [ask, ask] = [[ask], [ask]]" "head_of [ask, ask] = []"
    using ask_turns [of 3] ask_turns [of 2] by (simp_all add: numeral_eq_Suc)
  have "trim_count_loop 1 [ask, ask, ask] no_removal = ([ask], \<lparr>rp_start = 0, rp_removed = 1\<rparr>)"
    by (simp add: trim_count_loop.simps remove_oldest_eq t rp_is_empty_def rp_union_def rp_end_def no_removal_def Let_def)
  then show ?thesis using ask_role by (simp add: trim_messages_by_count_def)
qed

text \<open>
  The orphan scan with its vector of flags and its backward search computes the one-pass filter that keeps a tool
  message exactly when the last message kept is a tool message or an assistant with calls.  Its result has no orphan, only tool
  messages are dropped, the count is right, and a conversation without orphans is unchanged.
\<close>

theorem orphan_scan_exact:
  "drop_orphan_tool_messages ms = (keep_tools False ms, length ms - length (keep_tools False ms)) \<and>
   no_orphans False (fst (drop_orphan_tool_messages ms)) \<and>
   filter (\<lambda>m. \<not> tool_msg m) (fst (drop_orphan_tool_messages ms)) = filter (\<lambda>m. \<not> tool_msg m) ms \<and>
   (no_orphans False ms \<longleftrightarrow> fst (drop_orphan_tool_messages ms) = ms)"
  using keep_tools_clean keep_tools_others keep_tools_id by (simp add: drop_orphans_eq) metis
end
