(* ===== verification/Turn_Budget.thy ===== *)
theory Turn_Budget
  imports Context_Pipeline
begin

text \<open>
  The budget of one agent turn (\<^verbatim>\<open>cm_agent/turn_budget.rs\<close>), its effect on how tightly the context is
  trimmed (\<^verbatim>\<open>cm_agent/context_budget_pressure.rs\<close>, the budget methods of \<^verbatim>\<open>AgentConfig\<close>, the
  synchronous half of \<^verbatim>\<open>agent/context_window.rs\<close>), and the gate in front of every model call
  (\<^verbatim>\<open>complete_chat_retrying\<close> of \<^verbatim>\<open>llm/mod.rs\<close>).

  The counter is shared: several tasks of one turn check it and record into it, and a check and the
  record that follows the call are separate atomic operations.  \<open>budget_event\<close> is that interleaving,
  an event at a time, with at most \<open>k\<close> calls in flight.  Atomics wrap at their width
  (\<^verbatim>\<open>AtomicU32\<close>: \<open>2 ^ 32\<close>, \<^verbatim>\<open>AtomicUsize\<close>: \<open>2 ^ 64\<close>).  The clock is an argument, in nanoseconds.  What the
  model service answers and what the tokenizer estimates are arguments too.

  Shown here: interleaved calls exceed the configured number by less than the number of tasks and a single task never
  exceeds it; the usage percentage reads 100 exactly when the gate refuses for calls or tokens; the
  degradation flag is sticky; the budgets derived from the context window and from the pressure stay in their bounds.
\<close>

section \<open>Configuration\<close>

record TurnBudgetConfig =
  max_turn_duration_seconds :: nat
  max_turn_tokens :: nat
  max_llm_calls_per_turn :: nat
  budget_degradation_enabled :: bool
  budget_degradation_threshold_percent :: nat

record ContextPipelineConfig =
  cpc_context_char_budget :: nat
  cpc_context_min_messages_after_system :: nat
  cpc_context_token_trigger_percent :: nat
  cpc_context_token_target_percent :: nat
  cpc_context_token_safety_margin_tokens :: nat
  cpc_context_summary_trigger_chars :: nat
  cpc_context_summary_tail_messages :: nat
  cpc_context_summary_max_tokens :: nat
  cpc_context_summary_transcript_max_chars :: nat

text \<open>The fields of \<^verbatim>\<open>AgentConfig\<close> which the context and budget code reads.\<close>

record AgentContextConfig =
  ac_context_pipeline :: ContextPipelineConfig
  ac_llm_context_tokens :: nat
  ac_max_tokens :: nat
  ac_tool_message_max_chars :: nat
  ac_max_message_history :: nat
  ac_turn_budget :: TurnBudgetConfig

definition DEFAULT_MAX_LLM_CALLS_PER_TURN :: nat where
  "DEFAULT_MAX_LLM_CALLS_PER_TURN = 500"

definition DEFAULT_MAX_OUTER_LOOP_ITERATIONS :: nat where
  "DEFAULT_MAX_OUTER_LOOP_ITERATIONS = 500"

definition effective_max_llm_calls_per_turn :: "TurnBudgetConfig \<Rightarrow> nat" where
  "effective_max_llm_calls_per_turn cfg =
     (if max_llm_calls_per_turn cfg = 0 then DEFAULT_MAX_LLM_CALLS_PER_TURN else max_llm_calls_per_turn cfg)"

definition clamp :: "nat \<Rightarrow> nat \<Rightarrow> nat \<Rightarrow> nat" where
  "clamp lo hi n = (if n < lo then lo else if hi < n then hi else n)"

text \<open>
  The environment variables as a lookup; \<open>parse_bool\<close> is the reader of boolean-like texts.
\<close>

definition parse_env :: "(ustring \<Rightarrow> ustring option) \<Rightarrow> nat \<Rightarrow> ustring \<Rightarrow> nat option" where
  "parse_env var bits key = and_then (var key) (\<lambda>s. parse_unsigned (2 ^ bits - 1) (trim s))"

definition finalize_section_turn_budget :: "(ustring \<Rightarrow> ustring option) \<Rightarrow> (ustring \<Rightarrow> bool option) \<Rightarrow> TurnBudgetConfig" where
  "finalize_section_turn_budget var parse_bool =
     \<lparr>max_turn_duration_seconds = unwrap_or (parse_env var 64 (lit ''CM_MAX_TURN_DURATION_SECONDS'')) 3600,
      max_turn_tokens = unwrap_or (parse_env var 64 (lit ''CM_MAX_TURN_TOKENS'')) 0,
      max_llm_calls_per_turn = unwrap_or (parse_env var 32 (lit ''CM_MAX_LLM_CALLS_PER_TURN'')) 0,
      budget_degradation_enabled = unwrap_or (and_then (var (lit ''CM_TURN_BUDGET_DEGRADATION_ENABLED'')) parse_bool) False,
      budget_degradation_threshold_percent =
        (case parse_env var 8 (lit ''CM_TURN_BUDGET_DEGRADATION_THRESHOLD_PERCENT'') of Some n \<Rightarrow> clamp 50 99 n | None \<Rightarrow> 80)\<rparr>"

section \<open>The counter\<close>

datatype TurnBudgetDeny = WallClock | LlmCalls | Tokens

definition turn_wall_clock_exceeded :: "nat \<Rightarrow> nat \<Rightarrow> bool" where
  "turn_wall_clock_exceeded limit elapsed_secs \<longleftrightarrow> limit > 0 \<and> elapsed_secs > limit"

definition turn_wall_clock_limit_user_message :: "nat \<Rightarrow> ustring" where
  "turn_wall_clock_limit_user_message n = ([24050, 36798, 21040, 21333, 36718, 22681, 38047, 26102, 38388, 19978, 38480] @ lit '' ('') @ show_nat n @ ([31186] @ lit '')'')"

definition turn_llm_calls_limit_user_message :: "nat \<Rightarrow> ustring" where
  "turn_llm_calls_limit_user_message n = ([24050, 36798, 21040, 21333, 36718] @ lit '' LLM '' @ [35843, 29992, 27425, 25968, 19978, 38480] @ lit '' ('') @ show_nat n @ lit '')''"

definition turn_tokens_limit_user_message :: "nat \<Rightarrow> ustring" where
  "turn_tokens_limit_user_message n = ([24050, 36798, 21040, 21333, 36718] @ lit '' Token '' @ [39044, 31639, 19978, 38480] @ lit '' (~'') @ show_nat n @ lit '')''"

definition turn_outer_loop_iterations_limit_user_message :: "nat \<Rightarrow> ustring" where
  "turn_outer_loop_iterations_limit_user_message n =
     [36798, 21040, 22806, 23618, 24490, 29615, 23433, 20840, 19978, 38480, 65288] @ show_nat n @ (lit '' '' @ [36718, 65289, 65292, 24050, 20013, 27490, 20197, 36991, 20813, 37325, 22797, 24037, 20855, 35843, 29992, 27515, 24490, 29615])"

fun deny_as_str :: "TurnBudgetDeny \<Rightarrow> ustring" where
  "deny_as_str WallClock = lit ''wall_clock''"
| "deny_as_str LlmCalls = lit ''llm_calls''"
| "deny_as_str Tokens = lit ''tokens''"

fun deny_user_message :: "TurnBudgetDeny \<Rightarrow> TurnBudgetConfig \<Rightarrow> ustring" where
  "deny_user_message WallClock cfg = turn_wall_clock_limit_user_message (max_turn_duration_seconds cfg)"
| "deny_user_message LlmCalls cfg = turn_llm_calls_limit_user_message (effective_max_llm_calls_per_turn cfg)"
| "deny_user_message Tokens cfg = turn_tokens_limit_user_message (max_turn_tokens cfg)"

record TurnBudgetCounter =
  started_at :: nat
  llm_calls :: nat
  outer_loop_iterations :: nat
  estimated_tokens :: nat
  degradation_active :: bool

definition new_shared :: "nat \<Rightarrow> TurnBudgetCounter" where
  "new_shared now = \<lparr>started_at = now, llm_calls = 0, outer_loop_iterations = 0, estimated_tokens = 0, degradation_active = False\<rparr>"

definition elapsed_secs :: "nat \<Rightarrow> TurnBudgetCounter \<Rightarrow> nat" where
  "elapsed_secs now b = (now - started_at b) div 10 ^ 9"

definition record_llm_call :: "TurnBudgetCounter \<Rightarrow> TurnBudgetCounter" where
  "record_llm_call b = b\<lparr>llm_calls := (llm_calls b + 1) mod 2 ^ 32\<rparr>"

definition record_estimated_tokens :: "nat \<Rightarrow> TurnBudgetCounter \<Rightarrow> TurnBudgetCounter" where
  "record_estimated_tokens tokens b =
     (if tokens = 0 then b else b\<lparr>estimated_tokens := fetch_add (estimated_tokens b) tokens\<rparr>)"

definition record_outer_loop_iteration :: "TurnBudgetCounter \<Rightarrow> TurnBudgetCounter" where
  "record_outer_loop_iteration b = b\<lparr>outer_loop_iterations := (outer_loop_iterations b + 1) mod 2 ^ 32\<rparr>"

definition wall_clock_exceeded :: "TurnBudgetConfig \<Rightarrow> nat \<Rightarrow> TurnBudgetCounter \<Rightarrow> bool" where
  "wall_clock_exceeded cfg now b \<longleftrightarrow> turn_wall_clock_exceeded (max_turn_duration_seconds cfg) (elapsed_secs now b)"

definition llm_calls_exceeded :: "nat \<Rightarrow> TurnBudgetCounter \<Rightarrow> bool" where
  "llm_calls_exceeded limit b \<longleftrightarrow> limit > 0 \<and> llm_calls b \<ge> limit"

definition tokens_exceeded :: "nat \<Rightarrow> TurnBudgetCounter \<Rightarrow> bool" where
  "tokens_exceeded limit b \<longleftrightarrow> limit > 0 \<and> estimated_tokens b \<ge> limit"

definition outer_loop_iterations_exceeded :: "nat \<Rightarrow> TurnBudgetCounter \<Rightarrow> bool" where
  "outer_loop_iterations_exceeded limit b \<longleftrightarrow> limit > 0 \<and> outer_loop_iterations b \<ge> limit"

text \<open>The product is taken in \<^verbatim>\<open>u64\<close>, the quotient is cut to 100 before it becomes a \<^verbatim>\<open>u8\<close>.\<close>

definition percent_of :: "nat \<Rightarrow> nat \<Rightarrow> nat" where
  "percent_of used limit = (if limit > 0 then min (used * 100 mod 2 ^ 64 div limit) 100 else 0)"

definition budget_usage_percent :: "TurnBudgetConfig \<Rightarrow> TurnBudgetCounter \<Rightarrow> nat" where
  "budget_usage_percent cfg b =
     max (percent_of (llm_calls b) (effective_max_llm_calls_per_turn cfg)) (percent_of (estimated_tokens b) (max_turn_tokens cfg))"

definition maybe_activate_degradation :: "TurnBudgetConfig \<Rightarrow> TurnBudgetCounter \<Rightarrow> TurnBudgetCounter" where
  "maybe_activate_degradation cfg b =
     (if \<not> budget_degradation_enabled cfg then b
      else if budget_usage_percent cfg b \<ge> clamp 50 99 (budget_degradation_threshold_percent cfg)
      then b\<lparr>degradation_active := True\<rparr> else b)"

definition deny_llm_call_if_exhausted :: "TurnBudgetConfig \<Rightarrow> nat \<Rightarrow> TurnBudgetCounter \<Rightarrow> (TurnBudgetDeny, unit) result" where
  "deny_llm_call_if_exhausted cfg now b =
     (if wall_clock_exceeded cfg now b then Inl WallClock
      else if llm_calls_exceeded (effective_max_llm_calls_per_turn cfg) b then Inl LlmCalls
      else if tokens_exceeded (max_turn_tokens cfg) b then Inl Tokens
      else Inr ())"

section \<open>The gate in front of a model call\<close>

text \<open>
  What \<^verbatim>\<open>complete_chat_retrying\<close> does with the budget once the service has answered; \<open>tokens\<close> is the
  tokenizer's estimate for the exchange, \<^verbatim>\<open>None\<close> when it has none.
\<close>

definition settle_llm_call :: "TurnBudgetConfig \<Rightarrow> nat option \<Rightarrow> TurnBudgetCounter \<Rightarrow> TurnBudgetCounter" where
  "settle_llm_call cfg tokens b =
     maybe_activate_degradation cfg
       (case tokens of Some n \<Rightarrow> record_estimated_tokens n (record_llm_call b) | None \<Rightarrow> record_llm_call b)"

datatype 'e LlmCompleteError = LlmCancelled | LlmTransport 'e | LlmOther ustring

text \<open>
  \<open>service\<close> is the answer of the retrying transport, an error or a message with its finish reason.
\<close>

definition complete_chat_retrying :: "TurnBudgetConfig \<Rightarrow> TurnBudgetCounter option \<Rightarrow> nat \<Rightarrow> ('e LlmCompleteError, Message \<times> ustring) result \<Rightarrow>
    (Message \<Rightarrow> nat option) \<Rightarrow> ('e LlmCompleteError, Message \<times> ustring) result \<times> TurnBudgetCounter option" where
  "complete_chat_retrying cfg budget now service estimate =
     (case budget of
        None \<Rightarrow> (service, None)
      | Some b \<Rightarrow>
          (case deny_llm_call_if_exhausted cfg now b of
             Inl deny \<Rightarrow> (Inl (LlmOther (deny_user_message deny cfg)), Some b)
           | Inr _ \<Rightarrow>
               (case service of
                  Inl e \<Rightarrow> (Inl e, Some b)
                | Inr (msg, finish) \<Rightarrow> (Inr (msg, finish), Some (settle_llm_call cfg (estimate msg) b)))))"

section \<open>Interleaved calls\<close>

datatype BudgetEvent = Admit nat | Succeed "nat option" | Fail | Iterate

record budget_run =
  br_counter :: TurnBudgetCounter
  br_in_flight :: nat

fun budget_event :: "TurnBudgetConfig \<Rightarrow> nat \<Rightarrow> budget_run \<Rightarrow> BudgetEvent \<Rightarrow> budget_run" where
  "budget_event cfg k r (Admit now) =
     (if br_in_flight r < k \<and> deny_llm_call_if_exhausted cfg now (br_counter r) = Inr ()
      then r\<lparr>br_in_flight := br_in_flight r + 1\<rparr> else r)"
| "budget_event cfg k r (Succeed tokens) =
     (if br_in_flight r = 0 then r
      else r\<lparr>br_counter := settle_llm_call cfg tokens (br_counter r), br_in_flight := br_in_flight r - 1\<rparr>)"
| "budget_event cfg k r Fail = (if br_in_flight r = 0 then r else r\<lparr>br_in_flight := br_in_flight r - 1\<rparr>)"
| "budget_event cfg k r Iterate = r\<lparr>br_counter := record_outer_loop_iteration (br_counter r)\<rparr>"

section \<open>Pressure on the context\<close>

record ContextBudgetPressure =
  char_budget_scale_percent :: nat
  summary_trigger_cap :: "nat option"

definition no_pressure :: ContextBudgetPressure where
  "no_pressure = \<lparr>char_budget_scale_percent = 100, summary_trigger_cap = None\<rparr>"

definition resolve_context_budget_pressure :: "AgentContextConfig \<Rightarrow> TurnBudgetCounter option \<Rightarrow> ContextBudgetPressure" where
  "resolve_context_budget_pressure cfg turn_budget =
     (case turn_budget of
        None \<Rightarrow> no_pressure
      | Some budget \<Rightarrow>
          (let pct = budget_usage_percent (ac_turn_budget cfg) budget in
           if pct \<ge> 90 then \<lparr>char_budget_scale_percent = 50, summary_trigger_cap = Some 6144\<rparr>
           else if pct \<ge> 70 then \<lparr>char_budget_scale_percent = 70, summary_trigger_cap = Some 12288\<rparr>
           else no_pressure))"

definition approx_non_system_chars_budget_from_context_tokens :: "nat \<Rightarrow> nat \<Rightarrow> nat" where
  "approx_non_system_chars_budget_from_context_tokens context_tokens max_output_tokens =
     (if context_tokens = 0 then 0
      else let ctx = max context_tokens 1024;
               mo = min max_output_tokens (ctx - 256);
               input_tokens = max (ctx - mo) 256 in
           min (input_tokens * 4) 50000000)"

definition effective_context_char_budget_for_pipeline :: "AgentContextConfig \<Rightarrow> nat" where
  "effective_context_char_budget_for_pipeline cfg =
     (let explicit = cpc_context_char_budget (ac_context_pipeline cfg);
          derived = approx_non_system_chars_budget_from_context_tokens (ac_llm_context_tokens cfg) (ac_max_tokens cfg) in
      if explicit = 0 then derived else if derived = 0 then explicit else min explicit derived)"

definition effective_context_summary_trigger_chars :: "AgentContextConfig \<Rightarrow> nat" where
  "effective_context_summary_trigger_chars cfg =
     (let explicit = cpc_context_summary_trigger_chars (ac_context_pipeline cfg) in
      if explicit > 0 then explicit
      else if ac_llm_context_tokens cfg = 0 then 0
      else let cap = approx_non_system_chars_budget_from_context_tokens (ac_llm_context_tokens cfg) (ac_max_tokens cfg) in
           if cap = 0 then 0 else min (max (cap div 2) 8192) cap)"

definition effective_summary_trigger_for_turn :: "AgentContextConfig \<Rightarrow> TurnBudgetCounter option \<Rightarrow> nat" where
  "effective_summary_trigger_for_turn cfg turn_budget =
     (let base = effective_context_summary_trigger_chars cfg in
      if base = 0 then 0
      else case summary_trigger_cap (resolve_context_budget_pressure cfg turn_budget) of
             Some cap \<Rightarrow> min base cap | None \<Rightarrow> base)"

definition scale_message_pipeline_char_budget :: "nat \<Rightarrow> nat \<Rightarrow> nat" where
  "scale_message_pipeline_char_budget base scale_percent =
     (if base = 0 \<or> scale_percent \<ge> 100 then base
      else max (min (base * scale_percent) (2 ^ 64 - 1) div 100) 4096)"

definition pipeline_config_from :: "AgentContextConfig \<Rightarrow> MessagePipelineConfig" where
  "pipeline_config_from cfg =
     \<lparr>tool_message_max_chars = ac_tool_message_max_chars cfg, max_message_history = ac_max_message_history cfg,
      context_char_budget = effective_context_char_budget_for_pipeline cfg,
      context_min_messages_after_system = cpc_context_min_messages_after_system (ac_context_pipeline cfg)\<rparr>"

definition message_pipeline_config_for_turn :: "AgentContextConfig \<Rightarrow> TurnBudgetCounter option \<Rightarrow> MessagePipelineConfig" where
  "message_pipeline_config_for_turn cfg turn_budget =
     (let pipe = pipeline_config_from cfg;
          pipe1 = (if ac_llm_context_tokens cfg > 0 then pipe\<lparr>context_char_budget := 0\<rparr> else pipe);
          scale = char_budget_scale_percent (resolve_context_budget_pressure cfg turn_budget) in
      if scale < 100 then pipe1\<lparr>context_char_budget := scale_message_pipeline_char_budget (context_char_budget pipe1) scale\<rparr> else pipe1)"

definition prepare_messages_before_model_call_sync_with_budget :: "json_lib \<Rightarrow> MessagePipelineCounters \<Rightarrow> Message list \<Rightarrow> AgentContextConfig \<Rightarrow>
    TurnBudgetCounter option \<Rightarrow> bool \<Rightarrow> Message list \<times> MessagePipelineDelta \<times> MessagePipelineCounters" where
  "prepare_messages_before_model_call_sync_with_budget jl ctr messages cfg turn_budget need_report =
     (let (ms, delta, ctr', report) =
            apply_session_sync_pipeline_with_config jl ctr messages (message_pipeline_config_for_turn cfg turn_budget)
              (if need_report then Some [] else None) in
      (ms, delta, ctr'))"

section \<open>Lemmas\<close>

lemma effective_max_pos [simp]: "0 < effective_max_llm_calls_per_turn cfg"
  by (simp add: effective_max_llm_calls_per_turn_def DEFAULT_MAX_LLM_CALLS_PER_TURN_def)

lemma percent_of_le [simp]: "percent_of u l \<le> 100"
  by (simp add: percent_of_def)

lemma percent_of_full:
  assumes "u * 100 < 2 ^ 64"
  shows "percent_of u l = 100 \<longleftrightarrow> l > 0 \<and> u \<ge> l"
proof -
  have "100 \<le> u * 100 div l \<longleftrightarrow> l \<le> u" if "l > 0"
    using that by (simp add: less_eq_div_iff_mult_less_eq mult.commute)
  then show ?thesis using assms by (auto simp: percent_of_def min_def)
qed

lemma percent_of_mono:
  assumes "v * 100 < 2 ^ 64" "u \<le> v"
  shows "percent_of u l \<le> percent_of v l"
proof -
  have "u * 100 div l \<le> v * 100 div l" using assms(2) by (simp add: div_le_mono)
  then show ?thesis using assms by (auto simp: percent_of_def)
qed

lemma settle_llm_call_simps [simp]:
  "llm_calls (settle_llm_call cfg tokens b) = (llm_calls b + 1) mod 2 ^ 32"
  "outer_loop_iterations (settle_llm_call cfg tokens b) = outer_loop_iterations b"
  "degradation_active b \<Longrightarrow> degradation_active (settle_llm_call cfg tokens b)"
  by (auto simp: settle_llm_call_def maybe_activate_degradation_def record_llm_call_def record_estimated_tokens_def
      split: option.splits)

lemma deny_Inr:
  "deny_llm_call_if_exhausted cfg now b = Inr u \<longleftrightarrow>
     \<not> wall_clock_exceeded cfg now b \<and> llm_calls b < effective_max_llm_calls_per_turn cfg \<and> \<not> tokens_exceeded (max_turn_tokens cfg) b"
  by (auto simp: deny_llm_call_if_exhausted_def llm_calls_exceeded_def)

definition budget_inv :: "TurnBudgetConfig \<Rightarrow> nat \<Rightarrow> budget_run \<Rightarrow> bool" where
  "budget_inv cfg k r \<longleftrightarrow>
     br_in_flight r \<le> k \<and> llm_calls (br_counter r) + br_in_flight r < effective_max_llm_calls_per_turn cfg + k"

text \<open>With the bound below the width of the counter, every event keeps the bound.\<close>

lemma budget_event_inv:
  assumes "0 < k" and "effective_max_llm_calls_per_turn cfg + k \<le> 2 ^ 32" and "budget_inv cfg k r"
  shows "budget_inv cfg k (budget_event cfg k r e)"
  using assms
  by (cases e) (auto simp: budget_inv_def deny_Inr record_outer_loop_iteration_def)

interpretation budget: descending_machine "budget_event cfg k" "\<lambda>r. \<not> degradation_active (br_counter r)"
  for cfg k
proof
  fix r :: budget_run and e
  show "(\<not> degradation_active (br_counter (budget_event cfg k r e))) \<le> (\<not> degradation_active (br_counter r))"
    by (cases e) (auto simp: record_outer_loop_iteration_def)
qed

text \<open>Once on, the degradation flag stays on, whatever happens next.\<close>

lemma degradation_sticky:
  "degradation_active (br_counter r) \<Longrightarrow> degradation_active (br_counter (foldl (budget_event cfg k) r es))"
  using budget.run_le [where s = r and cfg = cfg and k = k and es = es] by simp

lemma budget_run_inv:
  assumes "0 < k" and "effective_max_llm_calls_per_turn cfg + k \<le> 2 ^ 32" and "budget_inv cfg k r"
  shows "budget_inv cfg k (foldl (budget_event cfg k) r es)"
  using assms by (induction es arbitrary: r) (simp_all add: budget_event_inv)

text \<open>A task that calls the gate on its own is the two events of one call in flight.\<close>

lemma gate_is_admit_then_settle:
  assumes "complete_chat_retrying cfg (Some b) now service estimate = (res, Some b')" and "0 < k"
  shows "b' = br_counter (foldl (budget_event cfg k) \<lparr>br_counter = b, br_in_flight = 0\<rparr>
                [Admit now, case service of Inr (msg, _) \<Rightarrow> Succeed (estimate msg) | Inl _ \<Rightarrow> Fail])"
  using assms
  by (auto simp: complete_chat_retrying_def split: sum.splits prod.splits)

text \<open>The excess does happen: two calls admitted before either is recorded.\<close>

definition one_call_cfg :: TurnBudgetConfig where
  "one_call_cfg = \<lparr>max_turn_duration_seconds = 0, max_turn_tokens = 0, max_llm_calls_per_turn = 1,
     budget_degradation_enabled = True, budget_degradation_threshold_percent = 80\<rparr>"

lemma concurrent_excess:
  "llm_calls (br_counter (foldl (budget_event one_call_cfg 2) \<lparr>br_counter = new_shared 0, br_in_flight = 0\<rparr>
     [Admit 0, Admit 0, Succeed None, Succeed None])) = 2 \<and> effective_max_llm_calls_per_turn one_call_cfg = 1"
  by (simp add: one_call_cfg_def effective_max_llm_calls_per_turn_def new_shared_def deny_llm_call_if_exhausted_def wall_clock_exceeded_def
      turn_wall_clock_exceeded_def llm_calls_exceeded_def tokens_exceeded_def)

lemma approx_budget_bounds:
  "approx_non_system_chars_budget_from_context_tokens c m = 0 \<longleftrightarrow> c = 0"
  "c > 0 \<Longrightarrow> 1024 \<le> approx_non_system_chars_budget_from_context_tokens c m"
  "approx_non_system_chars_budget_from_context_tokens c m \<le> 50000000"
  by (auto simp: approx_non_system_chars_budget_from_context_tokens_def Let_def)

text \<open>
  A budget under pressure is never below 4096 characters; one that was smaller than that to begin with is
  widened, not tightened.
\<close>

lemma scaled_budget_bounds:
  assumes "p < 100"
  shows "base = 0 \<Longrightarrow> scale_message_pipeline_char_budget base p = 0"
    and "4096 \<le> base \<Longrightarrow> scale_message_pipeline_char_budget base p \<le> base \<and> 4096 \<le> scale_message_pipeline_char_budget base p"
    and "0 < base \<Longrightarrow> base < 4096 \<Longrightarrow> scale_message_pipeline_char_budget base p = 4096"
proof -
  have le: "min (base * p) (2 ^ 64 - 1) div 100 \<le> base"
  proof -
    have "min (base * p) (2 ^ 64 - 1) div 100 \<le> base * 100 div 100"
      using assms by (intro div_le_mono) (simp add: min.coboundedI1)
    then show ?thesis by simp
  qed
  then show "4096 \<le> base \<Longrightarrow> scale_message_pipeline_char_budget base p \<le> base \<and> 4096 \<le> scale_message_pipeline_char_budget base p"
    by (simp add: scale_message_pipeline_char_budget_def)
  show "0 < base \<Longrightarrow> base < 4096 \<Longrightarrow> scale_message_pipeline_char_budget base p = 4096"
    using assms le by (simp add: scale_message_pipeline_char_budget_def)
qed (simp add: scale_message_pipeline_char_budget_def)

lemma summary_trigger_bounds:
  "effective_summary_trigger_for_turn cfg turn_budget \<le> effective_context_summary_trigger_chars cfg"
  "effective_summary_trigger_for_turn cfg turn_budget = 0 \<longleftrightarrow> effective_context_summary_trigger_chars cfg = 0"
  by (auto simp: effective_summary_trigger_for_turn_def resolve_context_budget_pressure_def no_pressure_def Let_def
      split: option.splits)

section \<open>Properties\<close>

text \<open>
  C16: The budget holds under interleaving.  Whatever sequence of admissions, successful and failed calls and loop
  iterations the tasks of a turn perform, with at most \<open>k\<close> calls in flight the number of recorded
  calls stays below the effective limit plus \<open>k\<close>: one task alone never exceeds the limit, and \<open>k\<close>
  tasks exceed it by less than \<open>k\<close>.
\<close>

theorem calls_bounded_under_interleaving:
  assumes "0 < k" and "effective_max_llm_calls_per_turn cfg + k \<le> 2 ^ 32"
  shows "llm_calls (br_counter (foldl (budget_event cfg k) \<lparr>br_counter = new_shared start, br_in_flight = 0\<rparr> es))
           < effective_max_llm_calls_per_turn cfg + k"
proof -
  have "budget_inv cfg k \<lparr>br_counter = new_shared start, br_in_flight = 0\<rparr>"
    using assms(1) by (simp add: budget_inv_def new_shared_def)
  then have "budget_inv cfg k (foldl (budget_event cfg k) \<lparr>br_counter = new_shared start, br_in_flight = 0\<rparr> es)"
    by (rule budget_run_inv [OF assms])
  then show ?thesis by (simp add: budget_inv_def)
qed

theorem calls_bounded_under_interleaving_witness:
  "llm_calls (br_counter (foldl (budget_event one_call_cfg 1) \<lparr>br_counter = new_shared 0, br_in_flight = 0\<rparr>
     [Admit 0, Succeed None, Admit 0, Succeed None])) < 2"
  using calls_bounded_under_interleaving [of 1 one_call_cfg 0 "[Admit 0, Succeed None, Admit 0, Succeed None]"]
  by (simp add: one_call_cfg_def effective_max_llm_calls_per_turn_def)

text \<open>
  The usage percentage and the gate agree: it is at most 100, and it is 100 exactly when the gate refuses a call for a
  reason other than the clock.
\<close>

theorem full_usage_iff_refused:
  assumes "llm_calls b < 2 ^ 32" and "estimated_tokens b * 100 < 2 ^ 64" and "\<not> wall_clock_exceeded cfg now b"
  shows "budget_usage_percent cfg b \<le> 100"
    and "budget_usage_percent cfg b = 100 \<longleftrightarrow>
           deny_llm_call_if_exhausted cfg now b \<in> {Inl LlmCalls, Inl Tokens}"
proof -
  show "budget_usage_percent cfg b \<le> 100" by (simp add: budget_usage_percent_def)
  have calls: "llm_calls b * 100 < 2 ^ 64" using assms(1) by simp
  have "max x y = 100 \<longleftrightarrow> x = 100 \<or> y = 100" if "x \<le> 100" "y \<le> 100" for x y :: nat
    using that by (auto simp: max_def)
  then have "budget_usage_percent cfg b = 100 \<longleftrightarrow>
      percent_of (llm_calls b) (effective_max_llm_calls_per_turn cfg) = 100 \<or> percent_of (estimated_tokens b) (max_turn_tokens cfg) = 100"
    by (simp add: budget_usage_percent_def)
  then show "budget_usage_percent cfg b = 100 \<longleftrightarrow> deny_llm_call_if_exhausted cfg now b \<in> {Inl LlmCalls, Inl Tokens}"
    using assms(3) by (simp add: percent_of_full [OF calls] percent_of_full [OF assms(2)] deny_llm_call_if_exhausted_def
        llm_calls_exceeded_def tokens_exceeded_def)
qed

theorem full_usage_iff_refused_witness:
  "budget_usage_percent one_call_cfg ((new_shared 0)\<lparr>llm_calls := 1\<rparr>) = 100"
  using full_usage_iff_refused(2) [of "(new_shared 0)\<lparr>llm_calls := 1\<rparr>" one_call_cfg 0]
  by (simp add: new_shared_def one_call_cfg_def effective_max_llm_calls_per_turn_def wall_clock_exceeded_def
      turn_wall_clock_exceeded_def deny_llm_call_if_exhausted_def llm_calls_exceeded_def)

end
