(* ===== verification/Plan_Gate.thy ===== *)
theory Plan_Gate
  imports Plan_Artifact Workflow_Reflection Turn_Budget
begin

text \<open>
  The coordination of planning, execution and reflection within a turn: what the history says about the last
  workflow (\<^verbatim>\<open>cm_agent/plan_rewrite.rs\<close>), the gate an assistant's final answer passes (\<^verbatim>\<open>cm_agent/per_coord/final_plan_gate.rs\<close> with its
  context and reasons), the side check of a plan against the tool results (\<^verbatim>\<open>agent/per_plan_semantic_check.rs\<close>), and the coordinator's state and
  operations (\<^verbatim>\<open>cm_agent/per_coord\<close>: \<^verbatim>\<open>mod.rs\<close>, \<^verbatim>\<open>coordinator_impl.rs\<close>, \<^verbatim>\<open>per_turn_state.rs\<close>).

  The libraries are the record \<open>plan_lib\<close>: JSON, the reader and the printer of plans, and lower-casing.  Hash maps are
  maps.  Logging is left out.

  Shown here: the gate accepts exactly the answers whose plan meets every rule; the model is asked to rewrite at most as often as
  configured; the cached layer count equals a scan of the history as long as the history only grows or the cache is dropped; and
  two defects: a workflow revised after its validation makes the gate unsatisfiable, and an answer with a plan is reported as having none.
\<close>

record plan_lib =
  pl_json :: json_lib
  pl_read_plan :: "ustring \<Rightarrow> AgentReplyPlanV1 option"
  pl_print_plan :: "AgentReplyPlanV1 \<Rightarrow> ustring option"
  pl_lowercase :: lowercase

section \<open>Texts asking for a plan\<close>

datatype PlanRewriteExhaustedReason =
    PlanMissing
  | PlanLayerCountMismatch
  | PlanWorkflowNodeIdsInvalid
  | PlanWorkflowNodeCoverageIncomplete
  | PlanValidateOnlyNodeBindingMismatch
  | PlanSemanticInconsistent
  | ExhaustedOther

fun exhausted_reason_as_str :: "PlanRewriteExhaustedReason \<Rightarrow> ustring" where
  "exhausted_reason_as_str PlanMissing = lit ''plan_missing''"
| "exhausted_reason_as_str PlanLayerCountMismatch = lit ''plan_layer_count_mismatch''"
| "exhausted_reason_as_str PlanWorkflowNodeIdsInvalid = lit ''plan_workflow_node_ids_invalid''"
| "exhausted_reason_as_str PlanWorkflowNodeCoverageIncomplete = lit ''plan_workflow_node_coverage_incomplete''"
| "exhausted_reason_as_str PlanValidateOnlyNodeBindingMismatch = lit ''plan_validate_only_node_binding_mismatch''"
| "exhausted_reason_as_str PlanSemanticInconsistent = lit ''plan_semantic_inconsistent''"
| "exhausted_reason_as_str ExhaustedOther = lit ''plan_rewrite_exhausted_other''"

definition PLAN_V1_REWRITE_BRIEF_RULES :: ustring where
  "PLAN_V1_REWRITE_BRIEF_RULES = (lit ''- '' @ [39030, 23618, 65306, 96] @ lit ''type'' @ [96] @ lit ''='' @ [34] @ lit ''agent_reply_plan'' @ [34, 65292, 96] @ lit ''version'' @ [96] @ lit ''=1'' @ [10] @ lit ''- '' @ [40664, 35748, 65306, 96] @ lit ''steps'' @ [96] @ lit '' '' @ [24688, 22909] @ lit '' 1 '' @ [39033, 65292, 27599, 39033, 21547, 38750, 31354] @ lit '' '' @ [96] @ lit ''id'' @ [96, 12289, 96] @ lit ''description'' @ [96, 65288, 96] @ lit ''id'' @ [96, 65306, 23383, 27597] @ lit ''/'' @ [25968, 23383, 24320, 22836, 65292, 20165, 21547] @ lit '' -_./'' @ [65292, 8804] @ lit ''128'' @ [65292, 26080, 39318, 23614, 31354, 30333, 65289, 10] @ lit ''- '' @ [26080, 20855, 20307, 20219, 21153, 65306, 21487, 35774] @ lit '' '' @ [96] @ lit ''no_task'' @ [96] @ lit ''=true '' @ [19988] @ lit '' '' @ [96] @ lit ''steps'' @ [96] @ lit ''=[]'' @ [10] @ lit ''- '' @ [21487, 36873, 65306, 96] @ lit ''executor_kind'' @ [96, 65288, 96] @ lit ''review_readonly'' @ [96] @ lit ''|'' @ [96] @ lit ''patch_write'' @ [96] @ lit ''|'' @ [96] @ lit ''test_runner'' @ [96, 65289, 12289, 96] @ lit ''step_kind'' @ [96, 12289, 96] @ lit ''acceptance'' @ [96, 12289, 96] @ lit ''workflow_node_id'' @ [96, 12289, 96] @ lit ''max_step_retries'' @ [96, 12289, 96] @ lit ''transitions'' @ [96, 10] @ lit ''- '' @ [96] @ lit ''workflow_validate_only'' @ [96] @ lit '' '' @ [32465, 23450, 31561, 22810, 27493, 32454, 21017, 65306, 35265, 26412, 28040, 24687, 20013, 30340] @ lit ''**'' @ [26657, 39564, 21453, 39304] @ lit ''**'' @ [19982, 12300, 34917, 20805, 12301, 27573, 65288, 21247, 33222, 36896, 33410, 28857] @ lit '' id'' @ [65289])"

definition PLAN_V1_REWRITE_EXAMPLE_JSON :: ustring where
  "PLAN_V1_REWRITE_EXAMPLE_JSON = (lit ''{'' @ [34] @ lit ''type'' @ [34] @ lit '':'' @ [34] @ lit ''agent_reply_plan'' @ [34] @ lit '','' @ [34] @ lit ''version'' @ [34] @ lit '':1,'' @ [34] @ lit ''steps'' @ [34] @ lit '':[{'' @ [34] @ lit ''id'' @ [34] @ lit '':'' @ [34] @ lit ''s1'' @ [34] @ lit '','' @ [34] @ lit ''description'' @ [34] @ lit '':'' @ [34, 23436, 25104, 29992, 25143, 35831, 27714, 30340, 19968, 27493, 24182, 26680, 23545, 32467, 26524, 34] @ lit ''}]}'')"

definition plan_rewrite_user_text_base :: ustring where
  "plan_rewrite_user_text_base =
     ([20320, 30340, 26368, 32456, 22238, 31572, 32570, 23569, 25110, 26410, 36890, 36807] @ lit ''**'' @ [32467, 26500, 21270, 35268, 21010] @ lit ''**'' @ [26657, 39564, 12290, 35831, 22312] @ lit '' content '' @ [20013, 21152, 20837, 19968, 27573] @ lit '' Markdown '' @ [20195, 30721, 22260, 26639, 65288, 35821, 35328, 26631, 35760, 20026] @ lit '' json'' @ [65289, 65292, 20854, 20869, 20026, 21512, 27861] @ lit '' JSON'' @ [65292, 19988, 24517, 39035, 28385, 36275, 65306, 10]) @
     PLAN_V1_REWRITE_BRIEF_RULES @ ([10, 10, 31034, 20363, 65306, 10, 96, 96, 96] @ lit ''json'' @ [10]) @ PLAN_V1_REWRITE_EXAMPLE_JSON @
     ([10, 96, 96, 96, 10, 10, 35831, 30452, 25509, 37325, 20889, 26412, 36718, 26368, 32456, 22238, 31572, 65288, 21487, 26377, 20854, 23427, 35828, 26126, 25991, 23383, 65292, 20294, 39035, 21253, 21547, 19978, 36848] @ lit '' JSON '' @ [22260, 26639, 65289, 12290])"

definition plan_rewrite_user_text_with_issue :: "ustring \<Rightarrow> ustring" where
  "plan_rewrite_user_text_with_issue issue =
     (if blank issue then plan_rewrite_user_text_base
      else (lit ''**'' @ [26657, 39564, 21453, 39304] @ lit ''**'' @ [65288, 35831, 38024, 23545, 20462, 27491, 65292, 21247, 24573, 30053, 65289, 65306, 96]) @ trim issue @ [96, 10, 10] @ plan_rewrite_user_text_base)"

definition user_text_semantic_mismatch_with_feedback :: "json_lib \<Rightarrow> ustring list \<Rightarrow> ustring option \<Rightarrow> ustring" where
  "user_text_semantic_mismatch_with_feedback jl violation_codes rationale =
     (let codes = (if violation_codes = [] then [lit ''semantic_mismatch_unspecified''] else violation_codes);
          machine = Object (obj_of
            [(lit ''kind'', String (lit ''crabmate_plan_semantic_feedback'')), (lit ''version'', Number (PosInt 1)),
             (lit ''violation_codes'', Array (map String codes)), (lit ''rationale'', case rationale of Some s \<Rightarrow> String s | None \<Rightarrow> Null)]) in
      ([20391, 21521, 26657, 39564, 35748, 20026, 20320, 30340] @ lit '' **agent_reply_plan** '' @ [19982] @ lit ''**'' @ [26368, 36817, 24037, 20855, 25191, 34892, 32467, 26524] @ lit ''**'' @ [23384, 22312, 26126, 26174, 30683, 30462, 12290, 35831, 26681, 25454, 19979, 26041] @ lit '' **violation_codes**'' @ [65288, 21450, 21487, 36873] @ lit '' **rationale**'' @ [65289, 19982] @ lit ''**'' @ [30495, 23454, 24037, 20855, 32467, 26524] @ lit ''**'' @ [20462, 27491, 35268, 21010] @ lit '' JSON '' @ [19982, 35828, 26126, 25991, 23383, 12290, 10, 10, 96, 96, 96] @ lit ''json'' @ [10]) @
      jl_to_string jl machine @ [10, 96, 96, 96, 10, 10] @ plan_rewrite_user_text_base)"

definition validate_only_plan_binding_rewrite_suffix :: "ustring list \<Rightarrow> ustring" where
  "validate_only_plan_binding_rewrite_suffix ids =
     (if ids = [] then []
      else let n = show_nat (length ids) in
        ([10, 10] @ lit ''**validate_only '' @ [32465, 23450, 28857, 65288, 24517, 23432, 65289] @ lit ''**'' @ [65306, 26368, 36817, 19968, 27425] @ lit '' '' @ [96] @ lit ''workflow_validate_only'' @ [96] @ lit '' '' @ [30340] @ lit '' '' @ [96] @ lit ''nodes'' @ [96] @ lit '' '' @ [20849] @ lit '' **'') @ n @
        (lit ''** '' @ [20010, 65288] @ lit ''DAG '' @ [39034, 24207, 21487, 24322, 20110, 19979, 21015, 21015, 34920, 65292, 20294, 32465, 23450, 39035, 19968, 33268, 65289, 12290, 20320, 30340] @ lit '' '' @ [96] @ lit ''agent_reply_plan'' @ [96] @ lit '' '' @ [39035, 28385, 36275, 65306, 10] @ lit ''1. '' @ [96] @ lit ''steps.len()'' @ [96] @ lit '' **'' @ [31561, 20110] @ lit ''** **'') @ n @
        (lit ''**'' @ [65288, 19982] @ lit '' '' @ [96] @ lit ''nodes'' @ [96] @ lit '' '' @ [20010, 25968, 30456, 21516, 65289, 12290, 10] @ lit ''2. **'' @ [27599, 19968, 27493] @ lit ''**'' @ [22343, 39035, 35774, 32622] @ lit '' **'' @ [96] @ lit ''workflow_node_id'' @ [96] @ lit ''**'' @ [65288, 19981, 24471, 30465, 30053, 65289, 12290, 10] @ lit ''3. '' @ [20840, 37096] @ lit '' '' @ [96] @ lit ''workflow_node_id'' @ [96] @ lit '' '' @ [26500, 25104, 30340] @ lit ''**'' @ [22810, 37325, 38598, 21512] @ lit ''**'' @ [39035, 19982, 19979, 21015, 33410, 28857] @ lit '' id **'' @ [23436, 20840, 19968, 33268] @ lit ''**'' @ [65288, 21547, 37325, 22797, 27425, 25968, 65307, 96] @ lit ''steps'' @ [96] @ lit '' '' @ [39034, 24207, 21487, 19982, 19979, 21015, 19981, 21516, 65289, 65306, 96]) @
        join (lit '', '') ids @ [96, 12290])"

section \<open>What the history says about workflows\<close>

definition WORKFLOW_EXECUTE :: ustring where
  "WORKFLOW_EXECUTE = lit ''workflow_execute''"

fun assistant_scan :: "ustring \<Rightarrow> (nat \<times> Message) list \<Rightarrow> nat option" where
  "assistant_scan tid [] = None"
| "assistant_scan tid ((j, m) # older) =
     (if msg_role m \<noteq> lit ''assistant'' then assistant_scan tid older
      else case msg_tool_calls m of
             None \<Rightarrow> None
           | Some calls \<Rightarrow> if list_ex (\<lambda>c. call_id c = tid) calls then Some j else assistant_scan tid older)"

definition assistant_index_for_tool_call :: "Message list \<Rightarrow> nat \<Rightarrow> ustring \<Rightarrow> nat option" where
  "assistant_index_for_tool_call messages tool_idx tid = assistant_scan tid (rev (List.enumerate 0 (take tool_idx messages)))"

definition called_tool_name :: "Message list \<Rightarrow> nat \<Rightarrow> ustring \<Rightarrow> ustring option" where
  "called_tool_name messages tool_idx tid =
     and_then (assistant_index_for_tool_call messages tool_idx tid) (\<lambda>aidx.
     and_then (msg_tool_calls (messages ! aidx)) (\<lambda>calls.
     map_option (\<lambda>c. fn_name (call_function c)) (List.find (\<lambda>c. call_id c = tid) calls)))"

text \<open>The JSON a \<^verbatim>\<open>workflow_execute\<close> result at position \<open>i\<close> carries, shared by the three scans.\<close>

definition workflow_execute_tool_payload_json :: "json_lib \<Rightarrow> Message list \<Rightarrow> nat \<Rightarrow> Value option" where
  "workflow_execute_tool_payload_json jl messages i =
     (let m = messages ! i in
      if msg_role m \<noteq> lit ''tool'' then None
      else and_then (msg_tool_call_id m) (\<lambda>tid.
           and_then (called_tool_name messages i tid) (\<lambda>name.
             if name \<noteq> WORKFLOW_EXECUTE then None
             else and_then (message_content_as_str (msg_content m)) (\<lambda>body.
                    json_ok jl (tool_message_payload_for_inner_parse jl body)))))"

definition report_type :: "Value \<Rightarrow> ustring option" where
  "report_type v = and_then (get_key v (lit ''report_type'')) as_str"

definition node_id_of :: "Value \<Rightarrow> ustring option" where
  "node_id_of n = and_then (get_key n (lit ''id'')) as_str"

definition nodes_of :: "Value \<Rightarrow> Value list option" where
  "nodes_of v = and_then (get_key v (lit ''nodes'')) as_array"

fun all_some :: "('a \<Rightarrow> 'b option) \<Rightarrow> 'a list \<Rightarrow> 'b list option" where
  "all_some f [] = Some []"
| "all_some f (x # xs) = and_then (f x) (\<lambda>y. map_option (\<lambda>ys. y # ys) (all_some f xs))"

definition nonempty :: "'a list \<Rightarrow> 'a list option" where
  "nonempty xs = (if xs = [] then None else Some xs)"

definition workflow_execute_report_node_ids :: "Value \<Rightarrow> ustring list option" where
  "workflow_execute_report_node_ids v =
     (if report_type v \<noteq> Some (lit ''workflow_validate_result'') \<and> report_type v \<noteq> Some (lit ''workflow_execute_result'') then None
      else and_then (nodes_of v) (\<lambda>nodes. and_then (all_some node_id_of nodes) nonempty))"

definition newest :: "(nat \<Rightarrow> 'a option) \<Rightarrow> Message list \<Rightarrow> 'a option" where
  "newest f messages = find_map f (rev [0 ..< length messages])"

definition last_workflow_tool_node_ids :: "json_lib \<Rightarrow> Message list \<Rightarrow> ustring list option" where
  "last_workflow_tool_node_ids jl messages =
     newest (\<lambda>i. and_then (workflow_execute_tool_payload_json jl messages i) workflow_execute_report_node_ids) messages"

definition layer_count_from_validate_result :: "Value \<Rightarrow> nat option" where
  "layer_count_from_validate_result v =
     (if report_type v \<noteq> Some (lit ''workflow_validate_result'') then None
      else and_then (and_then (get_key v (lit ''spec'')) (\<lambda>s. get_key s (lit ''layer_count''))) as_u64)"

definition last_workflow_validate_layer_count :: "json_lib \<Rightarrow> Message list \<Rightarrow> nat option" where
  "last_workflow_validate_layer_count jl messages =
     newest (\<lambda>i. and_then (workflow_execute_tool_payload_json jl messages i) layer_count_from_validate_result) messages"

definition binding_ids_of :: "Value \<Rightarrow> ustring list option" where
  "binding_ids_of v =
     (if report_type v \<noteq> Some (lit ''workflow_validate_result'') then None
      else and_then (nodes_of v) (\<lambda>nodes. nonempty (List.map_filter node_id_of nodes)))"

definition last_workflow_validate_binding_plan_node_ids :: "json_lib \<Rightarrow> Message list \<Rightarrow> ustring list option" where
  "last_workflow_validate_binding_plan_node_ids jl messages =
     newest (\<lambda>i. and_then (workflow_execute_tool_payload_json jl messages i) binding_ids_of) messages"

section \<open>Why rewriting is given up\<close>

definition is_err :: "('e, 'a) result \<Rightarrow> bool" where
  "is_err r = (case r of Inl _ \<Rightarrow> True | Inr _ \<Rightarrow> False)"

definition parse_with :: "plan_lib \<Rightarrow> ustring \<Rightarrow> ustring list option \<Rightarrow> (PlanArtifactError, AgentReplyPlanV1) result" where
  "parse_with pl content ids = parse_agent_reply_plan_v1_with_validate_only_binding_ids (pl_read_plan pl) (pl_lowercase pl) content ids"

definition content_str :: "Message \<Rightarrow> ustring" where
  "content_str m = unwrap_or (message_content_as_str (msg_content m)) []"

definition exhausted_layer_count_mismatch :: "AgentReplyPlanV1 \<Rightarrow> nat option \<Rightarrow> bool \<Rightarrow> bool" where
  "exhausted_layer_count_mismatch plan layer_need apply_layer =
     (case layer_need of Some n \<Rightarrow> n > 0 \<and> apply_layer \<and> length (plan_steps plan) < n | None \<Rightarrow> False)"

definition classify_exhausted_reason :: "plan_lib \<Rightarrow> Message \<Rightarrow> Message list \<Rightarrow> nat option \<Rightarrow> bool \<Rightarrow> bool \<Rightarrow> PlanRewriteExhaustedReason" where
  "classify_exhausted_reason pl msg messages layer_need apply_layer strict =
     (let binding = (if apply_layer then last_workflow_validate_binding_plan_node_ids (pl_json pl) messages else None) in
      case parse_with pl (content_str msg) binding of
        Inl _ \<Rightarrow> PlanMissing
      | Inr plan \<Rightarrow>
          if exhausted_layer_count_mismatch plan layer_need apply_layer then PlanLayerCountMismatch
          else let wf_ids = last_workflow_tool_node_ids (pl_json pl) messages in
            if (case wf_ids of Some ids \<Rightarrow> is_err (validate_plan_workflow_node_ids_subset plan ids) | None \<Rightarrow> False)
            then PlanWorkflowNodeIdsInvalid
            else if strict \<and> (case wf_ids of Some ids \<Rightarrow> is_err (validate_plan_covers_all_workflow_node_ids plan ids) | None \<Rightarrow> False)
            then PlanWorkflowNodeCoverageIncomplete
            else if apply_layer \<and>
                    (case filter_option (\<lambda>ids. ids \<noteq> []) (last_workflow_validate_binding_plan_node_ids (pl_json pl) messages) of
                       Some ids \<Rightarrow> is_err (validate_plan_binds_workflow_validate_nodes plan ids) | None \<Rightarrow> False)
            then PlanValidateOnlyNodeBindingMismatch
            else ExhaustedOther)"

section \<open>The digest for the side check\<close>

definition tool_name_is_high_risk :: "ustring \<Rightarrow> bool" where
  "tool_name_is_high_risk name \<longleftrightarrow>
     name \<in> set (map lit [''run_command'', ''workflow_execute'', ''create_file'', ''apply_patch'', ''http_request'']) \<or>
     starts_with name (lit ''mcp__'')"

definition semantic_check_tool_name_body_for_message :: "Message list \<Rightarrow> nat \<Rightarrow> (ustring \<times> ustring) option" where
  "semantic_check_tool_name_body_for_message messages i =
     and_then (msg_tool_call_id (messages ! i)) (\<lambda>tid.
     map_option (\<lambda>name. (name, content_str (messages ! i))) (called_tool_name messages i tid))"

definition semantic_check_include_tool_line :: "(ustring \<Rightarrow> bool) \<Rightarrow> ustring \<Rightarrow> nat \<Rightarrow> nat \<Rightarrow> bool \<times> nat" where
  "semantic_check_include_tool_line is_ro name used limit =
     (if is_ro name then (True, used)
      else if used \<ge> limit \<and> \<not> tool_name_is_high_risk name then (False, used)
      else (True, used + 1))"

fun split_whitespace :: "ustring \<Rightarrow> ustring \<Rightarrow> ustring list" where
  "split_whitespace acc [] = (if acc = [] then [] else [rev acc])"
| "split_whitespace acc (c # s) =
     (if is_whitespace c then (if acc = [] then split_whitespace [] s else rev acc # split_whitespace [] s)
      else split_whitespace (c # acc) s)"

definition single_line_preview :: "ustring \<Rightarrow> nat \<Rightarrow> ustring" where
  "single_line_preview s n = preview_chars (join [32] (split_whitespace [] s)) n"

definition semantic_check_format_tool_summary_line :: "json_lib \<Rightarrow> ustring \<Rightarrow> ustring \<Rightarrow> nat \<Rightarrow> ustring" where
  "semantic_check_format_tool_summary_line jl name body limit =
     (let line = (case normalize_tool_message_content jl body of
            Some env \<Rightarrow> lit ''- '' @ env_name env @ lit '' ok='' @ (if env_ok env then lit ''true'' else lit ''false'') @ lit '' summary='' @
              single_line_preview (env_summary env) 160 @ lit '' out_preview='' @ preview_chars (env_output env) 320
          | None \<Rightarrow> lit ''- '' @ name @ lit '' legacy_preview='' @ preview_chars body limit) in
      if length line > limit then preview_chars line limit else line)"

fun digest_lines :: "json_lib \<Rightarrow> (ustring \<Rightarrow> bool) \<Rightarrow> nat \<Rightarrow> Message list \<Rightarrow> nat list \<Rightarrow> nat \<Rightarrow> ustring list \<Rightarrow> ustring list option" where
  "digest_lines jl is_ro limit messages [] used acc = Some acc"
| "digest_lines jl is_ro limit messages (i # is) used acc =
     (if length acc \<ge> 12 then Some acc
      else if msg_role (messages ! i) \<noteq> lit ''tool'' then digest_lines jl is_ro limit messages is used acc
      else case semantic_check_tool_name_body_for_message messages i of
             None \<Rightarrow> None
           | Some (name, body) \<Rightarrow>
               (case semantic_check_include_tool_line is_ro name used limit of
                  (False, used') \<Rightarrow> digest_lines jl is_ro limit messages is used' acc
                | (True, used') \<Rightarrow> digest_lines jl is_ro limit messages is used'
                    (semantic_check_format_tool_summary_line jl name body 900 # acc)))"

definition summarize_messages_for_final_plan_semantic_check ::
    "json_lib \<Rightarrow> Message list \<Rightarrow> (ustring \<Rightarrow> bool) \<Rightarrow> bool \<Rightarrow> nat \<Rightarrow> ustring option" where
  "summarize_messages_for_final_plan_semantic_check jl messages is_ro ws_set limit =
     and_then (digest_lines jl is_ro limit messages (rev [0 ..< length messages]) 0 []) (\<lambda>ls.
       if ls = [] then None
       else Some ((if ws_set then ([20197, 19979, 20026, 36870, 24207, 25910, 38598, 30340, 26368, 36817, 24037, 20855, 32467, 26524, 25688, 35201, 65288, 36739, 26032, 22312, 21518, 65289, 65307, 35831, 21028, 26029, 19982] @ lit '' agent_reply_plan '' @ [26159, 21542, 30683, 30462, 12290])
                   else ([20197, 19979, 20026, 36870, 24207, 25910, 38598, 30340, 26368, 36817, 24037, 20855, 32467, 26524, 25688, 35201, 65288, 24037, 20316, 21306, 26410, 35774, 32622, 65292, 21487, 33021, 36739, 19981, 23436, 25972, 65289, 65307, 35831, 21028, 26029, 19982] @ lit '' agent_reply_plan '' @ [26159, 21542, 30683, 30462, 12290])) @ [10] @ join [10] ls))"

section \<open>The side check of a plan\<close>

record PlanSemanticLlmOutcome =
  so_consistent :: bool
  so_violation_codes :: "ustring list"
  so_rationale :: "ustring option"
  so_user_cancelled :: bool

definition consistent_ok :: PlanSemanticLlmOutcome where
  "consistent_ok = \<lparr>so_consistent = True, so_violation_codes = [], so_rationale = None, so_user_cancelled = False\<rparr>"

definition user_cancelled :: PlanSemanticLlmOutcome where
  "user_cancelled = \<lparr>so_consistent = False, so_violation_codes = [], so_rationale = None, so_user_cancelled = True\<rparr>"

definition is_lower_or_digit :: "uchar \<Rightarrow> bool" where
  "is_lower_or_digit c \<longleftrightarrow> 97 \<le> c \<and> c \<le> 122 \<or> 48 \<le> c \<and> c \<le> 57"

definition is_valid_violation_code_token :: "ustring \<Rightarrow> bool" where
  "is_valid_violation_code_token s =
     (case s of [] \<Rightarrow> False
      | c # _ \<Rightarrow> is_lower_or_digit c \<and> utf8_len s \<le> 64 \<and> list_all (\<lambda>d. is_lower_or_digit d \<or> d = 95) s)"

fun valid_codes :: "Value list \<Rightarrow> nat \<Rightarrow> ustring list" where
  "valid_codes [] n = []"
| "valid_codes (v # vs) n =
     (case as_str v of
        None \<Rightarrow> valid_codes vs n
      | Some s \<Rightarrow>
          if is_valid_violation_code_token (trim s)
          then (if n + 1 \<ge> 8 then [trim s] else trim s # valid_codes vs (n + 1))
          else valid_codes vs n)"

definition normalize_violation_codes :: "Value list \<Rightarrow> ustring list" where
  "normalize_violation_codes raw = remdups_adj (sort (valid_codes raw 0))"

definition truncate_rationale :: "ustring \<Rightarrow> ustring" where
  "truncate_rationale s = (let t = trim s in if length t > 120 then take 120 t @ [8230] else t)"

definition outcome_from_json_value :: "Value \<Rightarrow> PlanSemanticLlmOutcome option" where
  "outcome_from_json_value v =
     and_then (and_then (get_key v (lit ''consistent'')) as_bool) (\<lambda>consistent.
       (let codes = (case and_then (get_key v (lit ''violation_codes'')) as_array of Some a \<Rightarrow> normalize_violation_codes a | None \<Rightarrow> []);
            rationale = filter_option (\<lambda>s. s \<noteq> []) (map_option truncate_rationale (and_then (get_key v (lit ''rationale'')) as_str)) in
        Some \<lparr>so_consistent = consistent,
              so_violation_codes = (if \<not> consistent \<and> codes = [] then [lit ''semantic_mismatch_unspecified''] else codes),
              so_rationale = rationale, so_user_cancelled = False\<rparr>))"

definition position :: "uchar \<Rightarrow> ustring \<Rightarrow> nat option" where
  "position c s = (if c \<in> set s then Some (length (takeWhile (\<lambda>d. d \<noteq> c) s)) else None)"

definition extract_json_object_slice :: "ustring \<Rightarrow> ustring option" where
  "extract_json_object_slice s =
     and_then (position 123 s) (\<lambda>start. and_then (position 125 (rev s)) (\<lambda>back.
       let end_pos = length s - 1 - back in
       if end_pos > start then Some (drop start (take (end_pos + 1) s)) else None))"

definition parse_plan_semantic_side_reply :: "json_lib \<Rightarrow> ustring \<Rightarrow> PlanSemanticLlmOutcome" where
  "parse_plan_semantic_side_reply jl s =
     (let trimmed = trim s in
      if trimmed = [] then consistent_ok
      else unwrap_or (or_option
             (and_then (and_then (extract_json_object_slice trimmed) (json_ok jl)) outcome_from_json_value)
             (and_then (json_ok jl trimmed) outcome_from_json_value)) consistent_ok)"

definition USER_CANCELLED_FINISH_REASON :: ustring where
  "USER_CANCELLED_FINISH_REASON = lit ''user_cancelled''"

text \<open>
  The whole side check with its budget: \<open>service\<close> is the answer of the transport to the request that
  carries the digest and the plan, \<open>estimate\<close> the tokenizer.
\<close>

definition evaluate_plan_consistency_with_recent_tools_llm :: "json_lib \<Rightarrow> TurnBudgetConfig \<Rightarrow> TurnBudgetCounter option \<Rightarrow> nat \<Rightarrow>
    (ustring \<Rightarrow> ustring \<Rightarrow> ('e LlmCompleteError, Message \<times> ustring) result) \<Rightarrow> (Message \<Rightarrow> nat option) \<Rightarrow> ustring \<Rightarrow> ustring option \<Rightarrow>
    PlanSemanticLlmOutcome \<times> TurnBudgetCounter option" where
  "evaluate_plan_consistency_with_recent_tools_llm jl cfg budget now service estimate plan_json tool_digest =
     (case trim_nonempty tool_digest of
        None \<Rightarrow> (consistent_ok, budget)
      | Some digest \<Rightarrow>
          if blank plan_json then (consistent_ok, budget)
          else (case complete_chat_retrying cfg budget now (service (preview_chars digest 6000) (preview_chars (trim plan_json) 8000)) estimate of
                  (Inl _, b) \<Rightarrow> (consistent_ok, b)
                | (Inr (reply, finish), b) \<Rightarrow>
                    (if finish = USER_CANCELLED_FINISH_REASON then user_cancelled
                     else parse_plan_semantic_side_reply jl (trim (content_str reply)), b)))"

definition agent_reply_plan_json_compact :: "plan_lib \<Rightarrow> AgentReplyPlanV1 \<Rightarrow> ustring" where
  "agent_reply_plan_json_compact pl plan = unwrap_or (pl_print_plan pl plan) (lit ''{}'')"

section \<open>The coordinator's state\<close>

datatype PlanRequirementSource = NoSource | ConfigAlways | WorkflowReflectionSource

record OuterLoopReflectMemo =
  build_idle_streak :: nat
  build_idle_feedback_injected :: nat
  missing_final_answer_feedback_injected :: nat
  truncated_feedback_injected :: nat

definition saturating_inc :: "nat \<Rightarrow> nat" where
  "saturating_inc n = min (n + 1) (2 ^ 32 - 1)"

definition record_build_idle_round :: "OuterLoopReflectMemo \<Rightarrow> OuterLoopReflectMemo" where
  "record_build_idle_round m = m\<lparr>build_idle_streak := saturating_inc (build_idle_streak m)\<rparr>"

definition reset_build_idle_streak :: "OuterLoopReflectMemo \<Rightarrow> OuterLoopReflectMemo" where
  "reset_build_idle_streak m = m\<lparr>build_idle_streak := 0\<rparr>"

definition record_build_idle_feedback_injected :: "OuterLoopReflectMemo \<Rightarrow> OuterLoopReflectMemo" where
  "record_build_idle_feedback_injected m = m\<lparr>build_idle_feedback_injected := saturating_inc (build_idle_feedback_injected m)\<rparr>"

definition record_missing_final_answer_feedback_injected :: "OuterLoopReflectMemo \<Rightarrow> OuterLoopReflectMemo" where
  "record_missing_final_answer_feedback_injected m =
     m\<lparr>missing_final_answer_feedback_injected := saturating_inc (missing_final_answer_feedback_injected m)\<rparr>"

definition record_truncated_feedback_injected :: "OuterLoopReflectMemo \<Rightarrow> OuterLoopReflectMemo" where
  "record_truncated_feedback_injected m = m\<lparr>truncated_feedback_injected := saturating_inc (truncated_feedback_injected m)\<rparr>"

record PerTurnCounters =
  plan_rewrite_attempts :: nat
  outer_loop_reflect :: OuterLoopReflectMemo

definition new_counters :: PerTurnCounters where
  "new_counters = \<lparr>plan_rewrite_attempts = 0, outer_loop_reflect = \<lparr>build_idle_streak = 0, build_idle_feedback_injected = 0,
     missing_final_answer_feedback_injected = 0, truncated_feedback_injected = 0\<rparr>\<rparr>"

record WorkflowValidateLayerCache =
  cached_workflow_validate_layer_count :: "nat option"
  layer_count_cache_at_message_len :: nat

definition new_layer_cache :: WorkflowValidateLayerCache where
  "new_layer_cache = \<lparr>cached_workflow_validate_layer_count = None, layer_count_cache_at_message_len = 0\<rparr>"

definition invalidate_after_context_mutation :: "WorkflowValidateLayerCache \<Rightarrow> WorkflowValidateLayerCache" where
  "invalidate_after_context_mutation c = c\<lparr>cached_workflow_validate_layer_count := None, layer_count_cache_at_message_len := 0\<rparr>"

definition workflow_validate_layer_need :: "json_lib \<Rightarrow> Message list \<Rightarrow> WorkflowValidateLayerCache \<Rightarrow> nat option \<times> WorkflowValidateLayerCache" where
  "workflow_validate_layer_need jl messages c =
     (let len = length messages in
      if len = layer_count_cache_at_message_len c \<and> cached_workflow_validate_layer_count c \<noteq> None
      then (cached_workflow_validate_layer_count c, c)
      else let n = last_workflow_validate_layer_count jl messages in
           (n, c\<lparr>cached_workflow_validate_layer_count := n, layer_count_cache_at_message_len := len\<rparr>))"

definition refresh_after_messages_append :: "json_lib \<Rightarrow> Message list \<Rightarrow> WorkflowValidateLayerCache \<Rightarrow> WorkflowValidateLayerCache" where
  "refresh_after_messages_append jl messages c =
     c\<lparr>layer_count_cache_at_message_len := length messages,
       cached_workflow_validate_layer_count := last_workflow_validate_layer_count jl messages\<rparr>"

record RepeatedToolFailureMemo =
  repeated_failed_tool_signatures :: "ustring \<times> ustring \<Rightarrow> ustring option"
  repeated_failed_tool_families :: "ustring \<times> ustring \<Rightarrow> ustring option"

definition new_failures :: RepeatedToolFailureMemo where
  "new_failures = \<lparr>repeated_failed_tool_signatures = (\<lambda>_. None), repeated_failed_tool_families = (\<lambda>_. None)\<rparr>"

definition mark_tool_failure_signature :: "ustring \<Rightarrow> ustring \<Rightarrow> ustring \<Rightarrow> RepeatedToolFailureMemo \<Rightarrow> RepeatedToolFailureMemo" where
  "mark_tool_failure_signature tool args marker m =
     m\<lparr>repeated_failed_tool_signatures := (repeated_failed_tool_signatures m)((tool, args) \<mapsto> marker)\<rparr>"

definition mark_tool_failure_family :: "ustring \<Rightarrow> ustring \<Rightarrow> ustring \<Rightarrow> RepeatedToolFailureMemo \<Rightarrow> RepeatedToolFailureMemo" where
  "mark_tool_failure_family tool family marker m =
     m\<lparr>repeated_failed_tool_families := (repeated_failed_tool_families m)((tool, family) \<mapsto> marker)\<rparr>"

definition clear_tool_failure_signature :: "ustring \<Rightarrow> ustring \<Rightarrow> RepeatedToolFailureMemo \<Rightarrow> RepeatedToolFailureMemo" where
  "clear_tool_failure_signature tool args m =
     m\<lparr>repeated_failed_tool_signatures := (repeated_failed_tool_signatures m)((tool, args) := None)\<rparr>"

definition retain_other_tools :: "ustring \<Rightarrow> (ustring \<times> ustring \<Rightarrow> ustring option) \<Rightarrow> ustring \<times> ustring \<Rightarrow> ustring option" where
  "retain_other_tools tool f = (\<lambda>(name, k). if name = tool then None else f (name, k))"

definition clear_tool_failure_families_for_tool :: "ustring \<Rightarrow> RepeatedToolFailureMemo \<Rightarrow> RepeatedToolFailureMemo" where
  "clear_tool_failure_families_for_tool tool m =
     m\<lparr>repeated_failed_tool_families := retain_other_tools tool (repeated_failed_tool_families m)\<rparr>"

definition clear_all_tool_failure_state_for_tool :: "ustring \<Rightarrow> RepeatedToolFailureMemo \<Rightarrow> RepeatedToolFailureMemo" where
  "clear_all_tool_failure_state_for_tool tool m =
     clear_tool_failure_families_for_tool tool
       (m\<lparr>repeated_failed_tool_signatures := retain_other_tools tool (repeated_failed_tool_signatures m)\<rparr>)"

record PerCoordinatorInit =
  in_reflection_default_max_rounds :: nat
  in_final_plan_policy :: FinalPlanRequirementMode
  in_plan_rewrite_max_attempts :: nat
  in_strict_workflow_node_coverage :: bool
  in_semantic_check_enabled :: bool
  in_semantic_check_max_non_readonly_tools :: nat

record PerCoordinator =
  reflection :: WorkflowReflectionController
  final_plan_policy :: FinalPlanRequirementMode
  plan_rewrite_max_attempts :: nat
  final_plan_require_strict_workflow_node_coverage :: bool
  final_plan_semantic_check_enabled :: bool
  final_plan_semantic_check_max_non_readonly_tools :: nat
  plan_requirement_source :: PlanRequirementSource
  counters :: PerTurnCounters
  workflow_validate_cache :: WorkflowValidateLayerCache
  repeated_tool_failures :: RepeatedToolFailureMemo
  successful_run_commands :: "ustring \<Rightarrow> ustring option"

definition new_coordinator :: "PerCoordinatorInit \<Rightarrow> PerCoordinator" where
  "new_coordinator i =
     \<lparr>reflection = new_controller (in_reflection_default_max_rounds i), final_plan_policy = in_final_plan_policy i,
      plan_rewrite_max_attempts = max (in_plan_rewrite_max_attempts i) 1,
      final_plan_require_strict_workflow_node_coverage = in_strict_workflow_node_coverage i,
      final_plan_semantic_check_enabled = in_semantic_check_enabled i,
      final_plan_semantic_check_max_non_readonly_tools = in_semantic_check_max_non_readonly_tools i,
      plan_requirement_source = (case in_final_plan_policy i of Always \<Rightarrow> ConfigAlways | _ \<Rightarrow> NoSource),
      counters = new_counters, workflow_validate_cache = new_layer_cache, repeated_tool_failures = new_failures,
      successful_run_commands = (\<lambda>_. None)\<rparr>"

definition clear_all_run_command_failure_state :: "PerCoordinator \<Rightarrow> PerCoordinator" where
  "clear_all_run_command_failure_state per =
     per\<lparr>repeated_tool_failures := clear_all_tool_failure_state_for_tool (lit ''run_command'') (repeated_tool_failures per),
         successful_run_commands := (\<lambda>_. None)\<rparr>"

definition record_successful_run_command :: "ustring \<Rightarrow> ustring \<Rightarrow> PerCoordinator \<Rightarrow> PerCoordinator" where
  "record_successful_run_command key out per = per\<lparr>successful_run_commands := (successful_run_commands per)(key \<mapsto> out)\<rparr>"

definition update_memo :: "(OuterLoopReflectMemo \<Rightarrow> OuterLoopReflectMemo) \<Rightarrow> PerCoordinator \<Rightarrow> PerCoordinator" where
  "update_memo f per = per\<lparr>counters := (counters per)\<lparr>outer_loop_reflect := f (outer_loop_reflect (counters per))\<rparr>\<rparr>"

definition invalidate_workflow_validate_layer_cache_after_context_mutation :: "PerCoordinator \<Rightarrow> PerCoordinator" where
  "invalidate_workflow_validate_layer_cache_after_context_mutation per =
     per\<lparr>workflow_validate_cache := invalidate_after_context_mutation (workflow_validate_cache per)\<rparr>"

section \<open>The gate for a final answer\<close>

datatype FinalPlanRequirePlanReason = PolicyNever | PolicyAlways | WorkflowReflectionActive | NoActiveRequirement

fun require_reason_as_str :: "FinalPlanRequirePlanReason \<Rightarrow> ustring" where
  "require_reason_as_str PolicyNever = lit ''policy_never''"
| "require_reason_as_str PolicyAlways = lit ''policy_always''"
| "require_reason_as_str WorkflowReflectionActive = lit ''workflow_reflection_active''"
| "require_reason_as_str NoActiveRequirement = lit ''no_active_requirement''"

datatype FinalPlanGatePhase = NoRequirement | CheckStructuredPlan | PendingSemanticLlm

datatype FinalPlanGateRoute =
    StopNoRequirement
  | AcceptStructuredPlanOk
  | PendingSemanticConsistencyLlm
  | SemanticsFailedRequestRewrite
  | SemanticsFailedRewriteExhausted
  | SemanticConsistencyAcceptedStop
  | SemanticMismatchRequestRewrite
  | SemanticMismatchRewriteExhausted

datatype FinalPlanGateDecisionReason =
    PolicyNoRequirement
  | StructuredPlanAccepted
  | PendingSemantic
  | SemanticConsistencyAccepted
  | SemanticInconsistencyRewrite
  | SemanticInconsistencyRewriteExhausted
  | StaticSemanticsFailed
  | PlanParseFailed
  | PlanRewriteExhausted
  | UnexpectedPendingSemanticOnFinalArrived

fun decision_reason_as_str :: "FinalPlanGateDecisionReason \<Rightarrow> ustring" where
  "decision_reason_as_str PolicyNoRequirement = lit ''policy_no_requirement''"
| "decision_reason_as_str StructuredPlanAccepted = lit ''structured_plan_accepted''"
| "decision_reason_as_str PendingSemantic = lit ''pending_semantic_consistency_llm''"
| "decision_reason_as_str SemanticConsistencyAccepted = lit ''semantic_consistency_accepted''"
| "decision_reason_as_str SemanticInconsistencyRewrite = lit ''semantic_inconsistency_rewrite''"
| "decision_reason_as_str SemanticInconsistencyRewriteExhausted = lit ''semantic_inconsistency_rewrite_exhausted''"
| "decision_reason_as_str StaticSemanticsFailed = lit ''static_semantics_failed''"
| "decision_reason_as_str PlanParseFailed = lit ''plan_parse_failed''"
| "decision_reason_as_str PlanRewriteExhausted = lit ''plan_rewrite_exhausted''"
| "decision_reason_as_str UnexpectedPendingSemanticOnFinalArrived = lit ''unexpected_pending_semantic_on_final_arrived''"

datatype AfterFinalAssistant =
    StopTurn
  | RequestPlanRewrite Message
  | StopTurnPlanRewriteExhausted PlanRewriteExhaustedReason
  | StopTurnPendingPlanConsistencyLlm AgentReplyPlanV1 "ustring option"

record FinalPlanGateContext =
  ctx_require_plan :: bool
  ctx_phase :: FinalPlanGatePhase
  ctx_require_plan_reason :: FinalPlanRequirePlanReason

definition apply_layer_semantics :: "FinalPlanGateContext \<Rightarrow> bool" where
  "apply_layer_semantics ctx \<longleftrightarrow> ctx_require_plan_reason ctx = WorkflowReflectionActive"

definition build_final_plan_gate_context :: "FinalPlanRequirementMode \<Rightarrow> PlanRequirementSource \<Rightarrow> FinalPlanGateContext" where
  "build_final_plan_gate_context policy source =
     (let (require_plan, reason) =
            (case policy of
               Never \<Rightarrow> (False, PolicyNever)
             | Always \<Rightarrow> (True, PolicyAlways)
             | WorkflowReflection \<Rightarrow> if source = WorkflowReflectionSource then (True, WorkflowReflectionActive) else (False, NoActiveRequirement)) in
      \<lparr>ctx_require_plan = require_plan, ctx_phase = (if require_plan then CheckStructuredPlan else NoRequirement), ctx_require_plan_reason = reason\<rparr>)"

record FinalPlanGateStepOutcome =
  step_route :: FinalPlanGateRoute
  step_decision_reason :: FinalPlanGateDecisionReason
  step_after :: AfterFinalAssistant
  next_plan_rewrite_count :: "nat option"

definition apply_plan_rewrite_count_from_gate :: "PerCoordinator \<Rightarrow> FinalPlanGateStepOutcome \<Rightarrow> PerCoordinator" where
  "apply_plan_rewrite_count_from_gate per outcome =
     (case next_plan_rewrite_count outcome of
        Some n \<Rightarrow> per\<lparr>counters := (counters per)\<lparr>plan_rewrite_attempts := n\<rparr>\<rparr>
      | None \<Rightarrow> per)"

record FinalPlanGateArgs =
  ga_msg :: Message
  ga_messages :: "Message list"
  ga_cfg :: AgentConfig
  ga_workspace_is_set :: bool
  ga_gate_context :: FinalPlanGateContext
  ga_strict_coverage :: bool
  ga_semantic_check_enabled :: bool
  ga_max_non_readonly_tools :: nat
  ga_layer_need :: "nat option"
  ga_validate_only_binding_ids :: "ustring list option"
  ga_plan_rewrite_attempts :: nat
  ga_plan_rewrite_max_attempts :: nat

datatype StaticSemanticsOutcome =
    PassStopTurn
  | PassPendingSemanticLlm AgentReplyPlanV1 "ustring option"
  | SemanticsFail ustring

definition static_semantics_layers_ok :: "AgentReplyPlanV1 \<Rightarrow> bool \<Rightarrow> nat option \<Rightarrow> bool" where
  "static_semantics_layers_ok plan apply_layer layer_need =
     (case layer_need of Some n \<Rightarrow> if n > 0 \<and> apply_layer then length (plan_steps plan) \<ge> n else True | None \<Rightarrow> True)"

definition static_semantics_workflow_id_checks :: "AgentReplyPlanV1 \<Rightarrow> bool \<Rightarrow> ustring list option \<Rightarrow> bool \<times> bool" where
  "static_semantics_workflow_id_checks plan strict wf_ids =
     (case wf_ids of
        Some ids \<Rightarrow> (\<not> is_err (validate_plan_workflow_node_ids_subset plan ids),
                     if strict then \<not> is_err (validate_plan_covers_all_workflow_node_ids plan ids) else True)
      | None \<Rightarrow> (True, True))"

definition static_semantics_validate_only_binding_ok :: "AgentReplyPlanV1 \<Rightarrow> bool \<Rightarrow> ustring list option \<Rightarrow> bool" where
  "static_semantics_validate_only_binding_ok plan apply_layer binding_ids =
     (if apply_layer
      then (case binding_ids of
              Some ids \<Rightarrow> if ids \<noteq> [] then \<not> is_err (validate_plan_binds_workflow_validate_nodes plan ids) else True
            | None \<Rightarrow> True)
      else True)"

definition static_semantics_fail_codes :: "bool \<Rightarrow> bool \<Rightarrow> bool \<Rightarrow> bool \<Rightarrow> nat \<Rightarrow> nat option \<Rightarrow> ustring list" where
  "static_semantics_fail_codes layers_ok subset_ok cover_ok binding_ok steps layer_need =
     (if layers_ok then [] else [lit ''plan_layer_count_mismatch need='' @ show_nat (unwrap_or layer_need 0) @ lit '' got='' @ show_nat steps]) @
     (if subset_ok then [] else [lit ''plan_workflow_node_ids_invalid'']) @
     (if cover_ok then [] else [lit ''plan_workflow_node_coverage_incomplete'']) @
     (if binding_ok then [] else [lit ''plan_validate_only_node_binding_mismatch''])"

definition static_semantics_pass_outcome :: "plan_lib \<Rightarrow> AgentReplyPlanV1 \<Rightarrow> FinalPlanGateArgs \<Rightarrow> StaticSemanticsOutcome" where
  "static_semantics_pass_outcome pl plan args =
     (let digest = summarize_messages_for_final_plan_semantic_check (pl_json pl) (ga_messages args) (is_readonly_tool (ga_cfg args))
            (ga_workspace_is_set args) (ga_max_non_readonly_tools args) in
      if ga_semantic_check_enabled args \<and> apply_layer_semantics (ga_gate_context args) \<and> digest \<noteq> None
      then PassPendingSemanticLlm plan digest else PassStopTurn)"

definition evaluate_static_semantics :: "plan_lib \<Rightarrow> AgentReplyPlanV1 \<Rightarrow> FinalPlanGateArgs \<Rightarrow> StaticSemanticsOutcome" where
  "evaluate_static_semantics pl plan args =
     (let apply_layer = apply_layer_semantics (ga_gate_context args);
          layers_ok = static_semantics_layers_ok plan apply_layer (ga_layer_need args);
          wf_ids = last_workflow_tool_node_ids (pl_json pl) (ga_messages args);
          (subset_ok, cover_ok) = static_semantics_workflow_id_checks plan (ga_strict_coverage args) wf_ids;
          binding_ok = static_semantics_validate_only_binding_ok plan apply_layer (ga_validate_only_binding_ids args) in
      if \<not> (layers_ok \<and> (subset_ok \<and> cover_ok) \<and> binding_ok)
      then SemanticsFail (join (lit ''; '') (static_semantics_fail_codes layers_ok subset_ok cover_ok binding_ok (length (plan_steps plan)) (ga_layer_need args)))
      else static_semantics_pass_outcome pl plan args)"

definition plan_rewrite_strict_node_coverage_suffix :: "bool \<Rightarrow> ustring list \<Rightarrow> ustring" where
  "plan_rewrite_strict_node_coverage_suffix strict ids =
     (if \<not> strict then []
      else ([10] @ lit ''- '' @ [33509] @ lit ''**'' @ [20219, 19968, 27493] @ lit ''**'' @ [22635, 20889, 20102] @ lit '' '' @ [96] @ lit ''workflow_node_id'' @ [96, 65292, 21017, 39035, 35206, 30422, 19979, 21015] @ lit ''**'' @ [20840, 37096] @ lit ''**'' @ [33410, 28857] @ lit '' id'' @ [65288, 27599] @ lit '' id '' @ [33267, 23569, 19968, 27493, 65289, 65306]) @ join (lit '', '') ids @ [12290])"

definition plan_rewrite_text_for_semantics_failure :: "json_lib \<Rightarrow> ustring \<Rightarrow> nat option \<Rightarrow> bool \<Rightarrow> Message list \<Rightarrow> bool \<Rightarrow> ustring" where
  "plan_rewrite_text_for_semantics_failure jl base layer_need apply_layer messages strict =
     (let n = filter_option (\<lambda>n. n > 0 \<and> apply_layer) layer_need;
          ids = filter_option (\<lambda>v. v \<noteq> []) (last_workflow_tool_node_ids jl messages) in
      case (n, ids) of
        (Some n, Some ids) \<Rightarrow>
          base @ ([10, 10, 34917, 20805, 65306, 10] @ lit ''- '' @ [26368, 36817, 19968, 27425] @ lit '' '' @ [96] @ lit ''workflow_validate_only'' @ [96] @ lit '' '' @ [32467, 26524, 20026] @ lit '' **'') @ show_nat n @
          (lit ''** '' @ [20010, 25191, 34892, 23618, 65288, 96] @ lit ''spec.layer_count'' @ [96, 65289, 12290, 20320, 30340] @ lit '' '' @ [96] @ lit ''agent_reply_plan.steps'' @ [96] @ lit '' '' @ [26465, 25968, 39035] @ lit '' **'' @ [19981, 23569, 20110] @ lit '' '') @ show_nat n @
          (lit ''**'' @ [65292, 19988, 27599, 26465] @ lit '' '' @ [96] @ lit ''description'' @ [96] @ lit '' '' @ [24212, 33021, 23545, 24212, 21040, 20855, 20307, 23618, 25110, 33410, 28857, 24847, 22270, 12290, 10] @ lit ''- '' @ [33509, 27493, 39588, 20013, 22635, 20889, 20102] @ lit '' '' @ [96] @ lit ''workflow_node_id'' @ [96, 65292, 20854, 20540, 39035, 20026, 19979, 21015] @ lit '' **workflow '' @ [33410, 28857] @ lit '' id** '' @ [20043, 19968, 30340, 23376, 38598, 65288, 19982] @ lit '' '' @ [96] @ lit ''nodes[].id'' @ [96] @ lit '' '' @ [23545, 40784, 65289, 65306]) @
          join (lit '', '') ids @ [12290] @ plan_rewrite_strict_node_coverage_suffix strict ids
      | (Some n, None) \<Rightarrow>
          base @ ([10, 10, 34917, 20805, 65306, 26368, 36817, 19968, 27425] @ lit '' '' @ [96] @ lit ''workflow_validate_only'' @ [96] @ lit '' '' @ [32467, 26524, 20026] @ lit '' **'') @ show_nat n @
          (lit ''** '' @ [20010, 25191, 34892, 23618, 65288, 96] @ lit ''spec.layer_count'' @ [96, 65289, 12290, 20320, 30340] @ lit '' '' @ [96] @ lit ''agent_reply_plan.steps'' @ [96] @ lit '' '' @ [26465, 25968, 39035] @ lit '' **'' @ [19981, 23569, 20110] @ lit '' '') @ show_nat n @
          (lit ''**'' @ [65292, 19988, 27599, 26465] @ lit '' '' @ [96] @ lit ''description'' @ [96] @ lit '' '' @ [24212, 33021, 23545, 24212, 21040, 20855, 20307, 23618, 25110, 33410, 28857, 24847, 22270, 12290])
      | (None, Some ids) \<Rightarrow>
          base @ ([10, 10, 34917, 20805, 65306, 33509, 27493, 39588, 20013, 22635, 20889, 20102] @ lit '' '' @ [96] @ lit ''workflow_node_id'' @ [96, 65292, 20854, 20540, 39035, 20026, 19979, 21015] @ lit '' **workflow '' @ [33410, 28857] @ lit '' id** '' @ [20043, 19968, 30340, 23376, 38598, 65288, 19982, 26368, 36817, 19968, 27425] @ lit '' '' @ [96] @ lit ''workflow_execute'' @ [96] @ lit '' '' @ [24037, 20855, 32467, 26524, 20013] @ lit '' '' @ [96] @ lit ''nodes[].id'' @ [96] @ lit '' '' @ [23545, 40784, 65289, 65306]) @
          join (lit '', '') ids @ [12290] @ plan_rewrite_strict_node_coverage_suffix strict ids
      | (None, None) \<Rightarrow> base)"

definition outcome_after_semantics_failure :: "plan_lib \<Rightarrow> FinalPlanGateArgs \<Rightarrow> ustring option \<Rightarrow> FinalPlanGateStepOutcome" where
  "outcome_after_semantics_failure pl args issue =
     (let apply_layer = apply_layer_semantics (ga_gate_context args) in
      if ga_plan_rewrite_attempts args \<ge> ga_plan_rewrite_max_attempts args
      then \<lparr>step_route = SemanticsFailedRewriteExhausted, step_decision_reason = PlanRewriteExhausted,
            step_after = StopTurnPlanRewriteExhausted
              (classify_exhausted_reason pl (ga_msg args) (ga_messages args) (ga_layer_need args) apply_layer (ga_strict_coverage args)),
            next_plan_rewrite_count = None\<rparr>
      else let bind_suffix = (case filter_option (\<lambda>v. v \<noteq> []) (ga_validate_only_binding_ids args) of
                   Some ids \<Rightarrow> validate_only_plan_binding_rewrite_suffix ids | None \<Rightarrow> []);
               base = (case trim_nonempty issue of Some s \<Rightarrow> plan_rewrite_user_text_with_issue s | None \<Rightarrow> plan_rewrite_user_text_base);
               rewrite_text = plan_rewrite_text_for_semantics_failure (pl_json pl) base (ga_layer_need args) apply_layer
                 (ga_messages args) (ga_strict_coverage args) in
           \<lparr>step_route = SemanticsFailedRequestRewrite, step_decision_reason = StaticSemanticsFailed,
            step_after = RequestPlanRewrite (user_plan_rewrite_injection (rewrite_text @ bind_suffix)),
            next_plan_rewrite_count = Some (ga_plan_rewrite_attempts args + 1)\<rparr>)"

definition step_check_structured_plan :: "plan_lib \<Rightarrow> FinalPlanGateArgs \<Rightarrow> FinalPlanGateStepOutcome" where
  "step_check_structured_plan pl args =
     (case parse_with pl (content_str (ga_msg args)) (ga_validate_only_binding_ids args) of
        Inr plan \<Rightarrow>
          (case evaluate_static_semantics pl plan args of
             PassStopTurn \<Rightarrow>
               \<lparr>step_route = AcceptStructuredPlanOk, step_decision_reason = StructuredPlanAccepted, step_after = StopTurn, next_plan_rewrite_count = None\<rparr>
           | PassPendingSemanticLlm plan digest \<Rightarrow>
               \<lparr>step_route = PendingSemanticConsistencyLlm, step_decision_reason = PendingSemantic,
                step_after = StopTurnPendingPlanConsistencyLlm plan digest, next_plan_rewrite_count = None\<rparr>
           | SemanticsFail feedback \<Rightarrow> outcome_after_semantics_failure pl args (Some feedback))
      | Inl e \<Rightarrow>
          (let outcome = outcome_after_semantics_failure pl args (Some (plan_artifact_error_log_summary e)) in
           if step_route outcome = SemanticsFailedRequestRewrite then outcome\<lparr>step_decision_reason := PlanParseFailed\<rparr> else outcome))"

fun run_final_plan_gate :: "plan_lib \<Rightarrow> FinalPlanGatePhase \<Rightarrow> FinalPlanGateArgs \<Rightarrow> FinalPlanGateStepOutcome" where
  "run_final_plan_gate pl NoRequirement args =
     \<lparr>step_route = StopNoRequirement, step_decision_reason = PolicyNoRequirement, step_after = StopTurn, next_plan_rewrite_count = None\<rparr>"
| "run_final_plan_gate pl CheckStructuredPlan args = step_check_structured_plan pl args"
| "run_final_plan_gate pl PendingSemanticLlm args =
     \<lparr>step_route = SemanticConsistencyAcceptedStop, step_decision_reason = UnexpectedPendingSemanticOnFinalArrived,
      step_after = StopTurn, next_plan_rewrite_count = None\<rparr>"

definition run_final_plan_gate_semantic_completed :: "json_lib \<Rightarrow> PlanSemanticLlmOutcome \<Rightarrow> nat \<Rightarrow> nat \<Rightarrow> FinalPlanGateStepOutcome" where
  "run_final_plan_gate_semantic_completed jl outcome attempts max_attempts =
     (if so_consistent outcome
      then \<lparr>step_route = SemanticConsistencyAcceptedStop, step_decision_reason = SemanticConsistencyAccepted,
            step_after = StopTurn, next_plan_rewrite_count = None\<rparr>
      else if attempts \<ge> max_attempts
      then \<lparr>step_route = SemanticMismatchRewriteExhausted, step_decision_reason = SemanticInconsistencyRewriteExhausted,
            step_after = StopTurnPlanRewriteExhausted PlanSemanticInconsistent, next_plan_rewrite_count = None\<rparr>
      else \<lparr>step_route = SemanticMismatchRequestRewrite, step_decision_reason = SemanticInconsistencyRewrite,
            step_after = RequestPlanRewrite (user_plan_rewrite_injection
              (user_text_semantic_mismatch_with_feedback jl (so_violation_codes outcome) (so_rationale outcome))),
            next_plan_rewrite_count = Some (attempts + 1)\<rparr>)"

definition after_final_assistant :: "plan_lib \<Rightarrow> PerCoordinator \<Rightarrow> Message \<Rightarrow> Message list \<Rightarrow> AgentConfig \<Rightarrow> bool \<Rightarrow>
    AfterFinalAssistant \<times> PerCoordinator" where
  "after_final_assistant pl per msg messages cfg ws_set =
     (let ctx = build_final_plan_gate_context (final_plan_policy per) (plan_requirement_source per);
          (layer_need, cache) = (if ctx_require_plan ctx then workflow_validate_layer_need (pl_json pl) messages (workflow_validate_cache per)
                                 else (None, workflow_validate_cache per));
          binding_ids = (if ctx_require_plan ctx then last_workflow_validate_binding_plan_node_ids (pl_json pl) messages else None);
          per1 = per\<lparr>workflow_validate_cache := cache\<rparr>;
          outcome = run_final_plan_gate pl (ctx_phase ctx)
            \<lparr>ga_msg = msg, ga_messages = messages, ga_cfg = cfg, ga_workspace_is_set = ws_set, ga_gate_context = ctx,
             ga_strict_coverage = final_plan_require_strict_workflow_node_coverage per,
             ga_semantic_check_enabled = final_plan_semantic_check_enabled per,
             ga_max_non_readonly_tools = final_plan_semantic_check_max_non_readonly_tools per,
             ga_layer_need = layer_need, ga_validate_only_binding_ids = binding_ids,
             ga_plan_rewrite_attempts = plan_rewrite_attempts (counters per),
             ga_plan_rewrite_max_attempts = plan_rewrite_max_attempts per\<rparr> in
      (step_after outcome, apply_plan_rewrite_count_from_gate per1 outcome))"

section \<open>Workflow calls\<close>

record PreparedWorkflowExecute =
  patched_args :: ustring
  pw_execute :: bool
  skipped_result :: ustring
  reflection_inject :: "Value option"

definition stop_output_to_string :: "json_lib \<Rightarrow> Value option \<Rightarrow> ustring" where
  "stop_output_to_string jl stop_output =
     (case stop_output of
        None \<Rightarrow> (lit ''workflow_execute '' @ [24050, 20572, 27490, 65288, 21453, 24605, 25511, 21046, 22120, 25298, 32477, 32487, 32493, 25191, 34892, 65289, 12290])
      | Some (String s) \<Rightarrow> s
      | Some v \<Rightarrow> jl_to_string jl v)"

definition instruction_type :: "Value \<Rightarrow> ustring option" where
  "instruction_type v = and_then (get_key v (lit ''instruction_type'')) as_str"

definition prepare_workflow_execute :: "json_lib \<Rightarrow> ustring \<Rightarrow> PerCoordinator \<Rightarrow> PreparedWorkflowExecute \<times> PerCoordinator" where
  "prepare_workflow_execute jl args_json per =
     (let (decision, controller) = decide jl args_json (reflection per);
          inject = wrd_inject_instruction decision;
          per1 = per\<lparr>reflection := controller\<rparr>;
          per2 = (if final_plan_policy per = WorkflowReflection \<and> and_then inject instruction_type = Some INSTRUCTION_WORKFLOW_REFLECTION_PLAN_NEXT
                  then per1\<lparr>plan_requirement_source := WorkflowReflectionSource\<rparr> else per1) in
      (\<lparr>patched_args = (case wrd_workflow_args_patch decision of Some patch \<Rightarrow> apply_workflow_patch jl args_json patch | None \<Rightarrow> args_json),
        pw_execute = wrd_execute decision,
        skipped_result = (if wrd_execute decision then [] else stop_output_to_string jl (wrd_stop_output decision)),
        reflection_inject = inject\<rparr>, per2))"

definition append_tool_result_and_reflection :: "json_lib \<Rightarrow> PerCoordinator \<Rightarrow> Message list \<Rightarrow> ustring \<Rightarrow> ustring \<Rightarrow> Value option \<Rightarrow>
    Message list \<times> PerCoordinator" where
  "append_tool_result_and_reflection jl per messages tid result inject =
     (let ms1 = messages @ [tool_result tid result];
          (ms2, per1) =
            (case filter_option (\<lambda>v. get_key v (lit ''tool_job'') = None) inject of
               None \<Rightarrow> (ms1, per)
             | Some instruction \<Rightarrow>
                 (ms1 @ [user_only (jl_to_string jl instruction)],
                  if final_plan_policy per = WorkflowReflection \<and>
                     instruction_type instruction \<in> {Some INSTRUCTION_WORKFLOW_REFLECTION_PLAN_NEXT, Some INSTRUCTION_WORKFLOW_REFLECTION_NEXT}
                  then per\<lparr>plan_requirement_source := WorkflowReflectionSource\<rparr> else per)) in
      (ms2, per1\<lparr>workflow_validate_cache := refresh_after_messages_append jl ms2 (workflow_validate_cache per1)\<rparr>))"

section \<open>Reflecting on an assistant's message\<close>

datatype ReflectOnAssistantOutcome =
    ReflectStopTurn
  | ContinueOuterForPlanRewrite
  | ProceedToExecuteTools
  | ReflectPlanRewriteExhausted PlanRewriteExhaustedReason
  | ReflectUserCancelled

text \<open>What a turn carries from one step to the next: the conversation, the shared budget and the coordinator.\<close>

record turn_state =
  ts_messages :: "Message list"
  ts_budget :: TurnBudgetCounter
  ts_per :: PerCoordinator

text \<open>The side check's surroundings: the clock, the model service and the tokenizer.\<close>

record 'e side_env =
  se_now :: nat
  se_service :: "ustring \<Rightarrow> ustring \<Rightarrow> ('e LlmCompleteError, Message \<times> ustring) result"
  se_estimate :: "Message \<Rightarrow> nat option"

definition push_message :: "Message \<Rightarrow> turn_state \<Rightarrow> turn_state" where
  "push_message m s = s\<lparr>ts_messages := ts_messages s @ [m]\<rparr>"

fun reflect_finish_from_after_final_assistant :: "AfterFinalAssistant \<Rightarrow> turn_state \<Rightarrow> ReflectOnAssistantOutcome \<times> turn_state" where
  "reflect_finish_from_after_final_assistant StopTurn s = (ReflectStopTurn, s)"
| "reflect_finish_from_after_final_assistant (RequestPlanRewrite m) s = (ContinueOuterForPlanRewrite, push_message m s)"
| "reflect_finish_from_after_final_assistant (StopTurnPlanRewriteExhausted reason) s = (ReflectPlanRewriteExhausted reason, s)"
| "reflect_finish_from_after_final_assistant (StopTurnPendingPlanConsistencyLlm plan digest) s = (ReflectStopTurn, s)"

definition reflect_pending_semantic_consistency_llm :: "plan_lib \<Rightarrow> TurnBudgetConfig \<Rightarrow> 'e side_env \<Rightarrow> AgentReplyPlanV1 \<Rightarrow> ustring option \<Rightarrow>
    turn_state \<Rightarrow> ReflectOnAssistantOutcome \<times> turn_state" where
  "reflect_pending_semantic_consistency_llm pl bcfg env plan digest s =
     (let (outcome, budget) = evaluate_plan_consistency_with_recent_tools_llm (pl_json pl) bcfg (Some (ts_budget s)) (se_now env) (se_service env)
            (se_estimate env) (agent_reply_plan_json_compact pl plan) digest;
          s1 = s\<lparr>ts_budget := unwrap_or budget (ts_budget s)\<rparr> in
      if so_user_cancelled outcome then (ReflectUserCancelled, s1)
      else let sem = run_final_plan_gate_semantic_completed (pl_json pl) outcome (plan_rewrite_attempts (counters (ts_per s1)))
                 (plan_rewrite_max_attempts (ts_per s1));
               s2 = s1\<lparr>ts_per := apply_plan_rewrite_count_from_gate (ts_per s1) sem\<rparr> in
           reflect_finish_from_after_final_assistant (step_after sem) s2)"

definition has_tool_calls :: "Message \<Rightarrow> bool" where
  "has_tool_calls m = (case msg_tool_calls m of Some calls \<Rightarrow> calls \<noteq> [] | None \<Rightarrow> False)"

definition per_reflect_after_assistant :: "plan_lib \<Rightarrow> AgentConfig \<Rightarrow> bool \<Rightarrow> TurnBudgetConfig \<Rightarrow> 'e side_env \<Rightarrow> ustring \<Rightarrow> Message \<Rightarrow>
    turn_state \<Rightarrow> ReflectOnAssistantOutcome \<times> turn_state" where
  "per_reflect_after_assistant pl cfg ws_set bcfg env finish_reason msg s =
     (if finish_reason = lit ''tool_calls'' \<or> has_tool_calls msg then (ProceedToExecuteTools, s)
      else let (after, per) = after_final_assistant pl (ts_per s) msg (ts_messages s) cfg ws_set;
               s1 = s\<lparr>ts_per := per\<rparr> in
           case after of
             StopTurnPendingPlanConsistencyLlm plan digest \<Rightarrow> reflect_pending_semantic_consistency_llm pl bcfg env plan digest s1
           | other \<Rightarrow> reflect_finish_from_after_final_assistant other s1)"

section \<open>Lemmas\<close>

subsection \<open>The gate\<close>

lemma is_err_iff [simp]: "is_err r \<longleftrightarrow> (\<forall>a. r \<noteq> Inr a)"
  by (cases r) (simp_all add: is_err_def)

lemma ok_unit: "(\<forall>a. r \<noteq> Inr a) \<longleftrightarrow> r \<noteq> Inr ()"
  by auto

definition accepted :: "AfterFinalAssistant \<Rightarrow> bool" where
  "accepted a \<longleftrightarrow> a = StopTurn \<or> (\<exists>plan digest. a = StopTurnPendingPlanConsistencyLlm plan digest)"

text \<open>The rules a plan must meet, stated on the ids it names.\<close>

definition meets_rules :: "AgentReplyPlanV1 \<Rightarrow> bool \<Rightarrow> bool \<Rightarrow> nat option \<Rightarrow> ustring list option \<Rightarrow> ustring list option \<Rightarrow> bool" where
  "meets_rules plan reflecting strict layer_need wf_ids binding_ids \<longleftrightarrow>
     (\<forall>ids. wf_ids = Some ids \<longrightarrow> set (linked_node_ids plan) \<subseteq> set ids \<and>
        (strict \<longrightarrow> linked_node_ids plan = [] \<or> set ids \<subseteq> set (linked_node_ids plan))) \<and>
     (reflecting \<longrightarrow> (\<forall>n. layer_need = Some n \<longrightarrow> n \<le> length (plan_steps plan)) \<and>
        (\<forall>ids. binding_ids = Some ids \<and> ids \<noteq> [] \<longrightarrow>
           list_all (\<lambda>s. nonblank_option (step_workflow_node_id s)) (plan_steps plan) \<and> mset (linked_node_ids plan) = mset ids))"

lemma layers_ok_iff:
  "static_semantics_layers_ok plan r need \<longleftrightarrow> (r \<longrightarrow> (\<forall>n. need = Some n \<longrightarrow> n \<le> length (plan_steps plan)))"
  by (auto simp: static_semantics_layers_ok_def split: option.splits)

lemma id_checks_iff:
  "static_semantics_workflow_id_checks plan strict wids =
     ((\<forall>ids. wids = Some ids \<longrightarrow> set (linked_node_ids plan) \<subseteq> set ids),
      strict \<longrightarrow> (\<forall>ids. wids = Some ids \<longrightarrow> linked_node_ids plan = [] \<or> set ids \<subseteq> set (linked_node_ids plan)))"
  by (cases wids) (simp_all add: static_semantics_workflow_id_checks_def subset_Inr covers_Inr)

lemma binding_ok_iff:
  "static_semantics_validate_only_binding_ok plan r b \<longleftrightarrow>
     (r \<longrightarrow> (\<forall>ids. b = Some ids \<and> ids \<noteq> [] \<longrightarrow>
        list_all (\<lambda>s. nonblank_option (step_workflow_node_id s)) (plan_steps plan) \<and> mset (linked_node_ids plan) = mset ids))"
  by (auto simp: static_semantics_validate_only_binding_ok_def binds_Inr split: option.splits)

definition args_meet_rules :: "plan_lib \<Rightarrow> FinalPlanGateArgs \<Rightarrow> AgentReplyPlanV1 \<Rightarrow> bool" where
  "args_meet_rules pl args plan =
     meets_rules plan (apply_layer_semantics (ga_gate_context args)) (ga_strict_coverage args) (ga_layer_need args)
       (last_workflow_tool_node_ids (pl_json pl) (ga_messages args)) (ga_validate_only_binding_ids args)"

lemma evaluate_static_semantics_rules:
  "args_meet_rules pl args plan \<Longrightarrow> evaluate_static_semantics pl plan args = static_semantics_pass_outcome pl plan args"
  "\<not> args_meet_rules pl args plan \<Longrightarrow> \<exists>feedback. evaluate_static_semantics pl plan args = SemanticsFail feedback"
  by (auto simp: args_meet_rules_def evaluate_static_semantics_def Let_def id_checks_iff layers_ok_iff binding_ok_iff meets_rules_def)

lemma not_accepted_after_failure [simp]: "\<not> accepted (step_after (outcome_after_semantics_failure pl args issue))"
  by (simp add: outcome_after_semantics_failure_def accepted_def Let_def)

lemma pass_outcome_cases:
  "static_semantics_pass_outcome pl plan args = PassStopTurn \<or> (\<exists>digest. static_semantics_pass_outcome pl plan args = PassPendingSemanticLlm plan digest)"
  by (simp add: static_semantics_pass_outcome_def Let_def)

lemma step_check_accepts:
  "accepted (step_after (step_check_structured_plan pl args)) \<longleftrightarrow>
     (\<exists>plan. parse_with pl (content_str (ga_msg args)) (ga_validate_only_binding_ids args) = Inr plan \<and> args_meet_rules pl args plan)"
proof (cases "parse_with pl (content_str (ga_msg args)) (ga_validate_only_binding_ids args)")
  case (Inl e)
  then show ?thesis by (simp add: step_check_structured_plan_def Let_def)
next
  case (Inr plan)
  show ?thesis
  proof (cases "args_meet_rules pl args plan")
    case True
    then show ?thesis using Inr pass_outcome_cases [of pl plan args]
      by (auto simp: step_check_structured_plan_def accepted_def evaluate_static_semantics_rules(1))
  next
    case False
    then obtain feedback where "evaluate_static_semantics pl plan args = SemanticsFail feedback"
      using evaluate_static_semantics_rules(2) by blast
    then show ?thesis using Inr False by (simp add: step_check_structured_plan_def)
  qed
qed

lemma gate_context_simps:
  "ctx_phase (build_final_plan_gate_context p s) = (if ctx_require_plan (build_final_plan_gate_context p s) then CheckStructuredPlan else NoRequirement)"
  "ctx_require_plan (build_final_plan_gate_context p s) \<longleftrightarrow> p = Always \<or> p = WorkflowReflection \<and> s = WorkflowReflectionSource"
  "apply_layer_semantics (build_final_plan_gate_context p s) \<longleftrightarrow> p = WorkflowReflection \<and> s = WorkflowReflectionSource"
  by (auto simp: build_final_plan_gate_context_def apply_layer_semantics_def split: FinalPlanRequirementMode.splits)

lemma after_final_assistant_accepts:
  assumes "ctx_require_plan (build_final_plan_gate_context (final_plan_policy per) (plan_requirement_source per))"
  shows "accepted (fst (after_final_assistant pl per msg messages cfg ws_set)) \<longleftrightarrow>
     (\<exists>plan. parse_with pl (content_str msg) (last_workflow_validate_binding_plan_node_ids (pl_json pl) messages) = Inr plan \<and>
        meets_rules plan (final_plan_policy per = WorkflowReflection) (final_plan_require_strict_workflow_node_coverage per)
          (fst (workflow_validate_layer_need (pl_json pl) messages (workflow_validate_cache per)))
          (last_workflow_tool_node_ids (pl_json pl) messages) (last_workflow_validate_binding_plan_node_ids (pl_json pl) messages))"
proof -
  have layer: "apply_layer_semantics (build_final_plan_gate_context (final_plan_policy per) (plan_requirement_source per)) \<longleftrightarrow>
      final_plan_policy per = WorkflowReflection"
    using assms by (auto simp: gate_context_simps)
  show ?thesis using assms
    by (simp add: after_final_assistant_def Let_def gate_context_simps(1) step_check_accepts args_meet_rules_def layer split: prod.splits)
qed

lemma binding_ids_nonempty: "last_workflow_validate_binding_plan_node_ids jl messages = Some ids \<Longrightarrow> ids \<noteq> []"
  by (auto simp: last_workflow_validate_binding_plan_node_ids_def newest_def bind_eq_Some_conv binding_ids_of_def nonempty_def
      dest!: find_map_Some split: if_splits)

text \<open>
  A plan with several steps, bound to validated nodes, is found by the gate; when the policy asks for plans
  always, the report on giving up looks for it without the nodes and says there is none.
\<close>

lemma present_plan_reported_missing:
  assumes "\<And>slice q. slice \<in> set (collect_json_candidates (content_str msg)) \<Longrightarrow> pl_read_plan pl slice = Some q \<Longrightarrow> length (plan_steps q) > 1"
  shows "classify_exhausted_reason pl msg messages layer_need False strict = PlanMissing"
proof (cases "parse_with pl (content_str msg) None")
  case (Inr p)
  then obtain slice q where "slice \<in> set (collect_json_candidates (content_str msg))" "pl_read_plan pl slice = Some q" "wf_plan q None"
    unfolding parse_with_def by (rule parse_plan_Inr)
  then show ?thesis using assms by (fastforce simp: wf_plan_def)
qed (simp add: classify_exhausted_reason_def)

subsection \<open>Attempts\<close>

definition rewrites_left :: "PerCoordinator \<Rightarrow> nat" where
  "rewrites_left per = plan_rewrite_max_attempts per - plan_rewrite_attempts (counters per)"

definition pays :: "FinalPlanGateStepOutcome \<Rightarrow> nat \<Rightarrow> nat \<Rightarrow> bool" where
  "pays outcome attempts limit \<longleftrightarrow>
     (case step_after outcome of
        RequestPlanRewrite _ \<Rightarrow> attempts < limit \<and> next_plan_rewrite_count outcome = Some (attempts + 1)
      | _ \<Rightarrow> next_plan_rewrite_count outcome = None)"

lemma failure_pays: "pays (outcome_after_semantics_failure pl args issue) (ga_plan_rewrite_attempts args) (ga_plan_rewrite_max_attempts args)"
  by (simp add: pays_def outcome_after_semantics_failure_def Let_def)

lemma pays_decision_reason [simp]: "pays (outcome\<lparr>step_decision_reason := r\<rparr>) a l \<longleftrightarrow> pays outcome a l"
  by (simp add: pays_def split: AfterFinalAssistant.splits)

lemma gate_pays: "pays (run_final_plan_gate pl phase args) (ga_plan_rewrite_attempts args) (ga_plan_rewrite_max_attempts args)"
proof (cases phase)
  case CheckStructuredPlan
  have pass: "pays \<lparr>step_route = r, step_decision_reason = d, step_after = a, next_plan_rewrite_count = None\<rparr> n l"
    if "accepted a" for r d a n l
    using that by (auto simp: pays_def accepted_def)
  show ?thesis unfolding CheckStructuredPlan run_final_plan_gate.simps step_check_structured_plan_def Let_def
    by (auto simp: failure_pays pass accepted_def split: sum.split StaticSemanticsOutcome.split)
qed (simp_all add: pays_def)

lemma semantic_pays: "pays (run_final_plan_gate_semantic_completed jl outcome a l) a l"
  by (simp add: pays_def run_final_plan_gate_semantic_completed_def)

lemma apply_count_max [simp]: "plan_rewrite_max_attempts (apply_plan_rewrite_count_from_gate per outcome) = plan_rewrite_max_attempts per"
  by (simp add: apply_plan_rewrite_count_from_gate_def split: option.splits)

lemma paid_rewrites:
  assumes "pays outcome (plan_rewrite_attempts (counters per)) (plan_rewrite_max_attempts per)"
  shows "(case step_after outcome of RequestPlanRewrite _ \<Rightarrow> 1 | _ \<Rightarrow> 0) +
           rewrites_left (apply_plan_rewrite_count_from_gate per outcome) \<le> rewrites_left per"
  using assms by (auto simp: pays_def rewrites_left_def apply_plan_rewrite_count_from_gate_def split: AfterFinalAssistant.splits)

lemma after_final_assistant_pays:
  assumes "after_final_assistant pl per msg messages cfg ws_set = (after, per')"
  shows "(case after of RequestPlanRewrite _ \<Rightarrow> 1 | _ \<Rightarrow> 0) + rewrites_left per' \<le> rewrites_left per"
    and "plan_rewrite_max_attempts per' = plan_rewrite_max_attempts per"
proof -
  obtain phase args cache where after: "after = step_after (run_final_plan_gate pl phase args)"
    and per': "per' = apply_plan_rewrite_count_from_gate (per\<lparr>workflow_validate_cache := cache\<rparr>) (run_final_plan_gate pl phase args)"
    and args: "ga_plan_rewrite_attempts args = plan_rewrite_attempts (counters per)" "ga_plan_rewrite_max_attempts args = plan_rewrite_max_attempts per"
    using assms by (auto simp: after_final_assistant_def Let_def split: prod.splits)
  show "(case after of RequestPlanRewrite _ \<Rightarrow> 1 | _ \<Rightarrow> 0) + rewrites_left per' \<le> rewrites_left per"
    using paid_rewrites [of "run_final_plan_gate pl phase args" "per\<lparr>workflow_validate_cache := cache\<rparr>"] gate_pays [of pl phase args]
    by (simp add: after per' args rewrites_left_def)
  show "plan_rewrite_max_attempts per' = plan_rewrite_max_attempts per" by (simp add: per')
qed

lemma reflect_finish_keeps [simp]:
  "ts_per (snd (reflect_finish_from_after_final_assistant a s)) = ts_per s"
  "ts_budget (snd (reflect_finish_from_after_final_assistant a s)) = ts_budget s"
  by (cases a; simp add: push_message_def)+

lemma reflect_finish_rewrites:
  "fst (reflect_finish_from_after_final_assistant a s) = ContinueOuterForPlanRewrite \<longleftrightarrow> (\<exists>m. a = RequestPlanRewrite m)"
  by (cases a) simp_all

abbreviation asks_again :: "ReflectOnAssistantOutcome \<Rightarrow> nat" where
  "asks_again out \<equiv> (if out = ContinueOuterForPlanRewrite then 1 else 0)"

lemma reflect_finish_pays:
  "asks_again (fst (reflect_finish_from_after_final_assistant a s)) = (case a of RequestPlanRewrite _ \<Rightarrow> 1 | _ \<Rightarrow> 0)"
  by (cases a) simp_all

lemma semantic_reflect_pays:
  "asks_again (fst (reflect_pending_semantic_consistency_llm pl bcfg env plan digest s)) +
     rewrites_left (ts_per (snd (reflect_pending_semantic_consistency_llm pl bcfg env plan digest s))) \<le> rewrites_left (ts_per s)"
proof -
  obtain outcome budget where ev: "evaluate_plan_consistency_with_recent_tools_llm (pl_json pl) bcfg (Some (ts_budget s)) (se_now env)
      (se_service env) (se_estimate env) (agent_reply_plan_json_compact pl plan) digest = (outcome, budget)"
    by (rule prod.exhaust)
  let ?sem = "run_final_plan_gate_semantic_completed (pl_json pl) outcome (plan_rewrite_attempts (counters (ts_per s)))
      (plan_rewrite_max_attempts (ts_per s))"
  show ?thesis
  proof (cases "so_user_cancelled outcome")
    case False
    let ?s = "s\<lparr>ts_budget := unwrap_or budget (ts_budget s), ts_per := apply_plan_rewrite_count_from_gate (ts_per s) ?sem\<rparr>"
    have "reflect_pending_semantic_consistency_llm pl bcfg env plan digest s = reflect_finish_from_after_final_assistant (step_after ?sem) ?s"
      using False by (simp add: reflect_pending_semantic_consistency_llm_def ev Let_def)
    then show ?thesis using paid_rewrites [OF semantic_pays, of "pl_json pl" outcome "ts_per s"] reflect_finish_pays [of "step_after ?sem" ?s]
      by simp
  qed (simp add: reflect_pending_semantic_consistency_llm_def ev)
qed

lemma reflect_pays:
  "asks_again (fst (per_reflect_after_assistant pl cfg ws_set bcfg env finish msg s)) +
     rewrites_left (ts_per (snd (per_reflect_after_assistant pl cfg ws_set bcfg env finish msg s))) \<le> rewrites_left (ts_per s)"
proof (cases "finish = lit ''tool_calls'' \<or> has_tool_calls msg")
  case False
  obtain after per where after: "after_final_assistant pl (ts_per s) msg (ts_messages s) cfg ws_set = (after, per)"
    by (cases "after_final_assistant pl (ts_per s) msg (ts_messages s) cfg ws_set")
  note step = after_final_assistant_pays(1) [OF after]
  show ?thesis
  proof (cases after)
    case (StopTurnPendingPlanConsistencyLlm plan digest)
    then show ?thesis using False after step semantic_reflect_pays [of pl bcfg env plan digest "s\<lparr>ts_per := per\<rparr>"]
      by (simp add: per_reflect_after_assistant_def)
  qed (use False after step in \<open>simp_all add: per_reflect_after_assistant_def push_message_def\<close>)
qed (auto simp: per_reflect_after_assistant_def)

text \<open>
  Successive reflections of one turn.  What happens in between, tools and trimming included, may change the conversation
  and the budget in any way.
\<close>

record 'e reflection_input =
  ri_env :: "'e side_env"
  ri_finish :: ustring
  ri_msg :: Message
  ri_messages :: "Message list"
  ri_budget :: TurnBudgetCounter

fun reflect_all :: "plan_lib \<Rightarrow> AgentConfig \<Rightarrow> bool \<Rightarrow> TurnBudgetConfig \<Rightarrow> PerCoordinator \<Rightarrow> 'e reflection_input list \<Rightarrow> ReflectOnAssistantOutcome list" where
  "reflect_all pl cfg ws_set bcfg per [] = []"
| "reflect_all pl cfg ws_set bcfg per (i # is) =
     (case per_reflect_after_assistant pl cfg ws_set bcfg (ri_env i) (ri_finish i) (ri_msg i)
             \<lparr>ts_messages = ri_messages i, ts_budget = ri_budget i, ts_per = per\<rparr> of
        (out, s) \<Rightarrow> out # reflect_all pl cfg ws_set bcfg (ts_per s) is)"

lemma reflect_all_pays:
  "length (filter (\<lambda>out. out = ContinueOuterForPlanRewrite) (reflect_all pl cfg ws_set bcfg per is)) \<le> rewrites_left per"
proof (induction "is" arbitrary: per)
  case (Cons i "is")
  let ?r = "per_reflect_after_assistant pl cfg ws_set bcfg (ri_env i) (ri_finish i) (ri_msg i)
      \<lparr>ts_messages = ri_messages i, ts_budget = ri_budget i, ts_per = per\<rparr>"
  have "asks_again (fst ?r) + rewrites_left (ts_per (snd ?r)) \<le> rewrites_left per"
    using reflect_pays [of pl cfg ws_set bcfg "ri_env i" "ri_finish i" "ri_msg i"
        "\<lparr>ts_messages = ri_messages i, ts_budget = ri_budget i, ts_per = per\<rparr>"] by simp
  then show ?case using Cons.IH [of "ts_per (snd ?r)"] by (cases ?r) auto
qed simp

subsection \<open>The cached layer count\<close>

text \<open>
  The cache with the history it speaks of.  The history grows, or it is rewritten and the cache dropped, or a tool result is
  appended through the coordinator, or the gate asks.
\<close>

datatype cache_event = Grow "Message list" | Rewrite "Message list" | AppendResult "Message list" | Ask

fun cache_step :: "json_lib \<Rightarrow> Message list \<times> WorkflowValidateLayerCache \<Rightarrow> cache_event \<Rightarrow> Message list \<times> WorkflowValidateLayerCache" where
  "cache_step jl (ms, c) (Grow new) = (ms @ new, c)"
| "cache_step jl (ms, c) (Rewrite ms') = (ms', invalidate_after_context_mutation c)"
| "cache_step jl (ms, c) (AppendResult new) = (ms @ new, refresh_after_messages_append jl (ms @ new) c)"
| "cache_step jl (ms, c) Ask = (ms, snd (workflow_validate_layer_need jl ms c))"

definition cache_ok :: "json_lib \<Rightarrow> Message list \<times> WorkflowValidateLayerCache \<Rightarrow> bool" where
  "cache_ok jl = (\<lambda>(ms, c). layer_count_cache_at_message_len c \<le> length ms \<and>
     (cached_workflow_validate_layer_count c \<noteq> None \<longrightarrow>
        cached_workflow_validate_layer_count c = last_workflow_validate_layer_count jl (take (layer_count_cache_at_message_len c) ms)))"

interpretation layer_cache: event_machine "cache_step jl" "cache_ok jl" for jl
proof
  fix s e
  assume "cache_ok jl s"
  then show "cache_ok jl (cache_step jl s e)"
    by (cases s; cases e)
      (auto simp: cache_ok_def invalidate_after_context_mutation_def refresh_after_messages_append_def workflow_validate_layer_need_def Let_def)
qed

lemma cache_ok_answer: "cache_ok jl (ms, c) \<Longrightarrow> fst (workflow_validate_layer_need jl ms c) = last_workflow_validate_layer_count jl ms"
  by (auto simp: cache_ok_def workflow_validate_layer_need_def Let_def)

text \<open>Without dropping it, a history replaced by one of the same length gets the old answer.\<close>

lemma stale_without_invalidation:
  assumes "last_workflow_validate_layer_count jl ms = Some n" and "length ms' = length ms"
  shows "fst (workflow_validate_layer_need jl ms' (snd (workflow_validate_layer_need jl ms new_layer_cache))) = Some n"
  using assms by (auto simp: workflow_validate_layer_need_def new_layer_cache_def Let_def)

subsection \<open>A concrete history\<close>

text \<open>A workflow validated with nodes \<open>n1\<close> and \<open>n2\<close>, then revised and executed with \<open>n1\<close> and \<open>n3\<close>.\<close>

definition report :: "string \<Rightarrow> string list \<Rightarrow> Value" where
  "report kind ids =
     Object [(lit ''report_type'', String (lit kind)), (lit ''nodes'', Array (map (\<lambda>i. Object [(lit ''id'', String (lit i))]) ids))]"

definition revised_lib :: plan_lib where
  "revised_lib = \<lparr>pl_json = \<lparr>jl_from_str = (\<lambda>s. if s = lit ''v'' then Inr (report ''workflow_validate_result'' [''n1'', ''n2''])
       else if s = lit ''e'' then Inr (report ''workflow_execute_result'' [''n1'', ''n3'']) else Inl []), jl_to_string = (\<lambda>v. [])\<rparr>,
     pl_read_plan = (\<lambda>s. None), pl_print_plan = (\<lambda>p. None), pl_lowercase = id\<rparr>"

definition workflow_call :: "string \<Rightarrow> Message" where
  "workflow_call i = (user_only [])\<lparr>msg_role := lit ''assistant'',
     msg_tool_calls := Some [\<lparr>call_id = lit i, call_typ = lit ''function'', call_function = \<lparr>fn_name = lit ''workflow_execute'', fn_arguments = []\<rparr>\<rparr>]\<rparr>"

definition revised_history :: "Message list" where
  "revised_history = [workflow_call ''a'', tool_result (lit ''a'') (lit ''v''), workflow_call ''b'', tool_result (lit ''b'') (lit ''e'')]"

definition reflecting_coordinator :: PerCoordinator where
  "reflecting_coordinator = (new_coordinator \<lparr>in_reflection_default_max_rounds = 2, in_final_plan_policy = WorkflowReflection, in_plan_rewrite_max_attempts = 2,
     in_strict_workflow_node_coverage = False, in_semantic_check_enabled = False, in_semantic_check_max_non_readonly_tools = 0\<rparr>)
     \<lparr>plan_requirement_source := WorkflowReflectionSource\<rparr>"

lemmas history_defs = revised_history_def workflow_call_def user_only_def tool_result_def plain_message_def

lemma trim_sample [simp]: "trim (lit ''v'') = lit ''v''" "trim (lit ''e'') = lit ''e''"
  by (simp_all add: lit_Cons trim_def trim_start_def trim_end_def is_whitespace_def)

lemma revised_payloads:
  "workflow_execute_tool_payload_json (pl_json revised_lib) revised_history 0 = None"
  "workflow_execute_tool_payload_json (pl_json revised_lib) revised_history 1 = Some (report ''workflow_validate_result'' [''n1'', ''n2''])"
  "workflow_execute_tool_payload_json (pl_json revised_lib) revised_history 2 = None"
  "workflow_execute_tool_payload_json (pl_json revised_lib) revised_history 3 = Some (report ''workflow_execute_result'' [''n1'', ''n3''])"
  by (simp_all add: workflow_execute_tool_payload_json_def history_defs called_tool_name_def assistant_index_for_tool_call_def
      WORKFLOW_EXECUTE_def revised_lib_def json_ok_def tool_message_payload_for_inner_parse_def normalize_tool_message_content_def report_def
      take_Cons' enumerate_simps numeral_eq_Suc)

lemma revised_ids:
  "last_workflow_validate_binding_plan_node_ids (pl_json revised_lib) revised_history = Some [lit ''n1'', lit ''n2'']"
  "last_workflow_tool_node_ids (pl_json revised_lib) revised_history = Some [lit ''n1'', lit ''n3'']"
proof -
  have four: "rev [0 ..< length revised_history] = [3, 2, 1, 0]" by (simp add: revised_history_def upt_rec)
  show "last_workflow_validate_binding_plan_node_ids (pl_json revised_lib) revised_history = Some [lit ''n1'', lit ''n2'']"
    "last_workflow_tool_node_ids (pl_json revised_lib) revised_history = Some [lit ''n1'', lit ''n3'']"
    unfolding last_workflow_validate_binding_plan_node_ids_def last_workflow_tool_node_ids_def newest_def four
    by (simp_all add: revised_payloads [unfolded One_nat_def] binding_ids_of_def workflow_execute_report_node_ids_def report_type_def report_def
        nodes_of_def node_id_of_def nonempty_def map_filter_simps)
qed

section \<open>Properties\<close>



text \<open>
  The model is asked to rewrite its plan at most as often as configured.  Over all reflections of a turn, whatever the answers, the tool
  results and the side checks, the number of rewrites requested is at most the configured maximum (at least one).
\<close>

theorem rewrites_bounded:
  "length (filter (\<lambda>out. out = ContinueOuterForPlanRewrite) (reflect_all pl cfg ws_set bcfg (new_coordinator i) inputs))
     \<le> max (in_plan_rewrite_max_attempts i) 1"
  using reflect_all_pays [of pl cfg ws_set bcfg "new_coordinator i" inputs]
  by (simp add: rewrites_left_def new_coordinator_def new_counters_def)

text \<open>
  The cached layer count is never stale.  After any sequence of appends, rewrites that drop the cache, tool results and
  questions, the cache answers what a scan of the whole history finds.
\<close>

theorem layer_cache_exact:
  "(case foldl (cache_step jl) (history, new_layer_cache) events of
      (ms, c) \<Rightarrow> fst (workflow_validate_layer_need jl ms c) = last_workflow_validate_layer_count jl ms)"
proof -
  have "cache_ok jl (history, new_layer_cache)" by (simp add: cache_ok_def new_layer_cache_def)
  then have "cache_ok jl (foldl (cache_step jl) (history, new_layer_cache) events)" by (rule layer_cache.run_inv)
  then show ?thesis by (auto split: prod.split simp: cache_ok_answer)
qed

text \<open>
  C34: A workflow revised after its validation closes the gate.  Under reflection, when the last validated workflow has a
  node that the last reported one has not, no answer whatsoever is accepted: the plan would have to name the node and must not.
\<close>

theorem revised_workflow_unsatisfiable:
  assumes "final_plan_policy per = WorkflowReflection" and "plan_requirement_source per = WorkflowReflectionSource"
    and "last_workflow_validate_binding_plan_node_ids (pl_json pl) messages = Some validated"
    and "last_workflow_tool_node_ids (pl_json pl) messages = Some reported"
    and "node \<in> set validated" and "node \<notin> set reported"
  shows "\<not> accepted (fst (after_final_assistant pl per msg messages cfg ws_set))"
proof
  assume "accepted (fst (after_final_assistant pl per msg messages cfg ws_set))"
  then obtain plan where "meets_rules plan True (final_plan_require_strict_workflow_node_coverage per)
      (fst (workflow_validate_layer_need (pl_json pl) messages (workflow_validate_cache per))) (Some reported) (Some validated)"
    using assms(1-4) by (subst (asm) after_final_assistant_accepts) (auto simp: gate_context_simps)
  moreover have "validated \<noteq> []" using assms(5) by auto
  ultimately have "set (linked_node_ids plan) \<subseteq> set reported" "mset (linked_node_ids plan) = mset validated"
    by (simp_all add: meets_rules_def)
  then have "set validated \<subseteq> set reported" by (metis set_mset_mset)
  then show False using assms(5,6) by blast
qed

theorem revised_workflow_unsatisfiable_witness:
  "\<not> accepted (fst (after_final_assistant revised_lib reflecting_coordinator (user_only []) revised_history sample_config True))"
  by (rule revised_workflow_unsatisfiable [OF _ _ revised_ids, of _ "lit ''n2''"]) (simp_all add: reflecting_coordinator_def new_coordinator_def)

end
