(* ===== verification/Turn_Completion.thy ===== *)
theory Turn_Completion
  imports Plan_Gate
begin

text \<open>
  When is the user's goal reached (\<^verbatim>\<open>agent/agent_turn/policy\<close>)?  The evidence for a finished task in the
  conversation since the last real user message (\<^verbatim>\<open>task_level_evidence\<close>), the signatures of commands (\<^verbatim>\<open>run_command_dedupe.rs\<close>), the tool
  calls and plan steps that are redundant then (\<^verbatim>\<open>completion_suppression.rs\<close>), the decisions of the loop
  (\<^verbatim>\<open>turn_completion_decision.rs\<close>) and the feedback it injects (\<^verbatim>\<open>turn_loop/turn_completion.rs\<close>, \<^verbatim>\<open>outer_loop_build_idle.rs\<close>).
  JSON text and Unicode lower casing are parameters.
\<close>

section \<open>Evidence for a finished task\<close>

subsection \<open>Programs to write, build and run\<close>

definition is_program_build_run_request :: "lowercase \<Rightarrow> ustring \<Rightarrow> bool" where
  "is_program_build_run_request lc task =
     (let t = lc task in
      contains_any t [[32534, 20889], [23454, 29616], lit ''write''] \<and> contains_any t [[31243, 24207], lit ''c++'', lit ''cpp''] \<and>
      contains_any t [[25191, 34892], [36816, 34892], [32534, 35793], lit ''build'', lit ''run''])"

datatype GoalCompletionEvidenceCheck = Satisfied | EvidenceMissing ustring | NotApplicable

record ProgramBuildRunEvidence =
  wrote_source :: bool
  compiled :: bool
  ran_program :: bool

definition message_history_build_flags :: "ustring \<Rightarrow> bool \<times> bool \<times> bool" where
  "message_history_build_flags h =
     (str_contains h (lit ''.cpp'') \<and> contains_any h [lit ''create file'', [21019, 24314, 25991, 20214], [24050, 21019, 24314, 25991, 20214], lit ''apply_patch''],
      contains_any h [lit ''cmake --build'', lit ''built target'', lit ''linking cxx executable''] \<or>
        str_contains h (lit ''configuring done'') \<and> str_contains h (lit ''generating done''),
      contains_any h [([36864, 20986, 30721, 65306] @ lit ''0''), lit ''exit code: 0''] \<and> contains_any h [lit ''build/'', lit ''./build/''] \<and>
        contains_any h [[26631, 20934, 36755, 20986], lit ''stdout''])"

definition normalized_tool_text :: "json_lib \<Rightarrow> NormalizedToolEnvelope \<Rightarrow> ustring" where
  "normalized_tool_text jl env =
     env_name env @ [10] @ env_summary env @ [10] @ env_output env @ [10] @ (case structured_payload env of Some v \<Rightarrow> jl_to_string jl v | None \<Rightarrow> [])"

definition run_command_invocation_from_env :: "NormalizedToolEnvelope \<Rightarrow> ustring" where
  "run_command_invocation_from_env env =
     (let inv = unwrap_or (and_then (and_then (structured_payload env) (\<lambda>v. get_key v (lit ''invocation''))) as_str) [] in
      if \<not> blank inv then inv else env_summary env)"

definition structured_stdout_nonempty :: "NormalizedToolEnvelope \<Rightarrow> bool" where
  "structured_stdout_nonempty env \<longleftrightarrow>
     and_then (and_then (structured_payload env) (\<lambda>v. get_key v (lit ''stdout_nonempty''))) as_bool = Some True"

definition looks_like_build_artifact_run :: "ustring \<Rightarrow> ustring \<Rightarrow> bool" where
  "looks_like_build_artifact_run invocation_lower lower_text =
     list_ex (\<lambda>hint. str_contains invocation_lower hint \<or> str_contains lower_text hint)
       [lit ''./build/'', lit '' build/'', lit ''$ build/'', lit ''$ ./build/'', ([21629, 20196, 65306] @ lit ''./build/''), ([21629, 20196, 65306] @ lit ''build/'')]"

definition tool_exit_ok :: "NormalizedToolEnvelope \<Rightarrow> bool" where
  "tool_exit_ok env \<longleftrightarrow> env_ok env \<or> env_exit_code env = Some 0"

definition maybe_mark_wrote_cpp_source :: "NormalizedToolEnvelope \<Rightarrow> ustring \<Rightarrow> ProgramBuildRunEvidence \<Rightarrow> ProgramBuildRunEvidence" where
  "maybe_mark_wrote_cpp_source env lower ev =
     (if env_name env \<in> {lit ''create_file'', lit ''apply_patch''} \<and> str_contains lower (lit ''.cpp'') then ev\<lparr>wrote_source := True\<rparr> else ev)"

definition maybe_mark_compiled_from_run_command :: "ustring \<Rightarrow> ustring \<Rightarrow> ProgramBuildRunEvidence \<Rightarrow> ProgramBuildRunEvidence" where
  "maybe_mark_compiled_from_run_command invocation lower ev =
     (if str_contains invocation (lit ''cmake --build'') \<or> str_contains lower (lit ''cmake --build'') \<or>
         str_contains lower (lit ''built target'') \<or> str_contains lower (lit ''linking cxx executable'')
      then ev\<lparr>compiled := True\<rparr> else ev)"

definition maybe_mark_ran_program :: "json_lib \<Rightarrow> NormalizedToolEnvelope \<Rightarrow> ustring \<Rightarrow> ustring \<Rightarrow> ProgramBuildRunEvidence \<Rightarrow> ProgramBuildRunEvidence" where
  "maybe_mark_ran_program jl env invocation lower ev =
     (let parsed = parse_tool_output jl (env_name env) (env_output env);
          stdout_nonempty = structured_stdout_nonempty env \<or> \<not> blank (po_stdout parsed) in
      if looks_like_build_artifact_run invocation lower \<and> stdout_nonempty then ev\<lparr>ran_program := True\<rparr> else ev)"

definition update_program_evidence_from_tool_env :: "json_lib \<Rightarrow> lowercase \<Rightarrow> NormalizedToolEnvelope \<Rightarrow> ProgramBuildRunEvidence \<Rightarrow> ProgramBuildRunEvidence" where
  "update_program_evidence_from_tool_env jl lc env ev =
     (let lower = lc (normalized_tool_text jl env);
          ev1 = maybe_mark_wrote_cpp_source env lower ev in
      if env_name env \<noteq> lit ''run_command'' \<or> \<not> tool_exit_ok env then ev1
      else let invocation = lc (run_command_invocation_from_env env) in
           maybe_mark_ran_program jl env invocation lower (maybe_mark_compiled_from_run_command invocation lower ev1))"

definition update_program_evidence_from_legacy_text :: "lowercase \<Rightarrow> ustring \<Rightarrow> ProgramBuildRunEvidence \<Rightarrow> ProgramBuildRunEvidence" where
  "update_program_evidence_from_legacy_text lc raw ev =
     (let (w, c, r) = message_history_build_flags (lc raw) in
      ev\<lparr>wrote_source := wrote_source ev \<or> w, compiled := compiled ev \<or> c, ran_program := ran_program ev \<or> r\<rparr>)"

definition update_program_evidence_from_message :: "json_lib \<Rightarrow> lowercase \<Rightarrow> Message \<Rightarrow> ProgramBuildRunEvidence \<Rightarrow> ProgramBuildRunEvidence" where
  "update_program_evidence_from_message jl lc m ev =
     (case message_content_as_str (msg_content m) of
        None \<Rightarrow> ev
      | Some raw \<Rightarrow>
          (case normalize_tool_message_content jl raw of
             Some env \<Rightarrow> update_program_evidence_from_tool_env jl lc env ev
           | None \<Rightarrow> update_program_evidence_from_legacy_text lc raw ev))"

definition program_build_run_evidence_from_messages :: "json_lib \<Rightarrow> lowercase \<Rightarrow> Message list \<Rightarrow> ProgramBuildRunEvidence" where
  "program_build_run_evidence_from_messages jl lc messages =
     fold (update_program_evidence_from_message jl lc) messages \<lparr>wrote_source = False, compiled = False, ran_program = False\<rparr>"

definition program_build_run_missing_from_messages :: "json_lib \<Rightarrow> lowercase \<Rightarrow> Message list \<Rightarrow> ustring option" where
  "program_build_run_missing_from_messages jl lc messages =
     (let ev = program_build_run_evidence_from_messages jl lc messages;
          missing = (if wrote_source ev then [] else [lit ''write_source'']) @ (if compiled ev then [] else [lit ''compile'']) @
                    (if ran_program ev then [] else [lit ''run'']) in
      if missing = [] then None
      else Some (lit ''missing: '' @ join [44] missing @ (lit ''; '' @ [24403, 21069, 28040, 24687, 21382, 21490, 23578, 26410, 21516, 26102, 35777, 26126, 20889, 28304, 30721] @ lit ''(.cpp)+'' @ [32534, 35793] @ lit ''+'' @ [36816, 34892, 25104, 21151])))"

definition check_program_build_run_messages :: "json_lib \<Rightarrow> lowercase \<Rightarrow> Message list \<Rightarrow> GoalCompletionEvidenceCheck" where
  "check_program_build_run_messages jl lc messages =
     (case program_build_run_missing_from_messages jl lc messages of None \<Rightarrow> Satisfied | Some reason \<Rightarrow> EvidenceMissing reason)"

subsection \<open>Any other task\<close>

record GenericTaskIntent =
  build_or_test :: bool
  write_change :: bool
  readonly_analysis :: bool

record GenericToolEvidence =
  any_success :: bool
  build_or_test_success :: bool
  write_success :: bool
  readonly_success :: bool

definition tool_message_has_success_evidence :: "json_lib \<Rightarrow> lowercase \<Rightarrow> ustring \<Rightarrow> bool" where
  "tool_message_has_success_evidence jl lc raw =
     (case normalize_tool_message_content jl raw of
        Some env \<Rightarrow> tool_exit_ok env
      | None \<Rightarrow>
          let parsed = parse_tool_output jl (lit ''generic_tool'') raw in
          if po_ok parsed \<or> po_exit_code parsed = Some 0 then True
          else contains_any (lc raw) [lit ''file exists'', [24050, 21019, 24314, 25991, 20214], [24050, 35299, 21387], [25104, 21151], lit ''completed'', lit ''succeeded''])"

definition generic_task_intent_from_task :: "lowercase \<Rightarrow> ustring \<Rightarrow> GenericTaskIntent" where
  "generic_task_intent_from_task lc task =
     (let t = lc task in
      \<lparr>build_or_test = contains_any t [[32534, 35793], [26500, 24314], [27979, 35797], [36816, 34892, 27979, 35797], lit ''build'', lit ''compile'', lit ''make'', lit ''cmake'', lit ''test'',
         lit ''pytest'', lit ''cargo test'', lit ''cargo check'', lit ''clippy''],
       write_change = contains_any t [[32534, 20889], [23454, 29616], [20462, 25913], [21019, 24314], [26032, 22686], [21024, 38500], [20462, 22797], lit ''write'', lit ''implement'', lit ''modify'',
         lit ''create'', lit ''add'', lit ''delete'', lit ''fix''],
       readonly_analysis = contains_any t [[20998, 26512], [26597, 30475], [30475, 30475], [21015, 20986], [26803, 29702], [20171, 32461], lit ''read'', lit ''inspect'', lit ''analyze'', lit ''list'',
         lit ''show'', lit ''explain'']\<rparr>)"

definition generic_task_intent_implies_build_or_test :: "lowercase \<Rightarrow> ustring \<Rightarrow> bool" where
  "generic_task_intent_implies_build_or_test lc task = build_or_test (generic_task_intent_from_task lc task)"

definition generic_tool_is_write_success :: "ustring \<Rightarrow> ustring \<Rightarrow> bool" where
  "generic_tool_is_write_success tool lower \<longleftrightarrow>
     tool \<in> {lit ''create_file'', lit ''apply_patch'', lit ''modify_file''} \<or>
     contains_any lower [[24050, 21019, 24314, 25991, 20214], lit ''created file'', lit ''apply_patch'']"

definition generic_tool_is_build_or_test_success :: "ustring \<Rightarrow> ustring \<Rightarrow> bool" where
  "generic_tool_is_build_or_test_success tool lower \<longleftrightarrow>
     tool = lit ''run_command'' \<and>
     contains_any lower [lit ''cmake'', lit ''make'', lit ''cargo test'', lit ''cargo check'', lit ''pytest'', lit ''built target'', lit ''test result: ok'', lit ''tests passed'']"

definition generic_tool_is_readonly_success :: "ustring \<Rightarrow> ustring \<Rightarrow> bool" where
  "generic_tool_is_readonly_success tool lower \<longleftrightarrow>
     tool \<in> {lit ''read_file'', lit ''read_dir'', lit ''list_tree'', lit ''repo_overview_sweep''} \<or>
     contains_any lower [lit ''read file:'', lit ''read dir:'', lit ''list tree:'']"

definition update_generic_tool_evidence_from_tool_text :: "lowercase \<Rightarrow> ustring \<Rightarrow> ustring \<Rightarrow> bool \<Rightarrow> GenericToolEvidence \<Rightarrow> GenericToolEvidence" where
  "update_generic_tool_evidence_from_tool_text lc tool txt ok ev =
     (if \<not> ok then ev
      else let lower = lc txt in
        \<lparr>any_success = True,
         build_or_test_success = build_or_test_success ev \<or> generic_tool_is_build_or_test_success tool lower,
         write_success = write_success ev \<or> generic_tool_is_write_success tool lower,
         readonly_success = readonly_success ev \<or> generic_tool_is_readonly_success tool lower\<rparr>)"

definition update_generic_tool_evidence_from_raw :: "json_lib \<Rightarrow> lowercase \<Rightarrow> ustring \<Rightarrow> GenericToolEvidence \<Rightarrow> GenericToolEvidence" where
  "update_generic_tool_evidence_from_raw jl lc raw ev =
     (case normalize_tool_message_content jl raw of
        Some env \<Rightarrow> update_generic_tool_evidence_from_tool_text lc (env_name env) (normalized_tool_text jl env) (tool_exit_ok env) ev
      | None \<Rightarrow>
          let parsed = parse_tool_output jl (lit ''generic_tool'') raw;
              ok = po_ok parsed \<or> po_exit_code parsed = Some 0 \<or> tool_message_has_success_evidence jl lc raw in
          update_generic_tool_evidence_from_tool_text lc (lit ''generic_tool'') raw ok ev)"

definition tool_like :: "Message \<Rightarrow> bool" where
  "tool_like m \<longleftrightarrow> msg_role m = lit ''tool'' \<or> msg_tool_call_id m \<noteq> None \<or> msg_name m \<noteq> None"

definition update_generic_tool_evidence_from_message :: "json_lib \<Rightarrow> lowercase \<Rightarrow> Message \<Rightarrow> GenericToolEvidence \<Rightarrow> GenericToolEvidence" where
  "update_generic_tool_evidence_from_message jl lc m ev =
     (case message_content_as_str (msg_content m) of
        None \<Rightarrow> ev
      | Some raw \<Rightarrow> if tool_like m then update_generic_tool_evidence_from_raw jl lc raw ev else ev)"

definition no_tool_evidence :: GenericToolEvidence where
  "no_tool_evidence = \<lparr>any_success = False, build_or_test_success = False, write_success = False, readonly_success = False\<rparr>"

definition recent_generic_tool_evidence :: "json_lib \<Rightarrow> lowercase \<Rightarrow> Message list \<Rightarrow> GenericToolEvidence" where
  "recent_generic_tool_evidence jl lc messages =
     fold (update_generic_tool_evidence_from_message jl lc) (take 24 (rev messages)) no_tool_evidence"

definition assistant_completion_claim :: "lowercase \<Rightarrow> ustring \<Rightarrow> bool" where
  "assistant_completion_claim lc txt =
     (if blank txt then False
      else let lower = lc (trim txt) in
        contains_any lower [[23436, 25104], [25104, 21151], [23601, 32490], [36890, 36807], [32467, 26524, 22914, 19979], [24635, 32467, 22914, 19979], lit ''done'', lit ''completed'', lit ''succeeded'', lit ''success'', lit ''ready''] \<and>
        \<not> contains_any lower [[26410, 23436, 25104], [27809, 26377, 23436, 25104], [22833, 36133], [26080, 27861, 23436, 25104], [26410, 25104, 21151], lit ''error'', lit ''failed'', lit ''not completed''])"

definition assistant_substantive_answer :: "lowercase \<Rightarrow> ustring \<Rightarrow> bool" where
  "assistant_substantive_answer lc txt =
     (let t = trim txt; lower = lc t in
      if length t < 40 then False
      else contains_any lower [[24403, 21069], [32467, 26524], [21253, 21547], [30446, 24405], [25991, 20214], [35828, 26126], [24635, 32467], [24314, 35758], lit ''analysis'', lit ''summary'', lit ''contains'', lit ''directory'', lit ''files''] \<and>
           last t \<notin> {65311, 63})"

definition last_assistant_says :: "(ustring \<Rightarrow> bool) \<Rightarrow> Message list \<Rightarrow> bool" where
  "last_assistant_says f messages =
     list_ex (\<lambda>m. msg_role m = lit ''assistant'' \<and> \<not> has_tool_calls m \<and>
        (case message_content_as_str (msg_content m) of Some s \<Rightarrow> f s | None \<Rightarrow> False)) (take 12 (rev messages))"

definition last_assistant_completion_claim :: "lowercase \<Rightarrow> Message list \<Rightarrow> bool" where
  "last_assistant_completion_claim lc messages = last_assistant_says (assistant_completion_claim lc) messages"

definition last_assistant_substantive_answer :: "lowercase \<Rightarrow> Message list \<Rightarrow> bool" where
  "last_assistant_substantive_answer lc messages = last_assistant_says (assistant_substantive_answer lc) messages"

definition generic_impl_intent_satisfied :: "GenericTaskIntent \<Rightarrow> GenericToolEvidence \<Rightarrow> bool \<Rightarrow> bool" where
  "generic_impl_intent_satisfied intent evidence completion =
     (let build_ok = \<not> build_or_test intent \<or> build_or_test_success evidence \<and> completion;
          write_ok = \<not> write_change intent \<or> write_success evidence \<and> completion in
      build_ok \<and> write_ok)"

definition generic_intent_satisfied :: "GenericTaskIntent \<Rightarrow> GenericToolEvidence \<Rightarrow> bool \<Rightarrow> bool \<Rightarrow> bool" where
  "generic_intent_satisfied intent evidence completion substantive =
     (if build_or_test intent \<or> write_change intent then generic_impl_intent_satisfied intent evidence completion
      else if readonly_analysis intent then readonly_success evidence \<and> (completion \<or> substantive)
      else any_success evidence \<and> completion)"

definition check_generic_successful_tool_then_completion :: "json_lib \<Rightarrow> lowercase \<Rightarrow> ustring \<Rightarrow> Message list \<Rightarrow> GoalCompletionEvidenceCheck" where
  "check_generic_successful_tool_then_completion jl lc task messages =
     (if generic_intent_satisfied (generic_task_intent_from_task lc task) (recent_generic_tool_evidence jl lc messages)
           (last_assistant_completion_claim lc messages) (last_assistant_substantive_answer lc messages)
      then Satisfied else NotApplicable)"

definition check_goal_completion_evidence_from_messages :: "json_lib \<Rightarrow> lowercase \<Rightarrow> ustring \<Rightarrow> Message list \<Rightarrow> GoalCompletionEvidenceCheck" where
  "check_goal_completion_evidence_from_messages jl lc task messages =
     (if is_program_build_run_request lc task then check_program_build_run_messages jl lc messages
      else check_generic_successful_tool_then_completion jl lc task messages)"

definition check_active_user_goal_completion_evidence :: "json_lib \<Rightarrow> lowercase \<Rightarrow> Message list \<Rightarrow> GoalCompletionEvidenceCheck" where
  "check_active_user_goal_completion_evidence jl lc messages =
     (case last_real_user_task_content messages False of
        None \<Rightarrow> NotApplicable
      | Some task \<Rightarrow>
          (case messages_slice_since_last_real_user messages False of
             None \<Rightarrow> NotApplicable
           | Some window \<Rightarrow> check_goal_completion_evidence_from_messages jl lc task window))"

section \<open>Signatures of commands\<close>

text \<open>\<^verbatim>\<open>Option::or_else\<close>.\<close>

definition or_else :: "'a option \<Rightarrow> 'a option \<Rightarrow> 'a option" where
  "or_else a b = (case a of Some x \<Rightarrow> Some x | None \<Rightarrow> b)"

text \<open>The tolerant reader of \<^verbatim>\<open>cm_tools/tools/command_prepare_invocation.rs\<close> and the digest of \<^verbatim>\<open>command_outcome.rs\<close>.\<close>

definition string_elements :: "Value list \<Rightarrow> ustring list" where
  "string_elements vs = List.map_filter as_str vs"

definition str_array_field :: "Value \<Rightarrow> string \<Rightarrow> ustring list" where
  "str_array_field v k = (case and_then (get_key v (lit k)) as_array of Some vs \<Rightarrow> string_elements vs | None \<Rightarrow> [])"

definition parse_run_command_payload_lenient :: "json_lib \<Rightarrow> ustring \<Rightarrow> (ustring \<times> ustring list) option" where
  "parse_run_command_payload_lenient jl args_json =
     and_then (json_ok jl args_json) (\<lambda>v.
       case filter_option (\<lambda>s. s \<noteq> []) (map_option trim (and_then (get_key v (lit ''script'')) as_str)) of
         Some script \<Rightarrow> Some (lit ''bash'', [lit ''-c'', script])
       | None \<Rightarrow> map_option (\<lambda>c. (trim c, str_array_field v ''args'')) (and_then (get_key v (lit ''command'')) as_str))"

record CommandDigest =
  cd_command :: ustring
  cd_args :: "ustring list"
  cd_cwd :: "ustring option"

definition digest_key :: "json_lib \<Rightarrow> CommandDigest \<Rightarrow> ustring" where
  "digest_key jl d =
     (let base = lit ''run_command|'' @ cd_command d @ [124] @ join [31] (cd_args d) in
      case cd_cwd d of
        None \<Rightarrow> base
      | Some cwd \<Rightarrow> base @ lit ''|meta='' @ jl_to_string jl (Object [(lit ''cwd'', String cwd)]))"

definition parse_run_command_args :: "json_lib \<Rightarrow> ustring \<Rightarrow> (ustring \<times> ustring list) option" where
  "parse_run_command_args jl args_json =
     and_then (parse_run_command_payload_lenient jl args_json) (\<lambda>(command, args).
       if command = [] then None else Some (command, map trim args))"

definition explicit_cwd_from_args :: "json_lib \<Rightarrow> ustring \<Rightarrow> ustring option" where
  "explicit_cwd_from_args jl args_json =
     and_then (json_ok jl args_json) (\<lambda>v.
       filter_option (\<lambda>s. s \<noteq> []) (map_option trim (and_then (get_key v (lit ''cwd'')) as_str)))"

definition normalize_run_command_key :: "json_lib \<Rightarrow> ustring \<Rightarrow> ustring option" where
  "normalize_run_command_key jl args_json =
     map_option (\<lambda>(command, args). digest_key jl \<lparr>cd_command = command, cd_args = args, cd_cwd = explicit_cwd_from_args jl args_json\<rparr>)
       (parse_run_command_args jl args_json)"

definition normalize_run_command_key_with_cwd :: "json_lib \<Rightarrow> ustring \<Rightarrow> ustring \<Rightarrow> ustring option" where
  "normalize_run_command_key_with_cwd jl args_json cwd =
     map_option (\<lambda>(command, args). digest_key jl \<lparr>cd_command = command, cd_args = args, cd_cwd = Some cwd\<rparr>)
       (parse_run_command_args jl args_json)"

definition tool_exit_ok_from_raw :: "json_lib \<Rightarrow> ustring \<Rightarrow> bool" where
  "tool_exit_ok_from_raw jl raw =
     (case normalize_tool_message_content jl raw of
        Some env \<Rightarrow> tool_exit_ok env
      | None \<Rightarrow> let parsed = parse_tool_output jl (lit ''run_command'') raw in po_ok parsed \<or> po_exit_code parsed = Some 0)"

definition command_args_json :: "json_lib \<Rightarrow> ustring \<Rightarrow> ustring list \<Rightarrow> ustring" where
  "command_args_json jl command args =
     jl_to_string jl (Object (obj_of [(lit ''command'', String command), (lit ''args'', Array (map String args))]))"

definition run_command_args_from_tool_message :: "json_lib \<Rightarrow> ustring \<Rightarrow> ustring option" where
  "run_command_args_from_tool_message jl raw =
     and_then (normalize_tool_message_content jl raw) (\<lambda>env.
       if env_name env \<noteq> lit ''run_command'' then None
       else and_then (structured_payload env) (\<lambda>v.
         or_else (and_then (get_key v (lit ''args_json'')) as_str)
           (map_option (\<lambda>command. command_args_json jl command (str_array_field v ''args'')) (and_then (get_key v (lit ''command'')) as_str))))"

definition COMMAND_LABEL :: ustring where
  "COMMAND_LABEL = [21629, 20196, 65306]"

fun trim_start_matches :: "ustring \<Rightarrow> nat \<Rightarrow> ustring \<Rightarrow> ustring" where
  "trim_start_matches p 0 s = s"
| "trim_start_matches p (Suc n) s = (if p \<noteq> [] \<and> starts_with s p then trim_start_matches p n (drop (length p) s) else s)"

definition infer_args_json_from_run_output :: "json_lib \<Rightarrow> ustring \<Rightarrow> ustring option" where
  "infer_args_json_from_run_output jl raw =
     and_then (List.find (\<lambda>l. starts_with l [36] \<or> starts_with l COMMAND_LABEL) (lines raw)) (\<lambda>line.
       let stripped = dropWhile (\<lambda>c. c = 36) line;
           invocation = trim (trim_start_matches COMMAND_LABEL (length stripped) stripped) in
       case split_whitespace [] invocation of
         [] \<Rightarrow> None
       | command # args \<Rightarrow> Some (command_args_json jl command args))"

definition successful_run_command_key_of :: "json_lib \<Rightarrow> Message \<Rightarrow> ustring option" where
  "successful_run_command_key_of jl m =
     (if msg_role m \<noteq> lit ''tool'' \<and> msg_tool_call_id m = None then None
      else and_then (message_content_as_str (msg_content m)) (\<lambda>raw.
        if \<not> tool_exit_ok_from_raw jl raw then None
        else and_then (or_else (run_command_args_from_tool_message jl raw)
               (if str_contains raw COMMAND_LABEL \<or> starts_with raw [36] then infer_args_json_from_run_output jl raw else None))
             (normalize_run_command_key jl)))"

definition successful_run_command_keys_from_messages :: "json_lib \<Rightarrow> Message list \<Rightarrow> ustring list" where
  "successful_run_command_keys_from_messages jl messages = List.map_filter (successful_run_command_key_of jl) messages"

section \<open>What is redundant once the goal is reached\<close>

definition READONLY_PROBE_TOOL_NAMES :: "ustring list" where
  "READONLY_PROBE_TOOL_NAMES = [lit ''read_file'', lit ''read_dir'', lit ''list_tree'', lit ''glob_files'', lit ''search_in_files'']"

definition RUN_COMMAND_VERIFY_MARKERS :: "ustring list" where
  "RUN_COMMAND_VERIFY_MARKERS =
     [lit ''ls '', lit ''ls -'', lit ''stat '', lit ''test -'', lit ''file '', lit ''--help'', lit ''timeout '', lit ''strace '', lit '' 2>&1'']"

definition FOLLOWUP_WRITE_OR_FIX_MARKERS :: "ustring list" where
  "FOLLOWUP_WRITE_OR_FIX_MARKERS =
     [lit ''implement'', lit ''implementation'', lit ''patch'', lit ''write'', lit ''modify'', lit ''edit'', lit ''change'', lit ''fix'', lit ''repair'',
      lit ''refactor'', lit ''create'', lit ''add'', lit ''delete'', lit ''remove'', [23454, 29616], [32534, 20889], [20462, 25913], [20462, 22797], [26032, 22686], [21019, 24314], [21024, 38500], [37325, 26500], [35843, 25972]]"

definition REDUNDANT_PROBE_TEXT_MARKERS :: "ustring list" where
  "REDUNDANT_PROBE_TEXT_MARKERS =
     [lit ''verify'', lit ''verification'', lit ''validate'', lit ''validation'', lit ''check'', lit ''confirm'', lit ''ensure'', lit ''exist'', lit ''exists'',
      lit ''rerun'', lit ''re-run'', lit ''run again'', lit ''list'', lit ''inspect'', lit ''read'', lit ''review'', lit ''summarize'', lit ''summary'', lit ''final'',
      lit ''report'', lit ''test'', [39564, 25910], [39564, 35777], [26657, 39564], [30830, 35748], [26816, 26597], [30830, 20445], [23384, 22312], [37325, 36305], [37325, 26032, 36816, 34892], [20877, 36816, 34892], [21015, 20986], [26597, 30475],
      [35835, 21462], [22797, 26597], [24635, 32467], [27719, 25253], [26368, 32456]]"

definition run_command_invocation_text :: "json_lib \<Rightarrow> ustring \<Rightarrow> ustring option" where
  "run_command_invocation_text jl args_json =
     and_then (json_ok jl args_json) (\<lambda>v.
       map_option (\<lambda>c. join [32] (trim c # str_array_field v ''args'')) (and_then (get_key v (lit ''command'')) as_str))"

definition run_command_is_redundant_verification :: "json_lib \<Rightarrow> lowercase \<Rightarrow> ustring \<Rightarrow> bool" where
  "run_command_is_redundant_verification jl lc args_json =
     (case run_command_invocation_text jl args_json of
        None \<Rightarrow> False
      | Some invocation \<Rightarrow> contains_any (lc invocation) RUN_COMMAND_VERIFY_MARKERS)"

definition tool_call_is_redundant_after_completion :: "json_lib \<Rightarrow> lowercase \<Rightarrow> ToolCall \<Rightarrow> bool" where
  "tool_call_is_redundant_after_completion jl lc tc =
     (let name = fn_name (call_function tc) in
      name \<in> set READONLY_PROBE_TOOL_NAMES \<or>
      name = lit ''run_command'' \<and> run_command_is_redundant_verification jl lc (fn_arguments (call_function tc)))"

definition tool_calls_are_redundant_after_completion :: "json_lib \<Rightarrow> lowercase \<Rightarrow> ToolCall list \<Rightarrow> bool" where
  "tool_calls_are_redundant_after_completion jl lc calls = list_all (tool_call_is_redundant_after_completion jl lc) calls"

definition tool_call_is_redundant_build_run_repeat :: "json_lib \<Rightarrow> ToolCall \<Rightarrow> ustring list \<Rightarrow> bool" where
  "tool_call_is_redundant_build_run_repeat jl tc prior \<longleftrightarrow>
     fn_name (call_function tc) = lit ''run_command'' \<and>
     (case normalize_run_command_key jl (fn_arguments (call_function tc)) of Some key \<Rightarrow> key \<in> set prior | None \<Rightarrow> False)"

definition tool_calls_are_redundant_when_goal_satisfied :: "json_lib \<Rightarrow> lowercase \<Rightarrow> ToolCall list \<Rightarrow> Message list \<Rightarrow> bool" where
  "tool_calls_are_redundant_when_goal_satisfied jl lc calls messages =
     (if tool_calls_are_redundant_after_completion jl lc calls then True
      else list_all (\<lambda>tc. tool_call_is_redundant_build_run_repeat jl tc (successful_run_command_keys_from_messages jl messages)) calls)"

definition plan_step_requires_formal_execution :: "PlanStepV1 \<Rightarrow> bool" where
  "plan_step_requires_formal_execution step \<longleftrightarrow>
     (case step_acceptance step of Some a \<Rightarrow> is_effective a | None \<Rightarrow> False) \<or> step_executor_kind step = Some TestRunner"

definition plan_steps_require_formal_execution :: "PlanStepV1 list \<Rightarrow> bool" where
  "plan_steps_require_formal_execution steps = list_ex plan_step_requires_formal_execution steps"

definition redundant_plan_step_text :: "lowercase \<Rightarrow> PlanStepV1 \<Rightarrow> ustring" where
  "redundant_plan_step_text lc step =
     lc (step_id step @ [10] @ unwrap_or (step_step_kind step) [] @ [10] @ step_description step)"

definition plan_step_is_redundant_after_completion :: "lowercase \<Rightarrow> PlanStepV1 \<Rightarrow> bool" where
  "plan_step_is_redundant_after_completion lc step =
     (if plan_step_requires_formal_execution step then False
      else let t = redundant_plan_step_text lc step in
           if contains_any t FOLLOWUP_WRITE_OR_FIX_MARKERS then False else contains_any t REDUNDANT_PROBE_TEXT_MARKERS)"

definition plan_steps_are_redundant_after_completion :: "lowercase \<Rightarrow> PlanStepV1 list \<Rightarrow> bool" where
  "plan_steps_are_redundant_after_completion lc steps = list_all (plan_step_is_redundant_after_completion lc) steps"

section \<open>Decisions\<close>

datatype TurnCompletionDecision =
    AllowEarlyStop
  | DenyEarlyStop ustring
  | AllowSuppressReplanning
  | DenySuppressReplanning ustring
  | AllowRedundantTools
  | DenyRedundantTools ustring
  | AllowMissingFinalAnswerFeedback
  | DenyMissingFinalAnswerFeedback ustring

fun completion_as_trace_str :: "TurnCompletionDecision \<Rightarrow> ustring" where
  "completion_as_trace_str AllowEarlyStop = lit ''allow_early_stop''"
| "completion_as_trace_str (DenyEarlyStop _) = lit ''deny_early_stop''"
| "completion_as_trace_str AllowSuppressReplanning = lit ''allow_suppress_replanning''"
| "completion_as_trace_str (DenySuppressReplanning _) = lit ''deny_suppress_replanning''"
| "completion_as_trace_str AllowRedundantTools = lit ''allow_redundant_tools''"
| "completion_as_trace_str (DenyRedundantTools _) = lit ''deny_redundant_tools''"
| "completion_as_trace_str AllowMissingFinalAnswerFeedback = lit ''allow_missing_final_answer_feedback''"
| "completion_as_trace_str (DenyMissingFinalAnswerFeedback _) = lit ''deny_missing_final_answer_feedback''"

fun deny_reason :: "TurnCompletionDecision \<Rightarrow> ustring option" where
  "deny_reason (DenyEarlyStop r) = Some r"
| "deny_reason (DenySuppressReplanning r) = Some r"
| "deny_reason (DenyRedundantTools r) = Some r"
| "deny_reason (DenyMissingFinalAnswerFeedback r) = Some r"
| "deny_reason _ = None"

definition is_allow :: "TurnCompletionDecision \<Rightarrow> bool" where
  "is_allow d \<longleftrightarrow> d \<in> {AllowEarlyStop, AllowSuppressReplanning, AllowRedundantTools, AllowMissingFinalAnswerFeedback}"

definition evaluate_turn_early_stop :: "json_lib \<Rightarrow> lowercase \<Rightarrow> Message list \<Rightarrow> TurnCompletionDecision" where
  "evaluate_turn_early_stop jl lc messages =
     (if check_active_user_goal_completion_evidence jl lc messages \<noteq> Satisfied then DenyEarlyStop (lit ''evidence_not_satisfied'')
      else case last_real_user_task_content messages False of
             None \<Rightarrow> DenyEarlyStop (lit ''no_active_user_task'')
           | Some task \<Rightarrow>
               if generic_task_intent_implies_build_or_test lc task then DenyEarlyStop (lit ''build_or_test_intent'') else AllowEarlyStop)"

definition evaluate_turn_suppress_replanning :: "json_lib \<Rightarrow> lowercase \<Rightarrow> Message list \<Rightarrow> bool \<Rightarrow> PlanStepV1 list \<Rightarrow> TurnCompletionDecision" where
  "evaluate_turn_suppress_replanning jl lc messages entered_from_step_execution_round steps =
     (if \<not> entered_from_step_execution_round then DenySuppressReplanning (lit ''not_from_step_execution_round'')
      else if steps = [] then DenySuppressReplanning (lit ''empty_steps'')
      else if plan_steps_require_formal_execution steps then DenySuppressReplanning (lit ''formal_execution_required'')
      else if \<not> is_allow (evaluate_turn_early_stop jl lc messages) then DenySuppressReplanning (lit ''early_stop_not_allowed'')
      else if \<not> plan_steps_are_redundant_after_completion lc steps then DenySuppressReplanning (lit ''steps_not_redundant'')
      else AllowSuppressReplanning)"

definition evaluate_turn_redundant_tools :: "json_lib \<Rightarrow> lowercase \<Rightarrow> ToolCall list \<Rightarrow> Message list \<Rightarrow> TurnCompletionDecision" where
  "evaluate_turn_redundant_tools jl lc calls messages =
     (if \<not> tool_calls_are_redundant_when_goal_satisfied jl lc calls messages then DenyRedundantTools (lit ''tools_not_redundant'')
      else if \<not> is_allow (evaluate_turn_early_stop jl lc messages) then DenyRedundantTools (lit ''early_stop_not_allowed'')
      else AllowRedundantTools)"

definition turn_early_stop_allowed :: "json_lib \<Rightarrow> lowercase \<Rightarrow> Message list \<Rightarrow> bool" where
  "turn_early_stop_allowed jl lc messages = is_allow (evaluate_turn_early_stop jl lc messages)"

definition turn_redundant_tools_after_completion_allowed :: "json_lib \<Rightarrow> lowercase \<Rightarrow> ToolCall list \<Rightarrow> Message list \<Rightarrow> bool" where
  "turn_redundant_tools_after_completion_allowed jl lc calls messages = is_allow (evaluate_turn_redundant_tools jl lc calls messages)"

section \<open>Feedback to the model\<close>

definition OUTER_LOOP_MISSING_FINAL_ANSWER_FEEDBACK_MAX :: nat where
  "OUTER_LOOP_MISSING_FINAL_ANSWER_FEEDBACK_MAX = 2"

definition OUTER_LOOP_MISSING_FINAL_ANSWER_MIN_CHARS :: nat where
  "OUTER_LOOP_MISSING_FINAL_ANSWER_MIN_CHARS = 24"

definition OUTER_LOOP_TRUNCATED_FEEDBACK_MAX :: nat where
  "OUTER_LOOP_TRUNCATED_FEEDBACK_MAX = 2"

definition OUTER_LOOP_BUILD_IDLE_STREAK_THRESHOLD :: nat where
  "OUTER_LOOP_BUILD_IDLE_STREAK_THRESHOLD = 2"

definition OUTER_LOOP_BUILD_IDLE_FEEDBACK_MAX :: nat where
  "OUTER_LOOP_BUILD_IDLE_FEEDBACK_MAX = 4"

definition messages_after_last_user :: "Message list \<Rightarrow> Message list option" where
  "messages_after_last_user messages = map_option (\<lambda>i. drop (i + 1) messages) (last_real_user_message_index messages False)"

definition tool_message_succeeded :: "json_lib \<Rightarrow> lowercase \<Rightarrow> Message \<Rightarrow> bool" where
  "tool_message_succeeded jl lc m =
     (msg_role m = lit ''tool'' \<and>
      (case message_content_as_str (msg_content m) of
         None \<Rightarrow> False
       | Some raw \<Rightarrow>
           (case normalize_tool_message_content jl raw of
              Some env \<Rightarrow> tool_exit_ok env
            | None \<Rightarrow> contains_any (lc raw) [([36864, 20986, 30721, 65306] @ lit ''0''), lit ''exit code: 0''])))"

definition outer_loop_window_has_any_successful_tool :: "json_lib \<Rightarrow> lowercase \<Rightarrow> Message list \<Rightarrow> bool" where
  "outer_loop_window_has_any_successful_tool jl lc messages =
     (case messages_after_last_user messages of None \<Rightarrow> False | Some window \<Rightarrow> list_ex (tool_message_succeeded jl lc) window)"

definition outer_loop_assistant_lacks_visible_final_answer :: "Message \<Rightarrow> bool" where
  "outer_loop_assistant_lacks_visible_final_answer m \<longleftrightarrow>
     \<not> has_tool_calls m \<and> length (trim (content_str m)) < OUTER_LOOP_MISSING_FINAL_ANSWER_MIN_CHARS"

definition outer_loop_missing_final_answer_feedback_body :: ustring where
  "outer_loop_missing_final_answer_feedback_body =
     ([12304, 32534, 25490, 32416, 20559, 12305, 26412, 36718, 24037, 20855, 24050, 25191, 34892, 24182, 20135, 29983, 32467, 26524, 65292, 20294, 21161, 25163, 32456, 31572, 20026, 31354, 25110, 36807, 30701, 12290, 35831, 22522, 20110] @ lit ''**'' @ [24403, 21069, 23545, 35805, 19982, 24037, 20855, 36755, 20986] @ lit ''**'' @ [65292, 29992, 33258, 28982, 35821, 35328, 21521, 29992, 25143, 32473, 20986, 23436, 25972, 32456, 31572, 65306, 35828, 26126, 24050, 23436, 25104, 20160, 20040, 12289, 20851, 38190, 32467, 26524] @ lit ''/'' @ [36335, 24452] @ lit ''/'' @ [21629, 20196, 36755, 20986, 25688, 35201, 65292, 20197, 21450, 33509, 20173, 26377, 26410, 23436, 25104, 39033, 35831, 26126, 30830, 21015, 20986, 12290] @ lit ''**'' @ [31105, 27490] @ lit ''**'' @ [20877, 21457, 36215, 26080, 24517, 35201, 30340] @ lit '' tool_calls'' @ [12290])"

definition missing_final_answer_decision :: "json_lib \<Rightarrow> lowercase \<Rightarrow> Message list \<Rightarrow> Message \<Rightarrow> nat \<Rightarrow> TurnCompletionDecision" where
  "missing_final_answer_decision jl lc messages assistant injected =
     (if injected \<ge> OUTER_LOOP_MISSING_FINAL_ANSWER_FEEDBACK_MAX then DenyMissingFinalAnswerFeedback (lit ''feedback_budget_exhausted'')
      else if \<not> outer_loop_assistant_lacks_visible_final_answer assistant
      then DenyMissingFinalAnswerFeedback (lit ''assistant_has_visible_answer'')
      else if \<not> outer_loop_window_has_any_successful_tool jl lc messages
      then DenyMissingFinalAnswerFeedback (lit ''no_successful_tool_in_window'')
      else AllowMissingFinalAnswerFeedback)"

definition outer_loop_missing_final_answer_feedback_if_needed :: "json_lib \<Rightarrow> lowercase \<Rightarrow> Message list \<Rightarrow> Message \<Rightarrow> nat \<Rightarrow> ustring option" where
  "outer_loop_missing_final_answer_feedback_if_needed jl lc messages assistant injected =
     (if is_allow (missing_final_answer_decision jl lc messages assistant injected)
      then Some outer_loop_missing_final_answer_feedback_body else None)"

definition outer_loop_truncated_feedback_body :: ustring where
  "outer_loop_truncated_feedback_body =
     ([12304, 32534, 25490, 32416, 20559, 12305, 19978, 19968, 36718, 21161, 25163, 36755, 20986, 22240, 36798, 21040, 27169, 22411, 38271, 24230, 19978, 38480, 25110, 27969, 24335, 20013, 26029, 32780, 34987] @ lit ''**'' @ [25130, 26029] @ lit ''**'' @ [65292, 32456, 31572, 19981, 23436, 25972, 12290, 35831, 22522, 20110, 24050, 26377, 19978, 19979, 25991] @ lit ''**'' @ [32487, 32493] @ lit ''**'' @ [24182, 32473, 20986, 23436, 25972, 12289, 21487, 39564, 25910, 30340, 32456, 31572, 65306, 33509, 20219, 21153, 24050, 23436, 25104, 65292, 30452, 25509, 36755, 20986, 26368, 32456, 32467, 35770, 65307, 33509, 20173, 38656, 25191, 34892, 65292, 35831, 36890, 36807] @ lit '' '' @ [96] @ lit ''tool_calls'' @ [96] @ lit '' '' @ [32487, 32493, 65307, 36991, 20813, 37325, 22797, 24050, 36755, 20986, 20869, 23481, 65292, 24517, 35201, 26102, 20998, 27573, 25110, 31934, 28860, 12290])"

definition outer_loop_truncated_feedback_if_needed :: "bool \<Rightarrow> nat \<Rightarrow> ustring option" where
  "outer_loop_truncated_feedback_if_needed truncated injected =
     (if \<not> truncated \<or> injected \<ge> OUTER_LOOP_TRUNCATED_FEEDBACK_MAX then None else Some outer_loop_truncated_feedback_body)"

subsection \<open>Promises to build without building\<close>

definition tool_message_indicates_build_progress :: "lowercase \<Rightarrow> Message \<Rightarrow> bool" where
  "tool_message_indicates_build_progress lc m =
     (case msg_name m of
        None \<Rightarrow> False
      | Some name \<Rightarrow>
          if name \<in> {lit ''cargo_test'', lit ''cargo_check'', lit ''cargo_clippy'', lit ''pytest_run''} then True
          else if name \<noteq> lit ''run_command'' then False
          else case message_content_as_str (msg_content m) of
                 None \<Rightarrow> False
               | Some content \<Rightarrow>
                   contains_any (lc content)
                     [lit ''make '', lit ''make'' @ [10], lit ''cmake --build'', lit ''cmake -build'', lit ''cargo build'', lit ''cargo test'', lit ''cargo run'',
                      lit ''ninja '', lit ''meson compile'', lit ''meson test'', lit ''go build'', lit ''go test'', lit ''npm run build'', lit ''npm test'', lit ''ctest '',
                      lit ''bazel build'', lit ''buck build''])"

definition outer_loop_window_has_build_progress_since_last_user :: "lowercase \<Rightarrow> Message list \<Rightarrow> bool" where
  "outer_loop_window_has_build_progress_since_last_user lc messages =
     (case messages_after_last_user messages of
        None \<Rightarrow> False
      | Some window \<Rightarrow> list_ex (\<lambda>m. msg_role m = lit ''tool'' \<and> tool_message_indicates_build_progress lc m) window)"

definition assistant_text_promises_build_or_compile :: "lowercase \<Rightarrow> ustring \<Rightarrow> bool" where
  "assistant_text_promises_build_or_compile lc txt =
     contains_any (lc txt) [[32534, 35793], [26500, 24314], lit ''make'', lit ''cmake'', lit ''build'', lit ''compile'', lit ''makefile'', lit ''install'',
       ([36816, 34892] @ lit '' make''), ([25191, 34892] @ lit '' make''), [24320, 22987, 32534, 35793], [36827, 34892, 32534, 35793]]"

definition outer_loop_assistant_is_build_idle_without_tools :: "lowercase \<Rightarrow> Message \<Rightarrow> bool" where
  "outer_loop_assistant_is_build_idle_without_tools lc m =
     (if has_tool_calls m then False
      else case message_content_as_str (msg_content m) of Some s \<Rightarrow> assistant_text_promises_build_or_compile lc s | None \<Rightarrow> False)"

definition outer_loop_build_idle_feedback_body :: "nat \<Rightarrow> ustring" where
  "outer_loop_build_idle_feedback_body streak =
     ([12304, 32534, 25490, 32416, 20559, 12305, 29992, 25143, 30446, 26631, 28041, 21450, 32534, 35793] @ lit ''/'' @ [26500, 24314, 65292, 20294, 24050, 36830, 32493] @ lit '' '') @ show_nat streak @
     (lit '' '' @ [36718, 21161, 25163, 22238, 22797, 26410, 20135, 29983, 20219, 20309, 26500, 24314, 31867, 24037, 20855, 32467, 26524, 65288, 22914] @ lit '' '' @ [96] @ lit ''run_command'' @ [96] @ lit '' '' @ [30340] @ lit '' make/cmake/cargo build '' @ [31561, 65289, 12290] @ lit ''**'' @ [31105, 27490] @ lit ''**'' @ [20877, 29992, 33258, 28982, 35821, 35328, 25215, 35834, 12300, 23558, 35201, 32534, 35793] @ lit ''/'' @ [35835, 21462] @ lit '' Makefile'' @ [12301, 65307, 26412, 36718, 24517, 39035, 36890, 36807] @ lit '' '' @ [96] @ lit ''tool_calls'' @ [96] @ lit '' '' @ [23454, 38469, 25191, 34892, 26500, 24314, 25110, 35835, 21462, 26500, 24314, 35828, 26126, 65288, 96] @ lit ''read_file'' @ [96] @ lit '' / '' @ [96] @ lit ''read_dir'' @ [96, 65289, 65292, 19988, 33509, 38656, 35299, 21387, 28304, 30721, 21253, 35831, 20248, 20808] @ lit '' '' @ [96] @ lit ''archive_unpack'' @ [96] @ lit '' '' @ [21040] @ lit '' '' @ [96] @ lit ''output_dir='' @ [34] @ lit ''.'' @ [34, 96, 65288, 21247, 33258, 21019, 23884, 22871, 30446, 24405, 21517, 65289, 12290])"

definition outer_loop_build_idle_feedback_if_needed :: "lowercase \<Rightarrow> ustring \<Rightarrow> Message list \<Rightarrow> Message \<Rightarrow> nat \<Rightarrow> nat \<Rightarrow> ustring option" where
  "outer_loop_build_idle_feedback_if_needed lc task messages assistant streak injected =
     (if \<not> plan_step_description_implies_build_execution lc task then None
      else if outer_loop_window_has_build_progress_since_last_user lc messages then None
      else if \<not> outer_loop_assistant_is_build_idle_without_tools lc assistant then None
      else if streak < OUTER_LOOP_BUILD_IDLE_STREAK_THRESHOLD then None
      else if injected \<ge> OUTER_LOOP_BUILD_IDLE_FEEDBACK_MAX then None
      else Some (outer_loop_build_idle_feedback_body streak))"

section \<open>Lemmas\<close>

text \<open>Evidence is collected by a fold that only sets flags: a flag is set at the end exactly when some message sets it.\<close>

locale evidence_flag =
  fixes upd :: "'m \<Rightarrow> 'e \<Rightarrow> 'e" and flag :: "'e \<Rightarrow> bool" and start :: 'e
  assumes start_clear: "\<not> flag start"
    and upd_flag: "flag (upd m e) \<longleftrightarrow> flag e \<or> flag (upd m start)"
begin

lemma fold_from: "flag (fold upd ms e) \<longleftrightarrow> flag e \<or> (\<exists>m \<in> set ms. flag (upd m start))"
proof (induction ms arbitrary: e)
  case (Cons m ms)
  have "flag (fold upd (m # ms) e) \<longleftrightarrow> flag (upd m e) \<or> (\<exists>m \<in> set ms. flag (upd m start))" by (simp add: Cons.IH)
  also have "\<dots> \<longleftrightarrow> flag e \<or> (\<exists>m \<in> set (m # ms). flag (upd m start))" by (subst upd_flag) auto
  finally show ?case .
qed simp

lemma fold_flag: "flag (fold upd ms start) \<longleftrightarrow> (\<exists>m \<in> set ms. flag (upd m start))"
  by (simp add: fold_from start_clear)

end

definition no_program_evidence :: ProgramBuildRunEvidence where
  "no_program_evidence = \<lparr>wrote_source = False, compiled = False, ran_program = False\<rparr>"

lemmas program_update_defs = update_program_evidence_from_message_def update_program_evidence_from_tool_env_def
  update_program_evidence_from_legacy_text_def maybe_mark_wrote_cpp_source_def maybe_mark_compiled_from_run_command_def
  maybe_mark_ran_program_def no_program_evidence_def

interpretation wrote: evidence_flag "update_program_evidence_from_message jl lc" wrote_source no_program_evidence for jl lc
  by unfold_locales (auto simp: program_update_defs Let_def split: option.splits prod.splits)

interpretation comp: evidence_flag "update_program_evidence_from_message jl lc" compiled no_program_evidence for jl lc
  by unfold_locales (auto simp: program_update_defs Let_def split: option.splits prod.splits)

interpretation ran: evidence_flag "update_program_evidence_from_message jl lc" ran_program no_program_evidence for jl lc
  by unfold_locales (auto simp: program_update_defs Let_def split: option.splits prod.splits)

lemma any_success_message:
  "any_success (update_generic_tool_evidence_from_message jl lc m ev) \<longleftrightarrow>
     any_success ev \<or> tool_like m \<and> (\<exists>raw. message_content_as_str (msg_content m) = Some raw \<and> tool_message_has_success_evidence jl lc raw)"
  by (simp add: update_generic_tool_evidence_from_message_def update_generic_tool_evidence_from_raw_def
      update_generic_tool_evidence_from_tool_text_def tool_message_has_success_evidence_def Let_def split: option.split)

interpretation succeeded: evidence_flag "update_generic_tool_evidence_from_message jl lc" any_success no_tool_evidence for jl lc
  by unfold_locales (auto simp: any_success_message no_tool_evidence_def)

lemma check_program_satisfied:
  "check_program_build_run_messages jl lc window = Satisfied \<longleftrightarrow>
     (\<exists>m \<in> set window. wrote_source (update_program_evidence_from_message jl lc m no_program_evidence)) \<and>
     (\<exists>m \<in> set window. compiled (update_program_evidence_from_message jl lc m no_program_evidence)) \<and>
     (\<exists>m \<in> set window. ran_program (update_program_evidence_from_message jl lc m no_program_evidence))"
  unfolding wrote.fold_flag [symmetric] comp.fold_flag [symmetric] ran.fold_flag [symmetric]
  by (simp add: check_program_build_run_messages_def program_build_run_missing_from_messages_def
      program_build_run_evidence_from_messages_def no_program_evidence_def Let_def)

lemma more_evidence_has_success:
  assumes "write_success (fold (update_generic_tool_evidence_from_message jl lc) ms no_tool_evidence) \<or>
    readonly_success (fold (update_generic_tool_evidence_from_message jl lc) ms no_tool_evidence) \<or>
    build_or_test_success (fold (update_generic_tool_evidence_from_message jl lc) ms no_tool_evidence)"
  shows "any_success (fold (update_generic_tool_evidence_from_message jl lc) ms no_tool_evidence)"
proof -
  have "write_success (fold (update_generic_tool_evidence_from_message jl lc) ms e) \<or>
      readonly_success (fold (update_generic_tool_evidence_from_message jl lc) ms e) \<or>
      build_or_test_success (fold (update_generic_tool_evidence_from_message jl lc) ms e) \<Longrightarrow>
    (write_success e \<or> readonly_success e \<or> build_or_test_success e \<longrightarrow> any_success e) \<Longrightarrow>
    any_success (fold (update_generic_tool_evidence_from_message jl lc) ms e)" for e
  proof (induction ms arbitrary: e)
    case (Cons m ms)
    have "write_success e' \<or> readonly_success e' \<or> build_or_test_success e' \<longrightarrow> any_success e'"
      if "e' = update_generic_tool_evidence_from_message jl lc m e" for e'
      using Cons.prems(2) unfolding that
      by (simp add: update_generic_tool_evidence_from_message_def update_generic_tool_evidence_from_raw_def
          update_generic_tool_evidence_from_tool_text_def Let_def split: option.split)
    then show ?case using Cons.IH Cons.prems(1) by simp
  qed simp
  from this [of no_tool_evidence, OF assms] show ?thesis by (simp add: no_tool_evidence_def)
qed

lemma recent_success:
  assumes "any_success (recent_generic_tool_evidence jl lc window)"
  shows "\<exists>m \<in> set window. tool_like m \<and>
           (\<exists>raw. message_content_as_str (msg_content m) = Some raw \<and> tool_message_has_success_evidence jl lc raw)"
proof -
  from assms have "\<exists>m \<in> set (take 24 (rev window)). any_success (update_generic_tool_evidence_from_message jl lc m no_tool_evidence)"
    unfolding recent_generic_tool_evidence_def succeeded.fold_flag .
  moreover have "set (take 24 (rev window)) \<subseteq> set window" using set_take_subset [of 24 "rev window"] by simp
  ultimately show ?thesis by (simp add: any_success_message no_tool_evidence_def) blast
qed

definition final_words :: "(ustring \<Rightarrow> bool) \<Rightarrow> Message \<Rightarrow> bool" where
  "final_words f m \<longleftrightarrow> msg_role m = lit ''assistant'' \<and> \<not> has_tool_calls m \<and>
     (\<exists>s. message_content_as_str (msg_content m) = Some s \<and> f s)"

lemma last_assistant_says_final_words: "last_assistant_says f window \<Longrightarrow> \<exists>m \<in> set window. final_words f m"
  by (fastforce simp: last_assistant_says_def list_ex_iff final_words_def split: option.splits dest: in_set_takeD)

lemma check_generic_satisfied:
  assumes "check_generic_successful_tool_then_completion jl lc task window = Satisfied"
    and "\<not> generic_task_intent_implies_build_or_test lc task"
  shows "(\<exists>m \<in> set window. tool_like m \<and>
            (\<exists>raw. message_content_as_str (msg_content m) = Some raw \<and> tool_message_has_success_evidence jl lc raw)) \<and>
         (\<exists>m \<in> set window. final_words (assistant_completion_claim lc) m \<or> final_words (assistant_substantive_answer lc) m)"
proof -
  let ?ev = "recent_generic_tool_evidence jl lc window"
  from assms have sat: "generic_intent_satisfied (generic_task_intent_from_task lc task) ?ev
      (last_assistant_completion_claim lc window) (last_assistant_substantive_answer lc window)"
    by (simp add: check_generic_successful_tool_then_completion_def split: if_splits)
  then have "any_success ?ev \<or> write_success ?ev \<or> readonly_success ?ev \<or> build_or_test_success ?ev"
    and "last_assistant_completion_claim lc window \<or> last_assistant_substantive_answer lc window"
    using assms(2)
    by (auto simp: generic_intent_satisfied_def generic_impl_intent_satisfied_def generic_task_intent_implies_build_or_test_def split: if_splits)
  then show ?thesis
    using more_evidence_has_success [of jl lc "take 24 (rev window)"] recent_success [of jl lc window]
    by (auto simp: recent_generic_tool_evidence_def last_assistant_completion_claim_def last_assistant_substantive_answer_def
        dest!: last_assistant_says_final_words)
qed

lemma early_stop_iff:
  "turn_early_stop_allowed jl lc messages \<longleftrightarrow>
     (\<exists>task window. last_real_user_task_content messages False = Some task \<and> messages_slice_since_last_real_user messages False = Some window \<and>
        check_goal_completion_evidence_from_messages jl lc task window = Satisfied \<and> \<not> generic_task_intent_implies_build_or_test lc task)"
  by (auto simp: turn_early_stop_allowed_def evaluate_turn_early_stop_def check_active_user_goal_completion_evidence_def is_allow_def
      split: option.splits)

lemma redundant_calls_iff:
  "turn_redundant_tools_after_completion_allowed jl lc calls messages \<longleftrightarrow>
     turn_early_stop_allowed jl lc messages \<and> tool_calls_are_redundant_when_goal_satisfied jl lc calls messages"
  by (simp add: turn_redundant_tools_after_completion_allowed_def evaluate_turn_redundant_tools_def turn_early_stop_allowed_def is_allow_def)

lemma successful_key_from_message:
  "key \<in> set (successful_run_command_keys_from_messages jl messages) \<longleftrightarrow>
     (\<exists>m \<in> set messages. successful_run_command_key_of jl m = Some key)"
  by (auto simp: successful_run_command_keys_from_messages_def map_filter_def image_iff)

lemma successful_key_needs_success:
  "successful_run_command_key_of jl m = Some key \<Longrightarrow>
     \<exists>raw. message_content_as_str (msg_content m) = Some raw \<and> tool_exit_ok_from_raw jl raw"
  by (cases "message_content_as_str (msg_content m)") (auto simp: successful_run_command_key_of_def split: if_splits)

subsection \<open>Feedback is never taken for a task\<close>

lemma last_task_append_other:
  "\<not> is_real_user_task_message m False \<Longrightarrow>
     last_real_user_task_content (ms @ [m]) False = last_real_user_task_content ms False"
  by (simp add: last_real_user_task_content_def real_user_text_def)

lemma last_task_append_real:
  "is_real_user_task_message m False \<Longrightarrow> message_content_as_str (msg_content m) = Some s \<Longrightarrow>
     last_real_user_task_content (ms @ [m]) False = Some (trim s)"
  by (simp add: last_real_user_task_content_def real_user_text_def is_real_user_task_message_def trim_nonempty_def split: if_splits)

lemma user_only_real:
  "is_real_user_task_message (user_only s) False \<longleftrightarrow> \<not> blank s \<and> \<not> user_message_should_hide_for_chat_display s"
  by (auto simp: is_real_user_task_message_def is_server_injected_user_message_def is_server_injected_user_by_name_def
      user_only_def plain_message_def is_message_excluded_from_llm_context_except_memory_def has_mark_def is_chat_ui_separator_def
      is_chat_timeline_marker_def is_model_context_artifact_marker_def)

lemma orchestration_text_not_task:
  "starts_with (trim_start s) [12304, 32534, 25490, 32416, 20559, 12305] \<Longrightarrow> \<not> is_real_user_task_message (user_only s) False"
  by (simp add: user_only_real user_message_should_hide_for_chat_display_def)

lemma feedback_bodies_not_task:
  "\<not> is_real_user_task_message (user_only outer_loop_missing_final_answer_feedback_body) False"
  "\<not> is_real_user_task_message (user_only outer_loop_truncated_feedback_body) False"
  "\<not> is_real_user_task_message (user_only (outer_loop_build_idle_feedback_body n)) False"
  by (rule orchestration_text_not_task, simp add: outer_loop_missing_final_answer_feedback_body_def outer_loop_truncated_feedback_body_def
      outer_loop_build_idle_feedback_body_def starts_with_def trim_start_def is_whitespace_def)+

section \<open>Properties\<close>

text \<open>
  C35: The turn is only stopped early on grounds.  When it is, the user's task does not ask for a build or a test, and
  in the messages since the user spoke either a program's source, its build and its run are all evidenced, or a tool has
  reported success and the assistant, in a message without tool calls, has claimed completion or given an answer.
\<close>

theorem early_stop_needs_grounds:
  assumes "turn_early_stop_allowed jl lc messages"
  shows "\<exists>task window. last_real_user_task_content messages False = Some task \<and>
     messages_slice_since_last_real_user messages False = Some window \<and> \<not> generic_task_intent_implies_build_or_test lc task \<and>
     (if is_program_build_run_request lc task
      then (\<exists>m \<in> set window. wrote_source (update_program_evidence_from_message jl lc m no_program_evidence)) \<and>
           (\<exists>m \<in> set window. compiled (update_program_evidence_from_message jl lc m no_program_evidence)) \<and>
           (\<exists>m \<in> set window. ran_program (update_program_evidence_from_message jl lc m no_program_evidence))
      else (\<exists>m \<in> set window. tool_like m \<and>
              (\<exists>raw. message_content_as_str (msg_content m) = Some raw \<and> tool_message_has_success_evidence jl lc raw)) \<and>
           (\<exists>m \<in> set window. final_words (assistant_completion_claim lc) m \<or> final_words (assistant_substantive_answer lc) m))"
proof -
  from assms obtain task window where task: "last_real_user_task_content messages False = Some task"
    and window: "messages_slice_since_last_real_user messages False = Some window"
    and sat: "check_goal_completion_evidence_from_messages jl lc task window = Satisfied"
    and no_build: "\<not> generic_task_intent_implies_build_or_test lc task"
    unfolding early_stop_iff by blast
  show ?thesis
  proof (cases "is_program_build_run_request lc task")
    case True
    with sat have "check_program_build_run_messages jl lc window = Satisfied" by (simp add: check_goal_completion_evidence_from_messages_def)
    then show ?thesis using task window no_build True by (simp only: check_program_satisfied) auto
  next
    case False
    with sat have "check_generic_successful_tool_then_completion jl lc task window = Satisfied"
      by (simp add: check_goal_completion_evidence_from_messages_def)
    from check_generic_satisfied [OF this no_build] show ?thesis using task window no_build False by auto
  qed
qed

text \<open>A finished task: the user asks to look at the files, a tool lists them, the assistant answers.\<close>

definition listing_done :: "Message list" where
  "listing_done =
     [user_only (lit ''list''), tool_result (lit ''c1'') ([25104, 21151] @ lit ''read dir:''), (user_only (lit ''done''))\<lparr>msg_role := lit ''assistant''\<rparr>]"

definition no_json :: json_lib where
  "no_json = \<lparr>jl_from_str = (\<lambda>s. Inl []), jl_to_string = (\<lambda>v. lit ''{}'')\<rparr>"

lemmas text_eval = str_contains_def starts_with_def lit_Cons trim_def trim_start_def trim_end_def is_whitespace_def

lemma list_request_real: "is_real_user_task_message (user_only (lit ''list'')) False"
  by (simp add: user_only_real user_message_should_hide_for_chat_display_def is_plan_rewrite_injected_user_content_def
      CONTEXT_SUMMARY_INJECTION_CONTENT_PREFIX_def text_eval)

lemma listing_done_task: "last_real_user_task_content listing_done False = Some (lit ''list'')"
proof -
  have "real_user_text False (user_only (lit ''list'')) = Some (lit ''list'')"
    using list_request_real by (simp add: real_user_text_def trim_nonempty_def user_only_def plain_message_def text_eval)
  moreover have "real_user_text False m = None" if "msg_role m \<noteq> lit ''user''" for m
    using that by (simp add: real_user_text_def is_real_user_task_message_def)
  ultimately show ?thesis
    by (simp add: last_real_user_task_content_def listing_done_def tool_result_def plain_message_def)
qed

lemma listing_done_window: "messages_slice_since_last_real_user listing_done False = Some listing_done"
  using list_request_real
  by (simp add: messages_slice_since_last_real_user_def last_real_user_message_index_def listing_done_def is_real_user_task_message_def
      tool_result_def plain_message_def user_only_def)

lemma listing_intent:
  "generic_task_intent_from_task id (lit ''list'') = \<lparr>build_or_test = False, write_change = False, readonly_analysis = True\<rparr>"
  by (simp add: generic_task_intent_from_task_def contains_any_def text_eval)

lemma listing_evidence: "readonly_success (recent_generic_tool_evidence no_json id listing_done)"
  by (simp add: recent_generic_tool_evidence_def listing_done_def update_generic_tool_evidence_from_message_def tool_like_def tool_result_def
      user_only_def plain_message_def update_generic_tool_evidence_from_raw_def normalize_tool_message_content_def json_ok_def no_json_def
      update_generic_tool_evidence_from_tool_text_def tool_message_has_success_evidence_def generic_tool_is_readonly_success_def
      contains_any_def text_eval Let_def)

lemma listing_claim: "last_assistant_completion_claim id listing_done"
  by (simp add: last_assistant_completion_claim_def last_assistant_says_def listing_done_def user_only_def plain_message_def has_tool_calls_def
      assistant_completion_claim_def contains_any_def text_eval Let_def)

lemma listing_not_program: "\<not> is_program_build_run_request id (lit ''list'')"
  by (simp add: is_program_build_run_request_def contains_any_def text_eval Let_def)

lemma listing_done_stops: "turn_early_stop_allowed no_json id listing_done"
  unfolding early_stop_iff
  using listing_done_task listing_done_window listing_evidence listing_claim listing_not_program
  by (simp add: check_goal_completion_evidence_from_messages_def check_generic_successful_tool_then_completion_def listing_intent
      generic_intent_satisfied_def generic_task_intent_implies_build_or_test_def)

theorem early_stop_needs_grounds_witness:
  "\<exists>m \<in> set listing_done. final_words (assistant_completion_claim id) m \<or> final_words (assistant_substantive_answer id) m"
  using early_stop_needs_grounds [OF listing_done_stops] listing_done_task listing_done_window listing_not_program by auto


definition probe_call :: ToolCall where
  "probe_call = \<lparr>call_id = lit ''c2'', call_typ = lit ''function'', call_function = \<lparr>fn_name = lit ''read_dir'', fn_arguments = lit ''{}''\<rparr>\<rparr>"




section \<open>Two heuristics that reach too far\<close>

text \<open>
  Text that is not a tool's result counts as evidence for a built and run program: an assistant's mere
  description of what it is going to do satisfies the check before any tool has run.
\<close>

lemma prose_is_program_evidence:
  assumes "is_program_build_run_request lc task"
    and "message_content_as_str (msg_content m) = Some raw" and "normalize_tool_message_content jl raw = None"
    and "message_history_build_flags (lc raw) = (True, True, True)"
  shows "check_goal_completion_evidence_from_messages jl lc task [m] = Satisfied"
  using assms by (simp add: check_goal_completion_evidence_from_messages_def check_program_satisfied update_program_evidence_from_message_def
      update_program_evidence_from_legacy_text_def)

text \<open>A command that redirects its error stream counts as a check, whatever it does.\<close>

lemma redirection_is_a_probe:
  assumes "fn_name (call_function tc) = lit ''run_command''"
    and "run_command_invocation_text jl (fn_arguments (call_function tc)) = Some cmdline" and "str_contains (lc cmdline) (lit '' 2>&1'')"
  shows "tool_call_is_redundant_after_completion jl lc tc"
  using assms by (simp add: tool_call_is_redundant_after_completion_def run_command_is_redundant_verification_def contains_any_def
      RUN_COMMAND_VERIFY_MARKERS_def Let_def)

end
