(* ===== verification/Context_Window.thy ===== *)
theory Context_Window
  imports Turn_Completion
begin

text \<open>
  The context of a model call (\<^verbatim>\<open>agent/context_window.rs\<close>, \<^verbatim>\<open>agent/context_compaction.rs\<close>): after the synchronous
  pipeline the conversation may be summarised by a side call of the model, gets the list of changed files, and
  is compacted to the token budget of the model's window, first by shortening old tool results, then by removing the oldest turns.
  The tokenizer, the text of JSON values and the flags that the vendor's adapter derives from the configuration are in the record
  \<open>window_env\<close>; so are the prompts for a summary and the answers of the model.
\<close>

section \<open>Configuration of the pipeline\<close>

record ContextPipelineBuilder =
  b_context_char_budget :: "nat option"
  b_context_min_messages_after_system :: "nat option"
  b_context_token_trigger_percent :: "nat option"
  b_context_token_target_percent :: "nat option"
  b_context_token_safety_margin_tokens :: "nat option"
  b_context_summary_trigger_chars :: "nat option"
  b_context_summary_tail_messages :: "nat option"
  b_context_summary_max_tokens :: "nat option"
  b_context_summary_transcript_max_chars :: "nat option"

definition derive_tail_context_scalars :: "ContextPipelineBuilder \<Rightarrow> ContextPipelineConfig" where
  "derive_tail_context_scalars b =
     (let trigger = clamp 50 95 (unwrap_or (b_context_token_trigger_percent b) 85) in
      \<lparr>cpc_context_char_budget = min (unwrap_or (b_context_char_budget b) 0) 50000000,
       cpc_context_min_messages_after_system = clamp 1 128 (unwrap_or (b_context_min_messages_after_system b) 4),
       cpc_context_token_trigger_percent = trigger,
       cpc_context_token_target_percent = clamp 30 (trigger - 5) (unwrap_or (b_context_token_target_percent b) 70),
       cpc_context_token_safety_margin_tokens = clamp 128 65536 (unwrap_or (b_context_token_safety_margin_tokens b) 2048),
       cpc_context_summary_trigger_chars = min (unwrap_or (b_context_summary_trigger_chars b) 0) 50000000,
       cpc_context_summary_tail_messages = clamp 4 64 (unwrap_or (b_context_summary_tail_messages b) 12),
       cpc_context_summary_max_tokens = clamp 256 8192 (unwrap_or (b_context_summary_max_tokens b) 1024),
       cpc_context_summary_transcript_max_chars = clamp 10000 2000000 (unwrap_or (b_context_summary_transcript_max_chars b) 120000)\<rparr>)"

section \<open>Token budget\<close>

definition MIN_RECENT_TURN_GROUPS :: nat where
  "MIN_RECENT_TURN_GROUPS = 2"

definition DEGRADE_TOOL_MAX_CHARS :: nat where
  "DEGRADE_TOOL_MAX_CHARS = 2000"

definition IMAGE_TOKEN_ESTIMATE :: nat where
  "IMAGE_TOKEN_ESTIMATE = 1024"

definition VENDOR_REQUEST_OVERHEAD_TOKENS :: nat where
  "VENDOR_REQUEST_OVERHEAD_TOKENS = 32"

datatype ContextTokenCountingSource = MatchedTokenizer | FallbackTokenizer | ConservativeBytes

fun counting_source_as_str :: "ContextTokenCountingSource \<Rightarrow> ustring" where
  "counting_source_as_str MatchedTokenizer = lit ''matched_tokenizer''"
| "counting_source_as_str FallbackTokenizer = lit ''fallback_tokenizer''"
| "counting_source_as_str ConservativeBytes = lit ''conservative_bytes''"

record ContextTokenEstimate =
  used_input_tokens :: nat
  message_tokens :: nat
  tool_schema_tokens :: nat
  attachment_tokens :: nat
  vendor_overhead_tokens :: nat
  counting_source :: "ContextTokenCountingSource option"

record ContextTokenBudget =
  context_window_tokens :: nat
  reserved_output_tokens :: nat
  safety_margin_tokens :: nat
  max_input_tokens :: nat
  trigger_tokens :: nat
  target_tokens :: nat

definition sat_u32 :: "nat \<Rightarrow> nat" where
  "sat_u32 n = min n (2 ^ 32 - 1)"

definition token_budget_from_config :: "AgentContextConfig \<Rightarrow> ContextTokenBudget option" where
  "token_budget_from_config cfg =
     (let window = ac_llm_context_tokens cfg in
      if window = 0 then None
      else let reserved = min (ac_max_tokens cfg) (window - 256);
               available = window - reserved;
               margin = min (cpc_context_token_safety_margin_tokens (ac_context_pipeline cfg)) (available - 128);
               max_input = available - margin in
           Some \<lparr>context_window_tokens = window, reserved_output_tokens = reserved, safety_margin_tokens = margin, max_input_tokens = max_input,
             trigger_tokens = sat_u32 (max_input * cpc_context_token_trigger_percent (ac_context_pipeline cfg)) div 100,
             target_tokens = sat_u32 (max_input * cpc_context_token_target_percent (ac_context_pipeline cfg)) div 100\<rparr>)"

record ContextCompactionReport =
  cr_budget :: "ContextTokenBudget option"
  cr_before :: ContextTokenEstimate
  cr_after :: ContextTokenEstimate
  cr_removed_turn_groups :: nat
  cr_removed_messages :: nat
  cr_token_triggered :: bool
  cr_summarized_for_token_budget :: bool
  cr_compressed_old_tool_messages :: nat
  cr_provider_input_tokens :: "nat option"
  cr_removed_prefix :: RemovedPrefix

definition removed_history :: "ContextCompactionReport \<Rightarrow> bool" where
  "removed_history r \<longleftrightarrow> cr_removed_turn_groups r > 0 \<or> cr_summarized_for_token_budget r"

definition compaction_reason :: "ContextCompactionReport \<Rightarrow> ustring" where
  "compaction_reason r =
     (if cr_summarized_for_token_budget r then lit ''token_budget_summary''
      else if cr_removed_turn_groups r > 0 then lit ''token_budget_turn_groups''
      else if cr_token_triggered r then lit ''token_budget_warning'' else lit ''none'')"

section \<open>Estimates\<close>

record token_lib =
  tl_count_messages :: "ustring \<Rightarrow> Message list \<Rightarrow> (nat \<times> ustring) option"
  tl_count_text :: "ustring \<Rightarrow> ustring \<Rightarrow> nat"
  tl_messages_json :: "Message list \<Rightarrow> ustring option"
  tl_tools_json :: "Tool list \<Rightarrow> ustring option"

record vendor_request =
  vr_model :: ustring
  vr_fold_system_into_user :: bool
  vr_preserve_tool_call_reasoning :: bool
  vr_deepseek_json_output :: bool

record summary_prompts =
  sp_system :: ustring
  sp_user_template :: ustring
  sp_embedded_system :: ustring
  sp_embedded_user_template :: ustring

record 'e window_env =
  we_json :: json_lib
  we_tokens :: token_lib
  we_vendor :: vendor_request
  we_prompts :: summary_prompts
  we_now :: nat
  we_service :: "Message list \<Rightarrow> ('e LlmCompleteError, Message \<times> ustring) result"
  we_estimate :: "Message \<Rightarrow> nat option"

definition image_parts :: "Message \<Rightarrow> Value list" where
  "image_parts m =
     (case msg_content m of
        Some (Parts parts) \<Rightarrow> filter (\<lambda>p. and_then (get_key p (lit ''type'')) as_str = Some (lit ''image_url'')) parts
      | _ \<Rightarrow> [])"

definition attachment_token_estimate :: "Message list \<Rightarrow> nat" where
  "attachment_token_estimate messages = sat_u32 (sat_u32 (length (concat (map image_parts messages))) * IMAGE_TOKEN_ESTIMATE)"

definition estimate_final_request_tokens :: "'e window_env \<Rightarrow> Message list \<Rightarrow> Tool list \<Rightarrow> ustring option \<Rightarrow> ContextTokenEstimate" where
  "estimate_final_request_tokens env messages tools model_override =
     (let tl = we_tokens env; v = we_vendor env;
          effective_model = unwrap_or model_override (vr_model v);
          body = conversation_messages_to_vendor_body (we_json env) messages (vr_fold_system_into_user v)
                   (vr_preserve_tool_call_reasoning v) (vr_deepseek_json_output v);
          (mt, model, source) =
            (case tl_count_messages tl effective_model body of
               Some (n, tiktoken_model) \<Rightarrow>
                 (n, tiktoken_model, if tiktoken_model = effective_model then MatchedTokenizer else FallbackTokenizer)
             | None \<Rightarrow>
                 (sat_u32 (((case tl_messages_json tl body of Some s \<Rightarrow> utf8_len s | None \<Rightarrow> 0) + 2) div 3),
                  lit ''conservative-bytes'', ConservativeBytes));
          tt = (if tools = [] then 0 else case tl_tools_json tl tools of Some json \<Rightarrow> tl_count_text tl model json | None \<Rightarrow> 0);
          at = attachment_token_estimate body in
      \<lparr>used_input_tokens = sat_u32 (sat_u32 (sat_u32 (mt + tt) + at) + VENDOR_REQUEST_OVERHEAD_TOKENS),
       message_tokens = mt, tool_schema_tokens = tt, attachment_tokens = at,
       vendor_overhead_tokens = VENDOR_REQUEST_OVERHEAD_TOKENS, counting_source = Some source\<rparr>)"

section \<open>Compaction\<close>

definition recent_groups_start :: "Message list \<Rightarrow> nat \<Rightarrow> nat" where
  "recent_groups_start messages keep_groups =
     (if keep_groups = 0 then 0
      else let groups = conversation_turn_groups messages in
           if length groups \<le> keep_groups then length messages
           else group_start (groups ! (length groups - keep_groups)))"

definition compress_old_tool_messages :: "json_lib \<Rightarrow> Message list \<Rightarrow> nat \<Rightarrow> nat \<Rightarrow> Message list \<times> nat" where
  "compress_old_tool_messages jl messages keep_groups max_chars =
     (let boundary = recent_groups_start messages keep_groups;
          rs = map (compress_tool_message jl max_chars) (take boundary messages) in
      (map fst rs @ drop boundary messages, length (filter snd rs)))"

record GroupRemovalOutcome =
  gr_after :: ContextTokenEstimate
  gr_turn_groups :: nat
  gr_messages :: nat
  gr_prefix :: RemovedPrefix

function remove_groups_until_target :: "(Message list \<Rightarrow> ContextTokenEstimate) \<Rightarrow> nat \<Rightarrow> nat \<Rightarrow> Message list \<Rightarrow> GroupRemovalOutcome \<Rightarrow>
    bool \<times> Message list \<times> GroupRemovalOutcome" where
  "remove_groups_until_target est target tail_guard messages outcome =
     (if used_input_tokens (gr_after outcome) > target then
        (let groups = conversation_turn_groups messages in
         if length groups \<le> MIN_RECENT_TURN_GROUPS then (False, messages, outcome)
         else if tail_guard > 0 \<and> length messages - group_start (groups ! 1) < tail_guard then (False, messages, outcome)
         else (case remove_oldest_turn_group messages MIN_RECENT_TURN_GROUPS of
                 (messages', step) \<Rightarrow>
                   if rp_is_empty step then (False, messages, outcome)
                   else remove_groups_until_target est target tail_guard messages'
                          \<lparr>gr_after = est messages', gr_turn_groups = gr_turn_groups outcome + 1,
                           gr_messages = gr_messages outcome + rp_removed step, gr_prefix = rp_union (gr_prefix outcome) step\<rparr>))
      else (True, messages, outcome))"
  by pat_completeness auto
termination
  by (relation "measure (\<lambda>(e, t, g, ms, r). length ms)") (auto dest: remove_oldest_shrinks [OF sym])

declare remove_groups_until_target.simps [simp del]

record RemovalBudget =
  rb_target_tokens :: nat
  rb_hard_limit_tokens :: "nat option"
  rb_min_tail_messages :: nat

definition initial_removal :: "ContextTokenEstimate \<Rightarrow> GroupRemovalOutcome" where
  "initial_removal after = \<lparr>gr_after = after, gr_turn_groups = 0, gr_messages = 0, gr_prefix = no_removal\<rparr>"

definition remove_old_groups_to_target :: "(Message list \<Rightarrow> ContextTokenEstimate) \<Rightarrow> Message list \<Rightarrow> ContextTokenEstimate \<Rightarrow> RemovalBudget \<Rightarrow>
    Message list \<times> GroupRemovalOutcome" where
  "remove_old_groups_to_target est messages after budget =
     (case remove_groups_until_target est (rb_target_tokens budget) (rb_min_tail_messages budget) messages (initial_removal after) of
        (True, ms1, o1) \<Rightarrow> (ms1, o1)
      | (False, ms1, o1) \<Rightarrow>
          (case rb_hard_limit_tokens budget of
             Some hard \<Rightarrow>
               if used_input_tokens (gr_after o1) > hard
               then (case remove_groups_until_target est hard 0 ms1 o1 of (_, ms2, o2) \<Rightarrow> (ms2, o2))
               else (ms1, o1)
           | None \<Rightarrow> (ms1, o1)))"

definition compact_messages_to_token_budget :: "'e window_env \<Rightarrow> AgentContextConfig \<Rightarrow> Message list \<Rightarrow> Tool list \<Rightarrow> ustring option \<Rightarrow>
    ContextTokenEstimate \<Rightarrow> bool \<Rightarrow> nat \<Rightarrow> Message list \<times> ContextCompactionReport" where
  "compact_messages_to_token_budget env cfg messages tools model_override before_summary summarized min_tail =
     (let est = (\<lambda>ms. estimate_final_request_tokens env ms tools model_override);
          budget = token_budget_from_config cfg;
          after = est messages;
          triggered = (case budget of Some b \<Rightarrow> used_input_tokens before_summary > trigger_tokens b \<or> used_input_tokens after > trigger_tokens b | None \<Rightarrow> False);
          (ms', squeezed, removal) =
            (case budget of
               Some b \<Rightarrow>
                 if triggered then
                   (let (ms1, n) = (if used_input_tokens after > target_tokens b
                          then compress_old_tool_messages (we_json env) messages MIN_RECENT_TURN_GROUPS DEGRADE_TOOL_MAX_CHARS else (messages, 0));
                        after1 = (if n > 0 then est ms1 else after);
                        (ms2, r) = remove_old_groups_to_target est ms1 after1
                          \<lparr>rb_target_tokens = target_tokens b, rb_hard_limit_tokens = Some (max_input_tokens b), rb_min_tail_messages = min_tail\<rparr> in
                    (ms2, n, r))
                 else (messages, 0, initial_removal after)
             | None \<Rightarrow> (messages, 0, initial_removal after)) in
      (ms', \<lparr>cr_budget = budget, cr_before = before_summary, cr_after = gr_after removal, cr_removed_turn_groups = gr_turn_groups removal,
        cr_removed_messages = gr_messages removal, cr_token_triggered = triggered, cr_summarized_for_token_budget = summarized,
        cr_compressed_old_tool_messages = squeezed, cr_provider_input_tokens = None, cr_removed_prefix = gr_prefix removal\<rparr>))"

section \<open>Summaries\<close>

text \<open>\<^verbatim>\<open>str::replace\<close> of a non-empty pattern.\<close>

function str_replace :: "ustring \<Rightarrow> ustring \<Rightarrow> ustring \<Rightarrow> ustring" where
  "str_replace p r s =
     (if p = [] \<or> s = [] then s
      else if starts_with s p then r @ str_replace p r (drop (length p) s)
      else hd s # str_replace p r (tl s))"
  by pat_completeness auto
termination
  by (relation "measure (\<lambda>(p, r, s). length s)") auto

declare str_replace.simps [simp del]

definition TRANSCRIPT_PLACEHOLDER :: ustring where
  "TRANSCRIPT_PLACEHOLDER = lit ''{transcript}''"

definition format_context_summary_user :: "ustring \<Rightarrow> nat \<Rightarrow> ustring \<Rightarrow> ustring" where
  "format_context_summary_user template max_tokens transcript =
     (let limit = show_nat max_tokens;
          out = str_replace (lit ''{max_chars}'') limit (str_replace (lit ''{max_tokens}'') limit template) in
      if str_contains out TRANSCRIPT_PLACEHOLDER then str_replace TRANSCRIPT_PLACEHOLDER transcript out
      else out @ [10, 10, 23545, 35805, 35760, 24405, 65306, 10, 10] @ transcript)"

definition build_context_summary_side_messages :: "summary_prompts \<Rightarrow> nat \<Rightarrow> ustring \<Rightarrow> Message list" where
  "build_context_summary_side_messages sp max_tokens transcript =
     (let system = (if blank (sp_system sp) then sp_embedded_system sp else trim (sp_system sp));
          template = (if blank (sp_user_template sp) then sp_embedded_user_template sp else trim (sp_user_template sp)) in
      [system_only system, user_only (format_context_summary_user template max_tokens transcript)])"

definition format_message_for_transcript :: "Message \<Rightarrow> ustring" where
  "format_message_for_transcript m =
     (let reasoning = trim (unwrap_or (msg_reasoning_content m) []);
          body =
            (if msg_role m = lit ''assistant'' \<and> reasoning \<noteq> [] then
               (case trim_nonempty (message_content_as_str (msg_content m)) of
                  Some c \<Rightarrow> lit ''[reasoning]'' @ [10] @ reasoning @ [10, 10] @ lit ''[answer]'' @ [10] @ c
                | None \<Rightarrow> lit ''[reasoning]'' @ [10] @ reasoning)
             else case message_content_as_str (msg_content m) of
                    Some c \<Rightarrow> c
                  | None \<Rightarrow>
                      (case msg_tool_calls m of
                         Some tcs \<Rightarrow> lit ''[tool_calls] '' @ join (lit '', '')
                           (map (\<lambda>tc. fn_name (call_function tc) @ lit ''('' @ fn_arguments (call_function tc) @ lit '')'') tcs)
                       | None \<Rightarrow> [])) in
      msg_role m @ lit '': '' @ body @ [10])"

definition build_transcript_middle :: "Message list \<Rightarrow> nat \<Rightarrow> nat \<Rightarrow> ustring option" where
  "build_transcript_middle messages tail cap =
     (if length messages \<le> 1 + tail + 1 then None
      else let s = concat (map format_message_for_transcript
                     (filter (\<lambda>m. \<not> is_message_excluded_from_llm_context_except_memory m) (tl (take (length messages - tail) messages)))) in
           Some (if length s > cap then take (cap - 80) s @ ([10] @ lit ''[... '' @ [25688, 35201, 36755, 20837, 36807, 38271, 65292, 27492, 22788, 24050, 25130, 26029] @ lit '' ...]'') else s))"

fun first_kept_group :: "Message list \<Rightarrow> ConversationTurnGroup list \<Rightarrow> nat \<Rightarrow> nat \<Rightarrow> nat" where
  "first_kept_group messages groups requested_tail 0 = 0"
| "first_kept_group messages groups requested_tail (Suc g) =
     (if g > 0 \<and> length messages - group_start (groups ! Suc g) < requested_tail
      then first_kept_group messages groups requested_tail g else Suc g)"

definition complete_turn_group_tail_len :: "Message list \<Rightarrow> nat \<Rightarrow> nat option" where
  "complete_turn_group_tail_len messages requested_tail =
     (let groups = conversation_turn_groups messages in
      if length groups < 3 then None
      else Some (length messages - group_start (groups ! first_kept_group messages groups requested_tail (length groups - 2))))"

definition context_summary_trigger_reached :: "AgentContextConfig \<Rightarrow> Message list \<Rightarrow> TurnBudgetCounter option \<Rightarrow> bool \<Rightarrow> bool" where
  "context_summary_trigger_reached cfg messages turn_budget force =
     (if ac_llm_context_tokens cfg > 0 \<and> cpc_context_summary_trigger_chars (ac_context_pipeline cfg) = 0 \<and> \<not> force then False
      else let trigger = effective_summary_trigger_for_turn cfg turn_budget in
           if trigger = 0 \<and> \<not> force then False
           else force \<or> estimate_non_system_chars messages \<ge> trigger)"

definition requested_tail :: "AgentContextConfig \<Rightarrow> nat" where
  "requested_tail cfg = clamp 4 64 (cpc_context_summary_tail_messages (ac_context_pipeline cfg))"

definition context_summary_attempt_prep :: "AgentContextConfig \<Rightarrow> Message list \<Rightarrow> TurnBudgetCounter option \<Rightarrow> bool \<Rightarrow> (nat \<times> ustring) option" where
  "context_summary_attempt_prep cfg messages turn_budget force =
     (if \<not> context_summary_trigger_reached cfg messages turn_budget force then None
      else if messages = [] \<or> msg_role (hd messages) \<noteq> lit ''system'' then None
      else and_then (complete_turn_group_tail_len messages (requested_tail cfg)) (\<lambda>tail.
             if length messages \<le> 1 + tail + 1 then None
             else map_option (\<lambda>transcript. (tail, transcript))
                    (build_transcript_middle messages tail (cpc_context_summary_transcript_max_chars (ac_context_pipeline cfg)))))"

definition apply_llm_summary_to_messages :: "Message list \<Rightarrow> nat \<Rightarrow> ustring \<Rightarrow> Message list \<times> RemovedPrefix" where
  "apply_llm_summary_to_messages messages tail summary =
     (let tail_start = length messages - tail in
      (fst (drop_orphan_tool_messages (take 1 messages @ [user_context_summary_injection summary] @ drop tail_start messages)),
       \<lparr>rp_start = 1, rp_removed = tail_start - 1\<rparr>))"

text \<open>The call is checked against the budget here and, in \<open>complete_chat_retrying\<close>, again.\<close>

definition maybe_summarize_with_llm :: "'e window_env \<Rightarrow> AgentContextConfig \<Rightarrow> Message list \<Rightarrow> TurnBudgetCounter option \<Rightarrow> bool \<Rightarrow>
    (ustring, bool \<times> RemovedPrefix \<times> Message list \<times> TurnBudgetCounter option) result" where
  "maybe_summarize_with_llm env cfg messages turn_budget force =
     (case context_summary_attempt_prep cfg messages turn_budget force of
        None \<Rightarrow> Inr (False, no_removal, messages, turn_budget)
      | Some (tail, transcript) \<Rightarrow>
          if (case turn_budget of Some b \<Rightarrow> deny_llm_call_if_exhausted (ac_turn_budget cfg) (we_now env) b \<noteq> Inr () | None \<Rightarrow> False)
          then Inr (False, no_removal, messages, turn_budget)
          else let request = build_context_summary_side_messages (we_prompts env) (cpc_context_summary_max_tokens (ac_context_pipeline cfg)) transcript in
            (case complete_chat_retrying (ac_turn_budget cfg) turn_budget (we_now env) (we_service env request) (we_estimate env) of
               (Inr (msg, _), budget') \<Rightarrow>
                 (let summary = message_content_into_text_lossy (msg_content msg) in
                  if blank summary then Inr (False, no_removal, messages, budget')
                  else if length (trim summary) < 20 then Inr (False, no_removal, messages, budget')
                  else let (ms', removed) = apply_llm_summary_to_messages messages tail summary in Inr (True, removed, ms', budget'))
             | (Inl _, budget') \<Rightarrow> Inr (False, no_removal, messages, budget')))"

section \<open>Preparing the messages of a call\<close>

record PrepareMessagesDelta =
  pd_pipeline :: MessagePipelineDelta
  pd_summarized :: bool
  pd_summary_tail_kept :: "nat option"
  pd_summary_removed_prefix :: RemovedPrefix
  pd_compaction :: ContextCompactionReport

definition finalize_token_budget_compaction :: "'e window_env \<Rightarrow> AgentContextConfig \<Rightarrow> Message list \<Rightarrow> Tool list \<Rightarrow> ustring option \<Rightarrow>
    ContextTokenEstimate \<Rightarrow> bool \<Rightarrow> nat option \<Rightarrow> Message list \<times> ContextCompactionReport" where
  "finalize_token_budget_compaction env cfg messages tools model_override before summarized tail_kept =
     (let min_tail = (case tail_kept of None \<Rightarrow> 0 | Some actual \<Rightarrow> max (requested_tail cfg) actual);
          (ms', report) = compact_messages_to_token_budget env cfg messages tools model_override before summarized min_tail in
      (if cr_removed_turn_groups report > 0 then fst (drop_orphan_tool_messages ms') else ms', report))"

definition summary_trigger_and_tail :: "AgentContextConfig \<Rightarrow> Message list \<Rightarrow> ContextTokenEstimate \<Rightarrow> bool \<times> nat option" where
  "summary_trigger_and_tail cfg messages before =
     ((case token_budget_from_config cfg of Some b \<Rightarrow> used_input_tokens before > trigger_tokens b | None \<Rightarrow> False),
      complete_turn_group_tail_len messages (requested_tail cfg))"

record model_view =
  mv_messages :: "Message list"
  mv_budget :: "TurnBudgetCounter option"
  mv_counters :: MessagePipelineCounters

definition prepare_session_messages_shared :: "'e window_env \<Rightarrow> AgentContextConfig \<Rightarrow> Tool list \<Rightarrow> ustring option \<Rightarrow> bool \<Rightarrow> model_view \<Rightarrow>
    (ustring, PrepareMessagesDelta \<times> model_view) result" where
  "prepare_session_messages_shared env cfg tools model_override need_report s =
     (let (ms1, pipeline, ctr) = prepare_messages_before_model_call_sync_with_budget (we_json env) (mv_counters s) (mv_messages s) cfg (mv_budget s) need_report;
          before = estimate_final_request_tokens env ms1 tools model_override;
          (force, planned_tail) = summary_trigger_and_tail cfg ms1 before in
      bind_result (maybe_summarize_with_llm env cfg ms1 (mv_budget s) force) (\<lambda>(summarized, removed, ms2, budget).
        Inr (\<lparr>pd_pipeline = pipeline, pd_summarized = summarized,
              pd_summary_tail_kept = (if summarized then Some (unwrap_or planned_tail 0) else None),
              pd_summary_removed_prefix = removed,
              pd_compaction = \<lparr>cr_budget = token_budget_from_config cfg, cr_before = before,
                cr_after = estimate_final_request_tokens env ms2 tools model_override, cr_removed_turn_groups = 0, cr_removed_messages = 0,
                cr_token_triggered = force, cr_summarized_for_token_budget = summarized \<and> force, cr_compressed_old_tool_messages = 0,
                cr_provider_input_tokens = None, cr_removed_prefix = no_removal\<rparr>\<rparr>,
             \<lparr>mv_messages = ms2, mv_budget = budget, mv_counters = ctr\<rparr>)))"

text \<open>The list of changed files; \<open>changelist\<close> formats it to a given length, if there is anything to list.\<close>

definition sync_changelist_user_message :: "Message list \<Rightarrow> (nat \<Rightarrow> ustring option) option \<Rightarrow> bool \<Rightarrow> nat \<Rightarrow> Message list" where
  "sync_changelist_user_message messages changelist enabled max_body_chars =
     (let kept = filter (\<lambda>m. \<not> is_workspace_changelist_injection m) messages in
      if \<not> enabled then kept
      else case changelist of
             None \<Rightarrow> kept
           | Some fmt \<Rightarrow>
               (case fmt max_body_chars of
                  None \<Rightarrow> kept
                | Some body \<Rightarrow> if kept = [] then kept else kept @ [user_server_injection (lit ''crabmate_workspace_changelist'') body]))"

record PrepareHooks =
  ph_tools :: "Tool list"
  ph_model_override :: "ustring option"
  ph_changelist :: "(nat \<Rightarrow> ustring option) option"
  ph_changelist_enabled :: bool
  ph_changelist_max_chars :: nat
  ph_need_report :: bool

definition prepare_messages_for_model :: "'e window_env \<Rightarrow> AgentContextConfig \<Rightarrow> PrepareHooks \<Rightarrow> model_view \<Rightarrow> PerCoordinator option \<Rightarrow> nat \<Rightarrow>
    (ustring, PrepareMessagesDelta \<times> model_view \<times> PerCoordinator option \<times> nat) result" where
  "prepare_messages_for_model env cfg hooks s per revision =
     bind_result (prepare_session_messages_shared env cfg (ph_tools hooks) (ph_model_override hooks) (ph_need_report hooks) s) (\<lambda>(delta, s1).
       let ms1 = sync_changelist_user_message (mv_messages s1) (ph_changelist hooks) (ph_changelist_enabled hooks) (ph_changelist_max_chars hooks);
           (ms2, report) = finalize_token_budget_compaction env cfg ms1 (ph_tools hooks) (ph_model_override hooks)
             (cr_before (pd_compaction delta)) (cr_summarized_for_token_budget (pd_compaction delta)) (pd_summary_tail_kept delta) in
       Inr (delta\<lparr>pd_compaction := report,
              pd_pipeline := (pd_pipeline delta)\<lparr>n_after := length (filter (\<lambda>m. \<not> is_chat_timeline_marker m) ms2)\<rparr>\<rparr>,
            s1\<lparr>mv_messages := ms2\<rparr>,
            map_option invalidate_workflow_validate_layer_cache_after_context_mutation per,
            (revision + 1) mod 2 ^ 64))"

definition prepare_readonly_model_messages :: "'e window_env \<Rightarrow> AgentContextConfig \<Rightarrow> Message list \<Rightarrow> MessagePipelineCounters \<Rightarrow> Tool list \<Rightarrow> ustring option \<Rightarrow>
    bool \<Rightarrow> bool \<Rightarrow> (ustring, PrepareMessagesDelta \<times> Message list) result" where
  "prepare_readonly_model_messages env cfg messages ctr tools model_override need_report with_summary =
     (let (ms1, pipeline, _) = prepare_messages_before_model_call_sync_with_budget (we_json env) ctr messages cfg None need_report;
          before = estimate_final_request_tokens env ms1 tools model_override;
          (force, planned_tail) = summary_trigger_and_tail cfg ms1 before in
      bind_result (if with_summary then maybe_summarize_with_llm env cfg ms1 None force else Inr (False, no_removal, ms1, None))
        (\<lambda>(summarized, removed, ms2, _).
          let tail_kept = (if summarized then Some (unwrap_or planned_tail 0) else None);
              (ms3, report) = finalize_token_budget_compaction env cfg ms2 tools model_override before (summarized \<and> force) tail_kept in
          Inr (\<lparr>pd_pipeline = pipeline, pd_summarized = summarized, pd_summary_tail_kept = tail_kept,
                pd_summary_removed_prefix = removed, pd_compaction = report\<rparr>, ms3)))"

section \<open>Lemmas\<close>

lemma clamp_le_hi: "lo \<le> hi \<Longrightarrow> clamp lo hi n \<le> hi"
  by (simp add: clamp_def)

lemma derived_percents:
  assumes "ac_context_pipeline cfg = derive_tail_context_scalars b"
  shows "cpc_context_token_trigger_percent (ac_context_pipeline cfg) \<le> 95"
    and "cpc_context_token_target_percent (ac_context_pipeline cfg) \<le> 90"
proof -
  have t: "clamp 50 95 n \<le> 95" "50 \<le> clamp 50 95 n" for n by (simp_all add: clamp_def)
  have "clamp 30 (clamp 50 95 n - 5) k \<le> clamp 50 95 n - 5" for n k using t(2) [of n] by (intro clamp_le_hi) linarith
  moreover have "clamp 50 95 n - 5 \<le> 90" for n using t(1) [of n] by linarith
  ultimately have "clamp 30 (clamp 50 95 n - 5) k \<le> 90" for n k by (rule le_trans)
  then show "cpc_context_token_target_percent (ac_context_pipeline cfg) \<le> 90"
    unfolding assms derive_tail_context_scalars_def Let_def by simp
  show "cpc_context_token_trigger_percent (ac_context_pipeline cfg) \<le> 95"
    unfolding assms derive_tail_context_scalars_def Let_def using t(1) by simp
qed

lemma percent_le:
  assumes "p \<le> 100"
  shows "sat_u32 (n * p) div 100 \<le> n"
proof -
  have "sat_u32 (n * p) \<le> n * 100" using assms by (simp add: sat_u32_def min.coboundedI1)
  then show ?thesis by (metis div_le_mono nonzero_mult_div_cancel_right zero_neq_numeral)
qed

lemma budget_limits:
  assumes "token_budget_from_config cfg = Some b"
    and "cpc_context_token_trigger_percent (ac_context_pipeline cfg) \<le> 100" "cpc_context_token_target_percent (ac_context_pipeline cfg) \<le> 100"
  shows "trigger_tokens b \<le> max_input_tokens b" and "target_tokens b \<le> max_input_tokens b"
  using assms(1) percent_le [OF assms(2)] percent_le [OF assms(3)]
  by (auto simp: token_budget_from_config_def Let_def split: if_splits)

text \<open>The window is divided without remainder, and at least 128 tokens are left for the input of any window of 256.\<close>

lemma window_divided:
  assumes "token_budget_from_config cfg = Some b"
  shows "reserved_output_tokens b + safety_margin_tokens b + max_input_tokens b = context_window_tokens b"
    and "256 \<le> context_window_tokens b \<Longrightarrow> 128 \<le> max_input_tokens b"
  using assms by (auto simp: token_budget_from_config_def Let_def split: if_splits)

subsection \<open>Removing turns\<close>

text \<open>Whole turns go, the oldest first, and if any goes then two stay.\<close>

definition keeps_two :: "Message list \<Rightarrow> Message list \<Rightarrow> bool" where
  "keeps_two ms out \<longleftrightarrow> (\<exists>j. out = head_of ms @ concat (drop j (turns_of ms)) \<and> (j = 0 \<or> j + 2 \<le> length (turns_of ms)))"

lemma keeps_two_refl: "keeps_two ms ms"
  unfolding keeps_two_def by (intro exI [of _ 0]) (simp add: head_turns)

lemma keeps_two_trans: "keeps_two a b \<Longrightarrow> keeps_two b c \<Longrightarrow> keeps_two a c"
proof -
  assume "keeps_two a b" "keeps_two b c"
  then obtain i j where i: "b = head_of a @ concat (drop i (turns_of a))" "i = 0 \<or> i + 2 \<le> length (turns_of a)"
    and j: "c = head_of b @ concat (drop j (turns_of b))" "j = 0 \<or> j + 2 \<le> length (turns_of b)" by (auto simp: keeps_two_def)
  have "c = head_of a @ concat (drop (j + i) (turns_of a))" "j + i = 0 \<or> j + i + 2 \<le> length (turns_of a)"
    using i(2) j newer_turns_parts [OF i(1)] by auto
  then show ?thesis unfolding keeps_two_def by blast
qed

lemma remove_oldest_keeps_two:
  assumes "remove_oldest_turn_group ms MIN_RECENT_TURN_GROUPS = (ms', step)"
  shows "keeps_two ms ms'" and "rp_is_empty step \<longleftrightarrow> length (turns_of ms) \<le> 2"
proof -
  show "keeps_two ms ms'"
  proof (cases "length (turns_of ms) \<le> 2")
    case True
    then show ?thesis using assms keeps_two_refl by (simp add: remove_oldest_eq MIN_RECENT_TURN_GROUPS_def)
  next
    case False
    then show ?thesis using assms unfolding keeps_two_def
      by (intro exI [of _ 1]) (auto simp: remove_oldest_eq MIN_RECENT_TURN_GROUPS_def drop_Suc)
  qed
  show "rp_is_empty step \<longleftrightarrow> length (turns_of ms) \<le> 2"
    using assms first_block_ne [of ms "hd (turns_of ms)" "tl (turns_of ms)"]
    by (cases "turns_of ms") (auto simp: remove_oldest_eq MIN_RECENT_TURN_GROUPS_def rp_is_empty_def no_removal_def split: if_splits)
qed

lemma remove_groups_spec:
  assumes "remove_groups_until_target est target guard ms o1 = (ok, ms', o2)" and "gr_after o1 = est ms"
  shows "gr_after o2 = est ms' \<and> keeps_two ms ms' \<and> (ok \<longrightarrow> used_input_tokens (est ms') \<le> target) \<and>
    (\<not> ok \<and> guard = 0 \<longrightarrow> length (turns_of ms') \<le> 2)"
  using assms
proof (induction est target guard ms o1 rule: remove_groups_until_target.induct)
  case (1 est target guard ms o1)
  note run = "1.prems"(1) [unfolded remove_groups_until_target.simps [of est target guard ms o1]]
  obtain ms1 step where r: "remove_oldest_turn_group ms MIN_RECENT_TURN_GROUPS = (ms1, step)" by fastforce
  consider (fits) "used_input_tokens (gr_after o1) \<le> target"
    | (few) "used_input_tokens (gr_after o1) > target" "length (turns_of ms) \<le> 2"
    | (guarded) "used_input_tokens (gr_after o1) > target" "length (turns_of ms) > 2"
        "guard > 0" "length ms - group_start (conversation_turn_groups ms ! 1) < guard"
    | (step) "used_input_tokens (gr_after o1) > target" "length (turns_of ms) > 2"
        "\<not> (guard > 0 \<and> length ms - group_start (conversation_turn_groups ms ! 1) < guard)" by fastforce
  then show ?case
  proof cases
    case step
    have ne: "\<not> rp_is_empty step" using remove_oldest_keeps_two(2) [OF r] step(2) by simp
    have "remove_groups_until_target est target guard ms1 \<lparr>gr_after = est ms1, gr_turn_groups = gr_turn_groups o1 + 1,
        gr_messages = gr_messages o1 + rp_removed step, gr_prefix = rp_union (gr_prefix o1) step\<rparr> = (ok, ms', o2)"
      using run step r ne unfolding MIN_RECENT_TURN_GROUPS_def by (simp split: if_splits)
    from "1.IH" [OF step(1) refl _ step(3) r [symmetric] ne this] step(2) keeps_two_trans [OF remove_oldest_keeps_two(1) [OF r]]
    show ?thesis by (simp add: MIN_RECENT_TURN_GROUPS_def)
  qed (use run "1.prems"(2) keeps_two_refl in \<open>auto simp: MIN_RECENT_TURN_GROUPS_def\<close>)
qed

lemma remove_old_groups_spec:
  assumes "remove_old_groups_to_target est ms after
      \<lparr>rb_target_tokens = target, rb_hard_limit_tokens = Some hard, rb_min_tail_messages = tail\<rparr> = (ms', out)"
    and "after = est ms" and "target \<le> hard"
  shows "gr_after out = est ms' \<and> keeps_two ms ms' \<and> (used_input_tokens (est ms') \<le> hard \<or> length (turns_of ms') \<le> 2)"
proof -
  obtain ok ms1 o1 where r1: "remove_groups_until_target est target tail ms (initial_removal after) = (ok, ms1, o1)"
    using prod_cases3 by blast
  have s1: "gr_after o1 = est ms1 \<and> keeps_two ms ms1 \<and> (ok \<longrightarrow> used_input_tokens (est ms1) \<le> target)"
    using remove_groups_spec [OF r1] assms(2) by (simp add: initial_removal_def)
  show ?thesis
  proof (cases "\<not> ok \<and> used_input_tokens (gr_after o1) > hard")
    case True
    obtain ok2 ms2 o2 where r2: "remove_groups_until_target est hard 0 ms1 o1 = (ok2, ms2, o2)" using prod_cases3 by blast
    then have "ms' = ms2" "out = o2" using assms(1) r1 True by (simp_all add: remove_old_groups_to_target_def)
    then show ?thesis using remove_groups_spec [OF r2] s1 keeps_two_trans by blast
  next
    case False
    then have "ms' = ms1" "out = o1" using assms(1) r1 by (auto simp: remove_old_groups_to_target_def split: bool.splits)
    then show ?thesis using s1 False assms(3) by auto
  qed
qed

subsection \<open>Shortening old tool results\<close>

definition same_but_tool_text :: "Message \<Rightarrow> Message \<Rightarrow> bool" where
  "same_but_tool_text m m' \<longleftrightarrow> (if tool_msg m then tool_msg m' else m' = m)"

lemma same_but_tool_text_refl [simp]: "same_but_tool_text m m"
  by (simp add: same_but_tool_text_def)

lemma same_counts_tool_text: "same_but_tool_text m m' \<Longrightarrow> counts m' = counts m"
  using counts_not_tool by (auto simp: same_but_tool_text_def split: if_splits)

lemma compress_same_but_tool_text: "same_but_tool_text m (fst (compress_tool_message jl n m))"
  by (simp add: same_but_tool_text_def compress_tool_message_def split: option.split MessageContent.split)

lemma compress_old_same: "list_all2 same_but_tool_text ms (fst (compress_old_tool_messages jl ms k n))"
proof -
  let ?b = "recent_groups_start ms k"
  have "list_all2 same_but_tool_text (take ?b ms @ drop ?b ms) (map (\<lambda>m. fst (compress_tool_message jl n m)) (take ?b ms) @ drop ?b ms)"
    by (intro list_all2_appendI) (simp_all add: list_all2_conv_all_nth compress_same_but_tool_text)
  then show ?thesis by (simp add: compress_old_tool_messages_def Let_def comp_def)
qed

lemma same_filter: "list_all2 same_but_tool_text ms ms' \<Longrightarrow> filter (\<lambda>m. \<not> tool_msg m) ms' = filter (\<lambda>m. \<not> tool_msg m) ms"
  by (induction rule: list_all2_induct) (auto simp: same_but_tool_text_def split: if_splits)

lemma list_all2_concat_split:
  "list_all2 R (concat xss) ys \<Longrightarrow> \<exists>yss. ys = concat yss \<and> list_all2 (list_all2 R) xss yss"
proof (induction xss arbitrary: ys)
  case Nil
  then show ?case by (intro exI [of _ "[]"]) simp
next
  case (Cons xs xss)
  then obtain u v where "ys = u @ v" "list_all2 R xs u" "list_all2 R (concat xss) v" by (auto simp: list_all2_append1)
  then show ?case using Cons.IH by (metis concat.simps(2) list_all2_Cons)
qed

lemma same_quiet: "list_all2 same_but_tool_text r r' \<Longrightarrow> quiet r \<Longrightarrow> quiet r'"
  by (induction rule: list_all2_induct) (simp_all add: same_counts_tool_text)

lemma same_block: "list_all2 same_but_tool_text b b' \<Longrightarrow> is_block b \<Longrightarrow> is_block b'"
  using same_quiet by (cases b; cases b') (auto simp: is_block_def same_counts_tool_text)

lemma same_turns:
  assumes "list_all2 same_but_tool_text ms ms'"
  shows "list_all2 same_but_tool_text (head_of ms) (head_of ms')" "list_all2 (list_all2 same_but_tool_text) (turns_of ms) (turns_of ms')"
proof -
  have "list_all2 same_but_tool_text (head_of ms @ concat (turns_of ms)) ms'" using assms by (simp add: head_turns)
  then obtain h bs where ms': "ms' = h @ concat bs" and h: "list_all2 same_but_tool_text (head_of ms) h"
    and bs: "list_all2 (list_all2 same_but_tool_text) (turns_of ms) bs"
    by (auto simp: list_all2_append1 dest!: list_all2_concat_split)
  have "quiet h" using h head_quiet [of ms] by (rule same_quiet)
  moreover have "list_all is_block bs" using bs turns_blocks [of ms]
    by (induction rule: list_all2_induct) (auto intro: same_block)
  ultimately show "list_all2 same_but_tool_text (head_of ms) (head_of ms')" "list_all2 (list_all2 same_but_tool_text) (turns_of ms) (turns_of ms')"
    using h bs turns_unique [of h bs] ms' by simp_all
qed

lemma same_keeps_two:
  assumes "list_all2 same_but_tool_text ms ms1" "keeps_two ms1 out"
  shows "\<exists>out'. keeps_two ms out' \<and> list_all2 same_but_tool_text out' out"
proof -
  obtain j where j: "out = head_of ms1 @ concat (drop j (turns_of ms1))" "j = 0 \<or> j + 2 \<le> length (turns_of ms1)"
    using assms(2) by (auto simp: keeps_two_def)
  note same = same_turns [OF assms(1)]
  have len: "length (turns_of ms1) = length (turns_of ms)" using same(2) by (simp add: list_all2_lengthD)
  have "list_all2 same_but_tool_text (concat (drop j (turns_of ms))) (concat (drop j (turns_of ms1)))"
    by (rule concat_transfer [unfolded rel_fun_def, rule_format]) (rule list_all2_dropI [OF same(2)])
  then have "list_all2 same_but_tool_text (head_of ms @ concat (drop j (turns_of ms))) out"
    unfolding j(1) by (rule list_all2_appendI [OF same(1)])
  then show ?thesis using j(2) len unfolding keeps_two_def by (metis (no_types))
qed

lemma compress_none:
  assumes "compress_old_tool_messages jl ms k n = (ms1, 0)"
  shows "ms1 = ms"
proof -
  let ?t = "take (recent_groups_start ms k) ms"
  have "snd (compress_tool_message jl n m) = False \<Longrightarrow> fst (compress_tool_message jl n m) = m" for m
    by (simp add: compress_tool_message_def split: option.splits MessageContent.splits if_splits)
  moreover have "\<forall>m \<in> set ?t. \<not> snd (compress_tool_message jl n m)"
    using assms by (auto simp: compress_old_tool_messages_def Let_def filter_empty_conv)
  ultimately have "map (\<lambda>m. fst (compress_tool_message jl n m)) ?t = ?t" by (simp add: map_idI)
  then show ?thesis using assms by (simp add: compress_old_tool_messages_def Let_def comp_def)
qed

lemma compaction_cases:
  assumes "compact_messages_to_token_budget env cfg ms tools mo before summarized tail = (ms', rep)"
    and "token_budget_from_config cfg = Some b" and "target_tokens b \<le> max_input_tokens b"
  shows "cr_after rep = estimate_final_request_tokens env ms' tools mo \<and>
    (\<exists>kept. keeps_two ms kept \<and> list_all2 same_but_tool_text kept ms') \<and>
    (if cr_token_triggered rep
     then used_input_tokens (cr_after rep) \<le> max_input_tokens b \<or> length (turns_of ms') \<le> 2
     else ms' = ms \<and> used_input_tokens (cr_after rep) \<le> trigger_tokens b)"
proof -
  let ?est = "\<lambda>ms. estimate_final_request_tokens env ms tools mo"
  have same: "list_all2 same_but_tool_text xs xs" for xs by (simp add: list_all2_refl)
  show ?thesis
  proof (cases "used_input_tokens before > trigger_tokens b \<or> used_input_tokens (?est ms) > trigger_tokens b")
    case False
    then show ?thesis using assms(1,2) keeps_two_refl same
      by (auto simp: compact_messages_to_token_budget_def Let_def initial_removal_def)
  next
    case True
    obtain ms1 n where s: "(if used_input_tokens (?est ms) > target_tokens b
        then compress_old_tool_messages (we_json env) ms MIN_RECENT_TURN_GROUPS DEGRADE_TOOL_MAX_CHARS else (ms, 0)) = (ms1, n)" by fastforce
    obtain ms2 r where r: "remove_old_groups_to_target ?est ms1 (if n > 0 then ?est ms1 else ?est ms)
        \<lparr>rb_target_tokens = target_tokens b, rb_hard_limit_tokens = Some (max_input_tokens b), rb_min_tail_messages = tail\<rparr> = (ms2, r)" by fastforce
    have out: "ms' = ms2" "cr_after rep = gr_after r" "cr_token_triggered rep"
      using assms(1,2) True s r by (auto simp: compact_messages_to_token_budget_def Let_def)
    have same1: "list_all2 same_but_tool_text ms ms1"
      using s same compress_old_same [of ms "we_json env" MIN_RECENT_TURN_GROUPS DEGRADE_TOOL_MAX_CHARS] by (auto split: if_splits)
    have "n = 0 \<Longrightarrow> ms1 = ms"
      using s compress_none by (auto split: if_splits)
    then have "(if n > 0 then ?est ms1 else ?est ms) = ?est ms1" by auto
    from remove_old_groups_spec [OF r this assms(3)]
    show ?thesis using out same_keeps_two [OF same1] by auto
  qed
qed

subsection \<open>Summaries\<close>

lemma first_kept_group_range:
  "1 \<le> g \<Longrightarrow> 1 \<le> first_kept_group ms gs req g \<and> first_kept_group ms gs req g \<le> g \<and>
     (first_kept_group ms gs req g = 1 \<or> req \<le> length ms - group_start (gs ! first_kept_group ms gs req g))"
proof (induction ms gs req g rule: first_kept_group.induct)
  case (2 ms gs req g)
  then show ?case by (cases "g = 0") auto
qed simp

lemma tail_len_whole_turns:
  assumes "complete_turn_group_tail_len ms req = Some tail"
  obtains j where "1 \<le> j" "j + 2 \<le> length (turns_of ms)" "tail = length (concat (drop j (turns_of ms)))"
    "drop (length ms - tail) ms = concat (drop j (turns_of ms))" "j = 1 \<or> req \<le> tail"
proof -
  let ?j = "first_kept_group ms (conversation_turn_groups ms) req (length (turns_of ms) - 2)"
  have three: "3 \<le> length (turns_of ms)" and tail: "tail = length ms - group_start (conversation_turn_groups ms ! ?j)"
    using assms by (auto simp: complete_turn_group_tail_len_def Let_def split: if_splits)
  have j: "1 \<le> ?j" "?j \<le> length (turns_of ms) - 2" "?j = 1 \<or> req \<le> tail"
    using first_kept_group_range [of "length (turns_of ms) - 2" ms "conversation_turn_groups ms" req] three tail by auto
  have start: "group_start (conversation_turn_groups ms ! ?j) = length (head_of ms @ concat (take ?j (turns_of ms)))"
    using j(2) three by (simp add: groups_eq block_ranges_nth)
  have "head_of ms @ concat (turns_of ms) = ms" by (rule head_turns)
  then have ms: "ms = (head_of ms @ concat (take ?j (turns_of ms))) @ concat (drop ?j (turns_of ms))"
    by (metis append_assoc append_take_drop_id concat_append)
  then have len: "length ms = length (head_of ms @ concat (take ?j (turns_of ms))) + length (concat (drop ?j (turns_of ms)))"
    by (metis length_append)
  have t: "tail = length (concat (drop ?j (turns_of ms)))" using tail start len by simp
  have "drop (length ms - tail) ms = concat (drop ?j (turns_of ms))"
    using ms len t by (metis add_diff_cancel_right' append_eq_conv_conj)
  then show ?thesis using that [of ?j] j t three by simp
qed

lemma summarize_True:
  assumes "maybe_summarize_with_llm env cfg ms budget force = Inr (True, removed, ms', budget')"
  obtains tail transcript summary where "context_summary_attempt_prep cfg ms budget force = Some (tail, transcript)"
    "20 \<le> length (trim summary)" "apply_llm_summary_to_messages ms tail summary = (ms', removed)"
proof -
  obtain tail transcript where p: "context_summary_attempt_prep cfg ms budget force = Some (tail, transcript)"
    using assms by (auto simp: maybe_summarize_with_llm_def split: option.splits)
  obtain msg :: Message where "20 \<le> length (trim (message_content_into_text_lossy (msg_content msg)))"
    "apply_llm_summary_to_messages ms tail (message_content_into_text_lossy (msg_content msg)) = (ms', removed)"
    using assms p by (auto simp: maybe_summarize_with_llm_def Let_def not_less split: option.splits prod.splits sum.splits if_splits)
  then show ?thesis using that p by blast
qed

lemma summarize_False:
  "maybe_summarize_with_llm env cfg ms budget force = Inr (False, removed, ms', budget') \<Longrightarrow> ms' = ms \<and> removed = no_removal"
  by (auto simp: maybe_summarize_with_llm_def Let_def split: option.splits prod.splits sum.splits if_splits)

lemma settle_keeps_iterations [simp]: "outer_loop_iterations (settle_llm_call cfg t b) = outer_loop_iterations b"
  by (simp add: settle_llm_call_def maybe_activate_degradation_def record_llm_call_def record_estimated_tokens_def Let_def split: option.split)

lemma settle_keeps_start [simp]: "started_at (settle_llm_call cfg t b) = started_at b"
  by (simp add: settle_llm_call_def maybe_activate_degradation_def record_llm_call_def record_estimated_tokens_def Let_def split: option.split)

lemma chat_keeps_iterations:
  assumes "complete_chat_retrying cfg (Some b) now service est = (r, b')"
  shows "\<exists>c. b' = Some c \<and> outer_loop_iterations c = outer_loop_iterations b \<and> started_at c = started_at b"
  using assms by (auto simp: complete_chat_retrying_def split: sum.splits prod.splits)

text \<open>Preparing a call never fails: a failed or useless summary leaves the conversation as the pipeline cut it.\<close>

lemma summarize_never_fails: "\<exists>r. maybe_summarize_with_llm env cfg ms budget force = Inr r"
  by (auto simp: maybe_summarize_with_llm_def Let_def split: option.split prod.split sum.split)

lemma summarize_budget:
  assumes "maybe_summarize_with_llm env cfg ms (Some b) force = Inr (s, removed, ms', budget')"
  shows "\<exists>c. budget' = Some c \<and> outer_loop_iterations c = outer_loop_iterations b \<and> started_at c = started_at b"
  using assms chat_keeps_iterations [of "ac_turn_budget cfg" b "we_now env"]
  by (fastforce simp: maybe_summarize_with_llm_def Let_def split: option.splits prod.splits sum.splits if_splits)

lemma prepare_never_fails: "\<exists>d v p n. prepare_messages_for_model env cfg hooks s per revision = Inr (d, v, p, n)"
proof -
  obtain ms1 pipeline ctr where p: "prepare_messages_before_model_call_sync_with_budget (we_json env) (mv_counters s) (mv_messages s) cfg (mv_budget s)
      (ph_need_report hooks) = (ms1, pipeline, ctr)" using prod_cases3 by blast
  obtain r where "maybe_summarize_with_llm env cfg ms1 (mv_budget s)
      (fst (summary_trigger_and_tail cfg ms1 (estimate_final_request_tokens env ms1 (ph_tools hooks) (ph_model_override hooks)))) = Inr r"
    using summarize_never_fails by blast
  then show ?thesis
    by (cases r) (auto simp: prepare_messages_for_model_def prepare_session_messages_shared_def p case_prod_beta Let_def)
qed

lemma prepare_effects:
  assumes "prepare_messages_for_model env cfg hooks s per revision = Inr (d, v, p, n)" and "mv_budget s = Some b"
  shows "(\<exists>c. mv_budget v = Some c \<and> outer_loop_iterations c = outer_loop_iterations b \<and> started_at c = started_at b) \<and>
    p = map_option invalidate_workflow_validate_layer_cache_after_context_mutation per"
proof -
  obtain ms1 pipeline ctr where p: "prepare_messages_before_model_call_sync_with_budget (we_json env) (mv_counters s) (mv_messages s) cfg (Some b)
      (ph_need_report hooks) = (ms1, pipeline, ctr)" using prod_cases3 by blast
  let ?force = "fst (summary_trigger_and_tail cfg ms1 (estimate_final_request_tokens env ms1 (ph_tools hooks) (ph_model_override hooks)))"
  obtain x removed ms2 budget' where r: "maybe_summarize_with_llm env cfg ms1 (Some b) ?force = Inr (x, removed, ms2, budget')"
    using summarize_never_fails prod_cases4 by (metis (no_types))
  show ?thesis using summarize_budget [OF r] assms r
    by (auto simp: prepare_messages_for_model_def prepare_session_messages_shared_def p case_prod_beta Let_def)
qed

section \<open>Properties\<close>

text \<open>
  C37: After compaction a request fits the window or is minimal.  With a configuration as the loader derives it, the reported estimate is that of the messages sent, and it is at most the input
  limit of the window unless only the two newest turns are left.  What is left is the conversation without its oldest turns, two turns at
  least if any was removed, with at most the texts of tool messages shortened.
\<close>

theorem compaction_fits_or_minimal:
  assumes "ac_context_pipeline cfg = derive_tail_context_scalars b"
    and "token_budget_from_config cfg = Some budget"
    and "compact_messages_to_token_budget env cfg ms tools mo before summarized tail = (ms', rep)"
  shows "cr_after rep = estimate_final_request_tokens env ms' tools mo \<and>
    (used_input_tokens (cr_after rep) \<le> max_input_tokens budget \<or> length (conversation_turn_groups ms') \<le> 2) \<and>
    (\<exists>kept. keeps_two ms kept \<and> filter (\<lambda>m. \<not> tool_msg m) ms' = filter (\<lambda>m. \<not> tool_msg m) kept \<and> length ms' = length kept)"
proof -
  have limits: "trigger_tokens budget \<le> max_input_tokens budget" "target_tokens budget \<le> max_input_tokens budget"
    using budget_limits [OF assms(2)] derived_percents [OF assms(1)] by auto
  note c = compaction_cases [OF assms(3,2) limits(2)]
  from c obtain kept where "keeps_two ms kept" "list_all2 same_but_tool_text kept ms'" by blast
  then have "\<exists>kept. keeps_two ms kept \<and> filter (\<lambda>m. \<not> tool_msg m) ms' = filter (\<lambda>m. \<not> tool_msg m) kept \<and> length ms' = length kept"
    using same_filter by (metis list_all2_lengthD)
  then show ?thesis using c limits(1) by (auto split: if_splits)
qed

definition one_million :: AgentContextConfig where
  "one_million = \<lparr>ac_context_pipeline = derive_tail_context_scalars \<lparr>b_context_char_budget = None, b_context_min_messages_after_system = None,
       b_context_token_trigger_percent = None, b_context_token_target_percent = None, b_context_token_safety_margin_tokens = None,
       b_context_summary_trigger_chars = None, b_context_summary_tail_messages = None, b_context_summary_max_tokens = None,
       b_context_summary_transcript_max_chars = None\<rparr>,
     ac_llm_context_tokens = 1000000, ac_max_tokens = 4096, ac_tool_message_max_chars = 32768, ac_max_message_history = 32,
     ac_turn_budget = one_call_cfg\<rparr>"

definition counting_env :: "unit window_env" where
  "counting_env = \<lparr>we_json = no_json,
     we_tokens = \<lparr>tl_count_messages = (\<lambda>model ms. Some (1000 * length ms, model)), tl_count_text = (\<lambda>model s. 0),
       tl_messages_json = (\<lambda>ms. None), tl_tools_json = (\<lambda>ts. None)\<rparr>,
     we_vendor = \<lparr>vr_model = [], vr_fold_system_into_user = False, vr_preserve_tool_call_reasoning = False, vr_deepseek_json_output = False\<rparr>,
     we_prompts = \<lparr>sp_system = [], sp_user_template = [], sp_embedded_system = [], sp_embedded_user_template = []\<rparr>,
     we_now = 0, we_service = (\<lambda>ms. Inl LlmCancelled), we_estimate = (\<lambda>m. None)\<rparr>"

theorem compaction_fits_or_minimal_witness:
  "used_input_tokens (cr_after (snd (compact_messages_to_token_budget counting_env one_million [ask, ask, ask] [] None
       (estimate_final_request_tokens counting_env [] [] None) False 0))) \<le> 993856 \<or>
   length (conversation_turn_groups (fst (compact_messages_to_token_budget counting_env one_million [ask, ask, ask] [] None
       (estimate_final_request_tokens counting_env [] [] None) False 0))) \<le> 2"
proof -
  obtain b where b: "token_budget_from_config one_million = Some b" "max_input_tokens b = 993856"
    by (simp add: token_budget_from_config_def one_million_def derive_tail_context_scalars_def clamp_def)
  have "\<exists>b. ac_context_pipeline one_million = derive_tail_context_scalars b" unfolding one_million_def by auto
  then obtain c where c: "ac_context_pipeline one_million = derive_tail_context_scalars c" by blast
  show ?thesis using compaction_fits_or_minimal [OF c b(1), of counting_env "[ask, ask, ask]" "[]" None
      "estimate_final_request_tokens counting_env [] [] None" False 0, OF surjective_pairing]
    unfolding b(2) by blast
qed

text \<open>
  C38: A summary replaces whole old turns.  When the conversation is summarised, the result is its first message, the summary and the newest turns, complete but for
  tool messages without a call: at least two turns and, unless all but the first turn are kept, at least as many messages as configured.  The reported range is the
  range that was replaced.
\<close>

theorem summary_keeps_recent_turns:
  assumes "maybe_summarize_with_llm env cfg ms budget force = Inr (True, removed, ms', budget')"
  shows "\<exists>j summary. 1 \<le> j \<and> j + 2 \<le> length (turns_of ms) \<and> 20 \<le> length (trim summary) \<and>
    ms' = keep_tools False (hd ms # user_context_summary_injection summary # concat (drop j (turns_of ms))) \<and>
    (j = 1 \<or> requested_tail cfg \<le> length (concat (drop j (turns_of ms)))) \<and>
    rp_start removed = 1 \<and> rp_end removed + length (concat (drop j (turns_of ms))) = length ms"
proof -
  from assms obtain tail transcript summary where prep: "context_summary_attempt_prep cfg ms budget force = Some (tail, transcript)"
    and s: "20 \<le> length (trim summary)" and a: "apply_llm_summary_to_messages ms tail summary = (ms', removed)" by (rule summarize_True)
  from prep have ne: "ms \<noteq> []" and len: "1 + tail + 1 < length ms" and t: "complete_turn_group_tail_len ms (requested_tail cfg) = Some tail"
    by (cases "complete_turn_group_tail_len ms (requested_tail cfg)";
        auto simp: context_summary_attempt_prep_def split: if_splits)+
  from t obtain j where j: "1 \<le> j" "j + 2 \<le> length (turns_of ms)" "tail = length (concat (drop j (turns_of ms)))"
    "drop (length ms - tail) ms = concat (drop j (turns_of ms))" "j = 1 \<or> requested_tail cfg \<le> tail" by (rule tail_len_whole_turns)
  have "ms' = keep_tools False (hd ms # user_context_summary_injection summary # concat (drop j (turns_of ms)))"
    and "removed = \<lparr>rp_start = 1, rp_removed = length ms - tail - 1\<rparr>"
    using a j(4) ne by (cases ms; auto simp: apply_llm_summary_to_messages_def Let_def drop_orphans_eq)+
  then show ?thesis using j s len by (intro exI [of _ j] exI [of _ summary]) (simp add: rp_end_def)
qed

definition reply :: Message where
  "reply = (user_only (lit ''ok''))\<lparr>msg_role := lit ''assistant''\<rparr>"

definition short_talk :: "Message list" where
  "short_talk = [system_only [], ask, reply, ask, ask]"

definition summary_env :: "unit window_env" where
  "summary_env = counting_env\<lparr>we_service := (\<lambda>ms. Inr (user_only (replicate 20 97), []))\<rparr>"

lemma short_talk_turns: "head_of short_talk = [system_only []]" "turns_of short_talk = [[ask, reply], [ask], [ask]]"
proof -
  have "\<not> counts (system_only [])" "\<not> counts reply"
    by (simp_all add: user_message_counts_for_branch_truncation_def system_only_def plain_message_def reply_def)
  then have "quiet [system_only []]" "list_all is_block [[ask, reply], [ask], [ask]]" by (simp_all add: is_block_def)
  then show "head_of short_talk = [system_only []]" "turns_of short_talk = [[ask, reply], [ask], [ask]]"
    using turns_unique [of "[system_only []]" "[[ask, reply], [ask], [ask]]"] by (simp_all add: short_talk_def)
qed

lemma short_talk_tail: "complete_turn_group_tail_len short_talk n = Some 2"
proof -
  have "length (turns_of short_talk) = 3" "length short_talk = 5" by (simp_all add: short_talk_turns(2)) (simp add: short_talk_def)
  then show ?thesis
    by (simp add: complete_turn_group_tail_len_def groups_eq short_talk_turns Let_def numeral_eq_Suc)
qed

lemma short_talk_summarised:
  "\<exists>removed ms'. maybe_summarize_with_llm summary_env one_million short_talk None True = Inr (True, removed, ms', None)"
proof -
  have prep: "\<exists>transcript. context_summary_attempt_prep one_million short_talk None True = Some (2, transcript)"
    by (simp add: context_summary_attempt_prep_def context_summary_trigger_reached_def short_talk_tail build_transcript_middle_def
        Let_def) (simp add: short_talk_def system_only_def plain_message_def)
  have trim: "trim (replicate 20 97) = replicate 20 97" by (simp add: trim_def trim_start_def trim_end_def is_whitespace_def numeral_eq_Suc)
  have "message_content_into_text_lossy (msg_content (user_only (replicate 20 97))) = replicate 20 97" by (simp add: user_only_def plain_message_def)
  then show ?thesis using prep
    by (auto simp: maybe_summarize_with_llm_def complete_chat_retrying_def summary_env_def counting_env_def Let_def trim split: prod.split)
qed

theorem summary_keeps_recent_turns_witness:
  "\<exists>removed ms'. maybe_summarize_with_llm summary_env one_million short_talk None True = Inr (True, removed, ms', None) \<and>
     rp_start removed = 1 \<and> rp_end removed = 3"
proof -
  obtain removed ms' where s: "maybe_summarize_with_llm summary_env one_million short_talk None True = Inr (True, removed, ms', None)"
    using short_talk_summarised by blast
  from summary_keeps_recent_turns [OF s] obtain j where "1 \<le> j" "j + 2 \<le> (3 :: nat)" "rp_start removed = 1"
    "rp_end removed + length (concat (drop j (turns_of short_talk))) = length short_talk" by (auto simp: short_talk_turns(2))
  moreover from this have "j = 1" by simp
  ultimately show ?thesis using s by (auto simp: short_talk_turns(2)) (simp add: short_talk_def)
qed

section \<open>Where the compaction falls short\<close>

text \<open>
  The first stage is meant for turns older than the two newest.  When there are at most two, the boundary is the end of
  the conversation and not its beginning, so that every tool result is shortened, also those of the turn in progress.
\<close>

lemma few_turns_all_shortened:
  assumes "length (conversation_turn_groups ms) \<le> MIN_RECENT_TURN_GROUPS"
  shows "fst (compress_old_tool_messages jl ms MIN_RECENT_TURN_GROUPS n) = map (\<lambda>m. fst (compress_tool_message jl n m)) ms"
  using assms by (simp add: compress_old_tool_messages_def recent_groups_start_def MIN_RECENT_TURN_GROUPS_def Let_def comp_def)

text \<open>The range of removed messages understates the removal, as it does for the limit on messages: two messages go, the range says one.\<close>

lemma removal_range_understated:
  "remove_groups_until_target (\<lambda>ms. (estimate_final_request_tokens counting_env [] [] None)\<lparr>used_input_tokens := length ms\<rparr>) 2 0 [ask, ask, ask, ask]
     (initial_removal ((estimate_final_request_tokens counting_env [] [] None)\<lparr>used_input_tokens := 4\<rparr>)) =
   (True, [ask, ask], \<lparr>gr_after = (estimate_final_request_tokens counting_env [] [] None)\<lparr>used_input_tokens := 2\<rparr>,
      gr_turn_groups = 2, gr_messages = 2, gr_prefix = \<lparr>rp_start = 0, rp_removed = 1\<rparr>\<rparr>)"
proof -
  have t: "turns_of [ask, ask, ask, ask] = [[ask], [ask], [ask], [ask]]" "head_of [ask, ask, ask, ask] = []"
    "turns_of [ask, ask, ask] = [[ask], [ask], [ask]]" "head_of [ask, ask, ask] = []"
    using ask_turns [of 4] ask_turns [of 3] by (simp_all add: numeral_eq_Suc)
  show ?thesis
    by (simp add: remove_groups_until_target.simps remove_oldest_eq t rp_is_empty_def rp_union_def rp_end_def no_removal_def Let_def
        initial_removal_def MIN_RECENT_TURN_GROUPS_def)
qed

end
