(* ===== verification/Turn_Error.thy ===== *)
theory Turn_Error
  imports Context_Window
begin

text \<open>
  How a turn fails (\<^verbatim>\<open>agent/agent_turn/host/errors.rs\<close>, \<^verbatim>\<open>cm_internal/agent_errors.rs\<close>, \<^verbatim>\<open>cm_llm/complete_error.rs\<close>): the errors of the
  orchestration and what the job queue, the event stream, the JSON reply and the log see of them.
\<close>

section \<open>Errors of the model client\<close>

record LlmCallError =
  lce_user_message :: ustring
  lce_http_status :: "nat option"
  lce_retryable :: bool

type_synonym llm_error = "LlmCallError LlmCompleteError"

definition http_status_retryable_for_backoff :: "nat \<Rightarrow> bool" where
  "http_status_retryable_for_backoff status \<longleftrightarrow> status = 408 \<or> status = 429 \<or> 500 \<le> status \<and> status \<le> 599"

definition from_http_api :: "nat \<Rightarrow> ustring \<Rightarrow> LlmCallError" where
  "from_http_api status message =
     \<lparr>lce_user_message = message, lce_http_status = Some status, lce_retryable = http_status_retryable_for_backoff status\<rparr>"

definition LLM_CANCELLED_ERROR :: ustring where
  "LLM_CANCELLED_ERROR = [24050, 21462, 28040]"

fun llm_error_display :: "llm_error \<Rightarrow> ustring" where
  "llm_error_display LlmCancelled = LLM_CANCELLED_ERROR"
| "llm_error_display (LlmTransport e) = lce_user_message e"
| "llm_error_display (LlmOther e) = e"

fun llm_error_retryable :: "llm_error \<Rightarrow> bool" where
  "llm_error_retryable LlmCancelled = False"
| "llm_error_retryable (LlmTransport e) = lce_retryable e"
| "llm_error_retryable (LlmOther e) = False"

section \<open>Classification by text\<close>

definition is_user_cancelled_run_agent_error :: "ustring \<Rightarrow> bool" where
  "is_user_cancelled_run_agent_error s \<longleftrightarrow> trim s = LLM_CANCELLED_ERROR"

definition QUOTA_OR_RATE_LIMIT_NEEDLES :: "ustring list" where
  "QUOTA_OR_RATE_LIMIT_NEEDLES =
     [lit ''HTTP 429'', lit ''http 429'', lit ''status=429'', [38480, 27969], lit ''quota'', lit ''Quota'', lit ''HTTP 402'', lit ''http 402'', [20313, 39069],
      lit ''insufficient'', lit ''HTTP 503'', lit ''http 503'', lit ''status=503'']"

definition is_quota_or_rate_limit_llm_message :: "ustring \<Rightarrow> bool" where
  "is_quota_or_rate_limit_llm_message msg = contains_any msg QUOTA_OR_RATE_LIMIT_NEEDLES"

section \<open>Errors of a turn\<close>

datatype AgentTurnSubPhase = Planner | Executor | Reflect

fun sub_phase_as_str :: "AgentTurnSubPhase \<Rightarrow> ustring" where
  "sub_phase_as_str Planner = lit ''planner''"
| "sub_phase_as_str Executor = lit ''executor''"
| "sub_phase_as_str Reflect = lit ''reflect''"

datatype TurnAbortReason = SseDisconnected | UserCancelled

fun abort_reason_display :: "TurnAbortReason \<Rightarrow> ustring" where
  "abort_reason_display SseDisconnected = [27969, 24335, 36755, 20986, 24050, 26029, 24320]"
| "abort_reason_display UserCancelled = LLM_CANCELLED_ERROR"

datatype RunAgentTurnError =
    TurnLlm AgentTurnSubPhase llm_error
  | TurnAborted AgentTurnSubPhase TurnAbortReason
  | TurnOther AgentTurnSubPhase ustring
  | StepRetryExhausted AgentTurnSubPhase ustring
  | ReplanExhausted AgentTurnSubPhase ustring
  | TimeLimitExhausted AgentTurnSubPhase ustring
  | TokenLimitExhausted AgentTurnSubPhase ustring

fun turn_error_display :: "RunAgentTurnError \<Rightarrow> ustring" where
  "turn_error_display (TurnLlm _ kind) = llm_error_display kind"
| "turn_error_display (TurnAborted _ reason) = abort_reason_display reason"
| "turn_error_display (TurnOther _ message) = message"
| "turn_error_display (StepRetryExhausted _ message) = message"
| "turn_error_display (ReplanExhausted _ message) = message"
| "turn_error_display (TimeLimitExhausted _ message) = message"
| "turn_error_display (TokenLimitExhausted _ message) = message"

fun error_sub_phase :: "RunAgentTurnError \<Rightarrow> AgentTurnSubPhase" where
  "error_sub_phase (TurnLlm p _) = p"
| "error_sub_phase (TurnAborted p _) = p"
| "error_sub_phase (TurnOther p _) = p"
| "error_sub_phase (StepRetryExhausted p _) = p"
| "error_sub_phase (ReplanExhausted p _) = p"
| "error_sub_phase (TimeLimitExhausted p _) = p"
| "error_sub_phase (TokenLimitExhausted p _) = p"

definition SSE_STREAM_CANCELLED_CODE :: ustring where
  "SSE_STREAM_CANCELLED_CODE = lit ''STREAM_CANCELLED''"

definition is_rate_limited :: "LlmCallError \<Rightarrow> bool" where
  "is_rate_limited e \<longleftrightarrow> lce_http_status e = Some 429 \<or> is_quota_or_rate_limit_llm_message (lce_user_message e)"

fun public_error_code :: "RunAgentTurnError \<Rightarrow> ustring" where
  "public_error_code (TurnLlm _ LlmCancelled) = SSE_STREAM_CANCELLED_CODE"
| "public_error_code (TurnLlm _ (LlmTransport e)) = (if is_rate_limited e then lit ''LLM_RATE_LIMIT'' else lit ''LLM_REQUEST_FAILED'')"
| "public_error_code (TurnLlm _ (LlmOther _)) = lit ''INTERNAL_ERROR''"
| "public_error_code (TurnAborted _ SseDisconnected) = lit ''turn_aborted''"
| "public_error_code (TurnAborted _ UserCancelled) = SSE_STREAM_CANCELLED_CODE"
| "public_error_code (TurnOther _ _) = lit ''INTERNAL_ERROR''"
| "public_error_code (StepRetryExhausted _ _) = lit ''STEP_RETRY_EXHAUSTED''"
| "public_error_code (ReplanExhausted _ _) = lit ''REPLAN_EXHAUSTED''"
| "public_error_code (TimeLimitExhausted _ _) = lit ''TIME_LIMIT_EXHAUSTED''"
| "public_error_code (TokenLimitExhausted _ _) = lit ''TOKEN_LIMIT_EXHAUSTED''"

definition GENERIC_FAILURE :: ustring where
  "GENERIC_FAILURE = [23545, 35805, 22833, 36133, 65292, 35831, 31245, 21518, 37325, 35797]"

fun public_user_message :: "RunAgentTurnError \<Rightarrow> ustring" where
  "public_user_message (TurnLlm _ LlmCancelled) = LLM_CANCELLED_ERROR"
| "public_user_message (TurnLlm _ (LlmTransport e)) = lce_user_message e"
| "public_user_message (TurnLlm _ (LlmOther _)) = GENERIC_FAILURE"
| "public_user_message (TurnAborted _ reason) = abort_reason_display reason"
| "public_user_message (TurnOther _ _) = GENERIC_FAILURE"
| "public_user_message (StepRetryExhausted _ _) = [26412, 27493, 37325, 35797, 27425, 25968, 24050, 29992, 23613, 65292, 35831, 31616, 21270, 20219, 21153, 25110, 31245, 21518, 37325, 35797]"
| "public_user_message (ReplanExhausted _ _) = [37325, 35268, 21010, 27425, 25968, 24050, 29992, 23613, 65292, 35831, 31616, 21270, 20219, 21153, 25110, 31245, 21518, 37325, 35797]"
| "public_user_message (TimeLimitExhausted _ _) = [26412, 36718, 23545, 35805, 24050, 36229, 26102, 65292, 35831, 32553, 30701, 36755, 20837, 25110, 31245, 21518, 37325, 35797]"
| "public_user_message (TokenLimitExhausted _ _) = ([26412, 36718] @ lit '' token '' @ [39044, 31639, 24050, 29992, 23613, 65292, 35831, 32553, 30701, 19978, 19979, 25991, 25110, 31245, 21518, 37325, 35797])"

text \<open>\<^verbatim>\<open>StatusCode::from_u16\<close> accepts the codes from 100 to 999.\<close>

definition status_or_bad_gateway :: "nat \<Rightarrow> nat" where
  "status_or_bad_gateway s = (if 100 \<le> s \<and> s \<le> 999 then s else 502)"

fun suggested_http_status :: "RunAgentTurnError \<Rightarrow> nat" where
  "suggested_http_status (TurnLlm _ LlmCancelled) = 499"
| "suggested_http_status (TurnLlm _ (LlmTransport e)) =
     (if is_rate_limited e then 429 else case lce_http_status e of Some s \<Rightarrow> status_or_bad_gateway s | None \<Rightarrow> 502)"
| "suggested_http_status (TurnLlm _ (LlmOther _)) = 500"
| "suggested_http_status (TurnAborted _ _) = 499"
| "suggested_http_status (TurnOther _ _) = 500"
| "suggested_http_status (StepRetryExhausted _ _) = 422"
| "suggested_http_status (ReplanExhausted _ _) = 422"
| "suggested_http_status (TimeLimitExhausted _ _) = 422"
| "suggested_http_status (TokenLimitExhausted _ _) = 422"

definition truncate_chars_with_ellipsis :: "ustring \<Rightarrow> nat \<Rightarrow> ustring" where
  "truncate_chars_with_ellipsis s n = (let t = take n s in if utf8_len t < utf8_len s then t @ [8230] else t)"

definition truncate_reason :: "ustring \<Rightarrow> ustring" where
  "truncate_reason s = (if length s \<le> 200 then s else take 199 s @ [8230])"

definition internal_reason_for_logs :: "RunAgentTurnError \<Rightarrow> ustring" where
  "internal_reason_for_logs e = truncate_chars_with_ellipsis (turn_error_display e) 240"

record ApiError =
  api_code :: ustring
  api_message :: ustring
  api_reason_code :: "ustring option"

definition http_api_error :: "RunAgentTurnError \<Rightarrow> ApiError" where
  "http_api_error e =
     (case e of
        TurnLlm _ (LlmTransport _) \<Rightarrow> \<lparr>api_code = public_error_code e, api_message = public_user_message e, api_reason_code = None\<rparr>
      | _ \<Rightarrow>
          \<lparr>api_code = public_error_code e, api_message = public_user_message e,
           api_reason_code = (if public_error_code e = lit ''INTERNAL_ERROR'' then Some (internal_reason_for_logs e) else None)\<rparr>)"

definition diag_log_kv :: "RunAgentTurnError \<Rightarrow> ustring" where
  "diag_log_kv e = lit ''public_code='' @ public_error_code e @ lit '' sub_phase='' @ sub_phase_as_str (error_sub_phase e) @
     lit '' detail='' @ internal_reason_for_logs e"

record SseErrorBody =
  seb_error :: ustring
  seb_code :: "ustring option"
  seb_reason_code :: "ustring option"
  seb_turn_id :: "nat option"
  seb_sub_phase :: "ustring option"
  seb_request_id :: "ustring option"

definition with_request_id :: "SseErrorBody \<Rightarrow> ustring option \<Rightarrow> SseErrorBody" where
  "with_request_id body request_id = body\<lparr>seb_request_id := filter_option (\<lambda>s. trim s \<noteq> []) request_id\<rparr>"

definition sse_body :: "RunAgentTurnError \<Rightarrow> nat option \<Rightarrow> ustring option \<Rightarrow> ustring \<Rightarrow> ustring \<Rightarrow> ustring option \<Rightarrow> SseErrorBody" where
  "sse_body e turn_id request_id msg code reason =
     with_request_id
       \<lparr>seb_error = msg, seb_code = Some code, seb_reason_code = reason, seb_turn_id = turn_id,
        seb_sub_phase = Some (sub_phase_as_str (error_sub_phase e)), seb_request_id = None\<rparr> request_id"

fun sse_error_payload_with_request_id :: "RunAgentTurnError \<Rightarrow> nat option \<Rightarrow> ustring option \<Rightarrow> SseErrorBody" where
  "sse_error_payload_with_request_id (TurnLlm p LlmCancelled) tid rid =
     sse_body (TurnLlm p LlmCancelled) tid rid LLM_CANCELLED_ERROR SSE_STREAM_CANCELLED_CODE None"
| "sse_error_payload_with_request_id (TurnLlm p (LlmTransport e)) tid rid =
     sse_body (TurnLlm p (LlmTransport e)) tid rid (lce_user_message e)
       (if is_rate_limited e then lit ''LLM_RATE_LIMIT'' else lit ''LLM_REQUEST_FAILED'') None"
| "sse_error_payload_with_request_id (TurnLlm p (LlmOther e)) tid rid =
     sse_body (TurnLlm p (LlmOther e)) tid rid GENERIC_FAILURE (lit ''INTERNAL_ERROR'') (Some (truncate_reason e))"
| "sse_error_payload_with_request_id (TurnAborted p SseDisconnected) tid rid =
     sse_body (TurnAborted p SseDisconnected) tid rid (abort_reason_display SseDisconnected) (lit ''turn_aborted'') None"
| "sse_error_payload_with_request_id (TurnAborted p UserCancelled) tid rid =
     sse_body (TurnAborted p UserCancelled) tid rid (abort_reason_display UserCancelled) SSE_STREAM_CANCELLED_CODE None"
| "sse_error_payload_with_request_id (TurnOther p m) tid rid =
     sse_body (TurnOther p m) tid rid (public_user_message (TurnOther p m)) (lit ''INTERNAL_ERROR'') (Some (truncate_reason m))"
| "sse_error_payload_with_request_id (StepRetryExhausted p m) tid rid =
     sse_body (StepRetryExhausted p m) tid rid (public_user_message (StepRetryExhausted p m)) (lit ''STEP_RETRY_EXHAUSTED'') (Some (truncate_reason m))"
| "sse_error_payload_with_request_id (ReplanExhausted p m) tid rid =
     sse_body (ReplanExhausted p m) tid rid (public_user_message (ReplanExhausted p m)) (lit ''REPLAN_EXHAUSTED'') (Some (truncate_reason m))"
| "sse_error_payload_with_request_id (TimeLimitExhausted p m) tid rid =
     sse_body (TimeLimitExhausted p m) tid rid (public_user_message (TimeLimitExhausted p m)) (lit ''TIME_LIMIT_EXHAUSTED'') (Some (truncate_reason m))"
| "sse_error_payload_with_request_id (TokenLimitExhausted p m) tid rid =
     sse_body (TokenLimitExhausted p m) tid rid (public_user_message (TokenLimitExhausted p m)) (lit ''TOKEN_LIMIT_EXHAUSTED'') (Some (truncate_reason m))"

definition PLAN_REWRITE_EXHAUSTED_SSE :: ustring where
  "PLAN_REWRITE_EXHAUSTED_SSE = [32467, 26500, 21270, 35268, 21010, 20173, 26410, 28385, 36275, 35201, 27714, 65288, 24050, 36798, 26368, 22823, 37325, 20889, 27425, 25968, 65289, 65292, 24050, 32467, 26463, 26412, 36718, 65307, 35831, 35843, 25972, 38656, 27714, 21518, 37325, 35797, 12290]"

text \<open>\<open>tracing\<close> is what the observed chat turn knows: its job id and, perhaps, its request id.\<close>

definition sse_plan_rewrite_exhausted_body :: "(nat \<times> ustring option) option \<Rightarrow> ustring \<Rightarrow> SseErrorBody" where
  "sse_plan_rewrite_exhausted_body tracing reason =
     with_request_id
       \<lparr>seb_error = PLAN_REWRITE_EXHAUSTED_SSE, seb_code = Some (lit ''plan_rewrite_exhausted''), seb_reason_code = Some reason,
        seb_turn_id = map_option fst tracing, seb_sub_phase = Some (sub_phase_as_str Reflect), seb_request_id = None\<rparr> (and_then tracing snd)"

section \<open>Cancellation\<close>

datatype AgentTurnJobOutcomeKind = JobUserCancelled | FailureEmitSseError

definition is_user_flow_cancelled :: "RunAgentTurnError \<Rightarrow> bool" where
  "is_user_flow_cancelled e =
     (case e of TurnLlm _ LlmCancelled \<Rightarrow> True | TurnAborted _ UserCancelled \<Rightarrow> True | _ \<Rightarrow> False)"

definition is_interrupted_cancel :: "RunAgentTurnError \<Rightarrow> bool" where
  "is_interrupted_cancel e \<longleftrightarrow> is_user_flow_cancelled e \<or> (case e of TurnAborted _ SseDisconnected \<Rightarrow> True | _ \<Rightarrow> False)"

definition job_queue_outcome_kind_inner :: "RunAgentTurnError \<Rightarrow> AgentTurnJobOutcomeKind" where
  "job_queue_outcome_kind_inner e =
     (if is_user_flow_cancelled e \<or> is_user_cancelled_run_agent_error (turn_error_display e) then JobUserCancelled else FailureEmitSseError)"

definition job_queue_stream_outcome_kind :: "RunAgentTurnError \<Rightarrow> bool \<Rightarrow> AgentTurnJobOutcomeKind" where
  "job_queue_stream_outcome_kind e cancelled_by_signal = (if cancelled_by_signal then JobUserCancelled else job_queue_outcome_kind_inner e)"

definition short_detail_for_job_log :: "RunAgentTurnError \<Rightarrow> ustring option" where
  "short_detail_for_job_log e =
     (if is_user_flow_cancelled e then None else Some (truncate_chars_with_ellipsis (turn_error_display e) 120))"

section \<open>Properties\<close>

lemma truncate_reason_length: "length (truncate_reason s) \<le> 200"
  by (simp add: truncate_reason_def)

lemma truncate_chars_length: "length (truncate_chars_with_ellipsis s n) \<le> n + 1"
  using min.cobounded2 [of "length s" n] by (simp add: truncate_chars_with_ellipsis_def Let_def del: min.cobounded2)

text \<open>
  C39: The views of an error agree.  For every error of a turn, the event stream and the JSON reply have the same code and the same text, both public; the
  JSON reply has an internal reason exactly for internal errors, and no reason is longer than its limit.  A cancelled or
  disconnected turn is answered with status 499, and a user's cancellation is one for the job queue.
\<close>

theorem error_views_agree:
  "seb_code (sse_error_payload_with_request_id e tid rid) = Some (public_error_code e) \<and>
   seb_error (sse_error_payload_with_request_id e tid rid) = public_user_message e \<and>
   api_code (http_api_error e) = public_error_code e \<and> api_message (http_api_error e) = public_user_message e \<and>
   (api_reason_code (http_api_error e) \<noteq> None \<longleftrightarrow> public_error_code e = lit ''INTERNAL_ERROR'') \<and>
   list_all (\<lambda>s. length s \<le> 241) (map the (filter (\<lambda>r. r \<noteq> None) [api_reason_code (http_api_error e), seb_reason_code (sse_error_payload_with_request_id e tid rid)])) \<and>
   \<not> (is_interrupted_cancel e \<and> suggested_http_status e \<noteq> 499) \<and>
   \<not> (is_user_flow_cancelled e \<and> job_queue_outcome_kind_inner e \<noteq> JobUserCancelled)"
proof -
  have lens: "length (truncate_reason s) \<le> 241" "length (internal_reason_for_logs e') \<le> 241" for s e'
    using truncate_reason_length [of s] truncate_chars_length [of _ 240] by (simp_all add: internal_reason_for_logs_def le_trans)
  have job: "\<not> (is_user_flow_cancelled e \<and> job_queue_outcome_kind_inner e \<noteq> JobUserCancelled)" by (simp add: job_queue_outcome_kind_inner_def)
  show ?thesis
  proof (cases e)
    case (TurnLlm p k)
    then show ?thesis using lens job by (cases k) (simp_all add: sse_body_def with_request_id_def http_api_error_def is_interrupted_cancel_def is_user_flow_cancelled_def SSE_STREAM_CANCELLED_CODE_def)
  next
    case (TurnAborted p r)
    then show ?thesis using lens job by (cases r) (simp_all add: sse_body_def with_request_id_def http_api_error_def SSE_STREAM_CANCELLED_CODE_def)
  qed (use lens job in \<open>simp_all add: sse_body_def with_request_id_def http_api_error_def is_interrupted_cancel_def is_user_flow_cancelled_def\<close>)
qed

end
