(* ===== verification/Turn_Start.thy ===== *)
theory Turn_Start
  imports Turn_Error
begin

text \<open>
  How a turn starts and what its loop carries along: the mirror of the coordinator for a web job (\<^verbatim>\<open>per_turn_flight.rs\<close>), the
  turn state with its revision number and the choice of the model (\<^verbatim>\<open>agent/agent_turn/host/params.rs\<close>), the placement of assistant messages and separators
  (\<^verbatim>\<open>policy/messages.rs\<close>), questions about the conversation itself (\<^verbatim>\<open>meta_dialogue.rs\<close>), the constraints read off the user's sentence
  (\<^verbatim>\<open>plan_reflect/intent/at_turn_start.rs\<close>) and the route of the turn (\<^verbatim>\<open>policy/turn_route_decision.rs\<close>, \<^verbatim>\<open>turn_orchestration.rs\<close>).
\<close>

section \<open>The mirror of a web job\<close>

record PerTurnFlight =
  awaiting_plan_rewrite_model :: bool
  pf_plan_rewrite_attempts :: nat
  require_plan_in_final_content :: bool
  last_assistant_finish_truncated :: bool

definition require_plan_in_final_flag_snapshot :: "PerCoordinator \<Rightarrow> bool" where
  "require_plan_in_final_flag_snapshot per = ctx_require_plan (build_final_plan_gate_context (final_plan_policy per) (plan_requirement_source per))"

definition sync_from_per_coord :: "PerCoordinator \<Rightarrow> PerTurnFlight \<Rightarrow> PerTurnFlight" where
  "sync_from_per_coord per f =
     f\<lparr>pf_plan_rewrite_attempts := plan_rewrite_attempts (counters per), require_plan_in_final_content := require_plan_in_final_flag_snapshot per\<rparr>"

definition STREAM_TRUNCATED_FINISH_REASON :: ustring where
  "STREAM_TRUNCATED_FINISH_REASON = lit ''stream_truncated''"

definition llm_finish_reason_is_truncation :: "ustring \<Rightarrow> bool" where
  "llm_finish_reason_is_truncation finish_reason \<longleftrightarrow>
     finish_reason = STREAM_TRUNCATED_FINISH_REASON \<or> eq_ignore_ascii_case finish_reason (lit ''length'')"

section \<open>The route of a turn\<close>

datatype TurnStartSnapshot = SnapshotDisabled | EmptyTask | ActHeuristics bool

datatype TurnOrchestrationMode = ReAct

fun orchestration_mode_as_str :: "TurnOrchestrationMode \<Rightarrow> ustring" where
  "orchestration_mode_as_str ReAct = lit ''react''"

datatype ReActBecause = Freeform

fun because_as_str :: "ReActBecause \<Rightarrow> ustring" where
  "because_as_str Freeform = lit ''freeform''"

record TurnResolution =
  orchestration_mode :: TurnOrchestrationMode
  freeform_because :: "ReActBecause option"

definition resolve_react :: "AgentConfig \<Rightarrow> TurnResolution" where
  "resolve_react cfg = \<lparr>orchestration_mode = ReAct, freeform_because = Some Freeform\<rparr>"

record TurnRouteDecisionV1 =
  rd_version :: nat
  rd_turn_start :: TurnStartSnapshot
  rd_orchestration_mode :: ustring
  rd_freeform_because :: "ustring option"
  rd_planner_executor_mode :: ustring
  rd_plan_requirement_policy :: ustring
  rd_orchestration_profile :: "ustring option"

definition plan_requirement_policy_label :: "AgentConfig \<Rightarrow> ustring" where
  "plan_requirement_policy_label cfg =
     (case final_plan_requirement cfg of
        Never \<Rightarrow> lit ''never''
      | WorkflowReflection \<Rightarrow> lit ''workflow_reflection''
      | Always \<Rightarrow> lit ''always'')"

definition build_turn_route_decision :: "AgentConfig \<Rightarrow> TurnStartSnapshot \<Rightarrow> TurnResolution \<Rightarrow> TurnRouteDecisionV1" where
  "build_turn_route_decision cfg turn_start entry =
     \<lparr>rd_version = 1, rd_turn_start = turn_start, rd_orchestration_mode = orchestration_mode_as_str (orchestration_mode entry),
      rd_freeform_because = map_option because_as_str (freeform_because entry), rd_planner_executor_mode = lit ''single_agent'',
      rd_plan_requirement_policy = plan_requirement_policy_label cfg, rd_orchestration_profile = Some (lit ''react'')\<rparr>"

datatype TurnRouteDriver = ReActDriver

record AssessedTurnRoute =
  assessed_decision :: TurnRouteDecisionV1
  assessed_driver :: TurnRouteDriver

definition assess_turn_routing :: "AgentConfig \<Rightarrow> TurnStartSnapshot \<Rightarrow> AssessedTurnRoute" where
  "assess_turn_routing cfg turn_start =
     \<lparr>assessed_decision = build_turn_route_decision cfg turn_start (resolve_react cfg), assessed_driver = ReActDriver\<rparr>"

section \<open>The state of the loop\<close>

record TurnPlannerHints =
  execution_constraint_hint :: "ustring option"
  step_executor_constraint :: "PlanStepExecutorKind option"
  turn_start_snapshot :: "TurnStartSnapshot option"

datatype loop_event =
    TurnSegmentEnd ustring
  | TurnSegmentStart ustring ustring
  | TimelineLog ustring TurnRouteDecisionV1
  | ErrorEvent SseErrorBody

text \<open>\<^verbatim>\<open>RunLoopTurnState\<close> with the coordinator; \<open>ls_events\<close> are the control events sent so far.\<close>

record loop_state =
  ls_turn :: turn_state
  ls_revision :: nat
  ls_sub_phase :: AgentTurnSubPhase
  ls_hints :: TurnPlannerHints
  ls_use_executor_model :: bool
  ls_flight :: "PerTurnFlight option"
  ls_counters :: MessagePipelineCounters
  ls_events :: "loop_event list"

abbreviation ls_messages :: "loop_state \<Rightarrow> Message list" where
  "ls_messages s \<equiv> ts_messages (ls_turn s)"

abbreviation ls_budget :: "loop_state \<Rightarrow> TurnBudgetCounter" where
  "ls_budget s \<equiv> ts_budget (ls_turn s)"

abbreviation ls_per :: "loop_state \<Rightarrow> PerCoordinator" where
  "ls_per s \<equiv> ts_per (ls_turn s)"

text \<open>What does not change during a turn: the configuration, the libraries and the attachments of the job.\<close>

record turn_ctx =
  tx_cfg :: AgentConfig
  tx_context :: AgentContextConfig
  tx_coordinator :: PerCoordinatorInit
  tx_plan_lib :: plan_lib
  tx_lowercase :: lowercase
  tx_tools_defs :: "Tool list"
  tx_turn_allowed_tool_names :: "ustring set option"
  tx_permission :: PermissionCaps
  tx_session_mode :: SessionMode
  tx_workspace_is_set :: bool
  tx_model_override :: "ustring option"
  tx_planner_model :: "ustring option"
  tx_executor_model_override :: "ustring option"
  tx_executor_model :: "ustring option"
  tx_executor_api_base :: "ustring option"
  tx_executor_api_key :: "ustring option"
  tx_changelist_enabled :: bool
  tx_changelist_max_chars :: nat
  tx_pipeline_report :: bool
  tx_out :: bool
  tx_tracing :: "(nat \<times> ustring option) option"

definition bump_messages_revision :: "loop_state \<Rightarrow> loop_state" where
  "bump_messages_revision s = s\<lparr>ls_revision := (ls_revision s + 1) mod 2 ^ 64\<rparr>"

definition set_messages :: "Message list \<Rightarrow> loop_state \<Rightarrow> loop_state" where
  "set_messages ms s = s\<lparr>ls_turn := (ls_turn s)\<lparr>ts_messages := ms\<rparr>\<rparr>"

definition set_per :: "PerCoordinator \<Rightarrow> loop_state \<Rightarrow> loop_state" where
  "set_per per s = s\<lparr>ls_turn := (ls_turn s)\<lparr>ts_per := per\<rparr>\<rparr>"

definition emit :: "turn_ctx \<Rightarrow> loop_event \<Rightarrow> loop_state \<Rightarrow> loop_state" where
  "emit ctx e s = (if tx_out ctx then s\<lparr>ls_events := ls_events s @ [e]\<rparr> else s)"

definition turn_push_message :: "Message \<Rightarrow> loop_state \<Rightarrow> loop_state" where
  "turn_push_message m s = bump_messages_revision (set_messages (ls_messages s @ [m]) s)"

definition turn_pop_message :: "loop_state \<Rightarrow> Message option \<times> loop_state" where
  "turn_pop_message s =
     (if ls_messages s = [] then (None, s)
      else (Some (last (ls_messages s)), bump_messages_revision (set_messages (butlast (ls_messages s)) s)))"

definition retain_messages :: "(Message \<Rightarrow> bool) \<Rightarrow> loop_state \<Rightarrow> loop_state" where
  "retain_messages keep s =
     (let ms = filter keep (ls_messages s) in
      if length ms \<noteq> length (ls_messages s) then bump_messages_revision (set_messages ms s) else set_messages ms s)"

definition push_assistant_merging_trailing_empty_placeholder :: "Message list \<Rightarrow> Message \<Rightarrow> Message list" where
  "push_assistant_merging_trailing_empty_placeholder messages msg =
     (if msg_role msg \<noteq> lit ''assistant'' then messages @ [msg]
      else if messages \<noteq> [] \<and> msg_role (last messages) = lit ''assistant'' \<and> msg_tool_calls (last messages) = None \<and>
              blank (unwrap_or (message_content_as_str (msg_content (last messages))) [])
      then butlast messages @ [msg]
      else messages @ [msg])"

definition push_assistant_merging_trailing_empty :: "Message \<Rightarrow> loop_state \<Rightarrow> loop_state" where
  "push_assistant_merging_trailing_empty m s =
     bump_messages_revision (set_messages (push_assistant_merging_trailing_empty_placeholder (ls_messages s) m) s)"

definition insert_separator_after_last_user :: "Message list \<Rightarrow> Message list" where
  "insert_separator_after_last_user messages =
     (case rposition (\<lambda>m. msg_role m = lit ''user'' \<and> \<not> is_server_injected_user_message m) messages of
        None \<Rightarrow> messages
      | Some i \<Rightarrow>
          (case drop (i + 1) messages of
             [] \<Rightarrow> messages @ [chat_ui_separator True]
           | m # rest \<Rightarrow>
               if is_chat_ui_separator m then messages
               else if msg_role m = lit ''assistant'' then take (i + 1) messages @ chat_ui_separator True # m # rest
               else messages @ [chat_ui_separator True]))"

definition insert_separator_after_last_user_for_turn :: "loop_state \<Rightarrow> loop_state" where
  "insert_separator_after_last_user_for_turn s =
     (let ms = insert_separator_after_last_user (ls_messages s) in
      if length ms \<noteq> length (ls_messages s) then bump_messages_revision (set_messages ms s) else set_messages ms s)"

section \<open>The model of a round\<close>

datatype OuterLoopPlanCallModelRole = PlannerRound | ExecutorRound

definition from_outer_loop_iteration :: "nat \<Rightarrow> OuterLoopPlanCallModelRole" where
  "from_outer_loop_iteration iteration_count = (if iteration_count \<le> 1 then PlannerRound else ExecutorRound)"

definition sets_use_executor_model :: "OuterLoopPlanCallModelRole \<Rightarrow> bool" where
  "sets_use_executor_model role \<longleftrightarrow> role = ExecutorRound"

definition apply_outer_loop_plan_call_model_role :: "OuterLoopPlanCallModelRole \<Rightarrow> loop_state \<Rightarrow> loop_state" where
  "apply_outer_loop_plan_call_model_role role s = s\<lparr>ls_use_executor_model := sets_use_executor_model role\<rparr>"

definition plan_call_executor_endpoint_cloned :: "turn_ctx \<Rightarrow> loop_state \<Rightarrow> ustring option \<times> ustring option" where
  "plan_call_executor_endpoint_cloned ctx s =
     (if ls_use_executor_model s then (tx_executor_api_base ctx, tx_executor_api_key ctx) else (None, None))"

definition effective_model :: "turn_ctx \<Rightarrow> loop_state \<Rightarrow> ustring option" where
  "effective_model ctx s =
     (if ls_use_executor_model s then or_else (tx_executor_model_override ctx) (tx_executor_model ctx)
      else or_else (tx_model_override ctx) (tx_planner_model ctx))"

section \<open>Questions about the conversation\<close>

definition META_RECALL_ANCHORS :: "ustring list" where
  "META_RECALL_ANCHORS = [[25105, 21018, 25165], [25105, 19978, 19968, 26465], [19978, 19968, 21477], [19978, 19968, 26465]]"

definition META_ASKS_CONTENT :: "ustring list" where
  "META_ASKS_CONTENT = [[20160, 20040], [38382, 20102], [35828, 30340], [25552, 38382], [38382, 39064], [21407, 25991]]"

definition triggers_meta_dialogue_recall :: "ustring \<Rightarrow> bool" where
  "triggers_meta_dialogue_recall s =
     (let t = trim s in if t = [] then False else contains_any t META_RECALL_ANCHORS \<and> contains_any t META_ASKS_CONTENT)"

text \<open>The user's texts from the newest to the oldest, blank ones left out.\<close>

definition user_plain :: "Message \<Rightarrow> ustring option" where
  "user_plain m =
     (if \<not> user_message_counts_for_branch_truncation m then None
      else filter_option (\<lambda>t. t \<noteq> []) (Some (trim (message_content_plain_for_chat_display (msg_content m)))))"

definition latest_and_prior_user_plain :: "Message list \<Rightarrow> (ustring \<times> ustring option) option" where
  "latest_and_prior_user_plain messages =
     (case List.map_filter user_plain (rev messages) of
        [] \<Rightarrow> None
      | [l] \<Rightarrow> Some (l, None)
      | l # prior # _ \<Rightarrow> Some (l, Some prior))"

definition meta_dialogue_block :: "ustring \<Rightarrow> ustring" where
  "meta_dialogue_block prior =
     ([12304, 20803, 23545, 35805, 12305] @ lit '' '' @ [29992, 25143, 27491, 22312, 36861, 38382, 23545, 35805, 19978, 19979, 25991, 12290, 35831, 22312, 31572, 22797] @ lit ''**'' @ [24320, 22836] @ lit ''**'' @ [29992, 21333, 29420, 19968, 23567, 27573, 22914, 23454, 36880, 23383, 22797, 36848, 29992, 25143] @ lit ''**'' @ [19978, 19968, 26465, 30495, 23454] @ lit '' user '' @ [28040, 24687] @ lit ''**'' @ [30340, 23436, 25972, 27491, 25991, 65288, 19981, 35201, 29992, 33258, 25311, 26631, 39064, 25110, 27010, 25324, 26367, 20195, 21407, 25991, 65307, 33509, 36807, 38271, 21487, 25130, 26029, 20294, 39035, 26631, 26126, 12300, 20197, 19979, 20026, 21407, 25991, 33410, 36873, 12301, 65289, 12290, 20043, 21518, 20877, 22238, 31572, 36861, 38382, 12290, 10, 19978, 19968, 26465, 29992, 25143, 21407, 25991, 65288, 20379, 20320, 22797, 36848, 65307, 21247, 21521, 29992, 25143, 37325, 22797, 23637, 31034, 26412, 35828, 26126, 22359, 65289, 65306, 10] @ lit ''---'' @ [10]) @ prior @ ([10] @ lit ''---'')"

definition merge_meta_dialogue_into_execution_constraint_hint :: "TurnPlannerHints \<Rightarrow> Message list \<Rightarrow> TurnPlannerHints" where
  "merge_meta_dialogue_into_execution_constraint_hint hints messages =
     (case latest_and_prior_user_plain messages of
        Some (current, Some prior) \<Rightarrow>
          if \<not> triggers_meta_dialogue_recall current then hints
          else (case execution_constraint_hint hints of
                  Some existing \<Rightarrow> hints\<lparr>execution_constraint_hint := Some (existing @ [10] @ meta_dialogue_block prior)\<rparr>
                | None \<Rightarrow> hints\<lparr>execution_constraint_hint := Some (meta_dialogue_block prior)\<rparr>)
      | _ \<Rightarrow> hints)"

section \<open>Constraints in the user's sentence\<close>

record TurnExecutionConstraints =
  no_write :: bool
  no_command_execution :: bool
  analysis_only :: bool
  ask_before_mutation :: bool

definition requires_review_readonly :: "TurnExecutionConstraints \<Rightarrow> bool" where
  "requires_review_readonly c \<longleftrightarrow> analysis_only c \<and> (no_write c \<or> no_command_execution c)"

definition execution_constraint_hint_zh :: "TurnExecutionConstraints \<Rightarrow> ustring" where
  "execution_constraint_hint_zh c =
     [12304, 25191, 34892, 32422, 26463, 12305, 26412, 36718, 65306] @
     join [65307]
       ((if no_write c then [([19981, 24471, 25913, 25991, 20214] @ lit ''/patch'')] else []) @
        (if no_command_execution c then [([19981, 24471, 36305, 26500, 24314] @ lit ''/'' @ [27979, 35797] @ lit ''/'' @ [25191, 34892, 31867, 21629, 20196])] else []) @
        (if analysis_only c then [[21482, 35835, 35786, 26029]] else []) @
        (if ask_before_mutation c then [[20877, 25913, 39035, 20808, 24449, 24471, 30830, 35748]] else [])) @ [12290, 21247, 36234, 36807, 12290]"

definition NO_WRITE_MARKERS :: "ustring list" where
  "NO_WRITE_MARKERS =
     [[21462, 28040, 20462, 22797], [19981, 29992, 20462, 22797], [19981, 35201, 20462, 22797], [21035, 20462, 22797], [19981, 35201, 20462, 25913], [21035, 20462, 25913], [20808, 21035, 25913], [20808, 19981, 35201, 25913], [19981, 25913, 20195, 30721],
      lit ''without modifying'', lit ''do not modify'', (lit ''don'' @ [39] @ lit ''t modify''), lit ''no patch'']"

definition NO_COMMAND_MARKERS :: "ustring list" where
  "NO_COMMAND_MARKERS =
     [[19981, 35201, 36816, 34892], [21035, 36816, 34892], [19981, 35201, 25191, 34892], [21035, 25191, 34892], [19981, 35201, 32534, 35793], [21035, 32534, 35793], [19981, 35201, 36305], [21035, 36305],
      lit ''do not run'', (lit ''don'' @ [39] @ lit ''t run''), lit ''without running'']"

definition ANALYSIS_MARKERS :: "ustring list" where
  "ANALYSIS_MARKERS =
     [[20998, 26512], [35786, 26029], [35828, 26126], [35299, 37322], [21482, 35299, 37322], [20165, 35299, 37322], [24590, 20040, 32534, 35793], [22914, 20309, 32534, 35793], [24590, 20040, 20570], [21482, 35835], [21482, 20998, 26512],
      lit ''analyze'', lit ''diagnose'', lit ''explain'', lit ''how to'', lit ''readonly'', lit ''read-only'']"

definition infer_turn_execution_constraints :: "lowercase \<Rightarrow> ustring \<Rightarrow> TurnExecutionConstraints option" where
  "infer_turn_execution_constraints lc task =
     (let t = lc (trim task) in
      if t = [] then None
      else
        let nw = contains_any t NO_WRITE_MARKERS;
            nc = contains_any t NO_COMMAND_MARKERS;
            ao = contains_any t ANALYSIS_MARKERS;
            c = \<lparr>no_write = nw, no_command_execution = nc \<or> (nw \<and> ao), analysis_only = ao,
                 ask_before_mutation = nw \<or> str_contains t [20808, 38382, 25105] \<or> str_contains t [20808, 30830, 35748]\<rparr> in
        if c \<noteq> \<lparr>no_write = False, no_command_execution = False, analysis_only = False, ask_before_mutation = False\<rparr> then Some c else None)"

definition apply_act_utterance_heuristics :: "lowercase \<Rightarrow> ustring \<Rightarrow> TurnPlannerHints \<Rightarrow> TurnPlannerHints" where
  "apply_act_utterance_heuristics lc task hints =
     (case filter_option requires_review_readonly (infer_turn_execution_constraints lc task) of
        Some c \<Rightarrow>
          hints\<lparr>step_executor_constraint := Some ReviewReadonly, execution_constraint_hint := Some (execution_constraint_hint_zh c),
                turn_start_snapshot := Some (ActHeuristics True)\<rparr>
      | None \<Rightarrow> hints\<lparr>turn_start_snapshot := Some (ActHeuristics False)\<rparr>)"

definition run_act_turn_start_heuristics :: "lowercase \<Rightarrow> SessionMode \<Rightarrow> Message list \<Rightarrow> TurnPlannerHints \<Rightarrow> TurnPlannerHints" where
  "run_act_turn_start_heuristics lc mode messages hints =
     (let task = unwrap_or (last_real_user_task_content messages False) [] in
      if blank task then hints\<lparr>turn_start_snapshot := Some EmptyTask\<rparr>
      else if requires_readonly_tools mode then hints\<lparr>turn_start_snapshot := Some SnapshotDisabled\<rparr>
      else apply_act_utterance_heuristics lc task hints)"

text \<open>The part of \<^verbatim>\<open>dispatch_react_turn\<close> in front of the loop.\<close>

definition turn_start_hints :: "turn_ctx \<Rightarrow> loop_state \<Rightarrow> TurnPlannerHints" where
  "turn_start_hints ctx s =
     (if tool_visibility (tx_permission ctx) = NoTools then ls_hints s
      else let h = run_act_turn_start_heuristics (tx_lowercase ctx) (tx_session_mode ctx) (ls_messages s) (ls_hints s) in
           if requires_readonly_tools (tx_session_mode ctx) then h\<lparr>step_executor_constraint := Some ReviewReadonly\<rparr> else h)"

definition record_and_emit_turn_route_decision :: "turn_ctx \<Rightarrow> TurnRouteDecisionV1 \<Rightarrow> loop_state \<Rightarrow> loop_state" where
  "record_and_emit_turn_route_decision ctx decision s =
     emit ctx (TimelineLog ([32534, 25490, 36335, 30001, 65306] @ rd_orchestration_mode decision) decision) s"

definition prepare_react_turn :: "turn_ctx \<Rightarrow> loop_state \<Rightarrow> loop_state" where
  "prepare_react_turn ctx s =
     (let s1 = s\<lparr>ls_hints := turn_start_hints ctx s\<rparr>;
          assessed = assess_turn_routing (tx_cfg ctx) (unwrap_or (turn_start_snapshot (ls_hints s1)) SnapshotDisabled) in
      record_and_emit_turn_route_decision ctx (assessed_decision assessed) s1)"

end
