(* ===== verification/Outer_Loop.thy ===== *)
theory Outer_Loop
  imports Turn_Start
begin

text \<open>
  The loop of a turn (\<^verbatim>\<open>agent/agent_turn/turn_loop/outer_loop.rs\<close>, \<^verbatim>\<open>outer_loop_reflect.rs\<close>, \<^verbatim>\<open>policy/outer_loop_fsm.rs\<close>, \<^verbatim>\<open>outer_loop_driver.rs\<close>,
  \<^verbatim>\<open>outer_loop_iteration_reduce.rs\<close>): prepare the context, ask the model, reflect on its answer, run its tools, until one of them ends
  the turn.  The model service, the clock and the client are parameters, one value for each round; a batch of tools acts on the
  conversation and the coordinator through the coordinator's operations.  The recipes and timeline marks that
  \<^verbatim>\<open>prepare_turn_messages_for_model\<close> keeps for the interface are left out: the loop does not read them.
\<close>

section \<open>Phases and exits\<close>

datatype OuterLoopIterationPhase = IterationEnter | PrepareContextDone | AfterPlannerModel | ReflectDecided | ToolsExecute

datatype OuterLoopIterationExit = ContinueNextIteration | StopOuterLoop

datatype ReflectBranchCtl = BreakOuter | ContinueOuter | ProceedToTools

datatype OuterLoopReflectReduceAction = ReduceStopOuterLoop | ReduceContinueNextIteration | ReduceProceedToTools

fun reduce_outer_loop_reflect_branch :: "ReflectBranchCtl \<Rightarrow> OuterLoopReflectReduceAction" where
  "reduce_outer_loop_reflect_branch BreakOuter = ReduceStopOuterLoop"
| "reduce_outer_loop_reflect_branch ContinueOuter = ReduceContinueNextIteration"
| "reduce_outer_loop_reflect_branch ProceedToTools = ReduceProceedToTools"

fun outer_loop_iteration_exit_from_reflect_reduce :: "OuterLoopReflectReduceAction \<Rightarrow> OuterLoopIterationExit option" where
  "outer_loop_iteration_exit_from_reflect_reduce ReduceStopOuterLoop = Some StopOuterLoop"
| "outer_loop_iteration_exit_from_reflect_reduce ReduceContinueNextIteration = Some ContinueNextIteration"
| "outer_loop_iteration_exit_from_reflect_reduce ReduceProceedToTools = None"

definition reduce_outer_loop_post_tools_exit :: "bool \<Rightarrow> OuterLoopIterationExit" where
  "reduce_outer_loop_post_tools_exit task_level_early_stop = (if task_level_early_stop then StopOuterLoop else ContinueNextIteration)"

definition reduce_outer_loop_post_tools_exit_with_truncation :: "bool \<Rightarrow> bool \<Rightarrow> OuterLoopIterationExit" where
  "reduce_outer_loop_post_tools_exit_with_truncation injected task_level_early_stop =
     (if injected then ContinueNextIteration else reduce_outer_loop_post_tools_exit task_level_early_stop)"

text \<open>\<open>od_asserts_hold\<close> is false once a \<^verbatim>\<open>debug_assert\<close> of \<^verbatim>\<open>record_phase\<close> would have failed.\<close>

record OuterLoopDriver =
  od_phase :: OuterLoopIterationPhase
  od_last_reflect :: "ReflectBranchCtl option"
  od_last_exit :: "OuterLoopIterationExit option"
  od_asserts_hold :: bool

definition new_driver :: OuterLoopDriver where
  "new_driver = \<lparr>od_phase = IterationEnter, od_last_reflect = None, od_last_exit = None, od_asserts_hold = True\<rparr>"

definition phase_transition_allowed :: "OuterLoopIterationPhase \<Rightarrow> OuterLoopIterationPhase \<Rightarrow> bool" where
  "phase_transition_allowed p q \<longleftrightarrow>
     p = q \<or>
     (p, q) \<in> {(IterationEnter, PrepareContextDone), (PrepareContextDone, AfterPlannerModel), (AfterPlannerModel, ReflectDecided),
              (ReflectDecided, ToolsExecute), (ReflectDecided, IterationEnter), (ToolsExecute, IterationEnter)}"

definition record_phase :: "OuterLoopIterationPhase \<Rightarrow> OuterLoopDriver \<Rightarrow> OuterLoopDriver" where
  "record_phase p d = d\<lparr>od_phase := p, od_asserts_hold := od_asserts_hold d \<and> phase_transition_allowed (od_phase d) p\<rparr>"

definition record_reflect_branch :: "ReflectBranchCtl \<Rightarrow> OuterLoopDriver \<Rightarrow> OuterLoopReflectReduceAction \<times> OuterLoopDriver" where
  "record_reflect_branch ctl d = (reduce_outer_loop_reflect_branch ctl, d\<lparr>od_last_reflect := Some ctl\<rparr>)"

definition record_iteration_exit :: "OuterLoopIterationExit \<Rightarrow> OuterLoopDriver \<Rightarrow> OuterLoopDriver" where
  "record_iteration_exit e d = d\<lparr>od_last_exit := Some e\<rparr>"

section \<open>The surroundings of a round\<close>

text \<open>What a batch of tools may do to the coordinator and the conversation.\<close>

datatype coord_op =
    OpPrepareWorkflow ustring
  | OpAppendToolResult ustring ustring "Value option"
  | OpMarkSignature ustring ustring ustring
  | OpMarkFamily ustring ustring ustring
  | OpClearSignature ustring ustring
  | OpClearFamilies ustring
  | OpClearRunCommands
  | OpRecordRunCommand ustring ustring

definition update_failures :: "(RepeatedToolFailureMemo \<Rightarrow> RepeatedToolFailureMemo) \<Rightarrow> PerCoordinator \<Rightarrow> PerCoordinator" where
  "update_failures f per = per\<lparr>repeated_tool_failures := f (repeated_tool_failures per)\<rparr>"

fun apply_coord_op :: "json_lib \<Rightarrow> coord_op \<Rightarrow> Message list \<times> PerCoordinator \<Rightarrow> Message list \<times> PerCoordinator" where
  "apply_coord_op jl (OpPrepareWorkflow args) (ms, per) = (ms, snd (prepare_workflow_execute jl args per))"
| "apply_coord_op jl (OpAppendToolResult tid result inject) (ms, per) = append_tool_result_and_reflection jl per ms tid result inject"
| "apply_coord_op jl (OpMarkSignature tool args marker) (ms, per) = (ms, update_failures (mark_tool_failure_signature tool args marker) per)"
| "apply_coord_op jl (OpMarkFamily tool family marker) (ms, per) = (ms, update_failures (mark_tool_failure_family tool family marker) per)"
| "apply_coord_op jl (OpClearSignature tool args) (ms, per) = (ms, update_failures (clear_tool_failure_signature tool args) per)"
| "apply_coord_op jl (OpClearFamilies tool) (ms, per) = (ms, update_failures (clear_tool_failure_families_for_tool tool) per)"
| "apply_coord_op jl OpClearRunCommands (ms, per) = (ms, clear_all_run_command_failure_state per)"
| "apply_coord_op jl (OpRecordRunCommand key out) (ms, per) = (ms, record_successful_run_command key out per)"

datatype ExecuteToolsBatchOutcome = Finished | AbortedSse

record model_request =
  rq_model :: "ustring option"
  rq_endpoint :: "ustring option \<times> ustring option"
  rq_tools :: "Tool list"
  rq_messages :: "Message list"

record round_env =
  re_now :: nat
  re_sse_closed :: bool
  re_cancelled :: bool
  re_window :: "LlmCallError window_env"
  re_changelist :: "(nat \<Rightarrow> ustring option) option"
  re_long_term_memory :: "Message list \<Rightarrow> Message list"
  re_planner :: "model_request \<Rightarrow> (llm_error, Message \<times> ustring) result"
  re_planner_now :: nat
  re_planner_estimate :: "Message \<Rightarrow> nat option"
  re_side :: "LlmCallError side_env"
  re_tools :: "ToolCall list \<Rightarrow> Message list \<times> PerCoordinator \<Rightarrow> coord_op list \<times> ExecuteToolsBatchOutcome"

section \<open>Guards and context\<close>

fun turn_budget_deny_to_turn_error :: "TurnBudgetDeny \<Rightarrow> TurnBudgetConfig \<Rightarrow> RunAgentTurnError" where
  "turn_budget_deny_to_turn_error WallClock cfg = TimeLimitExhausted Planner (deny_user_message WallClock cfg)"
| "turn_budget_deny_to_turn_error LlmCalls cfg = TurnOther Planner (deny_user_message LlmCalls cfg)"
| "turn_budget_deny_to_turn_error Tokens cfg = TurnOther Planner (deny_user_message Tokens cfg)"

definition check_shared_turn_budget :: "turn_ctx \<Rightarrow> round_env \<Rightarrow> loop_state \<Rightarrow> (RunAgentTurnError, unit) result" where
  "check_shared_turn_budget ctx env s =
     (let cfg = ac_turn_budget (tx_context ctx) in
      case deny_llm_call_if_exhausted cfg (re_now env) (ls_budget s) of
        Inl deny \<Rightarrow> Inl (turn_budget_deny_to_turn_error deny cfg)
      | Inr _ \<Rightarrow> Inr ())"

definition check_abort :: "round_env \<Rightarrow> AgentTurnSubPhase \<Rightarrow> (RunAgentTurnError, unit) result" where
  "check_abort env phase =
     (if re_sse_closed env then Inl (TurnAborted phase SseDisconnected)
      else if re_cancelled env then Inl (TurnAborted phase UserCancelled)
      else Inr ())"

definition outer_loop_iteration_guard :: "turn_ctx \<Rightarrow> round_env \<Rightarrow> loop_state \<Rightarrow> (RunAgentTurnError, unit) result" where
  "outer_loop_iteration_guard ctx env s =
     (if outer_loop_iterations_exceeded DEFAULT_MAX_OUTER_LOOP_ITERATIONS (ls_budget s)
      then Inl (TurnOther Planner (turn_outer_loop_iterations_limit_user_message DEFAULT_MAX_OUTER_LOOP_ITERATIONS))
      else bind_result (check_shared_turn_budget ctx env s) (\<lambda>_. check_abort env Planner))"

definition prepare_turn_messages_for_model :: "turn_ctx \<Rightarrow> round_env \<Rightarrow> Tool list \<Rightarrow> loop_state \<Rightarrow> (ustring, loop_state) result" where
  "prepare_turn_messages_for_model ctx env tools s =
     bind_result
       (prepare_messages_for_model (re_window env) (tx_context ctx)
          \<lparr>ph_tools = tools, ph_model_override = effective_model ctx s, ph_changelist = re_changelist env,
           ph_changelist_enabled = tx_changelist_enabled ctx, ph_changelist_max_chars = tx_changelist_max_chars ctx,
           ph_need_report = tx_pipeline_report ctx\<rparr>
          \<lparr>mv_messages = ls_messages s, mv_budget = Some (ls_budget s), mv_counters = ls_counters s\<rparr>
          (Some (ls_per s)) (ls_revision s))
       (\<lambda>(delta, v, per, revision).
          Inr (s\<lparr>ls_turn := \<lparr>ts_messages = mv_messages v, ts_budget = unwrap_or (mv_budget v) (ls_budget s), ts_per = unwrap_or per (ls_per s)\<rparr>,
                 ls_revision := revision, ls_counters := mv_counters v\<rparr>))"

definition drop_hints :: "loop_state \<Rightarrow> loop_state" where
  "drop_hints s = retain_messages (\<lambda>m. \<not> is_execution_constraint_ephemeral_system m) s"

definition round_tools :: "turn_ctx \<Rightarrow> loop_state \<Rightarrow> Tool list" where
  "round_tools ctx s =
     build_planner_round_tools (tx_cfg ctx) (tx_tools_defs ctx) (step_executor_constraint (ls_hints s)) (tx_turn_allowed_tool_names ctx) (tx_permission ctx)"

definition outer_loop_prepare_planner_context :: "turn_ctx \<Rightarrow> round_env \<Rightarrow> loop_state \<Rightarrow> (RunAgentTurnError, Tool list) result \<times> loop_state" where
  "outer_loop_prepare_planner_context ctx env s =
     (let hints = merge_meta_dialogue_into_execution_constraint_hint (ls_hints s) (ls_messages s);
          s1 = s\<lparr>ls_hints := hints\<lparr>execution_constraint_hint := None\<rparr>\<rparr>;
          s2 = (case execution_constraint_hint hints of
                  Some hint \<Rightarrow> turn_push_message (system_execution_constraint_hint hint) s1
                | None \<Rightarrow> s1);
          s3 = set_messages (re_long_term_memory env (ls_messages s2)) s2;
          tools = round_tools ctx s3 in
      case prepare_turn_messages_for_model ctx env tools s3 of
        Inl e \<Rightarrow> (Inl (TurnOther Planner e), drop_hints s3)
      | Inr s4 \<Rightarrow> (Inr tools, s4))"

section \<open>Asking the model\<close>

definition set_budget :: "TurnBudgetCounter \<Rightarrow> loop_state \<Rightarrow> loop_state" where
  "set_budget b s = s\<lparr>ls_turn := (ls_turn s)\<lparr>ts_budget := b\<rparr>\<rparr>"

definition update_flight :: "(PerTurnFlight \<Rightarrow> PerTurnFlight) \<Rightarrow> loop_state \<Rightarrow> loop_state" where
  "update_flight f s = s\<lparr>ls_flight := map_option f (ls_flight s)\<rparr>"

definition outer_loop_call_planner_and_push :: "turn_ctx \<Rightarrow> round_env \<Rightarrow> Tool list \<Rightarrow> ustring option \<times> ustring option \<Rightarrow> loop_state \<Rightarrow>
    (RunAgentTurnError, Message \<times> ustring) result \<times> loop_state" where
  "outer_loop_call_planner_and_push ctx env tools endpoint s =
     (let request = \<lparr>rq_model = effective_model ctx s, rq_endpoint = endpoint, rq_tools = tools, rq_messages = ls_messages s\<rparr>;
          (answer, budget) = complete_chat_retrying (ac_turn_budget (tx_context ctx)) (Some (ls_budget s)) (re_planner_now env)
            (re_planner env request) (re_planner_estimate env);
          s1 = drop_hints (set_budget (unwrap_or budget (ls_budget s)) s) in
      case answer of
        Inl e \<Rightarrow> (Inl (TurnLlm Planner e), s1)
      | Inr (msg, finish_reason) \<Rightarrow>
          (Inr (msg, finish_reason),
           push_assistant_merging_trailing_empty msg
             (update_flight (\<lambda>f. f\<lparr>awaiting_plan_rewrite_model := False,
                                   last_assistant_finish_truncated := llm_finish_reason_is_truncation finish_reason\<rparr>) s1)))"

definition outer_loop_emit_answer_segment_transition :: "turn_ctx \<Rightarrow> nat \<Rightarrow> loop_state \<Rightarrow> loop_state" where
  "outer_loop_emit_answer_segment_transition ctx iteration_count s =
     (if iteration_count \<le> 1 then s
      else emit ctx (TurnSegmentStart (lit ''seg-model-round-'' @ show_nat iteration_count) (lit ''answer''))
             (emit ctx (TurnSegmentEnd (lit ''seg-model-round-'' @ show_nat (iteration_count - 1))) s))"

section \<open>Reflecting\<close>

definition sync_per_flight_from_coord :: "loop_state \<Rightarrow> loop_state" where
  "sync_per_flight_from_coord s = update_flight (sync_from_per_coord (ls_per s)) s"

definition push_pre_gate_user_feedback :: "ustring \<Rightarrow> loop_state \<Rightarrow> loop_state" where
  "push_pre_gate_user_feedback feedback s = turn_push_message (user_only feedback) s"

definition finish_truncated :: "loop_state \<Rightarrow> bool" where
  "finish_truncated s = (case ls_flight s of Some f \<Rightarrow> last_assistant_finish_truncated f | None \<Rightarrow> False)"

definition memo_of :: "loop_state \<Rightarrow> OuterLoopReflectMemo" where
  "memo_of s = outer_loop_reflect (counters (ls_per s))"

definition change_memo :: "(OuterLoopReflectMemo \<Rightarrow> OuterLoopReflectMemo) \<Rightarrow> loop_state \<Rightarrow> loop_state" where
  "change_memo f s = set_per (update_memo f (ls_per s)) s"

text \<open>Feedback goes into the conversation, is counted and mirrored.\<close>

definition inject_feedback :: "ustring \<Rightarrow> (OuterLoopReflectMemo \<Rightarrow> OuterLoopReflectMemo) \<Rightarrow> loop_state \<Rightarrow> loop_state" where
  "inject_feedback feedback counted s = sync_per_flight_from_coord (change_memo counted (push_pre_gate_user_feedback feedback s))"

definition build_idle_branch :: "turn_ctx \<Rightarrow> ustring \<Rightarrow> Message \<Rightarrow> loop_state \<Rightarrow> ustring option \<times> loop_state" where
  "build_idle_branch ctx task msg s =
     (let lc = tx_lowercase ctx; messages = ls_messages s in
      if outer_loop_window_has_build_progress_since_last_user lc messages then (None, change_memo reset_build_idle_streak s)
      else if outer_loop_assistant_is_build_idle_without_tools lc msg
      then let s1 = change_memo record_build_idle_round s in
           (outer_loop_build_idle_feedback_if_needed lc task messages msg (build_idle_streak (memo_of s1)) (build_idle_feedback_injected (memo_of s1)), s1)
      else (None, s))"

definition reflect_branch_on_stop_turn :: "turn_ctx \<Rightarrow> Message \<Rightarrow> loop_state \<Rightarrow> ReflectBranchCtl \<times> loop_state" where
  "reflect_branch_on_stop_turn ctx msg s =
     (let messages = ls_messages s in
      case last_real_user_task_content messages False of
        None \<Rightarrow> (BreakOuter, sync_per_flight_from_coord s)
      | Some task \<Rightarrow>
          (case outer_loop_truncated_feedback_if_needed (finish_truncated s) (truncated_feedback_injected (memo_of s)) of
             Some feedback \<Rightarrow> (ContinueOuter, inject_feedback feedback record_truncated_feedback_injected s)
           | None \<Rightarrow>
               (let (idle, s1) = build_idle_branch ctx task msg s in
                case idle of
                  Some feedback \<Rightarrow> (ContinueOuter, inject_feedback feedback record_build_idle_feedback_injected s1)
                | None \<Rightarrow>
                    (case outer_loop_missing_final_answer_feedback_if_needed (pl_json (tx_plan_lib ctx)) (tx_lowercase ctx) messages msg
                            (missing_final_answer_feedback_injected (memo_of s1)) of
                       Some feedback \<Rightarrow> (ContinueOuter, inject_feedback feedback record_missing_final_answer_feedback_injected s1)
                     | None \<Rightarrow> (BreakOuter, sync_per_flight_from_coord s1)))))"

definition outer_loop_inject_truncated_feedback_after_tools :: "loop_state \<Rightarrow> bool \<times> loop_state" where
  "outer_loop_inject_truncated_feedback_after_tools s =
     (case outer_loop_truncated_feedback_if_needed (finish_truncated s) (truncated_feedback_injected (memo_of s)) of
        None \<Rightarrow> (False, s)
      | Some feedback \<Rightarrow> (True, inject_feedback feedback record_truncated_feedback_injected s))"

definition reflect_branch_on_plan_rewrite_exhausted :: "turn_ctx \<Rightarrow> ustring \<Rightarrow> loop_state \<Rightarrow> ReflectBranchCtl \<times> loop_state" where
  "reflect_branch_on_plan_rewrite_exhausted ctx reason s =
     (BreakOuter, emit ctx (ErrorEvent (sse_plan_rewrite_exhausted_body (tx_tracing ctx) reason)) (sync_per_flight_from_coord s))"

fun map_reflect_outcome_to_branch_ctl :: "turn_ctx \<Rightarrow> Message \<Rightarrow> ReflectOnAssistantOutcome \<Rightarrow> loop_state \<Rightarrow> ReflectBranchCtl \<times> loop_state" where
  "map_reflect_outcome_to_branch_ctl ctx msg ReflectStopTurn s = reflect_branch_on_stop_turn ctx msg s"
| "map_reflect_outcome_to_branch_ctl ctx msg ContinueOuterForPlanRewrite s =
     (ContinueOuter, update_flight (\<lambda>f. (sync_from_per_coord (ls_per s) f)\<lparr>awaiting_plan_rewrite_model := True\<rparr>) s)"
| "map_reflect_outcome_to_branch_ctl ctx msg ProceedToExecuteTools s =
     (ProceedToTools, sync_per_flight_from_coord (change_memo reset_build_idle_streak s))"
| "map_reflect_outcome_to_branch_ctl ctx msg (ReflectPlanRewriteExhausted reason) s =
     reflect_branch_on_plan_rewrite_exhausted ctx (exhausted_reason_as_str reason) s"
| "map_reflect_outcome_to_branch_ctl ctx msg ReflectUserCancelled s = (BreakOuter, s)"

text \<open>\<^verbatim>\<open>push_message\<close> of the turn counts a revision; the rewrite request of the gate is such a message.\<close>

definition with_turn :: "turn_state \<Rightarrow> loop_state \<Rightarrow> loop_state" where
  "with_turn t s =
     (if length (ts_messages t) \<noteq> length (ls_messages s) then bump_messages_revision (s\<lparr>ls_turn := t\<rparr>) else s\<lparr>ls_turn := t\<rparr>)"

definition outer_loop_reflect_branch :: "turn_ctx \<Rightarrow> round_env \<Rightarrow> ustring \<Rightarrow> Message \<Rightarrow> loop_state \<Rightarrow>
    (RunAgentTurnError, ReflectBranchCtl) result \<times> loop_state" where
  "outer_loop_reflect_branch ctx env finish_reason msg s =
     (let (outcome, t) = per_reflect_after_assistant (tx_plan_lib ctx) (tx_cfg ctx) (tx_workspace_is_set ctx) (ac_turn_budget (tx_context ctx))
            (re_side env) finish_reason msg (ls_turn s);
          s1 = with_turn t s in
      if outcome = ReflectUserCancelled then (Inl (TurnAborted Reflect UserCancelled), s1)
      else let (ctl, s2) = map_reflect_outcome_to_branch_ctl ctx msg outcome s1 in (Inr ctl, s2))"

section \<open>Running the tools\<close>

definition outer_loop_execute_tools_round :: "turn_ctx \<Rightarrow> round_env \<Rightarrow> Message \<Rightarrow> loop_state \<Rightarrow> (RunAgentTurnError, unit) result \<times> loop_state" where
  "outer_loop_execute_tools_round ctx env msg s =
     (case msg_tool_calls msg of
        None \<Rightarrow> (Inl (TurnOther Executor ([26080] @ lit '' tool_calls'')), s)
      | Some calls \<Rightarrow>
          (let (ops, outcome) = re_tools env calls (ls_messages s, ls_per s);
               (ms, per) = fold (apply_coord_op (pl_json (tx_plan_lib ctx))) ops (ls_messages s, ls_per s);
               s1 = set_per per (set_messages ms (s\<lparr>ls_sub_phase := Executor\<rparr>)) in
           case outcome of
             AbortedSse \<Rightarrow> (Inl (TurnAborted Executor SseDisconnected), s1)
           | Finished \<Rightarrow> (Inr (), sync_per_flight_from_coord s1)))"

definition completed_goal_with_redundant_tool_calls :: "turn_ctx \<Rightarrow> Message \<Rightarrow> loop_state \<Rightarrow> bool" where
  "completed_goal_with_redundant_tool_calls ctx msg s =
     (case filter_option (\<lambda>calls. calls \<noteq> []) (msg_tool_calls msg) of
        None \<Rightarrow> False
      | Some calls \<Rightarrow> turn_redundant_tools_after_completion_allowed (pl_json (tx_plan_lib ctx)) (tx_lowercase ctx) calls (ls_messages s))"

definition drop_redundant_tool_calls_after_active_goal_completed :: "Message \<Rightarrow> loop_state \<Rightarrow> loop_state" where
  "drop_redundant_tool_calls_after_active_goal_completed msg s =
     (let (popped, s1) = turn_pop_message s in
      case filter_option (\<lambda>m. msg_role m = lit ''assistant'' \<and> msg_tool_calls m = msg_tool_calls msg) popped of
        Some m \<Rightarrow>
          if (case message_content_as_str (msg_content m) of Some t \<Rightarrow> \<not> blank t | None \<Rightarrow> False)
          then push_assistant_merging_trailing_empty (m\<lparr>msg_tool_calls := None\<rparr>) s1 else s1
      | None \<Rightarrow> (case popped of Some m \<Rightarrow> push_assistant_merging_trailing_empty m s1 | None \<Rightarrow> s1))"

definition try_stop_on_completed_goal_redundant_tools :: "turn_ctx \<Rightarrow> Message \<Rightarrow> loop_state \<Rightarrow> OuterLoopIterationExit option \<times> loop_state" where
  "try_stop_on_completed_goal_redundant_tools ctx msg s =
     (if \<not> completed_goal_with_redundant_tool_calls ctx msg s then (None, s)
      else (Some StopOuterLoop, drop_redundant_tool_calls_after_active_goal_completed msg s))"

definition outer_loop_post_tools_exit :: "turn_ctx \<Rightarrow> round_env \<Rightarrow> Message \<Rightarrow> loop_state \<Rightarrow> OuterLoopDriver \<Rightarrow>
    (RunAgentTurnError, OuterLoopIterationExit) result \<times> loop_state \<times> OuterLoopDriver" where
  "outer_loop_post_tools_exit ctx env msg s d =
     (let d1 = record_phase ToolsExecute d;
          (r, s1) = outer_loop_execute_tools_round ctx env msg s in
      case r of
        Inl e \<Rightarrow> (Inl e, s1, d1)
      | Inr _ \<Rightarrow>
          (let s2 = (if outer_loop_window_has_build_progress_since_last_user (tx_lowercase ctx) (ls_messages s1)
                     then change_memo reset_build_idle_streak s1 else s1);
               (injected, s3) = outer_loop_inject_truncated_feedback_after_tools s2;
               early = turn_early_stop_allowed (pl_json (tx_plan_lib ctx)) (tx_lowercase ctx) (ls_messages s3) in
           (Inr (reduce_outer_loop_post_tools_exit_with_truncation injected early), s3, d1)))"

section \<open>The loop\<close>

definition outer_loop_reflect_exit_if_any :: "turn_ctx \<Rightarrow> round_env \<Rightarrow> ustring \<Rightarrow> Message \<Rightarrow> loop_state \<Rightarrow> OuterLoopDriver \<Rightarrow>
    (RunAgentTurnError, OuterLoopIterationExit option) result \<times> loop_state \<times> OuterLoopDriver" where
  "outer_loop_reflect_exit_if_any ctx env finish_reason msg s d =
     (let (r, s1) = outer_loop_reflect_branch ctx env finish_reason msg s in
      case r of
        Inl e \<Rightarrow> (Inl e, s1, d)
      | Inr ctl \<Rightarrow>
          (let (reduced, d1) = record_reflect_branch ctl d in
           (Inr (outer_loop_iteration_exit_from_reflect_reduce reduced), s1, record_phase ReflectDecided d1)))"

text \<open>What follows the model's answer in a round.\<close>

definition settle_round :: "turn_ctx \<Rightarrow> round_env \<Rightarrow> ustring \<Rightarrow> Message \<Rightarrow> loop_state \<Rightarrow> OuterLoopDriver \<Rightarrow>
    (RunAgentTurnError, OuterLoopIterationExit) result \<times> loop_state \<times> OuterLoopDriver" where
  "settle_round ctx env finish_reason msg s d =
     (if finish_reason = USER_CANCELLED_FINISH_REASON then (Inr StopOuterLoop, s, record_iteration_exit StopOuterLoop d)
      else let (r, s1, d1) = outer_loop_reflect_exit_if_any ctx env finish_reason msg s d in
           case r of
             Inl e \<Rightarrow> (Inl e, s1, d1)
           | Inr (Some exit) \<Rightarrow> (Inr exit, s1, record_iteration_exit exit d1)
           | Inr None \<Rightarrow>
               (case try_stop_on_completed_goal_redundant_tools ctx msg s1 of
                  (Some exit, s2) \<Rightarrow> (Inr exit, s2, record_iteration_exit exit d1)
                | (None, s2) \<Rightarrow>
                    (let (q, s3, d2) = outer_loop_post_tools_exit ctx env msg s2 d1 in
                     case q of Inl e \<Rightarrow> (Inl e, s3, d2) | Inr exit \<Rightarrow> (Inr exit, s3, record_iteration_exit exit d2))))"

definition run_outer_loop_single_iteration :: "turn_ctx \<Rightarrow> round_env \<Rightarrow> loop_state \<Rightarrow> OuterLoopDriver \<Rightarrow>
    (RunAgentTurnError, OuterLoopIterationExit) result \<times> loop_state \<times> OuterLoopDriver" where
  "run_outer_loop_single_iteration ctx env s d =
     (case outer_loop_iteration_guard ctx env s of
        Inl e \<Rightarrow> (Inl e, s, d)
      | Inr _ \<Rightarrow>
          (let iteration_count = outer_loop_iterations (ls_budget s);
               s1 = (apply_outer_loop_plan_call_model_role (from_outer_loop_iteration iteration_count) s)\<lparr>ls_sub_phase := Planner\<rparr>;
               endpoint = plan_call_executor_endpoint_cloned ctx s1;
               d1 = record_phase IterationEnter d;
               (prepared, s2) = outer_loop_prepare_planner_context ctx env s1 in
           case prepared of
             Inl e \<Rightarrow> (Inl e, s2, d1)
           | Inr tools \<Rightarrow>
               (let d2 = record_phase PrepareContextDone d1;
                    (answer, s3) = outer_loop_call_planner_and_push ctx env tools endpoint
                      (outer_loop_emit_answer_segment_transition ctx iteration_count s2) in
                case answer of
                  Inl e \<Rightarrow> (Inl e, s3, d2)
                | Inr (msg, finish_reason) \<Rightarrow> settle_round ctx env finish_reason msg s3 (record_phase AfterPlannerModel d2))))"

definition enter_round :: "loop_state \<Rightarrow> loop_state" where
  "enter_round s = set_budget (record_outer_loop_iteration (ls_budget s)) s"

function run_agent_outer_loop :: "turn_ctx \<Rightarrow> (nat \<Rightarrow> round_env) \<Rightarrow> loop_state \<Rightarrow> OuterLoopDriver \<Rightarrow>
    (RunAgentTurnError, unit) result \<times> loop_state \<times> OuterLoopDriver" where
  "run_agent_outer_loop ctx envs s d =
     (let s1 = enter_round s;
          (r, s2, d2) = run_outer_loop_single_iteration ctx (envs (outer_loop_iterations (ls_budget s1))) s1 d in
      case r of
        Inl e \<Rightarrow> (Inl e, s2, d2)
      | Inr StopOuterLoop \<Rightarrow> (Inr (), s2, d2)
      | Inr ContinueNextIteration \<Rightarrow> run_agent_outer_loop ctx envs s2 d2)"
  by pat_completeness auto

section \<open>What a round keeps\<close>

text \<open>Most steps touch neither the budget nor the memory of the coordinator.\<close>

named_theorems frame

lemma frame_basic [frame]:
  "ls_budget (set_messages ms s) = ls_budget s" "ls_per (set_messages ms s) = ls_per s" "ls_hints (set_messages ms s) = ls_hints s"
  "ls_budget (set_per per s) = ls_budget s" "ls_per (set_per per s) = per" "ls_hints (set_per per s) = ls_hints s"
  "ls_budget (set_budget b s) = b" "ls_per (set_budget b s) = ls_per s" "ls_hints (set_budget b s) = ls_hints s"
  "ls_turn (bump_messages_revision s) = ls_turn s" "ls_hints (bump_messages_revision s) = ls_hints s"
  "ls_turn (emit ctx e s) = ls_turn s" "ls_hints (emit ctx e s) = ls_hints s"
  "ls_turn (update_flight f s) = ls_turn s" "ls_hints (update_flight f s) = ls_hints s"
  by (simp_all add: set_messages_def set_per_def set_budget_def bump_messages_revision_def emit_def update_flight_def)

lemma frame_messages [frame]:
  "ls_budget (turn_push_message m s) = ls_budget s" "ls_per (turn_push_message m s) = ls_per s" "ls_hints (turn_push_message m s) = ls_hints s"
  "ls_budget (snd (turn_pop_message s)) = ls_budget s" "ls_per (snd (turn_pop_message s)) = ls_per s" "ls_hints (snd (turn_pop_message s)) = ls_hints s"
  "ls_budget (retain_messages P s) = ls_budget s" "ls_per (retain_messages P s) = ls_per s" "ls_hints (retain_messages P s) = ls_hints s"
  "ls_budget (push_assistant_merging_trailing_empty m s) = ls_budget s" "ls_per (push_assistant_merging_trailing_empty m s) = ls_per s"
  "ls_hints (push_assistant_merging_trailing_empty m s) = ls_hints s"
  by (simp_all add: turn_push_message_def turn_pop_message_def retain_messages_def push_assistant_merging_trailing_empty_def Let_def frame)

lemma frame_rounds [frame]:
  "ls_budget (drop_hints s) = ls_budget s" "ls_per (drop_hints s) = ls_per s" "ls_hints (drop_hints s) = ls_hints s"
  "ls_turn (sync_per_flight_from_coord s) = ls_turn s" "ls_hints (sync_per_flight_from_coord s) = ls_hints s"
  "ls_budget (change_memo f s) = ls_budget s" "ls_hints (change_memo f s) = ls_hints s"
  "ls_budget (inject_feedback fb f s) = ls_budget s" "ls_hints (inject_feedback fb f s) = ls_hints s"
  "ls_turn (outer_loop_emit_answer_segment_transition ctx n s) = ls_turn s"
  "ls_hints (outer_loop_emit_answer_segment_transition ctx n s) = ls_hints s"
  by (simp_all add: drop_hints_def sync_per_flight_from_coord_def change_memo_def inject_feedback_def push_pre_gate_user_feedback_def
      outer_loop_emit_answer_segment_transition_def frame)

lemma frame_drop_redundant [frame]:
  "ls_budget (drop_redundant_tool_calls_after_active_goal_completed m s) = ls_budget s"
  "ls_per (drop_redundant_tool_calls_after_active_goal_completed m s) = ls_per s"
  "ls_hints (drop_redundant_tool_calls_after_active_goal_completed m s) = ls_hints s"
  using frame_messages [where s = s] frame_messages [where s = "snd (turn_pop_message s)"]
  by (simp_all add: drop_redundant_tool_calls_after_active_goal_completed_def case_prod_beta Let_def split: option.split)

subsection \<open>Iterations\<close>

abbreviation iterations :: "loop_state \<Rightarrow> nat" where
  "iterations s \<equiv> outer_loop_iterations (ls_budget s)"

lemma prepare_turn_effects:
  "\<exists>s'. prepare_turn_messages_for_model ctx env tools s = Inr s' \<and> iterations s' = iterations s \<and>
     ls_per s' = invalidate_workflow_validate_layer_cache_after_context_mutation (ls_per s) \<and> ls_hints s' = ls_hints s"
proof -
  let ?v = "\<lparr>mv_messages = ls_messages s, mv_budget = Some (ls_budget s), mv_counters = ls_counters s\<rparr>"
  let ?hooks = "\<lparr>ph_tools = tools, ph_model_override = effective_model ctx s, ph_changelist = re_changelist env,
    ph_changelist_enabled = tx_changelist_enabled ctx, ph_changelist_max_chars = tx_changelist_max_chars ctx, ph_need_report = tx_pipeline_report ctx\<rparr>"
  obtain d v per n where pr: "prepare_messages_for_model (re_window env) (tx_context ctx) ?hooks ?v (Some (ls_per s)) (ls_revision s) = Inr (d, v, per, n)"
    using prepare_never_fails by blast
  from prepare_effects [OF pr] show ?thesis by (auto simp: prepare_turn_messages_for_model_def pr)
qed

lemma prepare_keeps:
  assumes "outer_loop_prepare_planner_context ctx env s = (r, s')"
  shows "iterations s' = iterations s" and "counters (ls_per s') = counters (ls_per s)"
    and "plan_rewrite_max_attempts (ls_per s') = plan_rewrite_max_attempts (ls_per s)"
    and "step_executor_constraint (ls_hints s') = step_executor_constraint (ls_hints s)"
    and "r = Inr (round_tools ctx s)"
proof -
  define hints where "hints = merge_meta_dialogue_into_execution_constraint_hint (ls_hints s) (ls_messages s)"
  define s1 where "s1 = s\<lparr>ls_hints := hints\<lparr>execution_constraint_hint := None\<rparr>\<rparr>"
  define s2 where "s2 = (case execution_constraint_hint hints of Some hint \<Rightarrow> turn_push_message (system_execution_constraint_hint hint) s1 | None \<Rightarrow> s1)"
  define s3 where "s3 = set_messages (re_long_term_memory env (ls_messages s2)) s2"
  have h: "step_executor_constraint hints = step_executor_constraint (ls_hints s)"
    by (simp add: hints_def merge_meta_dialogue_into_execution_constraint_hint_def split: option.split prod.split)
  have k: "ls_budget s3 = ls_budget s" "ls_per s3 = ls_per s" "step_executor_constraint (ls_hints s3) = step_executor_constraint (ls_hints s)"
    by (simp_all add: s3_def s2_def s1_def h frame split: option.split)
  let ?tools = "round_tools ctx s3"
  obtain s4 where s4: "prepare_turn_messages_for_model ctx env ?tools s3 = Inr s4"
    and b: "iterations s4 = iterations s3" and p: "ls_per s4 = invalidate_workflow_validate_layer_cache_after_context_mutation (ls_per s3)"
    and hh: "ls_hints s4 = ls_hints s3" using prepare_turn_effects by blast
  have "outer_loop_prepare_planner_context ctx env s = (Inr ?tools, s4)"
    unfolding outer_loop_prepare_planner_context_def Let_def hints_def [symmetric] s1_def [symmetric] s2_def [symmetric] s3_def [symmetric]
    using s4 by simp
  then have r: "r = Inr ?tools" "s' = s4" using assms by simp_all
  show "iterations s' = iterations s" "counters (ls_per s') = counters (ls_per s)"
    "plan_rewrite_max_attempts (ls_per s') = plan_rewrite_max_attempts (ls_per s)"
    "step_executor_constraint (ls_hints s') = step_executor_constraint (ls_hints s)"
    using b p hh k by (simp_all add: r invalidate_workflow_validate_layer_cache_after_context_mutation_def)
  show "r = Inr (round_tools ctx s)" using k by (simp add: r round_tools_def)
qed

lemma planner_keeps:
  assumes "outer_loop_call_planner_and_push ctx env tools endpoint s = (r, s')"
  shows "iterations s' = iterations s" and "ls_per s' = ls_per s" and "ls_hints s' = ls_hints s"
proof -
  let ?request = "\<lparr>rq_model = effective_model ctx s, rq_endpoint = endpoint, rq_tools = tools, rq_messages = ls_messages s\<rparr>"
  obtain answer budget where a: "complete_chat_retrying (ac_turn_budget (tx_context ctx)) (Some (ls_budget s)) (re_planner_now env)
      (re_planner env ?request) (re_planner_estimate env) = (answer, budget)" by (rule prod.exhaust)
  obtain c where "budget = Some c" "outer_loop_iterations c = iterations s" using chat_keeps_iterations [OF a] by blast
  then show "iterations s' = iterations s" "ls_per s' = ls_per s" "ls_hints s' = ls_hints s"
    using assms a by (auto simp: outer_loop_call_planner_and_push_def frame Let_def split: sum.splits prod.splits)
qed

lemma side_check_keeps_iterations:
  assumes "evaluate_plan_consistency_with_recent_tools_llm jl cfg (Some b) now service est plan digest = (out, b')"
  shows "\<exists>c. b' = Some c \<and> outer_loop_iterations c = outer_loop_iterations b"
  using assms chat_keeps_iterations [of cfg b now "service (preview_chars (the (trim_nonempty digest)) 6000) (preview_chars (trim plan) 8000)" est]
  by (auto simp: evaluate_plan_consistency_with_recent_tools_llm_def split: option.splits if_splits prod.splits sum.splits)

definition same_coordinator_memo :: "PerCoordinator \<Rightarrow> PerCoordinator \<Rightarrow> bool" where
  "same_coordinator_memo p q \<longleftrightarrow>
     outer_loop_reflect (counters q) = outer_loop_reflect (counters p) \<and> plan_rewrite_max_attempts q = plan_rewrite_max_attempts p"

lemma after_final_keeps_memo:
  "after_final_assistant pl per msg messages cfg ws_set = (after, per') \<Longrightarrow> same_coordinator_memo per per'"
  by (auto simp: after_final_assistant_def same_coordinator_memo_def apply_plan_rewrite_count_from_gate_def Let_def split: prod.splits option.splits)

lemma semantic_reflect_keeps:
  assumes "reflect_pending_semantic_consistency_llm pl bcfg env plan digest t = (out, t')"
  shows "outer_loop_iterations (ts_budget t') = outer_loop_iterations (ts_budget t) \<and> same_coordinator_memo (ts_per t) (ts_per t')"
proof -
  obtain o' b where e: "evaluate_plan_consistency_with_recent_tools_llm (pl_json pl) bcfg (Some (ts_budget t)) (se_now env) (se_service env)
      (se_estimate env) (agent_reply_plan_json_compact pl plan) digest = (o', b)" by (rule prod.exhaust)
  obtain c where c: "b = Some c" "outer_loop_iterations c = outer_loop_iterations (ts_budget t)" using side_check_keeps_iterations [OF e] by blast
  have fin: "ts_per t2 = ts_per t1 \<and> ts_budget t2 = ts_budget t1" if "reflect_finish_from_after_final_assistant a t1 = (x, t2)" for a t1 t2 x
    using reflect_finish_keeps [of a t1] that by simp
  show ?thesis using assms c
    by (auto simp: reflect_pending_semantic_consistency_llm_def e Let_def same_coordinator_memo_def apply_plan_rewrite_count_from_gate_def
        dest!: fin split: if_splits option.splits)
qed

lemma reflect_keeps:
  assumes "per_reflect_after_assistant pl cfg ws_set bcfg env finish msg t = (out, t')"
  shows "outer_loop_iterations (ts_budget t') = outer_loop_iterations (ts_budget t) \<and> same_coordinator_memo (ts_per t) (ts_per t')"
proof (cases "finish = lit ''tool_calls'' \<or> has_tool_calls msg")
  case True
  then show ?thesis using assms by (auto simp: per_reflect_after_assistant_def same_coordinator_memo_def)
next
  case False
  obtain after per where a: "after_final_assistant pl (ts_per t) msg (ts_messages t) cfg ws_set = (after, per)" by (rule prod.exhaust)
  note m = after_final_keeps_memo [OF a]
  show ?thesis
  proof (cases after)
    case (StopTurnPendingPlanConsistencyLlm plan digest)
    then have "reflect_pending_semantic_consistency_llm pl bcfg env plan digest (t\<lparr>ts_per := per\<rparr>) = (out, t')"
      using assms False a by (simp add: per_reflect_after_assistant_def)
    from semantic_reflect_keeps [OF this] m show ?thesis by (simp add: same_coordinator_memo_def)
  qed (use assms False a m in \<open>auto simp: per_reflect_after_assistant_def push_message_def\<close>)
qed

lemma idle_branch_frame:
  assumes "build_idle_branch ctx task msg s = (fb, s')"
  shows "ls_budget s' = ls_budget s" and "ls_hints s' = ls_hints s" and "ls_messages s' = ls_messages s"
  using assms by (auto simp: build_idle_branch_def frame Let_def change_memo_def set_per_def split: if_splits)

lemma branch_ctl_frame:
  assumes "map_reflect_outcome_to_branch_ctl ctx msg outcome s = (ctl, s')"
  shows "ls_budget s' = ls_budget s \<and> ls_hints s' = ls_hints s"
proof (cases outcome)
  case ReflectStopTurn
  then show ?thesis using assms
    by (auto simp: reflect_branch_on_stop_turn_def frame Let_def dest: idle_branch_frame split: option.splits prod.splits)
qed (use assms in \<open>auto simp: reflect_branch_on_plan_rewrite_exhausted_def frame\<close>)

lemma with_turn_frame: "ls_turn (with_turn t s) = t" "ls_hints (with_turn t s) = ls_hints s"
  by (simp_all add: with_turn_def frame)

lemma reflect_branch_keeps:
  assumes "outer_loop_reflect_branch ctx env finish msg s = (r, s')"
  shows "iterations s' = iterations s \<and> ls_hints s' = ls_hints s"
proof -
  obtain out t where o: "per_reflect_after_assistant (tx_plan_lib ctx) (tx_cfg ctx) (tx_workspace_is_set ctx) (ac_turn_budget (tx_context ctx))
      (re_side env) finish msg (ls_turn s) = (out, t)" by (rule prod.exhaust)
  show ?thesis using assms reflect_keeps [OF o]
    by (auto simp: outer_loop_reflect_branch_def o Let_def with_turn_frame dest!: branch_ctl_frame split: if_splits prod.splits)
qed

lemma tools_keep:
  assumes "outer_loop_execute_tools_round ctx env msg s = (r, s')"
  shows "ls_budget s' = ls_budget s \<and> ls_hints s' = ls_hints s"
  using assms by (auto simp: outer_loop_execute_tools_round_def Let_def frame split: option.splits prod.splits ExecuteToolsBatchOutcome.splits)

lemma post_tools_keep:
  assumes "outer_loop_post_tools_exit ctx env msg s d = (r, s', d')"
  shows "ls_budget s' = ls_budget s \<and> ls_hints s' = ls_hints s"
proof -
  obtain q s1 where t: "outer_loop_execute_tools_round ctx env msg s = (q, s1)" by (rule prod.exhaust)
  show ?thesis using assms tools_keep [OF t]
    by (auto simp: outer_loop_post_tools_exit_def t Let_def outer_loop_inject_truncated_feedback_after_tools_def frame split: sum.splits if_splits option.splits)
qed

lemma settle_keeps:
  assumes "settle_round ctx env finish msg s d = (r, s', d')"
  shows "iterations s' = iterations s \<and> ls_hints s' = ls_hints s"
proof -
  obtain q s1 where b: "outer_loop_reflect_branch ctx env finish msg s = (q, s1)" by (rule prod.exhaust)
  show ?thesis using assms reflect_branch_keeps [OF b]
    by (auto simp: settle_round_def outer_loop_reflect_exit_if_any_def b Let_def try_stop_on_completed_goal_redundant_tools_def frame record_reflect_branch_def
        dest: post_tools_keep split: if_splits sum.splits option.splits prod.splits)
qed

text \<open>A round fails at the guard, fails at the model, or settles what the model answered.\<close>

lemma iteration_cases:
  assumes "run_outer_loop_single_iteration ctx env s d = (r, s', d')"
  obtains (refused) e where "r = Inl e" "s' = s" "d' = d"
  | (failed) e where "r = Inl e" "d' = record_phase PrepareContextDone (record_phase IterationEnter d)"
      "iterations s' = iterations s" "step_executor_constraint (ls_hints s') = step_executor_constraint (ls_hints s)"
      "counters (ls_per s') = counters (ls_per s)" "plan_rewrite_max_attempts (ls_per s') = plan_rewrite_max_attempts (ls_per s)"
  | (settled) s3 msg finish where
      "settle_round ctx env finish msg s3 (record_phase AfterPlannerModel (record_phase PrepareContextDone (record_phase IterationEnter d))) = (r, s', d')"
      "iterations s3 = iterations s" "step_executor_constraint (ls_hints s3) = step_executor_constraint (ls_hints s)"
      "counters (ls_per s3) = counters (ls_per s)" "plan_rewrite_max_attempts (ls_per s3) = plan_rewrite_max_attempts (ls_per s)"
proof (cases "outer_loop_iteration_guard ctx env s")
  case (Inl e)
  then show ?thesis using assms by (intro that(1) [of e]) (auto simp: run_outer_loop_single_iteration_def)
next
  case (Inr u)
  let ?s1 = "(apply_outer_loop_plan_call_model_role (from_outer_loop_iteration (iterations s)) s)\<lparr>ls_sub_phase := Planner\<rparr>"
  obtain p s2 where p: "outer_loop_prepare_planner_context ctx env ?s1 = (p, s2)" by (rule prod.exhaust)
  let ?s2 = "outer_loop_emit_answer_segment_transition ctx (iterations s) s2"
  obtain a s3 where a: "outer_loop_call_planner_and_push ctx env (round_tools ctx ?s1) (plan_call_executor_endpoint_cloned ctx ?s1) ?s2 = (a, s3)"
    by (rule prod.exhaust)
  have s1: "ls_turn ?s1 = ls_turn s" "ls_hints ?s1 = ls_hints s" by (simp_all add: apply_outer_loop_plan_call_model_role_def)
  note k = prepare_keeps [OF p, unfolded s1] planner_keeps [OF a, unfolded frame]
  show ?thesis
  proof (cases a)
    case (Inl e)
    then show ?thesis using assms \<open>outer_loop_iteration_guard ctx env s = Inr u\<close> a k p
      by (intro that(2)) (auto simp: run_outer_loop_single_iteration_def Let_def)
  next
    case (Inr x)
    obtain msg finish where "x = (msg, finish)" by (rule prod.exhaust)
    then show ?thesis using assms \<open>outer_loop_iteration_guard ctx env s = Inr u\<close> a k p Inr
      by (intro that(3) [of finish msg s3]) (auto simp: run_outer_loop_single_iteration_def Let_def)
  qed
qed

lemma iteration_keeps:
  assumes "run_outer_loop_single_iteration ctx env s d = (r, s', d')"
  shows "iterations s' = iterations s" and "step_executor_constraint (ls_hints s') = step_executor_constraint (ls_hints s)"
  using assms by (cases rule: iteration_cases; simp add: settle_keeps)+

lemma iteration_within_limit:
  assumes "run_outer_loop_single_iteration ctx env s d = (Inr x, s', d')"
  shows "iterations s < 500"
  using assms by (auto simp: run_outer_loop_single_iteration_def outer_loop_iteration_guard_def outer_loop_iterations_exceeded_def
      DEFAULT_MAX_OUTER_LOOP_ITERATIONS_def split: if_splits sum.splits)

lemma iterations_enter: "iterations (enter_round s) = (iterations s + 1) mod 2 ^ 32"
  by (simp add: enter_round_def record_outer_loop_iteration_def frame)

definition rounds_left :: "loop_state \<Rightarrow> nat" where
  "rounds_left s = (if iterations s < 500 then 500 - iterations s else 501)"

lemma round_uses_up:
  assumes "run_outer_loop_single_iteration ctx env (enter_round s) d = (Inr x, s', d')"
  shows "rounds_left s' < rounds_left s"
  using iteration_within_limit [OF assms] iteration_keeps(1) [OF assms] by (auto simp: iterations_enter rounds_left_def)

termination run_agent_outer_loop
  by (relation "measure (\<lambda>(ctx, envs, s, d). rounds_left s)") (auto dest!: round_uses_up [OF sym])

declare run_agent_outer_loop.simps [simp del]

definition run_agent_turn_common :: "turn_ctx \<Rightarrow> (nat \<Rightarrow> round_env) \<Rightarrow> loop_state \<Rightarrow> (RunAgentTurnError, unit) result \<times> loop_state \<times> OuterLoopDriver" where
  "run_agent_turn_common ctx envs s =
     run_agent_outer_loop ctx envs
       (prepare_react_turn ctx (set_per (new_coordinator (tx_coordinator ctx)) (insert_separator_after_last_user_for_turn s))) new_driver"

lemma round_over_limit:
  assumes "500 \<le> iterations s"
  shows "run_outer_loop_single_iteration ctx env s d = (Inl (TurnOther Planner (turn_outer_loop_iterations_limit_user_message 500)), s, d)"
  using assms by (simp add: run_outer_loop_single_iteration_def outer_loop_iteration_guard_def outer_loop_iterations_exceeded_def DEFAULT_MAX_OUTER_LOOP_ITERATIONS_def)

text \<open>A loop as the chain of its rounds: each round but the last goes on.\<close>

lemma outer_loop_cases:
  assumes "run_agent_outer_loop ctx envs s d = (r, s', d')"
  obtains (over) e where "run_outer_loop_single_iteration ctx (envs (iterations (enter_round s))) (enter_round s) d = (Inl e, s', d')" "r = Inl e"
  | (stop) "run_outer_loop_single_iteration ctx (envs (iterations (enter_round s))) (enter_round s) d = (Inr StopOuterLoop, s', d')" "r = Inr ()"
  | (again) s2 d2 where "run_outer_loop_single_iteration ctx (envs (iterations (enter_round s))) (enter_round s) d = (Inr ContinueNextIteration, s2, d2)"
      "run_agent_outer_loop ctx envs s2 d2 = (r, s', d')"
  using assms that
  by (subst (asm) run_agent_outer_loop.simps) (auto simp: Let_def split: sum.splits OuterLoopIterationExit.splits prod.splits)

lemma outer_loop_induct [consumes 1, case_names over stop again]:
  assumes "run_agent_outer_loop ctx envs s d = (r, s', d')"
    and "\<And>s d s' d' e. run_outer_loop_single_iteration ctx (envs (iterations (enter_round s))) (enter_round s) d = (Inl e, s', d') \<Longrightarrow> P s d (Inl e) s' d'"
    and "\<And>s d s' d'. run_outer_loop_single_iteration ctx (envs (iterations (enter_round s))) (enter_round s) d = (Inr StopOuterLoop, s', d') \<Longrightarrow> P s d (Inr ()) s' d'"
    and "\<And>s d s2 d2 r s' d'. run_outer_loop_single_iteration ctx (envs (iterations (enter_round s))) (enter_round s) d = (Inr ContinueNextIteration, s2, d2) \<Longrightarrow>
          P s2 d2 r s' d' \<Longrightarrow> P s d r s' d'"
  shows "P s d r s' d'"
  using assms(1)
proof (induction "rounds_left s" arbitrary: s d rule: less_induct)
  case less
  from less.prems show ?case
  proof (cases rule: outer_loop_cases)
    case (again s2 d2)
    from less.hyps [OF round_uses_up [OF again(1)] again(2)] show ?thesis by (rule assms(4) [OF again(1)])
  qed (simp_all add: assms(2,3))
qed

section \<open>Properties\<close>

lemma loop_iterations:
  assumes "run_agent_outer_loop ctx envs s d = (r, s', d')"
  shows "iterations s < 500 \<longrightarrow> iterations s < iterations s' \<and> iterations s' \<le> 500 \<and> (r = Inr () \<longrightarrow> iterations s' < 500) \<and>
    (iterations s' = 500 \<longrightarrow> r = Inl (TurnOther Planner (turn_outer_loop_iterations_limit_user_message 500)))"
  using assms
proof (induction rule: outer_loop_induct)
  case (over s d s' d' e)
  then show ?case using iteration_keeps(1) [OF over] round_over_limit [of "enter_round s" ctx] by (auto simp: iterations_enter)
next
  case (stop s d s' d')
  then show ?case using iteration_keeps(1) [OF stop] iteration_within_limit [OF stop] by (auto simp: iterations_enter)
next
  case (again s d s2 d2 r s' d')
  then show ?case using iteration_keeps(1) [OF again(1)] iteration_within_limit [OF again(1)] by (auto simp: iterations_enter)
qed

text \<open>
  C9: A turn ends.  From a fresh budget the loop returns after at least one and at most 500 counted rounds, whatever the model, the tools and
  the client do; a turn that ends well has counted fewer than 500, and the round counted as the 500th is refused with the message for the limit.
\<close>

theorem turn_ends:
  "case run_agent_outer_loop ctx envs (set_budget (new_shared now) s) d of
     (r, s', d') \<Rightarrow> 0 < iterations s' \<and> iterations s' \<le> 500 \<and> \<not> (r = Inr () \<and> iterations s' \<ge> 500) \<and>
       \<not> (iterations s' = 500 \<and> r \<noteq> Inl (TurnOther Planner (turn_outer_loop_iterations_limit_user_message DEFAULT_MAX_OUTER_LOOP_ITERATIONS)))"
  using loop_iterations [of ctx envs "set_budget (new_shared now) s" d]
  by (auto simp: frame new_shared_def DEFAULT_MAX_OUTER_LOOP_ITERATIONS_def)

subsection \<open>Phases\<close>

lemma settle_phases:
  assumes "settle_round ctx env finish msg s d = (r, s', d')" and "od_asserts_hold d" and "od_phase d = AfterPlannerModel"
  shows "od_asserts_hold d' \<and> (r = Inr ContinueNextIteration \<longrightarrow> od_phase d' \<in> {ReflectDecided, ToolsExecute})"
proof -
  obtain q s1 where b: "outer_loop_reflect_branch ctx env finish msg s = (q, s1)" by (rule prod.exhaust)
  show ?thesis using assms
    by (auto simp: settle_round_def outer_loop_reflect_exit_if_any_def b Let_def try_stop_on_completed_goal_redundant_tools_def record_reflect_branch_def
        record_phase_def record_iteration_exit_def phase_transition_allowed_def outer_loop_post_tools_exit_def split: if_splits sum.splits option.splits prod.splits)
qed

lemma iteration_phases:
  assumes "run_outer_loop_single_iteration ctx env s d = (r, s', d')" and "od_asserts_hold d" and "od_phase d \<in> {IterationEnter, ReflectDecided, ToolsExecute}"
  shows "od_asserts_hold d' \<and> (r = Inr ContinueNextIteration \<longrightarrow> od_phase d' \<in> {ReflectDecided, ToolsExecute})"
proof -
  define d1 where "d1 = record_phase IterationEnter d"
  define d2 where "d2 = record_phase PrepareContextDone d1"
  define d3 where "d3 = record_phase AfterPlannerModel d2"
  have ok: "od_asserts_hold d1" "od_asserts_hold d2" "od_asserts_hold d3" "od_phase d3 = AfterPlannerModel"
    using assms(2,3) by (auto simp: d1_def d2_def d3_def record_phase_def phase_transition_allowed_def)
  from assms(1) show ?thesis
  proof (cases rule: iteration_cases)
    case (settled s3 msg finish)
    from settle_phases [OF settled(1) [folded d1_def d2_def d3_def] ok(3,4)] show ?thesis by simp
  qed (use assms(2) ok in \<open>simp_all add: d1_def d2_def\<close>)
qed

lemma loop_phases:
  assumes "run_agent_outer_loop ctx envs s d = (r, s', d')"
  shows "od_asserts_hold d \<and> od_phase d \<in> {IterationEnter, ReflectDecided, ToolsExecute} \<longrightarrow> od_asserts_hold d'"
  using assms by (induction rule: outer_loop_induct) (auto dest: iteration_phases)

text \<open>
  C12: The phases of the loop follow the table.  In no turn does \<^verbatim>\<open>record_phase\<close> meet a transition its table forbids, so its \<^verbatim>\<open>debug_assert\<close> never fails.
\<close>

theorem phases_always_legal: "od_asserts_hold (snd (snd (run_agent_turn_common ctx envs s)))"
  using loop_phases [where d = new_driver] unfolding run_agent_turn_common_def by (metis new_driver_def OuterLoopDriver.select_convs(1,4) insertI1 prod.collapse)

subsection \<open>Patience\<close>

text \<open>How often the loop may still go on without running a tool: rewrites of the plan and injected feedback.\<close>

definition patience :: "PerCoordinator \<Rightarrow> nat" where
  "patience per =
     (let m = outer_loop_reflect (counters per) in
      rewrites_left per + (OUTER_LOOP_TRUNCATED_FEEDBACK_MAX - truncated_feedback_injected m) +
      (OUTER_LOOP_MISSING_FINAL_ANSWER_FEEDBACK_MAX - missing_final_answer_feedback_injected m) +
      (OUTER_LOOP_BUILD_IDLE_FEEDBACK_MAX - build_idle_feedback_injected m))"

lemma patience_counters:
  "counters q = counters p \<Longrightarrow> plan_rewrite_max_attempts q = plan_rewrite_max_attempts p \<Longrightarrow> patience q = patience p"
  by (simp add: patience_def rewrites_left_def)

lemma patience_memo:
  "same_coordinator_memo p q \<Longrightarrow> n + rewrites_left q \<le> rewrites_left p \<Longrightarrow> n + patience q \<le> patience p"
  by (simp add: patience_def same_coordinator_memo_def Let_def)

lemma per_change_memo [frame]: "ls_per (change_memo f s) = update_memo f (ls_per s)"
  by (simp add: change_memo_def frame)

lemma per_inject [frame]: "ls_per (inject_feedback fb f s) = update_memo f (ls_per s)"
  by (simp add: inject_feedback_def push_pre_gate_user_feedback_def frame)

lemma memo_update [simp]:
  "outer_loop_reflect (counters (update_memo f per)) = f (outer_loop_reflect (counters per))"
  "rewrites_left (update_memo f per) = rewrites_left per"
  by (simp_all add: update_memo_def rewrites_left_def)

lemma patience_streak [simp]:
  "patience (update_memo reset_build_idle_streak per) = patience per" "patience (update_memo record_build_idle_round per) = patience per"
  by (simp_all add: patience_def reset_build_idle_streak_def record_build_idle_round_def Let_def)

lemmas feedback_limits = OUTER_LOOP_TRUNCATED_FEEDBACK_MAX_def OUTER_LOOP_MISSING_FINAL_ANSWER_FEEDBACK_MAX_def OUTER_LOOP_BUILD_IDLE_FEEDBACK_MAX_def

lemma feedback_costs:
  "outer_loop_truncated_feedback_if_needed t (truncated_feedback_injected (outer_loop_reflect (counters per))) = Some fb \<Longrightarrow>
     Suc (patience (update_memo record_truncated_feedback_injected per)) \<le> patience per"
  "outer_loop_missing_final_answer_feedback_if_needed jl lc ms msg (missing_final_answer_feedback_injected (outer_loop_reflect (counters per))) = Some fb \<Longrightarrow>
     Suc (patience (update_memo record_missing_final_answer_feedback_injected per)) \<le> patience per"
  "outer_loop_build_idle_feedback_if_needed lc task ms msg streak (build_idle_feedback_injected (outer_loop_reflect (counters per))) = Some fb \<Longrightarrow>
     Suc (patience (update_memo record_build_idle_feedback_injected per)) \<le> patience per"
  by (auto simp: patience_def saturating_inc_def feedback_limits record_truncated_feedback_injected_def record_missing_final_answer_feedback_injected_def
      record_build_idle_feedback_injected_def outer_loop_truncated_feedback_if_needed_def outer_loop_missing_final_answer_feedback_if_needed_def
      missing_final_answer_decision_def is_allow_def outer_loop_build_idle_feedback_if_needed_def Let_def split: if_splits)

lemma idle_branch_patience:
  assumes "build_idle_branch ctx task msg s = (fb, s')"
  shows "patience (ls_per s') = patience (ls_per s)"
    and "fb = Some feedback \<Longrightarrow> Suc (patience (update_memo record_build_idle_feedback_injected (ls_per s'))) \<le> patience (ls_per s')"
  using assms by (auto simp: build_idle_branch_def frame Let_def memo_of_def intro: feedback_costs(3) split: if_splits)

lemma stop_turn_patience:
  assumes "reflect_branch_on_stop_turn ctx msg s = (ctl, s')"
  shows "(if ctl = ContinueOuter then 1 else 0) + patience (ls_per s') \<le> patience (ls_per s)"
proof (cases "last_real_user_task_content (ls_messages s) False")
  case None
  then show ?thesis using assms by (auto simp: reflect_branch_on_stop_turn_def frame)
next
  case (Some task)
  obtain idle s1 where i: "build_idle_branch ctx task msg s = (idle, s1)" by (rule prod.exhaust)
  show ?thesis
  proof (cases "outer_loop_truncated_feedback_if_needed (finish_truncated s) (truncated_feedback_injected (memo_of s))")
    case (Some fb)
    then show ?thesis using assms \<open>last_real_user_task_content (ls_messages s) False = Some task\<close> feedback_costs(1)
      by (auto simp: reflect_branch_on_stop_turn_def frame memo_of_def)
  next
    case None
    then show ?thesis using assms Some i idle_branch_patience [OF i] feedback_costs(2) [of "pl_json (tx_plan_lib ctx)" "tx_lowercase ctx" "ls_messages s" msg "ls_per s1"]
      by (auto simp: reflect_branch_on_stop_turn_def frame memo_of_def split: option.splits)
  qed
qed

lemma branch_ctl_patience:
  assumes "map_reflect_outcome_to_branch_ctl ctx msg outcome s = (ctl, s')"
  shows "(if ctl = ContinueOuter then 1 else 0) + patience (ls_per s') \<le> asks_again outcome + patience (ls_per s)"
  using assms by (cases outcome) (auto simp: reflect_branch_on_plan_rewrite_exhausted_def frame dest: stop_turn_patience)

lemma reflect_branch_patience:
  assumes "outer_loop_reflect_branch ctx env finish msg s = (Inr ctl, s')"
  shows "(if ctl = ContinueOuter then 1 else 0) + patience (ls_per s') \<le> patience (ls_per s)"
proof -
  obtain out t where o: "per_reflect_after_assistant (tx_plan_lib ctx) (tx_cfg ctx) (tx_workspace_is_set ctx) (ac_turn_budget (tx_context ctx))
      (re_side env) finish msg (ls_turn s) = (out, t)" by (rule prod.exhaust)
  have p: "asks_again out + patience (ts_per t) \<le> patience (ls_per s)"
    using reflect_keeps [OF o] reflect_pays [of "tx_plan_lib ctx" "tx_cfg ctx" "tx_workspace_is_set ctx" "ac_turn_budget (tx_context ctx)" "re_side env" finish msg "ls_turn s"]
    by (intro patience_memo) (simp_all add: o)
  obtain s2 where "map_reflect_outcome_to_branch_ctl ctx msg out (with_turn t s) = (ctl, s2)" "s' = s2"
    using assms by (auto simp: outer_loop_reflect_branch_def o Let_def split: if_splits prod.splits)
  with branch_ctl_patience [of ctx msg out "with_turn t s" ctl s2] p show ?thesis by (simp add: with_turn_frame)
qed

lemma workflow_op_counters:
  "counters (snd (prepare_workflow_execute jl args per)) = counters per"
  "plan_rewrite_max_attempts (snd (prepare_workflow_execute jl args per)) = plan_rewrite_max_attempts per"
  by (simp_all add: prepare_workflow_execute_def Let_def case_prod_beta)

lemma append_op_counters:
  "counters (snd (append_tool_result_and_reflection jl per ms tid result inject)) = counters per"
  "plan_rewrite_max_attempts (snd (append_tool_result_and_reflection jl per ms tid result inject)) = plan_rewrite_max_attempts per"
  by (simp_all add: append_tool_result_and_reflection_def Let_def case_prod_beta split: option.split)

lemma coord_op_counters:
  "counters (snd (apply_coord_op jl op x)) = counters (snd x) \<and> plan_rewrite_max_attempts (snd (apply_coord_op jl op x)) = plan_rewrite_max_attempts (snd x)"
  by (cases x; cases op)
    (simp_all add: workflow_op_counters append_op_counters update_failures_def clear_all_run_command_failure_state_def record_successful_run_command_def)

lemma coord_op_patience: "patience (snd (apply_coord_op jl op x)) = patience (snd x)"
  by (rule patience_counters; simp only: coord_op_counters)

lemma coord_ops_patience: "patience (snd (fold (apply_coord_op jl) ops x)) = patience (snd x)"
  by (induction ops arbitrary: x) (simp_all add: coord_op_patience)

lemma tools_patience:
  assumes "outer_loop_execute_tools_round ctx env msg s = (r, s')"
  shows "patience (ls_per s') = patience (ls_per s)"
proof (cases "msg_tool_calls msg")
  case None
  then show ?thesis using assms by (auto simp: outer_loop_execute_tools_round_def)
next
  case (Some calls)
  obtain ops out where t: "re_tools env calls (ls_messages s, ls_per s) = (ops, out)" by (rule prod.exhaust)
  obtain ms per where f: "fold (apply_coord_op (pl_json (tx_plan_lib ctx))) ops (ls_messages s, ls_per s) = (ms, per)" by (rule prod.exhaust)
  have "ls_per s' = per" using assms Some t f
    by (auto simp: outer_loop_execute_tools_round_def Let_def frame split: ExecuteToolsBatchOutcome.splits)
  then show ?thesis using coord_ops_patience [of "pl_json (tx_plan_lib ctx)" ops "(ls_messages s, ls_per s)"] f by simp
qed

lemma post_tools_patience:
  assumes "outer_loop_post_tools_exit ctx env msg s d = (r, s', d')"
  shows "patience (ls_per s') \<le> patience (ls_per s) \<and> od_last_reflect d' = od_last_reflect d"
proof -
  obtain q s1 where t: "outer_loop_execute_tools_round ctx env msg s = (q, s1)" by (rule prod.exhaust)
  have inj: "patience (ls_per s3) \<le> patience (ls_per s2)" if "outer_loop_inject_truncated_feedback_after_tools s2 = (b, s3)" for s2 b s3
    using that feedback_costs(1) [of "finish_truncated s2" "ls_per s2"]
    by (auto simp: outer_loop_inject_truncated_feedback_after_tools_def frame memo_of_def split: option.splits)
  show ?thesis using assms tools_patience [OF t]
    by (auto simp: outer_loop_post_tools_exit_def t Let_def record_phase_def frame dest!: inj split: sum.splits if_splits prod.splits)
qed

abbreviation without_tools :: "OuterLoopDriver \<Rightarrow> nat" where
  "without_tools d \<equiv> (if od_last_reflect d = Some ContinueOuter then 1 else 0)"

lemma settle_patience:
  assumes "settle_round ctx env finish msg s d = (Inr ContinueNextIteration, s', d')"
  shows "without_tools d' + patience (ls_per s') \<le> patience (ls_per s)"
proof -
  obtain q s1 where b: "outer_loop_reflect_branch ctx env finish msg s = (q, s1)" by (rule prod.exhaust)
  have f: "finish \<noteq> USER_CANCELLED_FINISH_REASON" using assms by (auto simp: settle_round_def)
  show ?thesis
  proof (cases q)
    case (Inr ctl)
    note p = reflect_branch_patience [OF b [unfolded Inr]]
    let ?d = "record_phase ReflectDecided (d\<lparr>od_last_reflect := Some ctl\<rparr>)"
    show ?thesis
    proof (cases "ctl = ProceedToTools")
      case True
      then have "outer_loop_post_tools_exit ctx env msg s1 ?d = (Inr ContinueNextIteration, s', d'\<lparr>od_last_exit := od_last_exit ?d\<rparr>)"
        using assms b Inr f
        by (auto simp: settle_round_def outer_loop_reflect_exit_if_any_def record_reflect_branch_def try_stop_on_completed_goal_redundant_tools_def
            record_iteration_exit_def outer_loop_post_tools_exit_def record_phase_def Let_def split: if_splits sum.splits prod.splits)
      from post_tools_patience [OF this] p True show ?thesis by (simp add: record_phase_def)
    next
      case False
      then show ?thesis using assms b Inr f p
        by (cases ctl) (auto simp: settle_round_def outer_loop_reflect_exit_if_any_def record_reflect_branch_def record_iteration_exit_def record_phase_def)
    qed
  qed (use assms b f in \<open>simp add: settle_round_def outer_loop_reflect_exit_if_any_def\<close>)
qed

lemma iteration_patience:
  assumes "run_outer_loop_single_iteration ctx env s d = (Inr ContinueNextIteration, s', d')"
  shows "without_tools d' + patience (ls_per s') \<le> patience (ls_per s)"
  using assms
proof (cases rule: iteration_cases)
  case (settled s3 msg finish)
  have "patience (ls_per s3) = patience (ls_per s)" using settled(4,5) by (rule patience_counters)
  with settle_patience [OF settled(1)] show ?thesis by simp
qed simp_all

text \<open>The rounds, among the first \<open>k\<close>, after which the loop goes on without having run a tool.\<close>

fun idle_rounds :: "turn_ctx \<Rightarrow> (nat \<Rightarrow> round_env) \<Rightarrow> nat \<Rightarrow> loop_state \<Rightarrow> OuterLoopDriver \<Rightarrow> nat" where
  "idle_rounds ctx envs 0 s d = 0"
| "idle_rounds ctx envs (Suc k) s d =
     (case run_outer_loop_single_iteration ctx (envs (iterations (enter_round s))) (enter_round s) d of
        (Inr ContinueNextIteration, s', d') \<Rightarrow> without_tools d' + idle_rounds ctx envs k s' d'
      | _ \<Rightarrow> 0)"

lemma idle_rounds_patience: "idle_rounds ctx envs k s d \<le> patience (ls_per s)"
proof (induction k arbitrary: s d)
  case (Suc k)
  obtain r s' d' where r: "run_outer_loop_single_iteration ctx (envs (iterations (enter_round s))) (enter_round s) d = (r, s', d')"
    by (metis prod.exhaust)
  have "ls_per (enter_round s) = ls_per s" by (simp add: enter_round_def frame)
  then show ?case using Suc.IH [of s' d'] r
    by (auto split: sum.split OuterLoopIterationExit.split dest!: iteration_patience intro: le_trans)
qed simp

lemma patience_new: "patience (new_coordinator i) = max (in_plan_rewrite_max_attempts i) 1 + 8"
  by (simp add: patience_def rewrites_left_def new_coordinator_def new_counters_def feedback_limits)


subsection \<open>Tools offered in reading modes\<close>

definition reads_only :: "AgentConfig \<Rightarrow> Tool list \<Rightarrow> bool" where
  "reads_only cfg tools = list_all (\<lambda>t. tool_origin (tool_def_name t) = ToolOrigin.Mcp \<or> is_readonly_tool cfg (tool_def_name t)) tools"

text \<open>A model service that serves nothing but requests whose tools only read.\<close>

definition only_readers :: "AgentConfig \<Rightarrow> round_env \<Rightarrow> round_env" where
  "only_readers cfg env = env\<lparr>re_planner := (\<lambda>rq. if reads_only cfg (rq_tools rq) then re_planner env rq else Inl LlmCancelled)\<rparr>"

lemma readonly_round:
  assumes "step_executor_constraint (ls_hints s) = Some ReviewReadonly \<or> tool_visibility (tx_permission ctx) = NoTools"
  shows "reads_only (tx_cfg ctx) (round_tools ctx s)"
proof -
  have r: "tool_origin name = ToolOrigin.Mcp \<or> is_readonly_tool (tx_cfg ctx) name"
    if "tool_allowed_for_step_executor_kind (tx_cfg ctx) name ReviewReadonly" for name
    using that by (auto simp: tool_allowed_for_step_executor_kind_def split: if_splits)
  have n: "\<not> engine_allows_tool (caps_engine (tx_permission ctx)) name" if "tool_visibility (tx_permission ctx) = NoTools" for name
    using that by (simp add: caps_engine_def allows_tool_def denied_axis_def tool_allowed_by_caps_def)
  show ?thesis using assms n
    by (auto simp: reads_only_def round_tools_def build_planner_round_tools_def filter_tool_defs_for_executor_kind_def list_all_iff Let_def dest: r split: option.splits)
qed

lemma guard_ignores_planner: "outer_loop_iteration_guard ctx (env\<lparr>re_planner := p\<rparr>) s = outer_loop_iteration_guard ctx env s"
  by (simp add: outer_loop_iteration_guard_def check_shared_turn_budget_def check_abort_def)

lemma prepare_ignores_planner: "outer_loop_prepare_planner_context ctx (env\<lparr>re_planner := p\<rparr>) s = outer_loop_prepare_planner_context ctx env s"
  by (simp add: outer_loop_prepare_planner_context_def prepare_turn_messages_for_model_def)

lemma settle_ignores_planner: "settle_round ctx (env\<lparr>re_planner := p\<rparr>) finish msg s d = settle_round ctx env finish msg s d"
proof -
  have r: "outer_loop_reflect_exit_if_any ctx (env\<lparr>re_planner := p\<rparr>) = outer_loop_reflect_exit_if_any ctx env"
    by (intro ext) (simp add: outer_loop_reflect_exit_if_any_def outer_loop_reflect_branch_def)
  have e: "re_tools (env\<lparr>re_planner := p\<rparr>) = re_tools env" by simp
  have t: "outer_loop_post_tools_exit ctx (env\<lparr>re_planner := p\<rparr>) = outer_loop_post_tools_exit ctx env"
    by (intro ext) (unfold outer_loop_post_tools_exit_def outer_loop_execute_tools_round_def e, rule refl)
  show ?thesis unfolding settle_round_def r t ..
qed

lemma iteration_only_readers:
  assumes "step_executor_constraint (ls_hints s) = Some ReviewReadonly \<or> tool_visibility (tx_permission ctx) = NoTools"
  shows "run_outer_loop_single_iteration ctx (only_readers (tx_cfg ctx) env) s d = run_outer_loop_single_iteration ctx env s d"
proof -
  let ?s1 = "(apply_outer_loop_plan_call_model_role (from_outer_loop_iteration (iterations s)) s)\<lparr>ls_sub_phase := Planner\<rparr>"
  obtain p s2 where p: "outer_loop_prepare_planner_context ctx env ?s1 = (p, s2)" by (rule prod.exhaust)
  have t: "p = Inr (round_tools ctx ?s1)" by (rule prepare_keeps(5) [OF p])
  have r: "reads_only (tx_cfg ctx) (round_tools ctx ?s1)" using assms by (intro readonly_round) (simp add: apply_outer_loop_plan_call_model_role_def)
  let ?env = "only_readers (tx_cfg ctx) env"
  have c: "outer_loop_call_planner_and_push ctx ?env (round_tools ctx ?s1) = outer_loop_call_planner_and_push ctx env (round_tools ctx ?s1)"
    using r by (intro ext) (simp add: outer_loop_call_planner_and_push_def only_readers_def)
  have same: "outer_loop_iteration_guard ctx ?env s = outer_loop_iteration_guard ctx env s"
    "outer_loop_prepare_planner_context ctx ?env ?s1 = (Inr (round_tools ctx ?s1), s2)" "settle_round ctx ?env = settle_round ctx env"
    using p t by (simp_all add: only_readers_def guard_ignores_planner prepare_ignores_planner settle_ignores_planner fun_eq_iff)
  show ?thesis
    unfolding run_outer_loop_single_iteration_def Let_def same p t by (cases "outer_loop_iteration_guard ctx env s") (simp_all add: c)
qed

lemma loop_only_readers:
  assumes "run_agent_outer_loop ctx envs s d = (r, s', d')"
  shows "step_executor_constraint (ls_hints s) = Some ReviewReadonly \<or> tool_visibility (tx_permission ctx) = NoTools \<longrightarrow>
    run_agent_outer_loop ctx (\<lambda>n. only_readers (tx_cfg ctx) (envs n)) s d = (r, s', d')"
  using assms
proof (induction rule: outer_loop_induct)
  case (again s d s2 d2 r s' d')
  have e: "ls_hints (enter_round s) = ls_hints s" by (simp add: enter_round_def frame)
  show ?case using again(2) iteration_only_readers [of "enter_round s" ctx _ d] iteration_keeps(2) [OF again(1)]
    by (subst run_agent_outer_loop.simps) (auto simp: e again(1))
qed (subst run_agent_outer_loop.simps; use iteration_only_readers in \<open>auto simp: enter_round_def frame\<close>)+

text \<open>
  C11: A session that asks or plans never offers the model a tool that writes.  In both modes a turn goes the same way with a model service that
  refuses every request offering a built-in tool that is not read-only: no such request is ever made, at any permission level, in any round.
\<close>

theorem reading_modes_offer_readers:
  "list_all (\<lambda>mode. run_agent_turn_common (ctx\<lparr>tx_session_mode := mode\<rparr>) (\<lambda>n. only_readers (tx_cfg ctx) (envs n)) s =
       run_agent_turn_common (ctx\<lparr>tx_session_mode := mode\<rparr>) envs s) [SessionMode.Ask, SessionMode.Plan]"
proof -
  have "run_agent_turn_common c (\<lambda>n. only_readers (tx_cfg c) (envs n)) s = run_agent_turn_common c envs s"
    if "requires_readonly_tools (tx_session_mode c)" for c
  proof -
    let ?s = "prepare_react_turn c (set_per (new_coordinator (tx_coordinator c)) (insert_separator_after_last_user_for_turn s))"
    have "step_executor_constraint (ls_hints ?s) = Some ReviewReadonly \<or> tool_visibility (tx_permission c) = NoTools"
      using that by (auto simp: prepare_react_turn_def record_and_emit_turn_route_decision_def turn_start_hints_def Let_def frame)
    then show ?thesis using loop_only_readers [of c envs ?s new_driver] unfolding run_agent_turn_common_def by (metis prod.collapse)
  qed
  from this [of "ctx\<lparr>tx_session_mode := _\<rparr>"] show ?thesis by (simp add: requires_readonly_tools_def)
qed

end
