(* ===== verification/Spec2Isabelle.thy ===== *)
theory Spec2Isabelle
  imports Workflow_Run Turn_Layout Outer_Loop
begin

text \<open>
  CrabMate: verification of the agent's core logic.

  CrabMate is an agent server written in Rust: a language model is called in a loop, its tool calls
  are checked against a permission level and a role, executed, and fed back.  A model may also submit
  a workflow, a graph of tool calls that the server validates, schedules in parallel and compensates.
  The development models the parts that decide what may run and in which order.  Everything is a
  shallow embedding: structs are records, enums are datatypes, fallible functions return the sum type
  \<open>result\<close> of theory \<open>Prelude\<close> (\<open>Inl\<close> is the error), loops are recursive functions, and the concurrent scheduler is an
  inductive step relation.  Strings are lists of code points, so that \<^verbatim>\<open>chars()\<close> and byte lengths are
  both definable.

  \<^item> \<open>Prelude\<close>: strings as Rust has them (trim, split, ASCII case, UTF-8 length), results, association
    and map lemmas.  \<open>Json\<close>: the value type of \<^verbatim>\<open>serde_json\<close> with the accessors the sources use; the
    reader and the printer of JSON text belong to that library and are parameters.
  \<^item> \<open>Permission_Level\<close> (\<^verbatim>\<open>cm_types/permission.rs\<close>): the five levels, their order, parsing and printing,
    level-scoped keys of the persistent allow list, audit records.
  \<^item> \<open>Permission_Config\<close> (\<^verbatim>\<open>cm_config\<close>): the fields of the configuration that the permission system reads,
    freezing the ceiling when the server binds an address, and the hot reload.
  \<^item> \<open>Permission\<close> (\<^verbatim>\<open>cm_agent/permission.rs\<close>): the level of a turn from request, session, role and mode; its
    projection to capabilities; the policy engine.
  \<^item> \<open>Tool_Gate\<close> (\<^verbatim>\<open>cm_internal/tool_registry\<close>, \<^verbatim>\<open>cm_agent/step_executor_policy.rs\<close>): the tools offered to the model, the
    early denial of a call, sub-agent roles, parallel batches and wall clocks.
  \<^item> \<open>Workflow_Model\<close>, \<open>Workflow_Dag\<close> (\<^verbatim>\<open>cm_workflow/model.rs\<close>, \<^verbatim>\<open>dag.rs\<close>): the graph, Kahn's algorithm, layers.
    The iteration order of Rust's hash maps is an arbitrary ranking, a parameter of the definitions.
  \<^item> \<open>Workflow_Expr\<close> (\<^verbatim>\<open>resolve_json_path.rs\<close>, \<^verbatim>\<open>run_if.rs\<close>, \<^verbatim>\<open>placeholders.rs\<close>, \<^verbatim>\<open>for_each_expand.rs\<close>): paths into JSON output,
    branch conditions, placeholder injection and dynamic expansion.
  \<^item> \<open>Workflow_Node\<close> (\<^verbatim>\<open>execute/node.rs\<close>): approvals, allow lists, timeouts, retries and the trace of one node.
    The tool, the human's answer and the shared allow list are in the environment and the world
    records; elapsed times are left out of the trace events.
  \<^item> \<open>Workflow_Schedule\<close> (\<^verbatim>\<open>execute/schedule.rs\<close>): the scheduler over every order of completion.

  \<^item> \<open>Workflow_Report\<close> (\<^verbatim>\<open>execute/mod.rs\<close>, \<^verbatim>\<open>compensation.rs\<close>, \<^verbatim>\<open>report.rs\<close>): the executor around the scheduler, the
    compensation phase, node reports, counters, previews and the returned report.
  \<^item> \<open>Workflow_Parse\<close> (\<^verbatim>\<open>parse.rs\<close>, \<^verbatim>\<open>run_if.rs\<close>, \<^verbatim>\<open>workflow_templates.rs\<close>, \<^verbatim>\<open>tool_name_check.rs\<close>) and \<open>Workflow_Compile\<close>
    (\<^verbatim>\<open>author_validate.rs\<close>, \<^verbatim>\<open>compile_spec.rs\<close>): from JSON to the specification, by nodes, by a template or by author steps.
  \<^item> \<open>Workflow_Run\<close> (\<^verbatim>\<open>run.rs\<close>, \<^verbatim>\<open>author_load.rs\<close>, \<^verbatim>\<open>md_extract.rs\<close>): the tool \<^verbatim>\<open>workflow_execute\<close> from its arguments to its
    reply, composing all of the above.
  \<^item> \<open>Turn_Layout\<close> (\<^verbatim>\<open>cm_turn_layout\<close>): the reducer that folds the events of a chat stream into a turn, whatever their
    order of arrival, and the projections shown to the user.
  \<^item> \<open>Message\<close> (\<^verbatim>\<open>cm_types/message.rs\<close>, \<^verbatim>\<open>message_constructors.rs\<close>, \<^verbatim>\<open>cm_display_rules\<close>): chat messages, the marks of injected ones, the
    repair of tool arguments; \<open>Vendor_Messages\<close> (\<^verbatim>\<open>cm_llm/vendor_messages.rs\<close>): the body of a request from a conversation.
  \<^item> \<open>Tool_Result\<close> (\<^verbatim>\<open>cm_tools/tool_result\<close>): what an output of a tool means, its envelope in the conversation, error
    categories, compression.  \<open>Context_Pipeline\<close> (\<^verbatim>\<open>cm_agent/message_pipeline\<close>): turn groups, trimming, orphans and the pipeline that cuts the
    conversation before a model call.

  \<^item> \<open>Turn_Budget\<close> (\<^verbatim>\<open>cm_agent/turn_budget.rs\<close>, \<^verbatim>\<open>context_budget_pressure.rs\<close>, \<^verbatim>\<open>llm/mod.rs\<close>): the counters of a turn that several
    tasks share, the refusal of model calls, degradation, and the pressure on the context pipeline.
  \<^item> \<open>Plan_Artifact\<close> (\<^verbatim>\<open>cm_agent/plan_artifact\<close>, \<^verbatim>\<open>cm_agent/acceptance/executor_defaults.rs\<close>): plans in an answer of the model, found
    in fences, validated, bound to workflow nodes and normalised.
  \<^item> \<open>Workflow_Reflection\<close> (\<^verbatim>\<open>workflow_reflection_controller.rs\<close>): sessions of plan and revision around the workflow tool.
  \<^item> \<open>Plan_Gate\<close> (\<^verbatim>\<open>plan_rewrite.rs\<close>, \<^verbatim>\<open>per_coord\<close>, \<^verbatim>\<open>per_plan_semantic_check.rs\<close>, \<^verbatim>\<open>reflect_impl.rs\<close>): the coordinator of a turn, the gate that
    a final answer has to pass, the requests to rewrite a plan and the side check by a second model call, which is in the
    environment record.

  \<^item> \<open>Turn_Completion\<close> (\<^verbatim>\<open>agent/agent_turn/policy\<close>): the evidence that the user's goal is reached, redundant tool calls, and the feedback
    injected when an answer is cut, idle or missing.
  \<^item> \<open>Context_Window\<close> (\<^verbatim>\<open>agent/context_compaction.rs\<close>, \<^verbatim>\<open>context_window.rs\<close>): token estimates, compaction to the window, summaries by a model, and
    the preparation of a call; the tokenizer and the summarising model are in the environment record.
  \<^item> \<open>Turn_Error\<close> (\<^verbatim>\<open>agent/agent_turn/host/errors.rs\<close>, \<^verbatim>\<open>cm_internal/agent_errors.rs\<close>): the errors of a turn as the job queue, the event stream, the
    JSON reply and the log see them.
  \<^item> \<open>Turn_Start\<close> (\<^verbatim>\<open>host/params.rs\<close>, \<^verbatim>\<open>plan_reflect/intent/at_turn_start.rs\<close>, \<^verbatim>\<open>meta_dialogue.rs\<close>): the state of the loop and the constraints of a turn.
  \<^item> \<open>Outer_Loop\<close> (\<^verbatim>\<open>turn_loop/outer_loop.rs\<close>, \<^verbatim>\<open>outer_loop_reflect.rs\<close>, \<^verbatim>\<open>policy/outer_loop_driver.rs\<close>): the loop itself, which composes the
    budget, the context window, the tool gate, the plan gate and the completion rules; it terminates for every behaviour of the model and the tools.

  Interfaces are locales: the policy engine (\<open>Permission\<close>), state machines driven by events with an invariant (\<open>Prelude\<close>), Kahn's graphs (\<open>Workflow_Dag\<close>), the runner of a node (\<open>Workflow_Schedule\<close>), and
  the flags of evidence (\<open>Turn_Completion\<close>); each is interpreted on the definitions of the model.

  Not modelled: the single tools and their dispatch (processes and files), the stores (SQLite), the HTTP and terminal front ends, the network client of
  the model services and its parser of event streams, memories and embeddings, the MCP client.  They are input and output around the decisions modelled here.

  Fuel appears in Kahn's loops (the number of nodes plus one; the theorems show that it never runs
  out) and in the removal of a repeated label (the length of the text).  All other loops have a termination proof.
\<close>

end
